(* ===== verification/Pandora_Prelude.thy ===== *)
theory Pandora_Prelude
  imports Main "HOL-Library.Word" "HOL-Library.Sublist"
begin

text \<open>
  What every theory of the development shares: the fact collections, the types that stand
  for the machine integers of the 32-bit Windows build, the results of C++ code that may
  throw, and the operations of \<^verbatim>\<open>std::string\<close> and of the C library's \<^verbatim>\<open>sscanf\<close> and
  \<^verbatim>\<open>atoi\<close> that the agent's sources call.  The operations are total functions; where the
  library throws or where the C++ standard leaves the behaviour open the result is a value
  of \<open>cxx_error\<close>.
\<close>

section \<open>Fact collections and types\<close>

named_theorems str_simps \<open>equations of the string operations\<close>
named_theorems wire_simps \<open>equations of the byte-level encoders and decoders\<close>
named_theorems sess_simps \<open>frame facts of the session operations\<close>

type_synonym u8 = "8 word"
type_synonym u32 = "32 word"
type_synonym u64 = "64 word"
type_synonym bytes = "u8 list"

datatype cxx_error =
    Invalid_Conversion
  | Out_Of_Range
  | Undefined_Behaviour

type_synonym 'a result = "cxx_error + 'a"

abbreviation NUL :: char where "NUL \<equiv> CHR 0x00"
abbreviation TAB :: char where "TAB \<equiv> CHR 0x09"
abbreviation LF :: char where "LF \<equiv> CHR 0x0A"
abbreviation CR :: char where "CR \<equiv> CHR 0x0D"
abbreviation SPC :: char where "SPC \<equiv> CHR 0x20"
abbreviation DQUOTE :: char where "DQUOTE \<equiv> CHR 0x22"

section \<open>Lists\<close>

text \<open>Position of the first element that satisfies a predicate.\<close>

fun find_index :: "('a \<Rightarrow> bool) \<Rightarrow> 'a list \<Rightarrow> nat option" where
  "find_index P [] = None"
| "find_index P (x # xs) = (if P x then Some 0 else map_option Suc (find_index P xs))"

lemma find_index_None_iff [simp]: "find_index P xs = None \<longleftrightarrow> (\<forall>x\<in>set xs. \<not> P x)"
  by (induction xs) auto

lemma find_index_takeWhile:
  "find_index P xs = (if \<exists>x\<in>set xs. P x then Some (length (takeWhile (\<lambda>x. \<not> P x) xs)) else None)"
  by (induction xs) auto

lemma find_index_SomeD:
  assumes "find_index P xs = Some i"
  shows "i < length xs" and "P (xs ! i)" and "\<forall>j<i. \<not> P (xs ! j)"
proof -
  have "i < length xs \<and> P (xs ! i) \<and> (\<forall>j<i. \<not> P (xs ! j))"
    using assms
  proof (induction xs arbitrary: i)
    case Nil
    then show ?case by simp
  next
    case (Cons x xs)
    show ?case
    proof (cases "P x")
      case True
      with Cons.prems show ?thesis by simp
    next
      case False
      with Cons.prems obtain k where "find_index P xs = Some k" and "i = Suc k"
        by auto
      with Cons.IH[of k] False show ?thesis
        by (auto simp: less_Suc_eq_0_disj)
    qed
  qed
  then show "i < length xs" and "P (xs ! i)" and "\<forall>j<i. \<not> P (xs ! j)"
    by auto
qed

lemma length_dropWhile_less: "xs \<noteq> [] \<Longrightarrow> P (hd xs) \<Longrightarrow> length (dropWhile P xs) < length xs"
  by (cases xs) (auto simp: less_Suc_eq_le length_dropWhile_le)

lemma dropWhile_hd_id: "\<not> P (hd xs) \<Longrightarrow> dropWhile P xs = xs"
  by (cases xs) auto

lemma dropWhile_all [simp]: "\<forall>x\<in>set xs. P x \<Longrightarrow> dropWhile P xs = []"
  by (simp add: dropWhile_eq_Nil_conv)

lemma takeWhile_all [simp]: "\<forall>x\<in>set xs. P x \<Longrightarrow> takeWhile P xs = xs"
  by (simp add: takeWhile_eq_all_conv)

lemma drop_length_takeWhile: "drop (length (takeWhile P xs)) xs = dropWhile P xs"
  by (simp add: dropWhile_eq_drop)

lemma take_length_takeWhile: "take (length (takeWhile P xs)) xs = takeWhile P xs"
  by (metis takeWhile_eq_take)

section \<open>The operations of std::string\<close>

text \<open>\<^verbatim>\<open>s.find (pat)\<close>; \<^verbatim>\<open>npos\<close> is \<open>None\<close>.\<close>

fun str_find :: "string \<Rightarrow> string \<Rightarrow> nat option" where
  "str_find [] pat = (if pat = [] then Some 0 else None)"
| "str_find (c # s) pat =
     (if prefix pat (c # s) then Some 0 else map_option Suc (str_find s pat))"

text \<open>\<^verbatim>\<open>s.find (pat, pos)\<close>.\<close>

definition str_find_from :: "string \<Rightarrow> string \<Rightarrow> nat \<Rightarrow> nat option" where
  "str_find_from s pat pos =
     (if length s < pos then None else map_option (\<lambda>k. pos + k) (str_find (drop pos s) pat))"

text \<open>\<^verbatim>\<open>s.substr (pos)\<close> throws \<^verbatim>\<open>std::out_of_range\<close> beyond the end of the string.\<close>

definition str_substr :: "string \<Rightarrow> nat \<Rightarrow> string result" where
  "str_substr s pos = (if length s < pos then Inl Out_Of_Range else Inr (drop pos s))"

text \<open>\<^verbatim>\<open>s.replace (pos, n, rep)\<close> at a position inside the string.\<close>

definition str_replace_at :: "string \<Rightarrow> nat \<Rightarrow> nat \<Rightarrow> string \<Rightarrow> string" where
  "str_replace_at s pos n rep = take pos s @ rep @ drop (pos + n) s"

definition find_first_not_of :: "string \<Rightarrow> string \<Rightarrow> nat option" where
  "find_first_not_of s delims = find_index (\<lambda>c. c \<notin> set delims) s"

definition find_last_not_of :: "string \<Rightarrow> string \<Rightarrow> nat option" where
  "find_last_not_of s delims =
     map_option (\<lambda>k. length s - 1 - k) (find_index (\<lambda>c. c \<notin> set delims) (rev s))"

text \<open>
  \<^verbatim>\<open>s[0]\<close> of a string that may be empty: \<^verbatim>\<open>operator[]\<close> at \<^verbatim>\<open>size()\<close> is the terminating NUL.
\<close>

definition str_head :: "string \<Rightarrow> char" where
  "str_head s = (case s of [] \<Rightarrow> NUL | c # _ \<Rightarrow> c)"

text \<open>
  The lines a loop \<^verbatim>\<open>while (!f.eof ()) { getline (f, buffer); ... }\<close> reads from a file: the
  text split at every newline, with a last, possibly empty, piece after the last newline.
\<close>

fun getlines :: "string \<Rightarrow> string list" where
  "getlines [] = [[]]"
| "getlines (c # s) =
     (if c = LF then [] # getlines s
      else (case getlines s of [] \<Rightarrow> [[c]] | l # ls \<Rightarrow> (c # l) # ls))"

lemma getlines_not_Nil [simp]: "getlines s \<noteq> []"
  by (induction s) (auto split: list.splits)

lemma getlines_no_newline: "l \<in> set (getlines s) \<Longrightarrow> LF \<notin> set l"
  by (induction s arbitrary: l) (fastforce split: list.splits if_splits)+

lemma getlines_append:
  assumes "LF \<notin> set l"
  shows "getlines (l @ LF # s) = l # getlines s"
  using assms by (induction l) auto

lemma getlines_single: "LF \<notin> set l \<Longrightarrow> getlines l = [l]"
  by (induction l) auto

subsection \<open>Facts about searching\<close>

lemma str_find_None_iff: "str_find s pat = None \<longleftrightarrow> \<not> sublist pat s"
proof (induction s)
  case Nil
  then show ?case by simp
next
  case (Cons c s)
  then show ?case by (auto simp: sublist_Cons_right)
qed

lemma str_find_SomeD:
  assumes "str_find s pat = Some i"
  shows "i \<le> length s" and "prefix pat (drop i s)"
proof -
  have "i \<le> length s \<and> prefix pat (drop i s)"
    using assms
  proof (induction s arbitrary: i)
    case Nil
    then show ?case by (auto split: if_splits)
  next
    case (Cons c s)
    then show ?case by (fastforce split: if_splits)
  qed
  then show "i \<le> length s" and "prefix pat (drop i s)"
    by auto
qed

lemma str_find_split:
  assumes "str_find s pat = Some i"
  shows "s = take i s @ pat @ drop (i + length pat) s"
proof -
  from str_find_SomeD(2)[OF assms] obtain t where t: "drop i s = pat @ t"
    by (auto simp: prefix_def)
  then have "drop (length pat) (drop i s) = t"
    by simp
  then have "drop (i + length pat) s = t"
    by (simp add: add.commute)
  with t show ?thesis
    by (metis append_take_drop_id)
qed

lemma str_find_length:
  assumes "str_find s pat = Some i"
  shows "i + length pat \<le> length s"
proof -
  from str_find_SomeD[OF assms] have "length pat \<le> length (drop i s)" and "i \<le> length s"
    by (auto dest: prefix_length_le)
  then show ?thesis by simp
qed

lemma str_find_empty [simp]: "str_find s [] = Some 0"
  by (cases s) auto

lemma str_find_char: "str_find s [c] = find_index (\<lambda>x. x = c) s"
  by (induction s) auto

lemma not_sublist_drop: "\<not> sublist pat s \<Longrightarrow> \<not> sublist pat (drop n s)"
  by (meson sublist_drop sublist_order.order_trans)

section \<open>Scanning numbers: sscanf and atoi\<close>

text \<open>Characters that \<^verbatim>\<open>isspace\<close> accepts in the C locale.\<close>

definition is_space :: "char \<Rightarrow> bool" where
  "is_space c \<longleftrightarrow> c \<in> {SPC, TAB, LF, CHR 0x0B, CHR 0x0C, CR}"

definition digit_val :: "char \<Rightarrow> int" where
  "digit_val c = int (of_char c) - 48"

definition is_digit :: "char \<Rightarrow> bool" where
  "is_digit c \<longleftrightarrow> 48 \<le> (of_char c :: nat) \<and> (of_char c :: nat) \<le> 57"

definition digits_val :: "string \<Rightarrow> int" where
  "digits_val ds = foldl (\<lambda>a c. 10 * a + digit_val c) 0 ds"

text \<open>
  An optional sign and a run of decimal digits after optional white space: the subject
  sequence of \<^verbatim>\<open>strtol\<close> in base 10.  \<open>None\<close> when there is no digit.
\<close>

definition scan_decimal :: "string \<Rightarrow> int option" where
  "scan_decimal s =
     (let t = dropWhile is_space s;
          neg = (t \<noteq> [] \<and> hd t = CHR ''-'');
          u = (if t \<noteq> [] \<and> (hd t = CHR ''-'' \<or> hd t = CHR ''+'') then tl t else t);
          ds = takeWhile is_digit u
      in if ds = [] then None else Some (if neg then - digits_val ds else digits_val ds))"

text \<open>
  \<^verbatim>\<open>sscanf (s, "%d", &x)\<close>: the input-failure result \<^verbatim>\<open>EOF\<close> when the input ends before the
  first conversion, 0 on a matching failure, 1 with the number otherwise.  A C string ends at
  its first NUL.
\<close>

datatype 'a scan_outcome = Scan_EOF | Scan_Mismatch | Scan_Value 'a

definition c_str :: "string \<Rightarrow> string" where
  "c_str s = takeWhile (\<lambda>c. c \<noteq> NUL) s"

definition sscanf_d :: "string \<Rightarrow> int scan_outcome" where
  "sscanf_d s =
     (if dropWhile is_space (c_str s) = [] then Scan_EOF
      else case scan_decimal (c_str s) of None \<Rightarrow> Scan_Mismatch | Some n \<Rightarrow> Scan_Value n)"

definition fits_s32 :: "int \<Rightarrow> bool" where
  "fits_s32 n \<longleftrightarrow> - (2 ^ 31) \<le> n \<and> n < 2 ^ 31"

definition fits_s64 :: "int \<Rightarrow> bool" where
  "fits_s64 n \<longleftrightarrow> - (2 ^ 63) \<le> n \<and> n < 2 ^ 63"

text \<open>Signed 32-bit arithmetic, which wraps around in the agent's build.\<close>

definition s32 :: "int \<Rightarrow> int" where
  "s32 n = (n + 2 ^ 31) mod 2 ^ 32 - 2 ^ 31"

lemma s32_id: "fits_s32 n \<Longrightarrow> s32 n = n"
  by (simp add: s32_def fits_s32_def)

text \<open>Division of C: truncated towards zero.\<close>

definition cdiv :: "int \<Rightarrow> int \<Rightarrow> int" where
  "cdiv a b = sgn a * sgn b * (\<bar>a\<bar> div \<bar>b\<bar>)"

lemma cdiv_nonneg: "0 \<le> a \<Longrightarrow> 0 < b \<Longrightarrow> cdiv a b = a div b"
  by (cases "a = 0") (simp_all add: cdiv_def)

text \<open>
  \<^verbatim>\<open>atoi\<close>: 0 without a number; a value that does not fit an \<^verbatim>\<open>int\<close> is undefined behaviour.
\<close>

definition atoi :: "string \<Rightarrow> int result" where
  "atoi s =
     (case scan_decimal (c_str s) of None \<Rightarrow> Inr 0
      | Some n \<Rightarrow> if fits_s32 n then Inr n else Inl Undefined_Behaviour)"

text \<open>The decimal digits \<^verbatim>\<open>operator<<\<close> and \<^verbatim>\<open>printf\<close> write.\<close>

definition digit_char :: "nat \<Rightarrow> char" where
  "digit_char d = char_of (48 + d)"

fun nat_digits :: "nat \<Rightarrow> string" where
  "nat_digits n = (if n < 10 then [digit_char n] else nat_digits (n div 10) @ [digit_char (n mod 10)])"

declare nat_digits.simps [simp del]

definition int_digits :: "int \<Rightarrow> string" where
  "int_digits i = (if i < 0 then CHR ''-'' # nat_digits (nat (- i)) else nat_digits (nat i))"

lemma of_char_digit_char: "d < 10 \<Longrightarrow> of_char (digit_char d) = 48 + d"
  by (simp add: digit_char_def)

lemma is_digit_digit_char: "d < 10 \<Longrightarrow> is_digit (digit_char d)"
  by (simp add: is_digit_def of_char_digit_char)

lemma digit_val_digit_char: "d < 10 \<Longrightarrow> digit_val (digit_char d) = int d"
  by (simp add: digit_val_def of_char_digit_char)

lemma nat_digits_are_digits: "\<forall>c\<in>set (nat_digits n). is_digit c"
proof (induction n rule: nat_digits.induct)
  case (1 n)
  show ?case
  proof (cases "n < 10")
    case True
    then show ?thesis by (subst nat_digits.simps) (simp add: is_digit_digit_char)
  next
    case False
    with "1.IH" show ?thesis
      by (subst nat_digits.simps) (auto simp: is_digit_digit_char)
  qed
qed

lemma nat_digits_not_Nil [simp]: "nat_digits n \<noteq> []"
  by (subst nat_digits.simps) simp

lemma digits_val_snoc: "digits_val (ds @ [c]) = 10 * digits_val ds + digit_val c"
  by (simp add: digits_val_def)

lemma digits_val_nat_digits: "digits_val (nat_digits n) = int n"
proof (induction n rule: nat_digits.induct)
  case (1 n)
  show ?case
  proof (cases "n < 10")
    case True
    then show ?thesis
      by (subst nat_digits.simps) (simp add: digits_val_def digit_val_digit_char)
  next
    case False
    with "1.IH" have "digits_val (nat_digits (n div 10)) = int (n div 10)" by simp
    moreover have "10 * int (n div 10) + int (n mod 10) = int n" by arith
    ultimately show ?thesis
      using False by (subst nat_digits.simps) (simp add: digits_val_snoc digit_val_digit_char)
  qed
qed

lemma is_digit_not_space: "is_digit c \<Longrightarrow> \<not> is_space c"
  by (auto simp: is_digit_def is_space_def)

lemma is_digit_not_sign: "is_digit c \<Longrightarrow> c \<noteq> CHR ''-'' \<and> c \<noteq> CHR ''+'' \<and> c \<noteq> NUL"
  by (auto simp: is_digit_def)

lemma scan_decimal_digits:
  assumes "ds \<noteq> []" and "\<forall>c\<in>set ds. is_digit c"
  shows "scan_decimal ds = Some (digits_val ds)"
    and "scan_decimal (CHR ''-'' # ds) = Some (- digits_val ds)"
proof -
  obtain c cs where ds: "ds = c # cs" and c: "is_digit c"
    using assms by (cases ds) auto
  have tw: "takeWhile is_digit ds = ds" using assms(2) by simp
  have dw: "dropWhile is_space ds = ds" using ds is_digit_not_space[OF c] by simp
  have hd: "hd ds \<noteq> CHR ''-''" "hd ds \<noteq> CHR ''+''" using ds is_digit_not_sign[OF c] by auto
  show "scan_decimal ds = Some (digits_val ds)"
    by (simp add: scan_decimal_def dw tw hd assms(1))
  have "\<not> is_space (CHR ''-'')" by (simp add: is_space_def)
  then show "scan_decimal (CHR ''-'' # ds) = Some (- digits_val ds)"
    by (simp add: scan_decimal_def tw assms(1))
qed

lemma scan_decimal_int_digits: "scan_decimal (int_digits i) = Some i"
  by (simp add: int_digits_def scan_decimal_digits nat_digits_are_digits digits_val_nat_digits)

lemma int_digits_no_NUL: "NUL \<notin> set (int_digits i)"
proof -
  have "NUL \<notin> set (nat_digits n)" for n
    using nat_digits_are_digits[of n] is_digit_not_sign by blast
  then show ?thesis by (simp add: int_digits_def)
qed

lemma c_str_id: "NUL \<notin> set s \<Longrightarrow> c_str s = s"
  by (auto simp: c_str_def takeWhile_eq_all_conv)

lemma int_digits_not_blank: "\<exists>c\<in>set (int_digits i). \<not> is_space c"
proof (cases "i < 0")
  case True
  then show ?thesis by (auto simp: int_digits_def is_space_def)
next
  case False
  have "hd (nat_digits (nat i)) \<in> set (nat_digits (nat i))" by simp
  with nat_digits_are_digits have "\<not> is_space (hd (nat_digits (nat i)))"
    using is_digit_not_space by blast
  with False show ?thesis
    by (auto simp: int_digits_def intro: bexI[of _ "hd (nat_digits (nat i))"])
qed

end
