(* ===== verification/Pandora_Strutils.thy ===== *)
theory Pandora_Strutils
  imports Pandora_Prelude
begin

text \<open>
  The string utilities of \<^verbatim>\<open>src/pandora_strutils.cc\<close>: trimming, conversions between numbers
  and text, replacement and tokenisation.  Loops over string positions keep the positions of
  the source; each is then shown equal to a reference definition on lists.

  A string is shorter than \<open>2 ^ 31\<close> characters (the build is for 32-bit Windows), so the
  \<^verbatim>\<open>int\<close> positions of the source are natural numbers and \<^verbatim>\<open>npos\<close> is \<open>None\<close>.  A variable the
  source leaves uninitialised is an argument \<open>junk\<close> of the model.
\<close>

section \<open>Operations\<close>

subsection \<open>trim\<close>

definition trim_delims :: string where
  "trim_delims = [SPC, TAB, CR, LF]"

definition trim :: "string \<Rightarrow> string" where
  "trim str =
     (let result = (case find_last_not_of str trim_delims of
                      Some index \<Rightarrow> take (Suc index) str
                    | None \<Rightarrow> str)
      in case find_first_not_of result trim_delims of
           Some index \<Rightarrow> drop index result
         | None \<Rightarrow> [])"

subsection \<open>Numbers to text\<close>

definition longtostr :: "int \<Rightarrow> string" where
  "longtostr i = int_digits i"

definition inttostr :: "int \<Rightarrow> string" where
  "inttostr i = longtostr i"

definition hex_char :: "nat \<Rightarrow> char" where
  "hex_char d = (if d < 10 then char_of (48 + d) else char_of (87 + d))"

fun hex_digits :: "nat \<Rightarrow> string" where
  "hex_digits n = (if n < 16 then [hex_char n] else hex_digits (n div 16) @ [hex_char (n mod 16)])"

declare hex_digits.simps [simp del]

text \<open>A negative \<^verbatim>\<open>long\<close> is printed in hexadecimal as its 32-bit two's complement.\<close>

definition longtohex :: "int \<Rightarrow> string" where
  "longtohex i = hex_digits (unat (word_of_int i :: u32))"

subsection \<open>Text to numbers\<close>

text \<open>
  The guard is \<^verbatim>\<open>! sscanf (...)\<close>: only a return value of 0 throws.  At the end of input
  \<^verbatim>\<open>sscanf\<close> returns \<^verbatim>\<open>EOF\<close>, which is not 0, and \<^verbatim>\<open>result\<close> is returned uninitialised.
\<close>

definition strtoint :: "int \<Rightarrow> string \<Rightarrow> int result" where
  "strtoint junk str =
     (case sscanf_d str of
        Scan_Mismatch \<Rightarrow> Inl Invalid_Conversion
      | Scan_EOF \<Rightarrow> Inr junk
      | Scan_Value n \<Rightarrow> if fits_s32 n then Inr n else Inl Undefined_Behaviour)"

text \<open>
  Reading a \<^verbatim>\<open>double\<close> is left to the C library: \<open>scan_le\<close> stands for \<^verbatim>\<open>sscanf (s, "%le", ...)\<close>.
\<close>

definition strtodouble :: "(string \<Rightarrow> 'd scan_outcome) \<Rightarrow> 'd \<Rightarrow> string \<Rightarrow> 'd result" where
  "strtodouble scan_le junk str =
     (case scan_le str of
        Scan_Mismatch \<Rightarrow> Inl Invalid_Conversion
      | Scan_EOF \<Rightarrow> Inr junk
      | Scan_Value d \<Rightarrow> Inr d)"

text \<open>\<^verbatim>\<open>%I64d\<close> scans a signed number into the unsigned 64-bit result.\<close>

definition strtoulong :: "u64 \<Rightarrow> string \<Rightarrow> u64 result" where
  "strtoulong junk str =
     (case sscanf_d str of
        Scan_Mismatch \<Rightarrow> Inl Invalid_Conversion
      | Scan_EOF \<Rightarrow> Inr junk
      | Scan_Value n \<Rightarrow> if fits_s64 n then Inr (word_of_int n) else Inl Undefined_Behaviour)"

subsection \<open>strreplace\<close>

text \<open>The \<^verbatim>\<open>do ... while (j >= 0)\<close> loop; \<open>None\<close> when it does not end.\<close>

partial_function (option) strreplace_loop ::
    "string \<Rightarrow> nat \<Rightarrow> string \<Rightarrow> string \<Rightarrow> string option" where
  "strreplace_loop str i pattern rep =
     (let str' = str_replace_at str i (length pattern) rep;
          i' = i + length rep;
          rest = drop i' str'
      in case str_find rest pattern of
           None \<Rightarrow> Some str'
         | Some j \<Rightarrow> strreplace_loop str' (i' + j) pattern rep)"

declare strreplace_loop.simps [code]

definition strreplace :: "string \<Rightarrow> string \<Rightarrow> string \<Rightarrow> string option" where
  "strreplace str pattern rep =
     (case str_find str pattern of
        None \<Rightarrow> Some str
      | Some i \<Rightarrow> strreplace_loop str i pattern rep)"

subsection \<open>stringtok\<close>

text \<open>\<^verbatim>\<open>strchr\<close> also finds the terminating NUL of the separator string.\<close>

definition isseparator :: "char \<Rightarrow> string \<Rightarrow> bool" where
  "isseparator c wstr \<longleftrightarrow> c = NUL \<or> c \<in> set wstr"

function skip_separators :: "string \<Rightarrow> string \<Rightarrow> nat \<Rightarrow> nat" where
  "skip_separators s separators i =
     (if i < length s \<and> isseparator (s ! i) separators
      then skip_separators s separators (Suc i) else i)"
  by pat_completeness auto
termination by (relation "measure (\<lambda>(s, w, i). length s - i)") auto

function find_word_end :: "string \<Rightarrow> string \<Rightarrow> nat \<Rightarrow> nat" where
  "find_word_end s separators j =
     (if j < length s \<and> \<not> isseparator (s ! j) separators
      then find_word_end s separators (Suc j) else j)"
  by pat_completeness auto
termination by (relation "measure (\<lambda>(s, w, j). length s - j)") auto

declare skip_separators.simps [simp del] find_word_end.simps [simp del]

lemma skip_separators_ge: "i \<le> skip_separators s w i"
proof (induction s w i rule: skip_separators.induct)
  case (1 s w i)
  then show ?case by (subst skip_separators.simps) auto
qed

lemma find_word_end_ge: "j \<le> find_word_end s w j"
proof (induction s w j rule: find_word_end.induct)
  case (1 s w j)
  then show ?case by (subst find_word_end.simps) auto
qed

function stringtok_loop :: "string list \<Rightarrow> string \<Rightarrow> string \<Rightarrow> nat \<Rightarrow> string list" where
  "stringtok_loop l s separators i =
     (if i < length s then
        (let i1 = skip_separators s separators i
         in if i1 = length s then l
            else let j = find_word_end s separators (i1 + 1)
                 in stringtok_loop (l @ [take (j - i1) (drop i1 s)]) s separators (j + 1))
      else l)"
  by pat_completeness auto
termination
proof (relation "measure (\<lambda>(l, s, w, i). length s - i)", goal_cases)
  case 1
  then show ?case by simp
next
  case (2 l s w i i1 j)
  have "i \<le> i1" and "i1 + 1 \<le> j"
    using skip_separators_ge find_word_end_ge 2 by auto
  with 2 show ?case by simp
qed

declare stringtok_loop.simps [simp del]

definition stringtok :: "string list \<Rightarrow> string \<Rightarrow> string \<Rightarrow> string list" where
  "stringtok l s separators = stringtok_loop l s separators 0"

section \<open>Reference definitions\<close>

abbreviation is_blank :: "char \<Rightarrow> bool" where
  "is_blank c \<equiv> c \<in> set trim_delims"

definition strip :: "('a \<Rightarrow> bool) \<Rightarrow> 'a list \<Rightarrow> 'a list" where
  "strip P xs = rev (dropWhile P (rev (dropWhile P xs)))"

text \<open>Left-to-right replacement of the non-overlapping occurrences of a pattern.\<close>

function replace_all :: "string \<Rightarrow> string \<Rightarrow> string \<Rightarrow> string" where
  "replace_all pat rep s =
     (case s of [] \<Rightarrow> []
      | c # t \<Rightarrow>
          if pat \<noteq> [] \<and> prefix pat s then rep @ replace_all pat rep (drop (length pat) s)
          else c # replace_all pat rep t)"
  by pat_completeness auto
termination
  by (relation "measure (\<lambda>(p, r, s). length s)") (auto simp: diff_less_Suc)

declare replace_all.simps [simp del]

text \<open>The maximal runs of characters that are not separators.\<close>

function tokens :: "('a \<Rightarrow> bool) \<Rightarrow> 'a list \<Rightarrow> 'a list list" where
  "tokens P s =
     (let t = dropWhile P s
      in if t = [] then []
         else takeWhile (\<lambda>c. \<not> P c) t # tokens P (dropWhile (\<lambda>c. \<not> P c) t))"
  by pat_completeness auto
termination
proof (relation "measure (\<lambda>(P, s). length s)", goal_cases)
  case 1
  then show ?case by simp
next
  case (2 P s t)
  then have "\<not> P (hd t)" by (metis hd_dropWhile)
  then have "length (dropWhile (\<lambda>c. \<not> P c) t) < length t"
    using 2 by (intro length_dropWhile_less) auto
  also have "length t \<le> length s"
    using 2 by (simp add: length_dropWhile_le)
  finally show ?case by simp
qed

declare tokens.simps [simp del]

section \<open>Correctness\<close>

subsection \<open>trim\<close>

lemma find_last_not_of_take:
  "(case find_last_not_of s d of Some i \<Rightarrow> take (Suc i) s | None \<Rightarrow> s) =
     (if \<forall>c\<in>set s. c \<in> set d then s else rev (dropWhile (\<lambda>c. c \<in> set d) (rev s)))"
proof (cases "\<forall>c\<in>set s. c \<in> set d")
  case True
  then have n: "find_index (\<lambda>c. c \<notin> set d) (rev s) = None" by simp
  show ?thesis unfolding find_last_not_of_def n using True by simp
next
  case False
  let ?k = "length (takeWhile (\<lambda>c. c \<in> set d) (rev s))"
  have "find_index (\<lambda>c. c \<notin> set d) (rev s) = Some ?k"
    using False by (auto simp: find_index_takeWhile)
  moreover from find_index_SomeD(1)[OF this] have "?k < length s" by simp
  then have "Suc (length s - 1 - ?k) = length s - ?k" by simp
  moreover have "dropWhile (\<lambda>c. c \<in> set d) (rev s) = rev (take (length s - ?k) s)"
    by (simp add: drop_rev flip: drop_length_takeWhile)
  ultimately show ?thesis
    using False by (auto simp: find_last_not_of_def)
qed

lemma find_first_not_of_drop:
  "(case find_first_not_of s d of Some i \<Rightarrow> drop i s | None \<Rightarrow> []) = dropWhile (\<lambda>c. c \<in> set d) s"
  by (auto simp: find_first_not_of_def find_index_takeWhile drop_length_takeWhile)

lemma dropWhile_rev_swap:
  "dropWhile P (rev (dropWhile P (rev xs))) = rev (dropWhile P (rev (dropWhile P xs)))"
proof (induction xs)
  case Nil
  then show ?case by simp
next
  case (Cons x xs)
  show ?case
  proof (cases "\<forall>y\<in>set xs. P y")
    case True
    then show ?thesis by (auto simp: dropWhile_append)
  next
    case False
    then have "\<exists>y\<in>set (rev xs). \<not> P y" by auto
    then have "dropWhile P (rev xs @ [x]) = dropWhile P (rev xs) @ [x]"
      by (auto simp: dropWhile_append)
    then show ?thesis using Cons.IH False
      by (auto simp: dropWhile_append)
  qed
qed

lemma trim_eq_strip: "trim s = strip is_blank s"
proof (cases "\<forall>c\<in>set s. is_blank c")
  case True
  then show ?thesis
    by (simp add: trim_def Let_def find_last_not_of_take find_first_not_of_drop strip_def)
next
  case False
  then show ?thesis
    by (simp add: trim_def Let_def find_last_not_of_take find_first_not_of_drop strip_def
        dropWhile_rev_swap)
qed

lemma strip_decomp:
  "\<exists>a b. s = a @ strip P s @ b \<and> (\<forall>c\<in>set a. P c) \<and> (\<forall>c\<in>set b. P c)"
proof -
  let ?t = "dropWhile P s"
  have "s = takeWhile P s @ ?t" by simp
  moreover have "?t = strip P s @ rev (takeWhile P (rev ?t))"
    by (metis rev_append rev_rev_ident strip_def takeWhile_dropWhile_id)
  ultimately have "s = takeWhile P s @ strip P s @ rev (takeWhile P (rev ?t))" by simp
  then show ?thesis
    by (metis set_rev set_takeWhileD)
qed

lemma strip_ends:
  assumes "strip P s \<noteq> []"
  shows "\<not> P (hd (strip P s))" and "\<not> P (last (strip P s))"
proof -
  let ?u = "dropWhile P (rev (dropWhile P s))"
  have u: "?u \<noteq> []" using assms by (simp add: strip_def)
  then have "\<not> P (hd ?u)" by (rule hd_dropWhile)
  with u show "\<not> P (last (strip P s))" by (simp add: strip_def last_rev)
  let ?v = "dropWhile P (rev (dropWhile P (rev s)))"
  have v: "strip P s = ?v" by (simp add: strip_def dropWhile_rev_swap)
  with assms have "\<not> P (hd ?v)" by (metis hd_dropWhile)
  with v show "\<not> P (hd (strip P s))" by simp
qed

lemma strip_id:
  assumes "s = [] \<or> (\<not> P (hd s) \<and> \<not> P (last s))"
  shows "strip P s = s"
proof (cases "s = []")
  case False
  with assms have "dropWhile P s = s" and "dropWhile P (rev s) = rev s"
    by (auto simp: hd_rev dropWhile_hd_id)
  then show ?thesis by (simp add: strip_def)
qed (simp add: strip_def)

lemma strip_sublist: "sublist (strip P s) s"
  using strip_decomp[of s P] by (metis sublist_appendI)

lemma trim_id: "s = [] \<or> (\<not> is_blank (hd s) \<and> \<not> is_blank (last s)) \<Longrightarrow> trim s = s"
  by (simp add: trim_eq_strip strip_id)

lemma trim_idem [simp]: "trim (trim s) = trim s"
  by (metis strip_ends strip_id trim_eq_strip)

lemma trim_sublist: "sublist (trim s) s"
  by (simp add: trim_eq_strip strip_sublist)

subsection \<open>strreplace\<close>

lemma replace_all_Nil [simp]: "replace_all pat rep [] = []"
  by (subst replace_all.simps) simp

lemma replace_all_hit:
  assumes "pat \<noteq> []"
  shows "replace_all pat rep (pat @ s) = rep @ replace_all pat rep s"
proof -
  from assms obtain c t where ct: "pat @ s = c # t" by (cases pat) auto
  then have "prefix pat (c # t)" and "drop (length pat) (c # t) = s"
    by (metis prefixI, metis append_eq_conv_conj)
  with assms show ?thesis unfolding ct by (subst replace_all.simps) simp
qed

lemma replace_all_skip:
  "\<not> prefix pat (c # s) \<Longrightarrow> replace_all pat rep (c # s) = c # replace_all pat rep s"
  by (subst replace_all.simps) simp

lemma replace_all_not_found: "str_find s pat = None \<Longrightarrow> replace_all pat rep s = s"
  by (induction s) (auto simp: replace_all_skip split: if_splits)

lemma replace_all_found:
  assumes "pat \<noteq> []" and "str_find s pat = Some j"
  shows "replace_all pat rep s = take j s @ rep @ replace_all pat rep (drop (j + length pat) s)"
  using assms(2)
proof (induction s arbitrary: j)
  case Nil
  with assms(1) show ?case by simp
next
  case (Cons c s)
  show ?case
  proof (cases "prefix pat (c # s)")
    case True
    then obtain t where t: "c # s = pat @ t" by (auto simp: prefix_def)
    with assms(1) have "replace_all pat rep (c # s) = rep @ replace_all pat rep t"
      by (simp add: replace_all_hit)
    moreover from True Cons.prems have "j = 0" by simp
    ultimately show ?thesis using t by simp
  next
    case False
    with Cons.prems obtain k where "str_find s pat = Some k" and "j = Suc k" by auto
    with Cons.IH[of k] False show ?thesis by (simp add: replace_all_skip)
  qed
qed

lemma strreplace_loop_correct:
  assumes "pat \<noteq> []"
  shows "strreplace_loop (pre @ pat @ post) (length pre) pat rep
           = Some (pre @ rep @ replace_all pat rep post)"
proof (induction "length post" arbitrary: pre post rule: less_induct)
  case less
  have s': "str_replace_at (pre @ pat @ post) (length pre) (length pat) rep = pre @ rep @ post"
    by (simp add: str_replace_at_def)
  show ?case
  proof (cases "str_find post pat")
    case None
    then show ?thesis
      by (subst strreplace_loop.simps) (simp add: s' Let_def replace_all_not_found)
  next
    case (Some j)
    let ?post = "drop (j + length pat) post"
    let ?pre = "pre @ rep @ take j post"
    have j: "j + length pat \<le> length post" by (rule str_find_length[OF Some])
    then have lt: "length ?post < length post" using assms by (cases pat) auto
    have eq: "pre @ rep @ post = ?pre @ pat @ ?post"
      using str_find_split[OF Some] by simp
    have len: "length pre + length rep + j = length ?pre" using j by simp
    have "strreplace_loop (pre @ rep @ post) (length pre + length rep + j) pat rep
            = Some (?pre @ rep @ replace_all pat rep ?post)"
      unfolding eq len by (rule less.hyps[OF lt])
    then show ?thesis
      by (subst strreplace_loop.simps)
        (simp add: s' Let_def Some replace_all_found[OF assms Some])
  qed
qed

lemma strreplace_replace_all:
  assumes "pattern \<noteq> []"
  shows "strreplace str pattern rep = Some (replace_all pattern rep str)"
proof (cases "str_find str pattern")
  case None
  then show ?thesis by (simp add: strreplace_def replace_all_not_found)
next
  case (Some i)
  have l: "length (take i str) = i" using str_find_length[OF Some] by simp
  have "strreplace_loop str i pattern rep = Some (take i str @ rep @ replace_all pattern rep (drop (i + length pattern) str))"
    using strreplace_loop_correct[OF assms, of "take i str" "drop (i + length pattern) str" rep]
    unfolding l str_find_split[OF Some, symmetric] .
  then show ?thesis
    by (simp add: strreplace_def Some replace_all_found[OF assms Some])
qed

lemma strreplace_loop_returns:
  assumes "strreplace_loop s i pat rep = Some r"
  shows "pat \<noteq> []"
  by (rule strreplace_loop.raw_induct[where P = "\<lambda>s i pat rep r. pat \<noteq> []", OF _ assms])
    (auto simp: Let_def split: option.splits)

lemma replace_all_single:
  "replace_all [c] rep s = concat (map (\<lambda>x. if x = c then rep else [x]) s)"
proof (induction s)
  case Nil
  then show ?case by simp
next
  case (Cons x s)
  show ?case
  proof (cases "x = c")
    case True
    with Cons show ?thesis using replace_all_hit[of "[c]" rep s] by simp
  next
    case False
    with Cons show ?thesis using replace_all_skip[of "[c]" x s rep] by simp
  qed
qed

subsection \<open>stringtok\<close>

lemma skip_separators_dropWhile:
  "i \<le> length s \<Longrightarrow> drop (skip_separators s w i) s = dropWhile (\<lambda>c. isseparator c w) (drop i s)
     \<and> skip_separators s w i \<le> length s"
proof (induction s w i rule: skip_separators.induct)
  case (1 s w i)
  show ?case
  proof (cases "i < length s \<and> isseparator (s ! i) w")
    case True
    then have "drop i s = s ! i # drop (Suc i) s" by (simp add: Cons_nth_drop_Suc)
    with True "1.IH" show ?thesis by (subst (1 2) skip_separators.simps) simp
  next
    case False
    then have "dropWhile (\<lambda>c. isseparator c w) (drop i s) = drop i s"
      by (cases "i < length s") (auto simp: Cons_nth_drop_Suc[symmetric])
    with False "1.prems" show ?thesis by (subst (1 2) skip_separators.simps) auto
  qed
qed

lemma find_word_end_takeWhile:
  "j \<le> length s \<Longrightarrow>
     find_word_end s w j = j + length (takeWhile (\<lambda>c. \<not> isseparator c w) (drop j s))"
proof (induction s w j rule: find_word_end.induct)
  case (1 s w j)
  show ?case
  proof (cases "j < length s \<and> \<not> isseparator (s ! j) w")
    case True
    then have "drop j s = s ! j # drop (Suc j) s" by (simp add: Cons_nth_drop_Suc)
    with True "1.IH" show ?thesis by (subst find_word_end.simps) simp
  next
    case False
    then have "takeWhile (\<lambda>c. \<not> isseparator c w) (drop j s) = []"
      by (cases "j < length s") (auto simp: Cons_nth_drop_Suc[symmetric])
    with False show ?thesis by (subst find_word_end.simps) auto
  qed
qed

lemma tokens_none: "dropWhile P s = [] \<Longrightarrow> tokens P s = []"
  by (subst tokens.simps) (simp only: Let_def simp_thms if_True)

lemma tokens_some:
  "dropWhile P s \<noteq> [] \<Longrightarrow> tokens P s =
     takeWhile (\<lambda>c. \<not> P c) (dropWhile P s) # tokens P (dropWhile (\<lambda>c. \<not> P c) (dropWhile P s))"
  by (subst tokens.simps) (simp only: Let_def simp_thms if_False)

lemma tokens_skip: "P c \<Longrightarrow> tokens P (c # s) = tokens P s"
  by (subst (1 2) tokens.simps) simp

lemma tokens_Nil [simp]: "tokens P [] = []"
  by (subst tokens.simps) simp

lemma tokens_word:
  "\<not> P c \<Longrightarrow> tokens P (c # s)
     = (c # takeWhile (\<lambda>x. \<not> P x) s) # tokens P (dropWhile (\<lambda>x. \<not> P x) s)"
  by (subst tokens.simps) simp

lemma tokens_dropWhile: "tokens P (dropWhile P s) = tokens P s"
  by (induction s) (auto simp: tokens_skip)

lemma tokens_drop_separator:
  assumes "t = [] \<or> P (hd t)"
  shows "tokens P (drop (Suc 0) t) = tokens P t"
  using assms by (cases t) (auto simp: tokens_skip)

lemma stringtok_loop_tokens:
  "stringtok_loop l s w i = l @ tokens (\<lambda>c. isseparator c w) (drop i s)"
proof (induction l s w i rule: stringtok_loop.induct)
  case (1 l s w i)
  let ?P = "\<lambda>c. isseparator c w"
  show ?case
  proof (cases "i < length s")
    case False
    then show ?thesis by (subst stringtok_loop.simps) simp
  next
    case True
    define i1 where "i1 = skip_separators s w i"
    have i1: "drop i1 s = dropWhile ?P (drop i s)" "i1 \<le> length s"
      using skip_separators_dropWhile[of i s w] True unfolding i1_def by auto
    show ?thesis
    proof (cases "i1 = length s")
      case True
      then have "dropWhile ?P (drop i s) = []" using i1 by simp
      then have "tokens ?P (drop i s) = []" by (rule tokens_none)
      with True \<open>i < length s\<close> show ?thesis
        by (subst stringtok_loop.simps) (simp add: Let_def flip: i1_def)
    next
      case False
      then have lt: "i1 < length s" using i1 by simp
      define j where "j = find_word_end s w (i1 + 1)"
      then have j_eq: "find_word_end s w (Suc i1) = j" by simp
      have d: "drop i1 s = s ! i1 # drop (Suc i1) s" using lt by (simp add: Cons_nth_drop_Suc)
      then have nsep: "\<not> ?P (s ! i1)"
        using i1(1) by (metis hd_dropWhile list.distinct(1) list.sel(1))
      define wd where "wd = takeWhile (\<lambda>c. \<not> ?P c) (drop (Suc i1) s)"
      define rest where "rest = dropWhile (\<lambda>c. \<not> ?P c) (drop (Suc i1) s)"
      have j: "j = Suc i1 + length wd"
        unfolding j_def wd_def using find_word_end_takeWhile[of "Suc i1" s w] lt by simp
      have dj: "drop j s = rest"
        unfolding j rest_def wd_def by (metis add.commute drop_drop drop_length_takeWhile)
      have tok: "take (j - i1) (drop i1 s) = s ! i1 # wd"
        unfolding j d by (simp add: wd_def take_length_takeWhile)
      have "rest = [] \<or> ?P (hd rest)"
        unfolding rest_def using hd_dropWhile[of "\<lambda>c. \<not> ?P c"] by blast
      moreover have "drop (j + 1) s = drop (Suc 0) rest" unfolding dj[symmetric] by simp
      ultimately have "tokens ?P (drop (j + 1) s) = tokens ?P rest"
        using tokens_drop_separator[of rest ?P] by simp
      moreover have "tokens ?P (drop i s) = (s ! i1 # wd) # tokens ?P rest"
        using tokens_word[of ?P, OF nsep, of "drop (Suc i1) s"] d i1(1) tokens_dropWhile[of ?P "drop i s"]
        by (simp add: wd_def rest_def)
      moreover have "stringtok_loop (l @ [take (j - i1) (drop i1 s)]) s w (j + 1)
          = (l @ [take (j - i1) (drop i1 s)]) @ tokens ?P (drop (j + 1) s)"
        using "1.IH"[OF True i1_def False j_def] by simp
      ultimately show ?thesis
        using True False
        by (subst stringtok_loop.simps) (simp add: Let_def tok j_eq flip: i1_def)
    qed
  qed
qed

lemma filter_dropWhile: "filter (\<lambda>c. \<not> P c) (dropWhile P s) = filter (\<lambda>c. \<not> P c) s"
  by (induction s) auto

lemma filter_takeWhile_dropWhile: "filter Q s = takeWhile Q s @ filter Q (dropWhile Q s)"
  by (induction s) auto

lemma concat_tokens: "concat (tokens P s) = filter (\<lambda>c. \<not> P c) s"
proof (induction P s rule: tokens.induct)
  case (1 P s)
  show ?case
  proof (cases "dropWhile P s = []")
    case True
    then have "filter (\<lambda>c. \<not> P c) s = []" by (simp add: filter_empty_conv)
    then show ?thesis using tokens_none[OF True] by simp
  next
    case False
    let ?t = "dropWhile P s"
    have "filter (\<lambda>c. \<not> P c) s = filter (\<lambda>c. \<not> P c) ?t"
      by (simp add: filter_dropWhile)
    also have "\<dots> = takeWhile (\<lambda>c. \<not> P c) ?t @ filter (\<lambda>c. \<not> P c) (dropWhile (\<lambda>c. \<not> P c) ?t)"
      by (rule filter_takeWhile_dropWhile)
    also have "\<dots> = takeWhile (\<lambda>c. \<not> P c) ?t @ concat (tokens P (dropWhile (\<lambda>c. \<not> P c) ?t))"
      using "1.IH"[OF refl False] by simp
    also have "\<dots> = concat (tokens P s)"
      using tokens_some[OF False] by simp
    finally show ?thesis by simp
  qed
qed

lemma tokens_words: "t \<in> set (tokens P s) \<Longrightarrow> t \<noteq> [] \<and> (\<forall>c\<in>set t. \<not> P c)"
proof (induction P s rule: tokens.induct)
  case (1 P s)
  show ?case
  proof (cases "dropWhile P s = []")
    case True
    with "1.prems" show ?thesis by (simp add: tokens_none)
  next
    case False
    let ?t = "dropWhile P s"
    from "1.prems" have "t = takeWhile (\<lambda>c. \<not> P c) ?t \<or> t \<in> set (tokens P (dropWhile (\<lambda>c. \<not> P c) ?t))"
      unfolding tokens_some[OF False] by simp
    then show ?thesis
    proof
      assume t: "t = takeWhile (\<lambda>c. \<not> P c) ?t"
      have "\<not> P (hd ?t)" using False by (rule hd_dropWhile)
      then have "t \<noteq> []" unfolding t using False by (cases ?t) auto
      then show ?thesis unfolding t by (blast dest: set_takeWhileD)
    next
      assume "t \<in> set (tokens P (dropWhile (\<lambda>c. \<not> P c) ?t))"
      then show ?thesis using "1.IH"[OF refl False] by blast
    qed
  qed
qed

lemma strtoint_int_digits:
  assumes "fits_s32 i"
  shows "strtoint junk (int_digits i) = Inr i"
proof -
  have "dropWhile is_space (int_digits i) \<noteq> []"
    using int_digits_not_blank[of i] by simp
  then have "sscanf_d (int_digits i) = Scan_Value i"
    by (simp only: sscanf_d_def c_str_id[OF int_digits_no_NUL]
        scan_decimal_int_digits simp_thms if_False option.case)
  with assms show ?thesis by (simp add: strtoint_def)
qed

section \<open>Properties\<close>

text \<open>\<^verbatim>\<open>trim\<close> removes exactly the blanks at both ends: the string is some blanks, the
  trimmed text and some blanks, and the trimmed text is empty or starts and ends with a
  character that is not blank.\<close>

theorem trim_spec:
  "(\<exists>a b. s = a @ trim s @ b \<and> set a \<subseteq> set trim_delims \<and> set b \<subseteq> set trim_delims)
   \<and> (trim s \<noteq> [] \<longrightarrow> hd (trim s) \<notin> set trim_delims \<and> last (trim s) \<notin> set trim_delims)"
  using strip_decomp[of s is_blank] strip_ends[of is_blank s]
  by (auto simp: trim_eq_strip subset_iff)

theorem trim_spec_witness:
  "trim '' a b  '' = ''a b'' \<and> hd (trim '' a b  '') \<notin> set trim_delims"
proof -
  have t: "trim '' a b  '' = ''a b''"
    by (simp add: trim_eq_strip strip_def trim_delims_def)
  then show ?thesis using trim_spec[of "'' a b  ''"] by simp
qed

text \<open>For a pattern that is not empty \<^verbatim>\<open>strreplace\<close> returns, and its result is the input
  with every non-overlapping occurrence of the pattern, from left to right, replaced; text
  that a replacement inserts is not searched again.\<close>

theorem strreplace_correct:
  assumes "pattern \<noteq> []"
  shows "strreplace str pattern rep = Some (replace_all pattern rep str)"
  using assms by (rule strreplace_replace_all)

theorem strreplace_correct_witness:
  "(''%'' :: string) \<noteq> [] \<and> strreplace ''5% of 7%'' ''%'' ''%%'' = Some ''5%% of 7%%''"
proof -
  have h: "(''%'' :: string) \<noteq> []" by simp
  show ?thesis using strreplace_correct[OF h, of "''5% of 7%''" "''%%''"]
    by (simp add: replace_all_single)
qed

text \<open>With an empty pattern \<^verbatim>\<open>strreplace\<close> never returns, whatever the other arguments.\<close>

theorem strreplace_empty_pattern: "strreplace str [] rep = None"
proof -
  have "strreplace_loop str 0 [] rep = None"
    using strreplace_loop_returns[of str 0 "[]" rep] by (cases "strreplace_loop str 0 [] rep") auto
  then show ?thesis by (simp add: strreplace_def)
qed

text \<open>\<^verbatim>\<open>stringtok\<close> appends to its list the maximal runs of non-separators of the input, in
  order: each is non-empty and free of separators, and together they are the input without
  its separators.\<close>

theorem stringtok_correct:
  "stringtok l s separators = l @ tokens (\<lambda>c. isseparator c separators) s
   \<and> concat (tokens (\<lambda>c. isseparator c separators) s) = filter (\<lambda>c. \<not> isseparator c separators) s
   \<and> [] \<notin> set (tokens (\<lambda>c. isseparator c separators) s)"
  using tokens_words by (auto simp: stringtok_def stringtok_loop_tokens concat_tokens)

text \<open>Converting an \<^verbatim>\<open>int\<close> to text and back gives the number again.\<close>

theorem strtoint_inttostr:
  assumes "fits_s32 i"
  shows "strtoint junk (inttostr i) = Inr i"
  using strtoint_int_digits[OF assms] by (simp add: inttostr_def longtostr_def)

theorem strtoint_inttostr_witness:
  "fits_s32 (- 305) \<and> strtoint 0 (inttostr (- 305)) = Inr (- 305)"
proof -
  have h: "fits_s32 (- 305)" by (simp add: fits_s32_def)
  show ?thesis using h strtoint_inttostr[OF h, of 0] by simp
qed

text \<open>On a string with nothing but white space \<^verbatim>\<open>strtoint\<close> does not throw
  \<^verbatim>\<open>Invalid_Conversion\<close>, as its comment says for text that is not a number: it returns the
  value its uninitialised variable happens to hold.\<close>

theorem strtoint_blank_returns_junk:
  assumes "list_all is_space str"
  shows "strtoint junk str = Inr junk"
proof -
  have "\<forall>c\<in>set (c_str str). is_space c"
    using assms by (auto simp: c_str_def list_all_iff dest: set_takeWhileD)
  then have "dropWhile is_space (c_str str) = []" by simp
  then show ?thesis by (simp only: strtoint_def sscanf_d_def simp_thms if_True scan_outcome.case)
qed

theorem strtoint_blank_returns_junk_witness:
  "list_all is_space [SPC] \<and> strtoint 4711 [SPC] = Inr 4711"
proof -
  have h: "list_all is_space [SPC]" by (simp add: is_space_def)
  show ?thesis using h strtoint_blank_returns_junk[OF h, of 4711] by simp
qed

end
