(* ===== verification/Pandora_Conf.thy ===== *)
theory Pandora_Conf
  imports Pandora_Strutils
begin

text \<open>
  The agent's configuration: \<^verbatim>\<open>Key_Value\<close> and \<^verbatim>\<open>is_enabled\<close> of \<^verbatim>\<open>src/pandora.cc\<close>, the class
  \<^verbatim>\<open>Pandora_Agent_Conf\<close> of \<^verbatim>\<open>src/pandora_agent_conf.cc\<close>, and the two scans for broker agents
  of \<^verbatim>\<open>src/pandora_windows_service.cc\<close>.

  The file system is a partial function from path names to file contents; a file that cannot
  be opened is \<open>None\<close>.  The iterator \<^verbatim>\<open>collection_it\<close> is a position in the collection list.
  Dereferencing the end iterator of a list and writing past the end of an array are
  \<open>Undefined_Behaviour\<close>.
\<close>

section \<open>Key_Value\<close>

record key_value =
  kv_key :: string
  kv_value :: string

definition to_lower :: "char \<Rightarrow> char" where
  "to_lower c =
     (let n = (of_char c :: nat) in if 65 \<le> n \<and> n \<le> 90 then char_of (n + 32) else c)"

definition parse_key_value :: "string \<Rightarrow> key_value result" where
  "parse_key_value str =
     (let trimmedstr = trim str;
          toks = (if str_find trimmedstr [DQUOTE] = None
                  then stringtok [] trimmedstr [SPC, TAB]
                  else stringtok [] trimmedstr [DQUOTE])
      in case toks of
           [] \<Rightarrow> Inl Undefined_Behaviour
         | t # ts \<Rightarrow> Inr \<lparr>kv_key = map to_lower (trim t),
                         kv_value = (if ts = [] then [] else trim (last ts))\<rparr>)"

text \<open>The empty string that ends \<^verbatim>\<open>enabled_values\<close> is the end of the list here.\<close>

definition enabled_values :: "string list" where
  "enabled_values = [''enabled'', ''1'', ''on'', ''yes'', ''si'',
     [CHR ''s'', CHR 0xC3, CHR 0xAD], ''ok'', ''true'']"

definition is_enabled :: "string \<Rightarrow> bool" where
  "is_enabled value = (if value = [] then False else value \<in> set enabled_values)"

section \<open>Pandora\_Agent\_Conf\<close>

record collection =
  name :: string
  verify :: u8

record agent_conf =
  key_values :: "key_value list"
  collection_list :: "collection list"
  collection_it :: nat
  broker_enabled :: bool

type_synonym file_system = "string \<Rightarrow> string option"

definition new_conf :: agent_conf where
  "new_conf = \<lparr>key_values = [], collection_list = [], collection_it = 0, broker_enabled = False\<rparr>"

definition skip_line :: "string \<Rightarrow> bool" where
  "skip_line buffer \<longleftrightarrow> str_head buffer \<in> {CHR ''#'', LF, NUL}"

subsection \<open>Collections\<close>

text \<open>The body of the branch for a line that holds \<^verbatim>\<open>file_collection\<close> at position \<open>pos\<close>.\<close>

definition add_collection :: "string \<Rightarrow> nat \<Rightarrow> collection list \<Rightarrow> collection list" where
  "add_collection buffer pos cs =
     (let collection_name = drop (pos + 15) buffer
      in if str_find collection_name ''..'' = None
         then cs @ [\<lparr>name = trim collection_name, verify = 0\<rparr>] else cs)"

definition parse_file_line :: "string \<Rightarrow> collection list \<Rightarrow> collection list" where
  "parse_file_line buffer cs =
     (if skip_line buffer then cs
      else case str_find buffer ''file_collection'' of
             Some pos \<Rightarrow> add_collection buffer pos cs
           | None \<Rightarrow> cs)"

definition parseFile :: "file_system \<Rightarrow> string \<Rightarrow> collection list \<Rightarrow> collection list" where
  "parseFile fs path_file cs =
     (case fs path_file of
        None \<Rightarrow> cs
      | Some txt \<Rightarrow> fold parse_file_line (getlines txt) cs)"

subsection \<open>Included files\<close>

text \<open>The loop that removes the double quotes from the path of an included file.\<close>

function unquote_loop :: "string \<Rightarrow> nat \<Rightarrow> string" where
  "unquote_loop path_file pos_c =
     (let path' = str_replace_at path_file pos_c 1 []
      in case str_find_from path' [DQUOTE] (pos_c + 1) of
           None \<Rightarrow> path'
         | Some p \<Rightarrow> unquote_loop path' p)"
  by pat_completeness auto
termination
proof (relation "measure (\<lambda>(s, p). length s)", goal_cases)
  case 1
  then show ?case by simp
next
  case (2 s pos_c path' p)
  then have "pos_c + 1 \<le> length path'"
    by (simp add: str_find_from_def split: if_splits)
  with 2(1) show ?case by (auto simp: str_replace_at_def)
qed

declare unquote_loop.simps [simp del]

definition unquote :: "string \<Rightarrow> string" where
  "unquote path_file =
     (case str_find path_file [DQUOTE] of None \<Rightarrow> path_file | Some p \<Rightarrow> unquote_loop path_file p)"

definition include_step :: "file_system \<Rightarrow> string \<Rightarrow> collection list \<Rightarrow> collection list result" where
  "include_step fs buffer cs =
     (case str_find buffer ''include'' of
        None \<Rightarrow> Inr cs
      | Some pos \<Rightarrow>
          (case str_substr buffer (pos + 8) of
             Inl e \<Rightarrow> Inl e
           | Inr path_file \<Rightarrow> Inr (parseFile fs (unquote path_file) cs)))"

subsection \<open>setFile (string filename)\<close>

text \<open>
  What both versions of \<^verbatim>\<open>setFile\<close> do with a line after the include and broker checks: a
  collection line is queued and done, a module line is left to the module list, any other
  line is a key and a value.
\<close>

definition key_value_step :: "string \<Rightarrow> agent_conf \<Rightarrow> agent_conf result" where
  "key_value_step buffer conf =
     (case str_find buffer ''file_collection'' of
        Some pos \<Rightarrow> Inr (conf\<lparr>collection_list := add_collection buffer pos (collection_list conf)\<rparr>)
      | None \<Rightarrow>
          if str_find buffer ''module_'' = None then
            (case parse_key_value buffer of
               Inl e \<Rightarrow> Inl e
             | Inr kv \<Rightarrow> Inr (conf\<lparr>key_values := key_values conf @ [kv]\<rparr>))
          else Inr conf)"

definition set_file_line :: "file_system \<Rightarrow> string \<Rightarrow> agent_conf \<Rightarrow> agent_conf result" where
  "set_file_line fs buffer conf =
     (if skip_line buffer then Inr conf
      else case include_step fs buffer (collection_list conf) of
             Inl e \<Rightarrow> Inl e
           | Inr cs \<Rightarrow> key_value_step buffer (conf\<lparr>collection_list := cs\<rparr>))"

fun set_file_lines :: "file_system \<Rightarrow> string list \<Rightarrow> agent_conf \<Rightarrow> agent_conf result" where
  "set_file_lines fs [] conf = Inr conf"
| "set_file_lines fs (buffer # ls) conf =
     (case set_file_line fs buffer conf of
        Inl e \<Rightarrow> Inl e
      | Inr conf' \<Rightarrow> set_file_lines fs ls conf')"

definition setFile :: "file_system \<Rightarrow> string \<Rightarrow> agent_conf \<Rightarrow> agent_conf result" where
  "setFile fs filename conf =
     (let conf0 = conf\<lparr>key_values := [], collection_list := []\<rparr>
      in case fs filename of
           None \<Rightarrow> Inr conf0
         | Some txt \<Rightarrow> set_file_lines fs (getlines txt) conf0)"

subsection \<open>setFile (string *all\_conf): the main file, with broker agents\<close>

definition broker_line :: "string \<Rightarrow> string \<Rightarrow> string" where
  "broker_line name_broker buffer =
     (let buffer1 =
        (case str_find buffer ''agent_name'' of
           None \<Rightarrow> buffer
         | Some pos \<Rightarrow>
             if set (take pos buffer) \<subseteq> {SPC, TAB, CHR ''#''}
             then ''agent_name '' @ name_broker @ [LF] else buffer)
      in if str_find buffer1 ''broker_agent'' = None then buffer1 @ [LF] else [])"

definition writeBrokerConf :: "string \<Rightarrow> string \<Rightarrow> string" where
  "writeBrokerConf name_broker txt = concat (map (broker_line name_broker) (getlines txt))"

record conf_state =
  cs_conf :: agent_conf
  cs_fs :: file_system
  cs_all_conf :: "string list"

definition broker_step :: "string \<Rightarrow> string \<Rightarrow> string \<Rightarrow> conf_state \<Rightarrow> conf_state result" where
  "broker_step install_dir txt buffer st =
     (case str_find buffer ''broker_agent'' of
        None \<Rightarrow> Inr st
      | Some pos \<Rightarrow>
          (let st1 = st\<lparr>cs_conf := (cs_conf st)\<lparr>broker_enabled := True\<rparr>\<rparr>
           in case str_substr buffer (pos + 13) of
                Inl e \<Rightarrow> Inl e
              | Inr name_broker \<Rightarrow>
                  (let path = install_dir @ name_broker @ ''.conf''
                   in if cs_all_conf st = [] then Inl Undefined_Behaviour
                      else
                        (let st2 = st1\<lparr>cs_all_conf := (cs_all_conf st1)[0 := path]\<rparr>
                         in case cs_fs st2 path of
                              None \<Rightarrow> Inr (st2\<lparr>cs_fs := (cs_fs st2)(path \<mapsto> writeBrokerConf name_broker txt)\<rparr>)
                            | Some _ \<Rightarrow> Inr st2))))"

definition set_main_line :: "string \<Rightarrow> string \<Rightarrow> string \<Rightarrow> conf_state \<Rightarrow> conf_state result" where
  "set_main_line install_dir txt buffer st =
     (if skip_line buffer then Inr st
      else case include_step (cs_fs st) buffer (collection_list (cs_conf st)) of
             Inl e \<Rightarrow> Inl e
           | Inr cs \<Rightarrow>
               (case broker_step install_dir txt buffer
                       (st\<lparr>cs_conf := (cs_conf st)\<lparr>collection_list := cs\<rparr>\<rparr>) of
                  Inl e \<Rightarrow> Inl e
                | Inr st' \<Rightarrow>
                    (case key_value_step buffer (cs_conf st') of
                       Inl e \<Rightarrow> Inl e
                     | Inr conf \<Rightarrow> Inr (st'\<lparr>cs_conf := conf\<rparr>))))"

fun set_main_lines :: "string \<Rightarrow> string \<Rightarrow> string list \<Rightarrow> conf_state \<Rightarrow> conf_state result" where
  "set_main_lines install_dir txt [] st = Inr st"
| "set_main_lines install_dir txt (buffer # ls) st =
     (case set_main_line install_dir txt buffer st of
        Inl e \<Rightarrow> Inl e
      | Inr st' \<Rightarrow> set_main_lines install_dir txt ls st')"

definition setMainFile :: "string \<Rightarrow> conf_state \<Rightarrow> conf_state result" where
  "setMainFile install_dir st =
     (let filename = install_dir @ ''pandora_agent.conf'';
          st0 = st\<lparr>cs_conf := (cs_conf st)\<lparr>key_values := [], collection_list := []\<rparr>\<rparr>
      in case cs_fs st filename of
           None \<Rightarrow> Inr st0
         | Some txt \<Rightarrow> set_main_lines install_dir txt (getlines txt) st0)"

subsection \<open>Queries and the collection iterator\<close>

fun find_value :: "key_value list \<Rightarrow> string \<Rightarrow> string" where
  "find_value [] key = []"
| "find_value (kv # kvs) key = (if kv_key kv = key then kv_value kv else find_value kvs key)"

definition getValue :: "agent_conf \<Rightarrow> string \<Rightarrow> string" where
  "getValue conf key = find_value (key_values conf) key"

definition isLastCollection :: "agent_conf \<Rightarrow> bool" where
  "isLastCollection conf \<longleftrightarrow> collection_it conf = length (collection_list conf)"

definition current_collection :: "agent_conf \<Rightarrow> collection result" where
  "current_collection conf =
     (if collection_it conf < length (collection_list conf)
      then Inr (collection_list conf ! collection_it conf) else Inl Undefined_Behaviour)"

definition getCurrentCollectionName :: "agent_conf \<Rightarrow> string result" where
  "getCurrentCollectionName conf = map_sum id name (current_collection conf)"

definition getCurrentCollectionVerify :: "agent_conf \<Rightarrow> u8 result" where
  "getCurrentCollectionVerify conf = map_sum id verify (current_collection conf)"

definition setCurrentCollectionVerify :: "agent_conf \<Rightarrow> agent_conf result" where
  "setCurrentCollectionVerify conf =
     (case current_collection conf of
        Inl e \<Rightarrow> Inl e
      | Inr c \<Rightarrow> Inr (conf\<lparr>collection_list := (collection_list conf)[collection_it conf := c\<lparr>verify := 1\<rparr>]\<rparr>))"

definition goFirstCollection :: "agent_conf \<Rightarrow> agent_conf" where
  "goFirstCollection conf = conf\<lparr>collection_it := 0\<rparr>"

definition goNextCollection :: "agent_conf \<Rightarrow> agent_conf result" where
  "goNextCollection conf =
     (if isLastCollection conf then Inl Undefined_Behaviour
      else Inr (conf\<lparr>collection_it := Suc (collection_it conf)\<rparr>))"

definition isInCollectionList :: "agent_conf \<Rightarrow> string \<Rightarrow> bool" where
  "isInCollectionList conf nm =
     list_ex (\<lambda>p. c_str (name p) = c_str nm \<or> c_str (name p @ ''.md5'') = c_str nm) (collection_list conf)"

subsection \<open>The broker scans of the service\<close>

definition is_broker_line :: "string \<Rightarrow> bool" where
  "is_broker_line buffer \<longleftrightarrow> \<not> skip_line buffer \<and> str_find buffer ''broker_agent'' \<noteq> None"

definition count_broker_agents :: "string \<Rightarrow> nat" where
  "count_broker_agents txt = length (filter is_broker_line (getlines txt))"

fun check_broker_lines :: "string \<Rightarrow> string list \<Rightarrow> nat \<Rightarrow> string list \<Rightarrow> string list result" where
  "check_broker_lines install_dir [] pos_file all_conf = Inr all_conf"
| "check_broker_lines install_dir (buffer # ls) pos_file all_conf =
     (if skip_line buffer then check_broker_lines install_dir ls pos_file all_conf
      else case str_find buffer ''broker_agent'' of
             None \<Rightarrow> check_broker_lines install_dir ls pos_file all_conf
           | Some pos \<Rightarrow>
               (case str_substr buffer (pos + 13) of
                  Inl e \<Rightarrow> Inl e
                | Inr name_broker \<Rightarrow>
                    if pos_file < length all_conf then
                      check_broker_lines install_dir ls (Suc pos_file)
                        (all_conf[pos_file := install_dir @ name_broker @ ''.conf''])
                    else Inl Undefined_Behaviour))"

definition check_broker_agents :: "string \<Rightarrow> string \<Rightarrow> string list \<Rightarrow> string list result" where
  "check_broker_agents install_dir txt all_conf = check_broker_lines install_dir (getlines txt) 0 all_conf"

section \<open>The interface of a line reader\<close>

text \<open>
  Both versions of \<^verbatim>\<open>setFile\<close> run a step on every line of a file and stop at the first
  exception.  What a step keeps, the whole loop keeps.
\<close>

locale line_reader =
  fixes step :: "string \<Rightarrow> 's \<Rightarrow> 's result"
    and run :: "string list \<Rightarrow> 's \<Rightarrow> 's result"
    and inv :: "'s \<Rightarrow> bool"
  assumes run_Nil: "run [] st = Inr st"
    and run_Cons: "run (l # ls) st = (case step l st of Inl e \<Rightarrow> Inl e | Inr st' \<Rightarrow> run ls st')"
    and step_inv: "step l st = Inr st' \<Longrightarrow> inv st \<Longrightarrow> inv st'"
begin

lemma run_inv: "run ls st = Inr st' \<Longrightarrow> inv st \<Longrightarrow> inv st'"
  by (induction ls arbitrary: st) (auto simp: run_Nil run_Cons dest: step_inv split: sum.splits)

lemma run_append:
  "run (ls @ ms) st = (case run ls st of Inl e \<Rightarrow> Inl e | Inr st' \<Rightarrow> run ms st')"
  by (induction ls arbitrary: st) (auto simp: run_Nil run_Cons split: sum.splits)

end

subsection \<open>Collection names stay inside the collections directory\<close>

definition safe_collections :: "collection list \<Rightarrow> bool" where
  "safe_collections cs \<longleftrightarrow> list_all (\<lambda>c. \<not> sublist ''..'' (name c)) cs"

lemma safe_add_collection: "safe_collections cs \<Longrightarrow> safe_collections (add_collection buffer pos cs)"
  using trim_sublist sublist_order.order_trans
  by (fastforce simp: add_collection_def safe_collections_def Let_def str_find_None_iff)

lemma safe_parse_file_line: "safe_collections cs \<Longrightarrow> safe_collections (parse_file_line buffer cs)"
  by (auto simp: parse_file_line_def safe_add_collection split: option.splits)

lemma safe_parseFile: "safe_collections cs \<Longrightarrow> safe_collections (parseFile fs path cs)"
proof -
  have "safe_collections cs \<Longrightarrow> safe_collections (fold parse_file_line ls cs)" for ls cs
    by (induction ls arbitrary: cs) (auto simp: safe_parse_file_line)
  then show "safe_collections cs \<Longrightarrow> safe_collections (parseFile fs path cs)"
    by (auto simp: parseFile_def split: option.splits)
qed

lemma safe_include_step:
  "include_step fs buffer cs = Inr cs' \<Longrightarrow> safe_collections cs \<Longrightarrow> safe_collections cs'"
  by (auto simp: include_step_def safe_parseFile split: option.splits sum.splits)

lemma safe_key_value_step:
  "key_value_step buffer conf = Inr conf' \<Longrightarrow> safe_collections (collection_list conf)
     \<Longrightarrow> safe_collections (collection_list conf')"
  by (auto simp: key_value_step_def safe_add_collection split: option.splits sum.splits if_splits)

lemma safe_broker_step:
  "broker_step d txt buffer st = Inr st' \<Longrightarrow> collection_list (cs_conf st') = collection_list (cs_conf st)"
  by (auto simp: broker_step_def Let_def split: option.splits sum.splits if_splits)

lemma safe_set_file_line:
  "set_file_line fs l conf = Inr conf' \<Longrightarrow> safe_collections (collection_list conf)
     \<Longrightarrow> safe_collections (collection_list conf')"
  by (auto simp: set_file_line_def split: if_splits sum.splits
      dest!: safe_key_value_step dest: safe_include_step)

lemma safe_set_main_line:
  assumes "set_main_line d txt l st = Inr st'" and "safe_collections (collection_list (cs_conf st))"
  shows "safe_collections (collection_list (cs_conf st'))"
proof (cases "skip_line l")
  case True
  with assms show ?thesis by (simp add: set_main_line_def)
next
  case False
  with assms(1) obtain cs st1 conf where
      cs: "include_step (cs_fs st) l (collection_list (cs_conf st)) = Inr cs"
    and st1: "broker_step d txt l (st\<lparr>cs_conf := (cs_conf st)\<lparr>collection_list := cs\<rparr>\<rparr>) = Inr st1"
    and conf: "key_value_step l (cs_conf st1) = Inr conf" and "st' = st1\<lparr>cs_conf := conf\<rparr>"
    by (auto simp: set_main_line_def split: sum.splits)
  with safe_include_step[OF cs assms(2)] safe_broker_step[OF st1] safe_key_value_step[OF conf]
  show ?thesis by simp
qed

interpretation file_reader: line_reader
  "set_file_line fs" "set_file_lines fs" "\<lambda>conf. safe_collections (collection_list conf)" for fs
  by unfold_locales (auto dest: safe_set_file_line)

interpretation main_reader: line_reader
  "set_main_line d c" "set_main_lines d c" "\<lambda>st. safe_collections (collection_list (cs_conf st))"
  for d c
  by unfold_locales (auto dest: safe_set_main_line)

subsection \<open>Brokers\<close>

lemma sublist_line_break:
  assumes "LF \<notin> set p" and "sublist p (a @ [LF] @ b)"
  shows "sublist p (a @ [LF]) \<or> sublist p b"
proof -
  from assms(2) consider "sublist p a" | "sublist p (LF # b)"
    | xs1 xs2 where "p = xs1 @ xs2" "suffix xs1 a" "prefix xs2 (LF # b)"
    by (auto simp: sublist_append)
  then show ?thesis
  proof cases
    case 1
    then show ?thesis by (simp add: sublist_append)
  next
    case 2
    then have "prefix p (LF # b) \<or> sublist p b" by (simp add: sublist_Cons_right)
    moreover have "prefix p (LF # b) \<Longrightarrow> p = []" using assms(1) by (cases p) auto
    ultimately show ?thesis by auto
  next
    case 3
    then have "xs2 = []" using assms(1) by (cases xs2) auto
    with 3 have "sublist p a" by (simp add: suffix_imp_sublist)
    then show ?thesis by (simp add: sublist_append)
  qed
qed

definition ends_line :: "string \<Rightarrow> bool" where
  "ends_line s \<longleftrightarrow> s = [] \<or> last s = LF"

lemma not_sublist_concat:
  assumes "LF \<notin> set p" and "p \<noteq> []" and "\<forall>l\<in>set ls. ends_line l \<and> \<not> sublist p l"
  shows "\<not> sublist p (concat ls)"
  using assms(3)
proof (induction ls)
  case Nil
  with assms(2) show ?case by simp
next
  case (Cons l ls)
  show ?case
  proof (cases "l = []")
    case True
    with Cons show ?thesis by simp
  next
    case False
    with Cons.prems have "l = butlast l @ [LF]"
      by (metis append_butlast_last_id ends_line_def list.set_intros(1))
    with sublist_line_break[OF assms(1), of "butlast l" "concat ls"] Cons
    show ?thesis by (metis append.assoc concat.simps(2) list.set_intros(1) list.set_intros(2))
  qed
qed

lemma broker_line_clean:
  "ends_line (broker_line n l) \<and> \<not> sublist ''broker_agent'' (broker_line n l)"
proof -
  have "\<not> sublist ''broker_agent'' (b @ [LF])" if "\<not> sublist ''broker_agent'' b" for b
    using that by (auto simp: sublist_append sublist_Cons_right prefix_Cons Cons_eq_append_conv)
  then show ?thesis
    by (auto simp: broker_line_def Let_def ends_line_def str_find_None_iff split: option.splits)
qed

lemma check_broker_lines_safe:
  "length (filter is_broker_line ls) + pos_file \<le> length all_conf
     \<Longrightarrow> check_broker_lines d ls pos_file all_conf \<noteq> Inl Undefined_Behaviour"
proof (induction d ls pos_file all_conf rule: check_broker_lines.induct)
  case (1 d pos_file all_conf)
  then show ?case by simp
next
  case (2 d l ls pos_file all_conf)
  then show ?case
    by (cases "skip_line l"; cases "str_find l ''broker_agent''")
      (auto simp: is_broker_line_def str_substr_def)
qed

lemma broker_step_all_conf:
  "broker_step d txt l st = Inr st' \<Longrightarrow> tl (cs_all_conf st') = tl (cs_all_conf st)"
  by (cases "cs_all_conf st") (auto simp: broker_step_def Let_def split: option.splits sum.splits)

lemma set_main_line_all_conf:
  "set_main_line d txt l st = Inr st' \<Longrightarrow> tl (cs_all_conf st') = tl (cs_all_conf st)"
  by (auto simp: set_main_line_def split: if_splits sum.splits dest!: broker_step_all_conf)

interpretation main_reader_tl: line_reader
  "set_main_line d c" "set_main_lines d c" "\<lambda>st. tl (cs_all_conf st) = t"
  for d c t
  by unfold_locales (auto dest: set_main_line_all_conf)

subsection \<open>Reading back a printed configuration\<close>

text \<open>A configuration entry written as a line of the file: \<^verbatim>\<open>key "value"\<close>.\<close>

definition entry_line :: "string \<times> string \<Rightarrow> string" where
  "entry_line e = fst e @ [SPC, DQUOTE] @ snd e @ [DQUOTE]"

definition conf_text :: "(string \<times> string) list \<Rightarrow> string" where
  "conf_text es = concat (map (\<lambda>e. entry_line e @ [LF]) es)"

text \<open>
  Keys are lower case and, like the values, do not contain the characters that end a key, a
  value or a line; values are trimmed and not empty; the line holds none of the words that
  mark the other kinds of line.
\<close>

definition wf_entry :: "string \<times> string \<Rightarrow> bool" where
  "wf_entry e \<longleftrightarrow>
     fst e \<noteq> [] \<and> snd e \<noteq> [] \<and> hd (fst e) \<noteq> CHR ''#'' \<and> map to_lower (fst e) = fst e
     \<and> list_all (\<lambda>c. c \<notin> {DQUOTE, NUL, SPC, TAB, CR, LF}) (fst e)
     \<and> list_all (\<lambda>c. c \<notin> {DQUOTE, NUL, LF}) (snd e) \<and> trim (snd e) = snd e
     \<and> \<not> sublist ''include'' (entry_line e) \<and> \<not> sublist ''file_collection'' (entry_line e)
     \<and> \<not> sublist ''module_'' (entry_line e)"

lemma wf_entry_parse:
  assumes "wf_entry (k, v)"
  shows "parse_key_value (entry_line (k, v)) = Inr \<lparr>kv_key = k, kv_value = v\<rparr>"
proof -
  let ?P = "\<lambda>c. isseparator c [DQUOTE]"
  have k: "k \<noteq> []" "\<forall>c\<in>set k. c \<notin> {DQUOTE, NUL, SPC, TAB, CR, LF}" "map to_lower k = k"
    and v: "v \<noteq> []" "\<forall>c\<in>set v. \<not> ?P c" "trim v = v"
    using assms by (auto simp: wf_entry_def list_all_iff isseparator_def)
  have "hd k \<notin> set trim_delims" using k by (auto simp: trim_delims_def)
  then have tr: "trim (entry_line (k, v)) = entry_line (k, v)"
    using k(1) by (intro trim_id) (auto simp: entry_line_def trim_delims_def)
  have ksp: "\<forall>c\<in>set (k @ [SPC]). \<not> ?P c" using k(2) by (auto simp: isseparator_def)
  obtain c cs where cc: "k @ [SPC] = c # cs" by (cases "k @ [SPC]") auto
  obtain d ds where dd: "v = d # ds" using v(1) by (cases v) auto
  have sep: "?P DQUOTE" by (simp add: isseparator_def)
  have tw: "takeWhile (\<lambda>x. \<not> ?P x) (xs @ DQUOTE # ys) = xs"
    "dropWhile (\<lambda>x. \<not> ?P x) (xs @ DQUOTE # ys) = DQUOTE # ys" if "\<forall>c\<in>set xs. \<not> ?P c" for xs ys
    using that sep by (auto simp: takeWhile_append dropWhile_append)
  have "entry_line (k, v) = c # cs @ DQUOTE # d # ds @ DQUOTE # []"
    using cc dd by (simp add: entry_line_def)
  moreover have "tokens ?P (c # cs @ DQUOTE # d # ds @ DQUOTE # []) = [k @ [SPC], v]"
    using ksp v(2) sep unfolding cc dd by (simp add: tokens_word tokens_skip tw)
  moreover have "str_find (entry_line (k, v)) [DQUOTE] \<noteq> None"
    by (simp add: str_find_char entry_line_def)
  ultimately have toks: "stringtok [] (entry_line (k, v)) [DQUOTE] = [k @ [SPC], v]"
    and q: "str_find (entry_line (k, v)) [DQUOTE] \<noteq> None"
    by (simp_all add: stringtok_def stringtok_loop_tokens)
  from q obtain i where i: "str_find (entry_line (k, v)) [DQUOTE] = Some i"
    by (cases "str_find (entry_line (k, v)) [DQUOTE]") (rule notE, assumption+)
  have tk: "trim (k @ [SPC]) = k"
  proof -
    have "hd k \<notin> set trim_delims" "last k \<notin> set trim_delims"
      using k(1,2) hd_in_set last_in_set by (fastforce simp: trim_delims_def)+
    then show ?thesis
      using k(1) by (simp add: trim_eq_strip strip_def dropWhile_hd_id hd_rev trim_delims_def)
  qed
  show ?thesis
    unfolding parse_key_value_def Let_def tr toks i by (simp add: tk k(3) v(3))
qed

lemma wf_entry_set_file_line:
  assumes "wf_entry (k, v)"
  shows "set_file_line fs (entry_line (k, v)) conf
           = Inr (conf\<lparr>key_values := key_values conf @ [\<lparr>kv_key = k, kv_value = v\<rparr>]\<rparr>)"
proof -
  have "\<not> skip_line (entry_line (k, v))"
    using assms hd_in_set[of k]
    by (cases k) (auto simp: wf_entry_def skip_line_def str_head_def entry_line_def list_all_iff)
  moreover have "str_find (entry_line (k, v)) ''include'' = None"
    "str_find (entry_line (k, v)) ''file_collection'' = None"
    "str_find (entry_line (k, v)) ''module_'' = None"
    using assms by (simp_all only: wf_entry_def str_find_None_iff simp_thms)
  ultimately show ?thesis
    by (simp add: set_file_line_def include_step_def key_value_step_def wf_entry_parse[OF assms])
qed

lemma wf_entry_no_LF: "wf_entry e \<Longrightarrow> LF \<notin> set (entry_line e)"
  unfolding wf_entry_def list_all_iff by (simp add: entry_line_def) blast

lemma getlines_conf_text:
  assumes "list_all wf_entry es"
  shows "getlines (conf_text es) = map entry_line es @ [[]]"
  using assms
proof (induction es)
  case Nil
  then show ?case by (simp add: conf_text_def)
next
  case (Cons e es)
  have "LF \<notin> set (entry_line e)"
    using Cons.prems wf_entry_no_LF by simp
  then have "getlines (entry_line e @ LF # conf_text es) = entry_line e # getlines (conf_text es)"
    by (rule getlines_append)
  moreover have "conf_text (e # es) = entry_line e @ LF # conf_text es" by (simp add: conf_text_def)
  ultimately show ?case using Cons by simp
qed

lemma set_file_lines_entries:
  assumes "list_all wf_entry es"
  shows "set_file_lines fs (map entry_line es @ [[]]) conf
           = Inr (conf\<lparr>key_values := key_values conf @ map (\<lambda>(k, v). \<lparr>kv_key = k, kv_value = v\<rparr>) es\<rparr>)"
  using assms
proof (induction es arbitrary: conf)
  case Nil
  then show ?case by (simp add: set_file_line_def skip_line_def str_head_def)
next
  case (Cons e es)
  obtain k v where "e = (k, v)" by force
  with Cons show ?case by (simp add: wf_entry_set_file_line)
qed

lemma find_value_entries:
  "find_value (map (\<lambda>(k, v). \<lparr>kv_key = k, kv_value = v\<rparr>) es) key
     = (case map_of es key of None \<Rightarrow> [] | Some v \<Rightarrow> v)"
  by (induction es) auto

section \<open>Properties\<close>

text \<open>(C11) Reading a configuration file whose lines are well-formed entries
  \<^verbatim>\<open>key "value"\<close> succeeds, and \<^verbatim>\<open>getValue\<close> then returns for every key the value of its first
  entry, and the empty string for a key without an entry.\<close>

theorem setFile_getValue:
  assumes "list_all wf_entry es" and "fs f = Some (conf_text es)"
  shows "\<exists>c. setFile fs f conf = Inr c
           \<and> (\<forall>key. getValue c key = (case map_of es key of None \<Rightarrow> [] | Some v \<Rightarrow> v))"
  using assms
  by (simp add: setFile_def Let_def getlines_conf_text set_file_lines_entries getValue_def find_value_entries)

lemma wf_entry_example: "wf_entry (''interval'', ''300'')"
  by (simp add: wf_entry_def entry_line_def to_lower_def Let_def trim_eq_strip strip_def
      trim_delims_def sublist_Cons_right flip: str_find_None_iff)

theorem setFile_getValue_witness:
  "list_all wf_entry [(''interval'', ''300'')]
   \<and> (\<exists>c. setFile [''a.conf'' \<mapsto> conf_text [(''interval'', ''300'')]] ''a.conf'' new_conf = Inr c
        \<and> getValue c ''interval'' = ''300'' \<and> getValue c ''server_ip'' = [])"
proof -
  have h: "list_all wf_entry [(''interval'', ''300'')]" using wf_entry_example by simp
  have f: "[''a.conf'' \<mapsto> conf_text [(''interval'', ''300'')]] ''a.conf'' = Some (conf_text [(''interval'', ''300'')])"
    by simp
  from setFile_getValue[of "[(''interval'', ''300'')]" "[''a.conf'' \<mapsto> conf_text [(''interval'', ''300'')]]"
      "''a.conf''" new_conf, OF h f] obtain c where
      c: "setFile [''a.conf'' \<mapsto> conf_text [(''interval'', ''300'')]] ''a.conf'' new_conf = Inr c"
    and v: "\<forall>key. getValue c key = (case map_of [(''interval'', ''300'')] key of None \<Rightarrow> [] | Some v \<Rightarrow> v)"
    by blast
  from v have "getValue c ''interval'' = ''300'' \<and> getValue c ''server_ip'' = []" by simp
  with h c show ?thesis by blast
qed

text \<open>Whatever the configuration file and the files it includes hold, no collection that
  \<^verbatim>\<open>setFile\<close> keeps has \<^verbatim>\<open>..\<close> in its name.\<close>

theorem setFile_collections_safe:
  assumes "setFile fs filename conf = Inr c" and "x \<in> set (collection_list c)"
  shows "\<not> sublist ''..'' (name x)"
proof -
  have "safe_collections (collection_list c)"
    using assms(1) by (auto simp: setFile_def Let_def safe_collections_def split: option.splits
        dest: file_reader.run_inv)
  with assms(2) show ?thesis by (simp add: safe_collections_def list_all_iff)
qed

theorem setFile_collections_safe_witness:
  "\<exists>c x. setFile [''a.conf'' \<mapsto> ''file_collection fc_1''] ''a.conf'' new_conf = Inr c
      \<and> x \<in> set (collection_list c) \<and> name x = ''fc_1'' \<and> \<not> sublist ''..'' (name x)"
proof -
  let ?x = "\<lparr>name = ''fc_1'', verify = 0\<rparr>"
  let ?c = "new_conf\<lparr>collection_list := [?x]\<rparr>"
  have e: "setFile [''a.conf'' \<mapsto> ''file_collection fc_1''] ''a.conf'' new_conf = Inr ?c"
    by (simp add: setFile_def set_file_line_def skip_line_def str_head_def include_step_def
        key_value_step_def add_collection_def new_conf_def trim_eq_strip strip_def trim_delims_def)
  have m: "?x \<in> set (collection_list ?c)" by simp
  from setFile_collections_safe[OF e m] e m show ?thesis by (intro exI[of _ ?c] exI[of _ ?x]) simp
qed

text \<open>The same for the main configuration file, which may also set up broker agents.\<close>

theorem setMainFile_collections_safe:
  assumes "setMainFile d st = Inr st'" and "x \<in> set (collection_list (cs_conf st'))"
  shows "\<not> sublist ''..'' (name x)"
proof -
  have "safe_collections (collection_list (cs_conf st'))"
    using assms(1) by (auto simp: setMainFile_def Let_def safe_collections_def split: option.splits
        dest!: main_reader.run_inv)
  with assms(2) show ?thesis by (simp add: safe_collections_def list_all_iff)
qed

theorem setMainFile_collections_safe_witness:
  "\<exists>st' x. setMainFile [] \<lparr>cs_conf = new_conf, cs_fs = [''pandora_agent.conf'' \<mapsto> ''file_collection fc_1''],
        cs_all_conf = []\<rparr> = Inr st'
      \<and> x \<in> set (collection_list (cs_conf st')) \<and> \<not> sublist ''..'' (name x)"
proof -
  let ?x = "\<lparr>name = ''fc_1'', verify = 0\<rparr>"
  let ?st = "\<lparr>cs_conf = new_conf, cs_fs = [''pandora_agent.conf'' \<mapsto> ''file_collection fc_1''], cs_all_conf = []\<rparr>"
  let ?st' = "?st\<lparr>cs_conf := new_conf\<lparr>collection_list := [?x]\<rparr>\<rparr>"
  have e: "setMainFile [] ?st = Inr ?st'"
    by (simp add: setMainFile_def set_main_line_def skip_line_def str_head_def include_step_def
        broker_step_def key_value_step_def add_collection_def new_conf_def trim_eq_strip strip_def
        trim_delims_def)
  have m: "?x \<in> set (collection_list (cs_conf ?st'))" by simp
  from setMainFile_collections_safe[OF e m] e m show ?thesis
    by (intro exI[of _ ?st'] exI[of _ ?x]) simp
qed

text \<open>A configuration file that is written for a broker agent never names a broker agent
  itself, so a broker does not start further brokers.\<close>

theorem writeBrokerConf_no_broker: "\<not> sublist ''broker_agent'' (writeBrokerConf name_broker txt)"
  unfolding writeBrokerConf_def
  by (rule not_sublist_concat) (auto simp: broker_line_clean)

text \<open>The array that \<^verbatim>\<open>count_broker_agents\<close> sizes is large enough for
  \<^verbatim>\<open>check_broker_agents\<close> on the same file: the scan never writes past its end.\<close>

theorem check_broker_agents_in_bounds:
  "check_broker_agents d txt (replicate (count_broker_agents txt) []) \<noteq> Inl Undefined_Behaviour"
  unfolding check_broker_agents_def count_broker_agents_def
  by (rule check_broker_lines_safe) simp

text \<open>\<^verbatim>\<open>setFile (string *)\<close> declares its array position inside the loop, so every broker
  agent goes to entry 0: the other entries of the caller's array are never filled.\<close>

theorem setMainFile_fills_only_first:
  assumes "setMainFile d st = Inr st'"
  shows "tl (cs_all_conf st') = tl (cs_all_conf st)"
  using assms
  by (auto simp: setMainFile_def Let_def split: option.splits
      dest: main_reader_tl.run_inv[where t = "tl (cs_all_conf st)"])

theorem setMainFile_fills_only_first_witness:
  "\<exists>st'. setMainFile [] \<lparr>cs_conf = new_conf,
        cs_fs = [''pandora_agent.conf'' \<mapsto> ''broker_agent a module_'', ''a module_.conf'' \<mapsto> []],
        cs_all_conf = [''x'', ''y'']\<rparr> = Inr st'
      \<and> cs_all_conf st' = [''a module_.conf'', ''y'']"
proof -
  let ?st = "\<lparr>cs_conf = new_conf,
        cs_fs = [''pandora_agent.conf'' \<mapsto> ''broker_agent a module_'', ''a module_.conf'' \<mapsto> []],
        cs_all_conf = [''x'', ''y'']\<rparr>"
  let ?st' = "?st\<lparr>cs_conf := new_conf\<lparr>broker_enabled := True\<rparr>,
      cs_all_conf := [''a module_.conf'', ''y'']\<rparr>"
  have e: "setMainFile [] ?st = Inr ?st'"
    by (simp add: setMainFile_def set_main_line_def skip_line_def str_head_def include_step_def
        broker_step_def key_value_step_def str_substr_def new_conf_def Let_def)
  from setMainFile_fills_only_first[OF e] e show ?thesis
    by (intro exI[of _ ?st']) simp
qed

text \<open>A configuration line that is not empty but holds only blanks passes the test for
  blank lines, and parsing it reads the first element of an empty token list.\<close>

theorem blank_line_undefined:
  assumes "l \<noteq> []" and "set l \<subseteq> {SPC, TAB}"
  shows "set_file_line fs l conf = Inl Undefined_Behaviour"
proof -
  have b: "\<forall>c\<in>set l. c \<in> set trim_delims" using assms(2) by (auto simp: trim_delims_def)
  then have "trim l = []" by (simp add: trim_eq_strip strip_def)
  then have p: "parse_key_value l = Inl Undefined_Behaviour"
    by (simp add: parse_key_value_def stringtok_def stringtok_loop_tokens)
  have "\<not> sublist p l" if "c \<in> set p" and "c \<notin> {SPC, TAB}" for c p
    using that assms(2) by (meson set_mono_sublist subset_iff)
  from this[of "CHR ''i''"] this[of "CHR ''m''"] have
    "str_find l ''include'' = None" "str_find l ''file_collection'' = None" "str_find l ''module_'' = None"
    by (simp_all add: str_find_None_iff)
  moreover have "\<not> skip_line l"
    using assms by (cases l) (auto simp: skip_line_def str_head_def)
  ultimately show ?thesis by (simp add: set_file_line_def include_step_def key_value_step_def p)
qed

theorem blank_line_undefined_witness:
  "[SPC] \<noteq> [] \<and> set [SPC] \<subseteq> {SPC, TAB} \<and> set_file_line Map.empty [SPC] new_conf = Inl Undefined_Behaviour"
proof -
  have h: "[SPC] \<noteq> []" "set [SPC] \<subseteq> {SPC, TAB}" by simp_all
  show ?thesis using h blank_line_undefined[OF h, of Map.empty new_conf] by simp
qed

end
