(* ===== verification/Pandora_Module.thy ===== *)
theory Pandora_Module
  imports Pandora_Strutils
begin

text \<open>
  The super-class of every monitoring module, \<^verbatim>\<open>src/modules/pandora_module.cc\<close>, with the data it
  reports, \<^verbatim>\<open>src/modules/pandora_data.cc\<close>: parsing of types, kinds, conditions and cron
  expressions, the interval test, the conditions, and the XML the agent sends to its server.

  A method that may throw returns a value of \<open>module_error\<close> on the left.  The type of
  \<^verbatim>\<open>double\<close> values and its operations, the conversion of text to \<^verbatim>\<open>double\<close> and the regular
  expressions are the C library's and Boost's: the record \<open>clib\<close> holds them as parameters.
  Time, local time and child processes are arguments of the methods that ask for them.
\<close>

section \<open>The C library\<close>

text \<open>
  \<open>scan_lf s\<close> is the conversion of \<^verbatim>\<open>%lf\<close> at the first character of \<open>s\<close>: the number and the text
  after it.  \<open>reg_compiles\<close> is \<^verbatim>\<open>regcomp (...) == 0\<close> and \<open>reg_matches\<close> is \<^verbatim>\<open>regexec (...) == 0\<close>.
\<close>

record 'd clib =
  scan_lf :: "string \<Rightarrow> ('d \<times> string) option"
  of_int_d :: "int \<Rightarrow> 'd"
  less_d :: "'d \<Rightarrow> 'd \<Rightarrow> bool"
  le_d :: "'d \<Rightarrow> 'd \<Rightarrow> bool"
  eq_d :: "'d \<Rightarrow> 'd \<Rightarrow> bool"
  reg_compiles :: "string \<Rightarrow> bool"
  reg_matches :: "string \<Rightarrow> string \<Rightarrow> bool"

definition scan_le :: "'d clib \<Rightarrow> string \<Rightarrow> 'd scan_outcome" where
  "scan_le L s =
     (let t = dropWhile is_space (c_str s)
      in if t = [] then Scan_EOF
         else case scan_lf L t of None \<Rightarrow> Scan_Mismatch | Some (d, _) \<Rightarrow> Scan_Value d)"

text \<open>
  The formats of \<^verbatim>\<open>sscanf\<close> the module uses: a blank, a literal character, \<^verbatim>\<open>%<n>s\<close>,
  \<^verbatim>\<open>%<n>[^<c>]\<close> and \<^verbatim>\<open>%lf\<close>.  \<open>sscanf_args\<close> gives the arguments that are assigned before the scan
  stops; their number is what \<^verbatim>\<open>sscanf\<close> returns when at least one was assigned.
\<close>

datatype directive = Blank | Literal char | Word nat | Until nat char | Lf

datatype 'd scan_arg = Text string | Double 'd

fun sscanf_args :: "'d clib \<Rightarrow> directive list \<Rightarrow> string \<Rightarrow> 'd scan_arg list" where
  "sscanf_args L [] s = []"
| "sscanf_args L (Blank # ds) s = sscanf_args L ds (dropWhile is_space s)"
| "sscanf_args L (Literal c # ds) s =
     (case s of [] \<Rightarrow> [] | x # t \<Rightarrow> if x = c then sscanf_args L ds t else [])"
| "sscanf_args L (Word n # ds) s =
     (let t = dropWhile is_space s; w = take n (takeWhile (\<lambda>x. \<not> is_space x) t)
      in if w = [] then [] else Text w # sscanf_args L ds (drop (length w) t))"
| "sscanf_args L (Until n c # ds) s =
     (let w = take n (takeWhile (\<lambda>x. x \<noteq> c) s)
      in if w = [] then [] else Text w # sscanf_args L ds (drop (length w) s))"
| "sscanf_args L (Lf # ds) s =
     (case scan_lf L (dropWhile is_space s) of
        None \<Rightarrow> []
      | Some (d, t) \<Rightarrow> Double d # sscanf_args L ds t)"

definition sscanf :: "'d clib \<Rightarrow> string \<Rightarrow> directive list \<Rightarrow> 'd scan_arg list" where
  "sscanf L s format = sscanf_args L format (c_str s)"

section \<open>Pandora\_Data\<close>

record systemtime =
  wYear :: nat
  wMonth :: nat
  wDay :: nat
  wHour :: nat
  wMinute :: nat
  wSecond :: nat

record pandora_data =
  data_value :: string
  data_timestamp :: systemtime
  data_origin :: string

definition newPandora_Data :: "string \<Rightarrow> systemtime \<Rightarrow> string \<Rightarrow> pandora_data" where
  "newPandora_Data value system_time origin =
     \<lparr>data_value = value, data_timestamp = system_time, data_origin = origin\<rparr>"

text \<open>\<^verbatim>\<open>%02d\<close>\<close>

definition two_digits :: "nat \<Rightarrow> string" where
  "two_digits n = (if n < 10 then CHR ''0'' # nat_digits n else nat_digits n)"

text \<open>The buffer of \<^verbatim>\<open>sprintf\<close> has 20 bytes, the terminating NUL included.\<close>

definition getTimestamp_data :: "pandora_data \<Rightarrow> string result" where
  "getTimestamp_data d =
     (let t = data_timestamp d;
          strtime = nat_digits (wYear t) @ ''-'' @ two_digits (wMonth t) @ ''-'' @
            two_digits (wDay t) @ '' '' @ two_digits (wHour t) @ '':'' @
            two_digits (wMinute t) @ '':'' @ two_digits (wSecond t)
      in if length strtime < 20 then Inr strtime else Inl Undefined_Behaviour)"

section \<open>Types and kinds\<close>

datatype module_type =
    TYPE_0
  | TYPE_GENERIC_DATA
  | TYPE_GENERIC_DATA_INC
  | TYPE_GENERIC_PROC
  | TYPE_GENERIC_DATA_STRING
  | TYPE_ASYNC_DATA
  | TYPE_ASYNC_PROC
  | TYPE_ASYNC_STRING
  | TYPE_LOG

datatype module_kind =
    MODULE_0
  | MODULE_EXEC
  | MODULE_PROC
  | MODULE_SERVICE
  | MODULE_FREEDISK
  | MODULE_FREEDISK_PERCENT
  | MODULE_CPUUSAGE
  | MODULE_INVENTORY
  | MODULE_FREEMEMORY
  | MODULE_FREEMEMORY_PERCENT
  | MODULE_LOGEVENT
  | MODULE_WMIQUERY
  | MODULE_PERFCOUNTER
  | MODULE_TCPCHECK
  | MODULE_REGEXP
  | MODULE_PLUGIN
  | MODULE_PING
  | MODULE_SNMPGET

definition parseModuleTypeFromString :: "string \<Rightarrow> module_type" where
  "parseModuleTypeFromString type =
     (if type = ''generic_data'' \<or> type = [] then TYPE_GENERIC_DATA
      else if type = ''generic_data_inc'' then TYPE_GENERIC_DATA_INC
      else if type = ''generic_data_string'' then TYPE_GENERIC_DATA_STRING
      else if type = ''generic_proc'' then TYPE_GENERIC_PROC
      else if type = ''async_data'' then TYPE_ASYNC_DATA
      else if type = ''async_proc'' then TYPE_ASYNC_PROC
      else if type = ''async_string'' then TYPE_ASYNC_STRING
      else if type = ''log'' then TYPE_LOG
      else TYPE_0)"

definition parseModuleKindFromString :: "string \<Rightarrow> module_kind" where
  "parseModuleKindFromString kind =
     (if kind = ''module_exec'' then MODULE_EXEC
      else if kind = ''module_proc'' then MODULE_PROC
      else if kind = ''module_service'' then MODULE_SERVICE
      else if kind = ''module_freedisk'' then MODULE_FREEDISK
      else if kind = ''module_freedisk_percent'' then MODULE_FREEDISK_PERCENT
      else if kind = ''module_freememory'' then MODULE_FREEMEMORY
      else if kind = ''module_freememory_percent'' then MODULE_FREEMEMORY_PERCENT
      else if kind = ''module_cpuusage'' then MODULE_CPUUSAGE
      else if kind = ''module_inventory'' then MODULE_INVENTORY
      else if kind = ''module_logevent'' then MODULE_LOGEVENT
      else if kind = ''module_wmiquery'' then MODULE_WMIQUERY
      else if kind = ''module_perfcounter'' then MODULE_PERFCOUNTER
      else if kind = ''module_tcpcheck'' then MODULE_TCPCHECK
      else if kind = ''module_regexp'' then MODULE_REGEXP
      else if kind = ''module_plugin'' then MODULE_PLUGIN
      else if kind = ''module_ping'' then MODULE_PING
      else if kind = ''module_snmpget'' then MODULE_SNMPGET
      else MODULE_0)"

section \<open>The module\<close>

text \<open>\<open>regexp\<close> is \<open>None\<close> until \<^verbatim>\<open>regcomp\<close> has filled it.\<close>

record 'd condition =
  value_1 :: 'd
  value_2 :: 'd
  string_value :: string
  operation :: string
  command :: string
  regexp :: "string option"

record cron =
  utimestamp :: int
  cron_interval :: int
  cron_params :: "(int \<times> int) list"

datatype module_error =
    Output_Error
  | Value_Error
  | Interval_Not_Fulfilled
  | Cxx cxx_error
  | Diverges

type_synonym 'a mod_result = "module_error + 'a"

record 'd pandora_module =
  module_interval :: int
  module_timeout :: int
  executions :: int
  max_value :: int
  min_value :: int
  min_critical :: string
  max_critical :: string
  min_warning :: string
  max_warning :: string
  post_process :: string
  disabled :: string
  min_ff_event :: string
  has_limits :: bool
  has_min :: bool
  has_max :: bool
  module_type :: module_type
  module_kind_str :: string
  module_kind :: module_kind
  save :: string
  condition_list :: "'d condition list option"
  precondition_list :: "'d condition list option"
  cron :: "cron option"
  intensive_condition_list :: "'d condition list option"
  timestamp :: int
  intensive_match :: u8
  intensive_interval :: int
  unit_str :: string
  custom_id :: string
  str_warning :: string
  str_critical :: string
  module_group :: string
  warning_inverse :: string
  critical_inverse :: string
  quiet :: string
  module_ff_interval :: string
  critical_instructions :: string
  warning_instructions :: string
  unknown_instructions :: string
  tags :: string
  data_list :: "pandora_data list option"
  has_output :: bool
  mod_name :: string
  module_description :: string
  async :: bool
  inventory_list :: "pandora_data list option"
  latest_output :: string
  module_type_str :: string

text \<open>
  The constructor leaves \<^verbatim>\<open>has_output\<close>, \<^verbatim>\<open>module_type\<close> and \<^verbatim>\<open>module_kind\<close> as they are in memory.
\<close>

definition newPandora_Module :: "bool \<Rightarrow> module_type \<Rightarrow> module_kind \<Rightarrow> string \<Rightarrow> 'd pandora_module" where
  "newPandora_Module junk_output junk_type junk_kind name =
     \<lparr>module_interval = 1, module_timeout = 15000, executions = 0, max_value = 0, min_value = 0,
      min_critical = [], max_critical = [], min_warning = [], max_warning = [],
      post_process = [], disabled = [], min_ff_event = [],
      has_limits = False, has_min = False, has_max = False,
      module_type = junk_type, module_kind_str = [], module_kind = junk_kind, save = [],
      condition_list = None, precondition_list = None, cron = None,
      intensive_condition_list = None, timestamp = 0, intensive_match = 0,
      intensive_interval = 1, unit_str = [], custom_id = [], str_warning = [],
      str_critical = [], module_group = [], warning_inverse = [], critical_inverse = [],
      quiet = [], module_ff_interval = [], critical_instructions = [],
      warning_instructions = [], unknown_instructions = [], tags = [],
      data_list = None, has_output = junk_output, mod_name = name, module_description = [],
      async = False, inventory_list = None, latest_output = [], module_type_str = []\<rparr>"

definition cleanDataList :: "'d pandora_module \<Rightarrow> 'd pandora_module" where
  "cleanDataList m = m\<lparr>data_list := None, inventory_list := None\<rparr>"

subsection \<open>Output\<close>

text \<open>
  \<^verbatim>\<open>strtodouble\<close> returns an uninitialised \<open>junk\<close> for a blank value; see \<open>Pandora_Strutils\<close>.
\<close>

definition getDataOutput :: "'d clib \<Rightarrow> 'd \<Rightarrow> 'd pandora_module \<Rightarrow> pandora_data \<Rightarrow> string mod_result" where
  "getDataOutput L junk m d =
     (if module_type m \<in> {TYPE_GENERIC_DATA_STRING, TYPE_ASYNC_STRING, TYPE_LOG}
      then Inr (data_value d)
      else case strtodouble (scan_le L) junk (data_value d) of
             Inl Invalid_Conversion \<Rightarrow> Inl Output_Error
           | Inl e \<Rightarrow> Inl (Cxx e)
           | Inr value \<Rightarrow>
               if has_limits m \<and>
                  (le_d L (of_int_d L (max_value m)) value \<or> le_d L value (of_int_d L (min_value m)))
               then Inl Value_Error
               else Inr (trim (data_value d)))"

text \<open>The text that is handed to \<^verbatim>\<open>putenv\<close>.\<close>

definition exportDataOutput :: "'d pandora_module \<Rightarrow> string result" where
  "exportDataOutput m =
     (let putenv_str = save m @ ''=''
      in if \<not> has_output m then Inr (c_str putenv_str)
         else case data_list m of
                None \<Rightarrow> Inr (c_str putenv_str)
              | Some [] \<Rightarrow> Inl Undefined_Behaviour
              | Some (d # _) \<Rightarrow> Inr (c_str (putenv_str @ data_value d)))"

definition push_data :: "pandora_data \<Rightarrow> pandora_data list option \<Rightarrow> pandora_data list option" where
  "push_data d ds = Some ((case ds of None \<Rightarrow> [] | Some xs \<Rightarrow> xs) @ [d])"

definition setOutput :: "systemtime \<Rightarrow> string \<Rightarrow> 'd pandora_module \<Rightarrow> 'd pandora_module" where
  "setOutput now output m =
     m\<lparr>data_list := push_data (newPandora_Data output now (mod_name m)) (data_list m),
       latest_output := output\<rparr>"

definition setOutput_at :: "string \<Rightarrow> systemtime \<Rightarrow> 'd pandora_module \<Rightarrow> 'd pandora_module" where
  "setOutput_at output system_time m =
     m\<lparr>data_list := push_data (newPandora_Data output system_time (mod_name m)) (data_list m)\<rparr>"

definition setNoOutput :: "'d pandora_module \<Rightarrow> 'd pandora_module" where
  "setNoOutput m = (cleanDataList m)\<lparr>has_output := False\<rparr>"

definition hasOutput :: "'d pandora_module \<Rightarrow> bool" where
  "hasOutput m = has_output m"

text \<open>
  The remainder by 0 is undefined.  The remainder is compared with 0 only, for which the sign
  convention of \<^verbatim>\<open>%\<close> does not matter.
\<close>

definition run :: "'d pandora_module \<Rightarrow> 'd pandora_module \<times> unit mod_result" where
  "run m =
     (if intensive_interval m = 0 then (m, Inl (Cxx Undefined_Behaviour))
      else let m' = m\<lparr>executions := s32 (executions m + 1)\<rparr>
           in if executions m mod intensive_interval m \<noteq> 0
              then (m'\<lparr>has_output := False\<rparr>, Inl Interval_Not_Fulfilled)
              else (m'\<lparr>has_output := True\<rparr>, Inr ()))"

subsection \<open>XML\<close>

definition cdata_field :: "string \<Rightarrow> string \<Rightarrow> string" where
  "cdata_field tag v = TAB # ''<'' @ tag @ ''><![CDATA['' @ v @ '']]></'' @ tag @ ''>'' @ [LF]"

definition plain_field :: "string \<Rightarrow> string \<Rightarrow> string" where
  "plain_field tag v = TAB # ''<'' @ tag @ ''>'' @ v @ ''</'' @ tag @ ''>'' @ [LF]"

definition unless_empty :: "(string \<Rightarrow> string \<Rightarrow> string) \<Rightarrow> string \<Rightarrow> string \<Rightarrow> string" where
  "unless_empty field tag v = (if v \<noteq> [] then field tag v else [])"

text \<open>Name, type, description, interval and limits.\<close>

definition xml_identity :: "'d pandora_module \<Rightarrow> string" where
  "xml_identity m =
     ''<module>'' @ [LF] @
     cdata_field ''name'' (mod_name m) @
     cdata_field ''type'' (module_type_str m) @
     unless_empty cdata_field ''description'' (module_description m) @
     cdata_field ''module_interval'' (int_digits (module_interval m)) @
     (if has_min m then cdata_field ''min'' (int_digits (min_value m)) else []) @
     (if has_max m then cdata_field ''max'' (int_digits (max_value m)) else [])"

definition xml_thresholds :: "'d pandora_module \<Rightarrow> string" where
  "xml_thresholds m =
     unless_empty cdata_field ''post_process'' (post_process m) @
     unless_empty cdata_field ''min_critical'' (min_critical m) @
     unless_empty cdata_field ''max_critical'' (max_critical m) @
     unless_empty cdata_field ''min_warning'' (min_warning m) @
     unless_empty cdata_field ''max_warning'' (max_warning m) @
     unless_empty cdata_field ''disabled'' (disabled m) @
     unless_empty cdata_field ''min_ff_event'' (min_ff_event m) @
     unless_empty cdata_field ''unit'' (unit_str m)"

definition xml_extras :: "'d pandora_module \<Rightarrow> string" where
  "xml_extras m =
     unless_empty plain_field ''module_group'' (module_group m) @
     unless_empty plain_field ''custom_id'' (custom_id m) @
     unless_empty plain_field ''str_warning'' (str_warning m) @
     unless_empty plain_field ''str_critical'' (str_critical m) @
     unless_empty plain_field ''critical_instructions'' (critical_instructions m) @
     unless_empty plain_field ''warning_instructions'' (warning_instructions m) @
     unless_empty plain_field ''unknown_instructions'' (unknown_instructions m) @
     unless_empty plain_field ''tags'' (tags m) @
     unless_empty plain_field ''critical_inverse'' (critical_inverse m) @
     unless_empty plain_field ''warning_inverse'' (warning_inverse m) @
     unless_empty plain_field ''quiet'' (quiet m) @
     unless_empty plain_field ''module_ff_interval'' (module_ff_interval m)"

text \<open>
  \<^verbatim>\<open>strreplace (this->getDataOutput (data), "%", "%%")\<close>, with the handler of \<^verbatim>\<open>Output_Error\<close>:
  \<open>None\<close> when the value is left out.
\<close>

definition data_clean :: "'d clib \<Rightarrow> 'd \<Rightarrow> 'd pandora_module \<Rightarrow> pandora_data \<Rightarrow> string option mod_result" where
  "data_clean L junk m d =
     (case getDataOutput L junk m d of
        Inl Output_Error \<Rightarrow> Inr None
      | Inl e \<Rightarrow> Inl e
      | Inr v \<Rightarrow> (case strreplace v ''%'' ''%%'' of None \<Rightarrow> Inl Diverges | Some s \<Rightarrow> Inr (Some s)))"

fun xml_log_items :: "'d clib \<Rightarrow> 'd \<Rightarrow> 'd pandora_module \<Rightarrow> pandora_data list \<Rightarrow> string mod_result" where
  "xml_log_items L junk m [] = Inr []"
| "xml_log_items L junk m (d # ds) =
     (case data_clean L junk m d of
        Inl e \<Rightarrow> Inl e
      | Inr v \<Rightarrow> (case xml_log_items L junk m ds of
                    Inl e \<Rightarrow> Inl e
                  | Inr rest \<Rightarrow> Inr ((case v of None \<Rightarrow> [] | Some s \<Rightarrow> s) @ rest)))"

definition xml_data_item :: "string \<Rightarrow> string \<Rightarrow> string" where
  "xml_data_item v stamp =
     [TAB, TAB] @ ''<data>'' @ [LF, TAB, TAB, TAB] @ ''<value><![CDATA['' @ v @
     '']]></value>'' @ [LF, TAB, TAB, TAB] @ ''<timestamp><![CDATA['' @ stamp @
     '']]></timestamp>'' @ [LF, TAB, TAB] @ ''</data>'' @ [LF]"

fun xml_datalist :: "'d clib \<Rightarrow> 'd \<Rightarrow> 'd pandora_module \<Rightarrow> pandora_data list \<Rightarrow> string mod_result" where
  "xml_datalist L junk m [] = Inr []"
| "xml_datalist L junk m (d # ds) =
     (case data_clean L junk m d of
        Inl e \<Rightarrow> Inl e
      | Inr None \<Rightarrow> xml_datalist L junk m ds
      | Inr (Some v) \<Rightarrow>
          (case getTimestamp_data d of
             Inl e \<Rightarrow> Inl (Cxx e)
           | Inr stamp \<Rightarrow>
               (case xml_datalist L junk m ds of
                  Inl e \<Rightarrow> Inl e
                | Inr rest \<Rightarrow> Inr (xml_data_item v stamp @ rest))))"

definition xml_log :: "'d clib \<Rightarrow> 'd \<Rightarrow> 'd pandora_module \<Rightarrow> pandora_data list \<Rightarrow> string mod_result" where
  "xml_log L junk m ds =
     (if ds = [] then Inl (Cxx Undefined_Behaviour)
      else case xml_log_items L junk m ds of
             Inl e \<Rightarrow> Inl e
           | Inr body \<Rightarrow>
               Inr (''<log_module>'' @ [LF, TAB] @ ''<source><![CDATA['' @ mod_name m @
                    '']]></source>'' @ [LF, TAB] @ ''<data><![CDATA['' @ body @
                    '']]></data></log_module>''))"

definition xml_data :: "'d clib \<Rightarrow> 'd \<Rightarrow> 'd pandora_module \<Rightarrow> pandora_data list \<Rightarrow> string mod_result" where
  "xml_data L junk m ds =
     (case ds of
        [] \<Rightarrow> Inl (Cxx Undefined_Behaviour)
      | [d] \<Rightarrow> (case data_clean L junk m d of
                  Inl e \<Rightarrow> Inl e
                | Inr None \<Rightarrow> Inr []
                | Inr (Some v) \<Rightarrow> Inr (cdata_field ''data'' v))
      | _ \<Rightarrow> (case xml_datalist L junk m ds of
                Inl e \<Rightarrow> Inl e
              | Inr items \<Rightarrow>
                  Inr (TAB # ''<datalist>'' @ [LF] @ items @ TAB # ''</datalist>'' @ [LF])))"

text \<open>An exception other than \<^verbatim>\<open>Output_Error\<close> leaves the module as it was.\<close>

definition getXml :: "'d clib \<Rightarrow> 'd \<Rightarrow> 'd pandora_module \<Rightarrow> 'd pandora_module \<times> string mod_result" where
  "getXml L junk m =
     (if \<not> has_output m then (m, Inr [])
      else case data_list m of
             None \<Rightarrow> (m, Inr [])
           | Some ds \<Rightarrow>
               (if module_type m = TYPE_LOG
                then case xml_log L junk m ds of
                       Inl e \<Rightarrow> (m, Inl e)
                     | Inr xml \<Rightarrow> (cleanDataList m, Inr xml)
                else case xml_data L junk m ds of
                       Inl e \<Rightarrow> (m, Inl e)
                     | Inr xml \<Rightarrow>
                         (cleanDataList m,
                          Inr (xml_identity m @ xml_thresholds m @ xml_extras m @ xml @
                               ''</module>'' @ [LF]))))"

subsection \<open>Settings\<close>

definition setMax :: "int \<Rightarrow> 'd pandora_module \<Rightarrow> 'd pandora_module" where
  "setMax v m = m\<lparr>has_limits := True, has_max := True, max_value := v\<rparr>"

definition setMin :: "int \<Rightarrow> 'd pandora_module \<Rightarrow> 'd pandora_module" where
  "setMin v m = m\<lparr>has_limits := True, has_min := True, min_value := v\<rparr>"

definition setPostProcess :: "string \<Rightarrow> 'd pandora_module \<Rightarrow> 'd pandora_module" where
  "setPostProcess v m = m\<lparr>post_process := v\<rparr>"

definition setMinCritical :: "string \<Rightarrow> 'd pandora_module \<Rightarrow> 'd pandora_module" where
  "setMinCritical v m = m\<lparr>min_critical := v\<rparr>"

definition setMaxCritical :: "string \<Rightarrow> 'd pandora_module \<Rightarrow> 'd pandora_module" where
  "setMaxCritical v m = m\<lparr>max_critical := v\<rparr>"

definition setMinWarning :: "string \<Rightarrow> 'd pandora_module \<Rightarrow> 'd pandora_module" where
  "setMinWarning v m = m\<lparr>min_warning := v\<rparr>"

definition setMaxWarning :: "string \<Rightarrow> 'd pandora_module \<Rightarrow> 'd pandora_module" where
  "setMaxWarning v m = m\<lparr>max_warning := v\<rparr>"

definition setDisabled :: "string \<Rightarrow> 'd pandora_module \<Rightarrow> 'd pandora_module" where
  "setDisabled v m = m\<lparr>disabled := v\<rparr>"

definition setMinFFEvent :: "string \<Rightarrow> 'd pandora_module \<Rightarrow> 'd pandora_module" where
  "setMinFFEvent v m = m\<lparr>min_ff_event := v\<rparr>"

definition setUnit :: "string \<Rightarrow> 'd pandora_module \<Rightarrow> 'd pandora_module" where
  "setUnit v m = m\<lparr>unit_str := v\<rparr>"

definition setModuleGroup :: "string \<Rightarrow> 'd pandora_module \<Rightarrow> 'd pandora_module" where
  "setModuleGroup v m = m\<lparr>module_group := v\<rparr>"

definition setCustomId :: "string \<Rightarrow> 'd pandora_module \<Rightarrow> 'd pandora_module" where
  "setCustomId v m = m\<lparr>custom_id := v\<rparr>"

definition setStrWarning :: "string \<Rightarrow> 'd pandora_module \<Rightarrow> 'd pandora_module" where
  "setStrWarning v m = m\<lparr>str_warning := v\<rparr>"

definition setStrCritical :: "string \<Rightarrow> 'd pandora_module \<Rightarrow> 'd pandora_module" where
  "setStrCritical v m = m\<lparr>str_critical := v\<rparr>"

definition setCriticalInstructions :: "string \<Rightarrow> 'd pandora_module \<Rightarrow> 'd pandora_module" where
  "setCriticalInstructions v m = m\<lparr>critical_instructions := v\<rparr>"

definition setWarningInstructions :: "string \<Rightarrow> 'd pandora_module \<Rightarrow> 'd pandora_module" where
  "setWarningInstructions v m = m\<lparr>warning_instructions := v\<rparr>"

definition setUnknownInstructions :: "string \<Rightarrow> 'd pandora_module \<Rightarrow> 'd pandora_module" where
  "setUnknownInstructions v m = m\<lparr>unknown_instructions := v\<rparr>"

definition setTags :: "string \<Rightarrow> 'd pandora_module \<Rightarrow> 'd pandora_module" where
  "setTags v m = m\<lparr>tags := v\<rparr>"

definition setCriticalInverse :: "string \<Rightarrow> 'd pandora_module \<Rightarrow> 'd pandora_module" where
  "setCriticalInverse v m = m\<lparr>critical_inverse := v\<rparr>"

definition setWarningInverse :: "string \<Rightarrow> 'd pandora_module \<Rightarrow> 'd pandora_module" where
  "setWarningInverse v m = m\<lparr>warning_inverse := v\<rparr>"

definition setQuiet :: "string \<Rightarrow> 'd pandora_module \<Rightarrow> 'd pandora_module" where
  "setQuiet v m = m\<lparr>quiet := v\<rparr>"

definition setModuleFFInterval :: "string \<Rightarrow> 'd pandora_module \<Rightarrow> 'd pandora_module" where
  "setModuleFFInterval v m = m\<lparr>module_ff_interval := v\<rparr>"

definition setDescription :: "string \<Rightarrow> 'd pandora_module \<Rightarrow> 'd pandora_module" where
  "setDescription v m = m\<lparr>module_description := v\<rparr>"

definition setSave :: "string \<Rightarrow> 'd pandora_module \<Rightarrow> 'd pandora_module" where
  "setSave v m = m\<lparr>save := v\<rparr>"

definition setAsync :: "bool \<Rightarrow> 'd pandora_module \<Rightarrow> 'd pandora_module" where
  "setAsync b m = m\<lparr>async := b\<rparr>"

definition setType :: "string \<Rightarrow> 'd pandora_module \<Rightarrow> 'd pandora_module" where
  "setType type m = m\<lparr>module_type_str := type, module_type := parseModuleTypeFromString type\<rparr>"

definition setKind :: "string \<Rightarrow> 'd pandora_module \<Rightarrow> 'd pandora_module" where
  "setKind kind m = m\<lparr>module_kind_str := kind, module_kind := parseModuleKindFromString kind\<rparr>"

definition setInterval :: "int \<Rightarrow> 'd pandora_module \<Rightarrow> 'd pandora_module" where
  "setInterval i m = m\<lparr>module_interval := i\<rparr>"

definition setIntensiveInterval :: "int \<Rightarrow> 'd pandora_module \<Rightarrow> 'd pandora_module" where
  "setIntensiveInterval i m = m\<lparr>intensive_interval := i\<rparr>"

text \<open>Seconds to milliseconds.\<close>

definition setTimeout :: "int \<Rightarrow> 'd pandora_module \<Rightarrow> 'd pandora_module" where
  "setTimeout t m = (if t < 0 then m else m\<lparr>module_timeout := s32 (t * 1000)\<rparr>)"

definition setTimestamp :: "int \<Rightarrow> 'd pandora_module \<Rightarrow> 'd pandora_module" where
  "setTimestamp t m = m\<lparr>timestamp := t\<rparr>"

definition setIntensiveMatch :: "u8 \<Rightarrow> 'd pandora_module \<Rightarrow> 'd pandora_module" where
  "setIntensiveMatch b m = m\<lparr>intensive_match := b\<rparr>"

subsection \<open>Conditions\<close>

text \<open>The letter after \<^verbatim>\<open>]\<close> in \<^verbatim>\<open>"%1023[^\n]s"\<close> is a literal; it is scanned after the last argument.\<close>

definition numeric_format :: "directive list" where
  "numeric_format = [Word 255, Blank, Lf]"

definition regexp_format :: "directive list" where
  "regexp_format = [Literal CHR ''='', Literal CHR ''~'', Blank, Word 1023]"

definition interval_format :: "directive list" where
  "interval_format =
     [Literal CHR ''('', Lf, Blank, Literal CHR '','', Blank, Lf, Literal CHR '')'']"

definition command_format :: "directive list" where
  "command_format = [Blank, Until 1023 LF, Literal CHR ''s'']"

text \<open>What the first \<^verbatim>\<open>sscanf\<close> leaves in \<^verbatim>\<open>value_1\<close>, which starts as 0.\<close>

definition scanned_value_1 :: "'d clib \<Rightarrow> 'd scan_arg list \<Rightarrow> 'd" where
  "scanned_value_1 L args = (case args of [_, Double d] \<Rightarrow> d | _ \<Rightarrow> of_int_d L 0)"

definition command_line :: "string \<Rightarrow> string" where
  "command_line c = ''cmd.exe /c '' @ [DQUOTE] @ c @ [DQUOTE]"

definition push_condition :: "'d condition \<Rightarrow> 'd condition list \<Rightarrow> 'd condition list option" where
  "push_condition c cs = Some (cs @ [c])"

definition addGenericCondition ::
    "'d clib \<Rightarrow> string \<Rightarrow> 'd condition list option \<Rightarrow> 'd condition list option" where
  "addGenericCondition L condition lst =
     (let cs = (case lst of None \<Rightarrow> [] | Some xs \<Rightarrow> xs);
          numeric = sscanf L condition (numeric_format @ command_format)
      in case numeric of
           [Text op, Double v, Text cmd] \<Rightarrow>
             push_condition \<lparr>value_1 = v, value_2 = of_int_d L 0, string_value = [],
               operation = op, command = command_line cmd, regexp = None\<rparr> cs
         | _ \<Rightarrow>
           (case sscanf L condition (regexp_format @ command_format) of
              [Text pattern, Text cmd] \<Rightarrow>
                if reg_compiles L pattern
                then push_condition \<lparr>value_1 = scanned_value_1 L numeric, value_2 = of_int_d L 0,
                       string_value = pattern, operation = ''=~'',
                       command = command_line cmd, regexp = Some pattern\<rparr> cs
                else Some cs
            | _ \<Rightarrow>
              (case sscanf L condition (interval_format @ command_format) of
                 [Double v, Double w, Text cmd] \<Rightarrow>
                   push_condition \<lparr>value_1 = v, value_2 = w, string_value = [],
                     operation = ''()'', command = command_line cmd, regexp = None\<rparr> cs
               | _ \<Rightarrow> Some cs)))"

definition addCondition :: "'d clib \<Rightarrow> string \<Rightarrow> 'd pandora_module \<Rightarrow> 'd pandora_module" where
  "addCondition L condition m =
     m\<lparr>condition_list := addGenericCondition L condition (condition_list m)\<rparr>"

definition addPreCondition :: "'d clib \<Rightarrow> string \<Rightarrow> 'd pandora_module \<Rightarrow> 'd pandora_module" where
  "addPreCondition L condition m =
     m\<lparr>precondition_list := addGenericCondition L condition (precondition_list m)\<rparr>"

definition intensive_condition ::
    "'d clib \<Rightarrow> string \<Rightarrow> 'd condition list \<Rightarrow> 'd condition list option" where
  "intensive_condition L condition cs =
     (case sscanf L condition numeric_format of
        [Text op, Double v] \<Rightarrow>
          push_condition \<lparr>value_1 = v, value_2 = of_int_d L 0, string_value = [],
            operation = op, command = [], regexp = None\<rparr> cs
      | _ \<Rightarrow>
        (case sscanf L condition regexp_format of
           [Text pattern] \<Rightarrow>
             if reg_compiles L pattern
             then push_condition \<lparr>value_1 = of_int_d L 0, value_2 = of_int_d L 0,
                    string_value = pattern, operation = ''=~'', command = [],
                    regexp = Some pattern\<rparr> cs
             else Some cs
         | _ \<Rightarrow>
           (case sscanf L condition interval_format of
              [Double v, Double w] \<Rightarrow>
                push_condition \<lparr>value_1 = v, value_2 = w, string_value = [],
                  operation = ''()'', command = [], regexp = None\<rparr> cs
            | _ \<Rightarrow> Some cs)))"

definition addIntensiveCondition :: "'d clib \<Rightarrow> string \<Rightarrow> 'd pandora_module \<Rightarrow> 'd pandora_module" where
  "addIntensiveCondition L condition m =
     m\<lparr>intensive_condition_list :=
         intensive_condition L condition
           (case intensive_condition_list m of None \<Rightarrow> [] | Some xs \<Rightarrow> xs)\<rparr>"

text \<open>\<^verbatim>\<open>regexec\<close> on a \<^verbatim>\<open>regex_t\<close> that was never compiled is undefined.\<close>

definition evaluateCondition :: "'d clib \<Rightarrow> string \<Rightarrow> 'd \<Rightarrow> 'd condition \<Rightarrow> bool result" where
  "evaluateCondition L string_val double_val c =
     (if operation c = ''>'' \<and> less_d L (value_1 c) double_val \<or>
         operation c = ''<'' \<and> less_d L double_val (value_1 c) \<or>
         operation c = ''='' \<and> eq_d L double_val (value_1 c) \<or>
         operation c = ''!='' \<and> \<not> eq_d L double_val (value_1 c)
      then Inr True
      else if operation c = ''=~''
      then (case regexp c of
              None \<Rightarrow> Inl Undefined_Behaviour
            | Some pattern \<Rightarrow> Inr (reg_matches L pattern (c_str string_val)))
      else Inr (operation c = ''()'' \<and> less_d L (value_1 c) double_val \<and>
                less_d L double_val (value_2 c)))"

text \<open>\<^verbatim>\<open>strtodouble\<close> with the handler that makes a failed conversion 0.\<close>

definition double_or_zero :: "'d clib \<Rightarrow> 'd \<Rightarrow> string \<Rightarrow> 'd" where
  "double_or_zero L junk s =
     (case strtodouble (scan_le L) junk s of Inl _ \<Rightarrow> of_int_d L 0 | Inr d \<Rightarrow> d)"

text \<open>
  The commands of the conditions that match, in order, up to the first whose process cannot
  be created.
\<close>

fun run_conditions ::
    "'d clib \<Rightarrow> (string \<Rightarrow> bool) \<Rightarrow> string \<Rightarrow> 'd \<Rightarrow> 'd condition list \<Rightarrow> string list result" where
  "run_conditions L spawn sv dv [] = Inr []"
| "run_conditions L spawn sv dv (c # cs) =
     (case evaluateCondition L sv dv c of
        Inl e \<Rightarrow> Inl e
      | Inr False \<Rightarrow> run_conditions L spawn sv dv cs
      | Inr True \<Rightarrow>
          if spawn (command c)
          then map_sum (\<lambda>e. e) (\<lambda>ran. command c # ran) (run_conditions L spawn sv dv cs)
          else Inr [])"

definition evaluateConditions ::
    "'d clib \<Rightarrow> 'd \<Rightarrow> (string \<Rightarrow> bool) \<Rightarrow> 'd pandora_module \<Rightarrow> string list result" where
  "evaluateConditions L junk spawn m =
     (if \<not> has_output m then Inr []
      else case data_list m of
             None \<Rightarrow> Inr []
           | Some [] \<Rightarrow> Inl Undefined_Behaviour
           | Some (d # _) \<Rightarrow>
               (case condition_list m of
                  None \<Rightarrow> Inr []
                | Some cs \<Rightarrow>
                    run_conditions L spawn (data_value d) (double_or_zero L junk (data_value d)) cs))"

fun all_conditions :: "'d clib \<Rightarrow> string \<Rightarrow> 'd \<Rightarrow> 'd condition list \<Rightarrow> bool result" where
  "all_conditions L sv dv [] = Inr True"
| "all_conditions L sv dv (c # cs) =
     (case evaluateCondition L sv dv c of
        Inl e \<Rightarrow> Inl e
      | Inr False \<Rightarrow> Inr False
      | Inr True \<Rightarrow> all_conditions L sv dv cs)"

definition evaluateIntensiveConditions :: "'d clib \<Rightarrow> 'd \<Rightarrow> 'd pandora_module \<Rightarrow> bool result" where
  "evaluateIntensiveConditions L junk m =
     (case intensive_condition_list m of
        None \<Rightarrow> Inr True
      | Some [] \<Rightarrow> Inr True
      | Some cs \<Rightarrow>
          if \<not> has_output m then Inr False
          else case data_list m of
                 None \<Rightarrow> Inr False
               | Some [] \<Rightarrow> Inl Undefined_Behaviour
               | Some (d # _) \<Rightarrow>
                   all_conditions L (data_value d) (double_or_zero L junk (data_value d)) cs)"

subsection \<open>Preconditions\<close>

text \<open>
  A precondition runs its command in a child process.  One pass of the loop that waits for the
  process is a \<open>poll\<close>: the result of \<^verbatim>\<open>WaitForSingleObject\<close>, what was read from the pipe when
  something was available, and the milliseconds since the process was started.  When the polls
  run out the loop has not ended yet.
\<close>

datatype wait_result = WAIT_OBJECT_0 | WAIT_TIMEOUT | WAIT_ABANDONED

record poll =
  poll_wait :: wait_result
  poll_read :: "string option"
  poll_ticks :: u32

datatype launch = No_Job | No_Pipe | No_Process | Launched "poll list" u32

fun wait_loop :: "'d clib \<Rightarrow> 'd \<Rightarrow> int \<Rightarrow> poll list \<Rightarrow> string \<Rightarrow> 'd \<Rightarrow> (string \<times> 'd) option" where
  "wait_loop L junk timeout [] output dbl = None"
| "wait_loop L junk timeout (p # ps) output dbl =
     (if poll_wait p = WAIT_ABANDONED then Some (output, dbl)
      else let output' = (case poll_read p of None \<Rightarrow> output | Some b \<Rightarrow> output @ c_str b);
               dbl' = double_or_zero L junk output'
           in if poll_wait p = WAIT_OBJECT_0 \<or> word_of_int timeout < poll_ticks p
              then Some (output', dbl')
              else wait_loop L junk timeout ps output' dbl')"

text \<open>
  The variables \<^verbatim>\<open>output\<close> and \<^verbatim>\<open>double_output\<close> are declared before the loop over the preconditions:
  a process that could not be created is judged by the output of the one before it.
\<close>

fun run_preconditions ::
    "'d clib \<Rightarrow> 'd \<Rightarrow> int \<Rightarrow> string \<Rightarrow> 'd \<Rightarrow> ('d condition \<times> launch) list \<Rightarrow> bool mod_result" where
  "run_preconditions L junk timeout output dbl [] = Inr True"
| "run_preconditions L junk timeout output dbl ((c, l) # rest) =
     (case (case l of
              No_Job \<Rightarrow> Inr None
            | No_Pipe \<Rightarrow> Inr None
            | No_Process \<Rightarrow> Inr (Some (output, dbl))
            | Launched polls retval \<Rightarrow>
                (case wait_loop L junk timeout polls [] dbl of
                   None \<Rightarrow> Inl Diverges
                 | Some r \<Rightarrow> if retval \<noteq> 0 then Inr None else Inr (Some r))) of
        Inl e \<Rightarrow> Inl e
      | Inr None \<Rightarrow> Inr False
      | Inr (Some (output', dbl')) \<Rightarrow>
          (case evaluateCondition L output' dbl' c of
             Inl e \<Rightarrow> Inl (Cxx e)
           | Inr False \<Rightarrow> Inr False
           | Inr True \<Rightarrow> run_preconditions L junk timeout output' dbl' rest))"

definition evaluatePreconditions ::
    "'d clib \<Rightarrow> 'd \<Rightarrow> (nat \<Rightarrow> launch) \<Rightarrow> 'd pandora_module \<Rightarrow> bool mod_result" where
  "evaluatePreconditions L junk launches m =
     (case precondition_list m of
        None \<Rightarrow> Inr True
      | Some cs \<Rightarrow>
          run_preconditions L junk (module_timeout m) [] junk
            (zip cs (map launches [0..<length cs])))"

subsection \<open>Cron\<close>

record tm =
  tm_min :: int
  tm_hour :: int
  tm_mday :: int
  tm_mon :: int
  tm_wday :: int

definition time_params :: "tm \<Rightarrow> int list" where
  "time_params t = [tm_min t, tm_hour t, tm_mday t, tm_mon t + 1, tm_wday t]"

fun cron_matches :: "(int \<times> int) list \<Rightarrow> int list \<Rightarrow> bool" where
  "cron_matches ((bottom, upper) # ps) (t # ts) =
     (if bottom < 0 then cron_matches ps ts
      else if bottom \<le> upper
      then (if t < bottom \<or> t > upper then False else cron_matches ps ts)
      else (if t < bottom \<and> t > upper then False else cron_matches ps ts))"
| "cron_matches _ _ = True"

definition cron_offset :: "cron \<Rightarrow> int" where
  "cron_offset c =
     (let bottom = (\<lambda>i. fst (cron_params c ! i))
      in if cron_interval c \<ge> 0 then cron_interval c
         else if bottom 0 \<ge> 0 then 60
         else if bottom 1 \<ge> 0 then 3600
         else if bottom 2 \<ge> 0 \<or> bottom 4 \<ge> 0 then 86400
         else if bottom 3 \<ge> 0 then 2678400
         else 0)"

text \<open>\<^verbatim>\<open>time_t\<close> has 32 bits.\<close>

definition checkCron ::
    "(int \<Rightarrow> tm option) \<Rightarrow> int \<Rightarrow> 'd pandora_module \<Rightarrow> bool \<times> 'd pandora_module" where
  "checkCron localtime current_time m =
     (case cron m of
        None \<Rightarrow> (True, m)
      | Some c \<Rightarrow>
          if current_time \<le> utimestamp c then (False, m)
          else case localtime current_time of
                 None \<Rightarrow> (True, m)
               | Some t \<Rightarrow>
                   if \<not> cron_matches (cron_params c) (time_params t) then (False, m)
                   else (True, m\<lparr>cron :=
                           Some (c\<lparr>utimestamp := s32 (current_time + cron_offset c)\<rparr>)\<rparr>))"

text \<open>\<^verbatim>\<open>new Cron ()\<close> fills the structure with zeros.\<close>

definition newCron :: cron where
  "newCron = \<lparr>utimestamp = 0, cron_interval = 0, cron_params = replicate 5 (0, 0)\<rparr>"

definition cron_range_format :: "directive list" where
  "cron_range_format = [Until 255 CHR ''-'', Literal CHR ''-'', Word 255]"

definition cron_param :: "'d clib \<Rightarrow> string \<Rightarrow> int \<times> int \<Rightarrow> (int \<times> int) result" where
  "cron_param L s old =
     (if str_head s = CHR ''*'' then Inr (-1, snd old)
      else case sscanf L s cron_range_format of
             [Text bottom, Text upper] \<Rightarrow>
               (case atoi bottom of
                  Inl e \<Rightarrow> Inl e
                | Inr b \<Rightarrow> (case atoi upper of Inl e \<Rightarrow> Inl e | Inr t \<Rightarrow> Inr (b, t)))
           | _ \<Rightarrow> (case atoi s of Inl e \<Rightarrow> Inl e | Inr v \<Rightarrow> Inr (v, v)))"

fun cron_fields :: "'d clib \<Rightarrow> string list \<Rightarrow> (int \<times> int) list \<Rightarrow> (int \<times> int) list result" where
  "cron_fields L (s # ss) (old # olds) =
     (case cron_param L s old of
        Inl e \<Rightarrow> Inl e
      | Inr p \<Rightarrow> map_sum (\<lambda>e. e) (\<lambda>ps. p # ps) (cron_fields L ss olds))"
| "cron_fields L _ olds = Inr olds"

definition setCron :: "'d clib \<Rightarrow> string \<Rightarrow> 'd pandora_module \<Rightarrow> 'd pandora_module result" where
  "setCron L cron_string m =
     (let c = (case cron m of None \<Rightarrow> newCron | Some c \<Rightarrow> c)
      in case sscanf L cron_string
                [Word 255, Blank, Word 255, Blank, Word 255, Blank, Word 255, Blank, Word 255] of
           [Text p0, Text p1, Text p2, Text p3, Text p4] \<Rightarrow>
             (case cron_fields L [p0, p1, p2, p3, p4] (cron_params c) of
                Inl e \<Rightarrow> Inl e
              | Inr ps \<Rightarrow>
                  Inr (m\<lparr>cron := Some \<lparr>utimestamp = 0, cron_interval = -1, cron_params = ps\<rparr>\<rparr>))
         | _ \<Rightarrow> Inr (m\<lparr>cron := Some c\<rparr>))"

definition setCronInterval :: "int \<Rightarrow> 'd pandora_module \<Rightarrow> 'd pandora_module" where
  "setCronInterval i m =
     m\<lparr>cron := Some ((case cron m of None \<Rightarrow> newCron | Some c \<Rightarrow> c)\<lparr>cron_interval := i\<rparr>)\<rparr>"

section \<open>Running\<close>

lemma run_steps:
  assumes "intensive_interval m > 0" and "executions m = 0" and "int n < 2 ^ 31 - 1"
  shows "executions (((\<lambda>m. fst (run m)) ^^ n) m) = int n
       \<and> intensive_interval (((\<lambda>m. fst (run m)) ^^ n) m) = intensive_interval m"
  using assms(3)
proof (induction n)
  case 0
  with assms show ?case by simp
next
  case (Suc n)
  with assms(1) show ?case
    by (simp add: run_def s32_id fits_s32_def Let_def)
qed

lemma run_at:
  assumes "intensive_interval m > 0" and "executions m = int n" and "int n < 2 ^ 31 - 1"
  shows "snd (run m) = (if n mod nat (intensive_interval m) = 0 then Inr () else Inl Interval_Not_Fulfilled)"
    and "has_output (fst (run m)) \<longleftrightarrow> n mod nat (intensive_interval m) = 0"
proof -
  have "(int n mod intensive_interval m = 0) = (n mod nat (intensive_interval m) = 0)"
    using assms(1) by (metis int_nat_eq int_ops(1) less_le nat_mod_as_int zmod_int of_nat_eq_iff)
  with assms show "snd (run m) = (if n mod nat (intensive_interval m) = 0 then Inr () else Inl Interval_Not_Fulfilled)"
    and "has_output (fst (run m)) \<longleftrightarrow> n mod nat (intensive_interval m) = 0"
    by (simp_all add: run_def Let_def)
qed

section \<open>Scanning\<close>

lemma scan_word:
  assumes "w \<noteq> []" and "\<forall>c\<in>set w. \<not> is_space c" and "length w \<le> n"
    and "s = [] \<or> is_space (hd s)"
  shows "sscanf_args L (Word n # ds) (w @ s) = Text w # sscanf_args L ds s"
proof -
  have d: "dropWhile is_space (w @ s) = w @ s"
    using assms(1,2) by (cases w) auto
  have t: "takeWhile (\<lambda>x. \<not> is_space x) (w @ s) = w"
    using assms(2,4) by (cases s) (auto simp: takeWhile_append)
  have "0 < n" using assms(1,3) by (cases w) auto
  then show ?thesis using assms(1,3) by (simp add: d t Let_def)
qed

lemma scan_blank_word:
  assumes "w \<noteq> []" and "\<forall>c\<in>set w. \<not> is_space c" and "length w \<le> n"
    and "s = [] \<or> is_space (hd s)"
  shows "sscanf_args L (Blank # Word n # ds) (SPC # w @ s) = Text w # sscanf_args L ds s"
proof -
  have "dropWhile is_space (SPC # w @ s) = w @ s"
    using assms(1,2) by (cases w) (auto simp: is_space_def)
  then show ?thesis using scan_word[OF assms] by (simp only: sscanf_args.simps)
qed

section \<open>Cron expressions\<close>

text \<open>
  What a field of a cron expression says: any value, one value, or a range, which wraps around
  when its first bound is the larger one.
\<close>

datatype cron_field = Any | At nat | Between nat nat

fun cron_field_text :: "cron_field \<Rightarrow> string" where
  "cron_field_text Any = ''*''"
| "cron_field_text (At n) = nat_digits n"
| "cron_field_text (Between a b) = nat_digits a @ ''-'' @ nat_digits b"

fun cron_field_ok :: "cron_field \<Rightarrow> bool" where
  "cron_field_ok Any = True"
| "cron_field_ok (At n) = (n < 2 ^ 31)"
| "cron_field_ok (Between a b) = (a < 2 ^ 31 \<and> b < 2 ^ 31)"

fun cron_field_holds :: "cron_field \<Rightarrow> int \<Rightarrow> bool" where
  "cron_field_holds Any t = True"
| "cron_field_holds (At n) t = (t = int n)"
| "cron_field_holds (Between a b) t =
     (if a \<le> b then int a \<le> t \<and> t \<le> int b else int a \<le> t \<or> t \<le> int b)"

definition cron_text :: "cron_field list \<Rightarrow> string" where
  "cron_text fs = concat (map (\<lambda>f. cron_field_text f @ [SPC]) (butlast fs)) @ cron_field_text (last fs)"

fun cron_field_params :: "cron_field \<Rightarrow> int \<Rightarrow> int \<times> int" where
  "cron_field_params Any old = (-1, old)"
| "cron_field_params (At n) old = (int n, int n)"
| "cron_field_params (Between a b) old = (int a, int b)"

lemma nat_digits_length: "0 < k \<Longrightarrow> n < 10 ^ k \<Longrightarrow> length (nat_digits n) \<le> k"
proof (induction k arbitrary: n)
  case 0
  then show ?case by simp
next
  case (Suc k)
  show ?case
  proof (cases "n < 10")
    case True
    then show ?thesis by (subst nat_digits.simps) simp
  next
    case False
    then have "k \<noteq> 0" using Suc.prems(2) by (cases k) auto
    moreover have "n div 10 < 10 ^ k" using Suc.prems(2) by (simp add: less_mult_imp_div_less mult.commute)
    ultimately have "length (nat_digits (n div 10)) \<le> k" using Suc.IH by simp
    with False show ?thesis by (subst nat_digits.simps) simp
  qed
qed

lemma nat_digits_chars:
  "c \<in> set (nat_digits n) \<Longrightarrow> \<not> is_space c \<and> c \<noteq> NUL \<and> c \<noteq> CHR ''-'' \<and> c \<noteq> CHR ''*''"
  using nat_digits_are_digits[of n] is_digit_not_space is_digit_not_sign
  by (fastforce simp: is_digit_def)

lemma atoi_nat_digits: "n < 2 ^ 31 \<Longrightarrow> atoi (nat_digits n) = Inr (int n)"
proof -
  assume "n < 2 ^ 31"
  moreover have "c_str (nat_digits n) = nat_digits n"
    using nat_digits_chars by (intro c_str_id) blast
  moreover have "scan_decimal (nat_digits n) = Some (int n)"
    using scan_decimal_digits(1)[OF nat_digits_not_Nil nat_digits_are_digits]
    by (simp add: digits_val_nat_digits)
  ultimately show ?thesis by (simp add: atoi_def fits_s32_def)
qed

lemma short_digits: "n < 2 ^ 31 \<Longrightarrow> length (nat_digits n) \<le> 10"
  by (rule nat_digits_length) auto

lemma cron_field_text_word:
  assumes "cron_field_ok f"
  shows "cron_field_text f \<noteq> []" and "\<forall>c\<in>set (cron_field_text f). \<not> is_space c"
    and "NUL \<notin> set (cron_field_text f)" and "length (cron_field_text f) \<le> 255"
proof -
  show "cron_field_text f \<noteq> []" by (cases f) auto
  show "\<forall>c\<in>set (cron_field_text f). \<not> is_space c" and "NUL \<notin> set (cron_field_text f)"
    using nat_digits_chars by (cases f; fastforce simp: is_space_def)+
  show "length (cron_field_text f) \<le> 255"
  proof (cases f)
    case (At n)
    with assms short_digits[of n] show ?thesis by simp
  next
    case (Between a b)
    with assms short_digits[of a] short_digits[of b] show ?thesis by simp
  qed simp
qed

lemma scan_cron_range:
  assumes "a < 2 ^ 31" and "b < 2 ^ 31"
  shows "sscanf L (nat_digits a @ CHR ''-'' # nat_digits b) cron_range_format
           = [Text (nat_digits a), Text (nat_digits b)]"
    and "sscanf L (nat_digits a) cron_range_format = [Text (nat_digits a)]"
proof -
  have c: "c_str (nat_digits a @ CHR ''-'' # nat_digits b) = nat_digits a @ CHR ''-'' # nat_digits b"
    "c_str (nat_digits a) = nat_digits a"
    using nat_digits_chars[of NUL] by (auto intro!: c_str_id)
  have t: "takeWhile (\<lambda>x. x \<noteq> CHR ''-'') (nat_digits a @ CHR ''-'' # nat_digits b) = nat_digits a"
    "takeWhile (\<lambda>x. x \<noteq> CHR ''-'') (nat_digits a) = nat_digits a"
    using nat_digits_chars by (auto simp: takeWhile_append)
  have l: "length (nat_digits a) \<le> 255" "length (nat_digits b) \<le> 255"
    using short_digits[OF assms(1)] short_digits[OF assms(2)] by auto
  have w: "sscanf_args L [Word 255] (nat_digits b) = [Text (nat_digits b)]"
    using scan_word[of "nat_digits b" 255 "[]" L "[]"] nat_digits_chars l(2) by auto
  show "sscanf L (nat_digits a @ CHR ''-'' # nat_digits b) cron_range_format
           = [Text (nat_digits a), Text (nat_digits b)]"
    using l w by (simp add: sscanf_def cron_range_format_def c t Let_def del: sscanf_args.simps(4))
  show "sscanf L (nat_digits a) cron_range_format = [Text (nat_digits a)]"
    using l by (simp add: sscanf_def cron_range_format_def c t Let_def)
qed

lemma cron_param_field:
  assumes "cron_field_ok f"
  shows "cron_param L (cron_field_text f) old = Inr (cron_field_params f (snd old))"
proof -
  have h: "str_head (nat_digits n @ s) \<noteq> CHR ''*''" for n s
    using nat_digits_chars[of "hd (nat_digits n)" n] by (cases "nat_digits n") (auto simp: str_head_def)
  show ?thesis
  proof (cases f)
    case Any
    then show ?thesis by (simp add: cron_param_def str_head_def)
  next
    case (At n)
    with assms h[of n "[]"] show ?thesis by (simp add: cron_param_def scan_cron_range(2) atoi_nat_digits)
  next
    case (Between a b)
    with assms h[of a] show ?thesis by (simp add: cron_param_def scan_cron_range(1) atoi_nat_digits)
  qed
qed

lemma cron_fields_text:
  assumes "\<forall>f\<in>set fs. cron_field_ok f" and "length olds = length fs"
  shows "cron_fields L (map cron_field_text fs) olds
           = Inr (map2 (\<lambda>f old. cron_field_params f (snd old)) fs olds)"
  using assms
proof (induction fs arbitrary: olds)
  case (Cons f fs)
  then show ?case by (cases olds) (auto simp: cron_param_field)
qed simp

lemma scan_cron_text:
  assumes "\<forall>f\<in>{f0, f1, f2, f3, f4}. cron_field_ok f"
  shows "sscanf L (cron_text [f0, f1, f2, f3, f4])
           [Word 255, Blank, Word 255, Blank, Word 255, Blank, Word 255, Blank, Word 255]
         = map (\<lambda>f. Text (cron_field_text f)) [f0, f1, f2, f3, f4]"
proof -
  let ?t = "cron_text [f0, f1, f2, f3, f4]"
  have "NUL \<notin> set ?t"
    using cron_field_text_word(3) assms by (auto simp: cron_text_def)
  then have c: "c_str ?t = ?t" by (rule c_str_id)
  have first: "sscanf_args L (Word 255 # ds) (cron_field_text f0 @ SPC # s)
      = Text (cron_field_text f0) # sscanf_args L ds (SPC # s)" for ds s
    using cron_field_text_word[of f0] assms by (intro scan_word) (auto simp: is_space_def)
  have rest: "sscanf_args L (Blank # Word 255 # ds) (SPC # cron_field_text f @ s)
      = Text (cron_field_text f) # sscanf_args L ds s"
    if "f \<in> {f1, f2, f3, f4}" "s = [] \<or> hd s = SPC" for f ds s
    using cron_field_text_word[of f] assms that by (intro scan_blank_word) (auto simp: is_space_def)
  show ?thesis
    using first rest rest[of f4 "[]" "[]"] unfolding sscanf_def c
    by (simp add: cron_text_def del: sscanf_args.simps(2,4))
qed

lemma cron_matches_fields:
  assumes "length olds = length fs" and "length ts = length fs"
  shows "cron_matches (map2 (\<lambda>f old. cron_field_params f (snd old)) fs olds) ts
           \<longleftrightarrow> list_all2 cron_field_holds fs ts"
  using assms
proof (induction fs arbitrary: olds ts)
  case (Cons f fs)
  then obtain old os t us where "olds = old # os" "ts = t # us"
    by (metis length_Suc_conv)
  with Cons show ?case by (cases f) auto
qed simp

lemma setCron_params:
  assumes "\<forall>f\<in>{f0, f1, f2, f3, f4}. cron_field_ok f"
    and "cron m = None \<or> length (cron_params (the (cron m))) = 5"
  obtains ps where "setCron L (cron_text [f0, f1, f2, f3, f4]) m
      = Inr (m\<lparr>cron := Some \<lparr>utimestamp = 0, cron_interval = -1, cron_params = ps\<rparr>\<rparr>)"
    and "length ps = 5"
    and "\<forall>ts. length ts = 5 \<longrightarrow>
           cron_matches ps ts = list_all2 cron_field_holds [f0, f1, f2, f3, f4] ts"
proof -
  let ?fs = "[f0, f1, f2, f3, f4]"
  define c where "c = (case cron m of None \<Rightarrow> newCron | Some c \<Rightarrow> c)"
  define ps where "ps = map2 (\<lambda>f old. cron_field_params f (snd old)) ?fs (cron_params c)"
  have len: "length (cron_params c) = length ?fs"
    using assms(2) by (auto simp: c_def newCron_def split: option.splits)
  have "cron_fields L (map cron_field_text ?fs) (cron_params c) = Inr ps"
    unfolding ps_def using assms(1) len by (intro cron_fields_text) auto
  then have "setCron L (cron_text ?fs) m
      = Inr (m\<lparr>cron := Some \<lparr>utimestamp = 0, cron_interval = -1, cron_params = ps\<rparr>\<rparr>)"
    using scan_cron_text[OF assms(1), of L] by (simp add: setCron_def c_def[symmetric])
  moreover have "length ps = 5" using len by (simp add: ps_def)
  moreover have "cron_matches ps ts = list_all2 cron_field_holds ?fs ts" if "length ts = 5" for ts
    unfolding ps_def using len that by (intro cron_matches_fields) simp_all
  ultimately show ?thesis using that by blast
qed

section \<open>Facts about conditions\<close>

lemma scan_lf_blank:
  assumes "scan_lf L (num @ s) = Some (v, r)" and "num \<noteq> []" and "\<not> is_space (hd num)"
  shows "sscanf_args L (Blank # Lf # ds) (SPC # num @ s) = Double v # sscanf_args L ds r"
proof -
  have "dropWhile is_space (SPC # num @ s) = num @ s" "dropWhile is_space (num @ s) = num @ s"
    using assms(2,3) by (cases num; auto simp: is_space_def)+
  with assms(1) show ?thesis by simp
qed

lemma scan_command:
  assumes "cmd \<noteq> []" and "\<not> is_space (hd cmd)" and "LF \<notin> set cmd" and "length cmd \<le> 1023"
  shows "sscanf_args L command_format (SPC # cmd) = [Text cmd]"
proof -
  have "dropWhile is_space (SPC # cmd) = cmd"
    using assms(1,2) by (cases cmd) (auto simp: is_space_def)
  moreover have "takeWhile (\<lambda>x. x \<noteq> LF) cmd = cmd" using assms(3) by auto
  ultimately show ?thesis using assms(1,4) by (simp add: command_format_def Let_def)
qed

text \<open>A line \<open>op num cmd\<close> whose second word starts like a number.\<close>

lemma numeric_condition:
  assumes op: "op \<noteq> []" "\<forall>c\<in>set op. \<not> is_space c" "length op \<le> 255"
    and num: "scan_lf L (num @ SPC # cmd) = Some (v, SPC # cmd)" "num \<noteq> []" "\<not> is_space (hd num)"
    and cmd: "cmd \<noteq> []" "\<not> is_space (hd cmd)" "LF \<notin> set cmd" "length cmd \<le> 1023"
    and nul: "NUL \<notin> set (op @ num @ cmd)"
  shows "addGenericCondition L (op @ [SPC] @ num @ [SPC] @ cmd) lst
    = Some (case_option [] (\<lambda>cs. cs) lst @
        [\<lparr>value_1 = v, value_2 = of_int_d L 0, string_value = [], operation = op,
          command = command_line cmd, regexp = None\<rparr>])"
proof -
  let ?s = "op @ [SPC] @ num @ [SPC] @ cmd"
  have c: "c_str ?s = ?s" using nul by (intro c_str_id) auto
  have "sscanf_args L (Word 255 # (Blank # Lf # command_format)) (op @ SPC # num @ SPC # cmd)
      = [Text op, Double v, Text cmd]"
    using scan_word[OF op, of "SPC # num @ SPC # cmd" L "Blank # Lf # command_format"]
      scan_lf_blank[OF num, of command_format] scan_command[OF cmd, of L]
    by (simp add: is_space_def)
  then have "sscanf L ?s (numeric_format @ command_format) = [Text op, Double v, Text cmd]"
    unfolding sscanf_def c by (simp add: numeric_format_def)
  then show ?thesis by (simp add: addGenericCondition_def push_condition_def split: option.splits)
qed

section \<open>Properties\<close>

text \<open>A module executes in exactly one of every \<open>intensive_interval\<close> calls of \<^verbatim>\<open>run\<close>: the call
  with number \<open>n\<close>, counted from 0, leaves the module with output pending if \<open>n\<close> is a multiple of
  the interval and throws \<^verbatim>\<open>Interval_Not_Fulfilled\<close> otherwise, as long as the counter fits an
  \<^verbatim>\<open>int\<close>.\<close>

theorem run_schedule:
  assumes "intensive_interval m > 0" and "executions m = 0" and "int n < 2 ^ 31 - 1"
  shows "let m' = ((\<lambda>m. fst (run m)) ^^ n) m
         in snd (run m') = (if n mod nat (intensive_interval m) = 0 then Inr ()
                            else Inl Interval_Not_Fulfilled)
          \<and> has_output (fst (run m')) = (n mod nat (intensive_interval m) = 0)"
  using run_at[of "((\<lambda>m. fst (run m)) ^^ n) m" n] run_steps[OF assms] assms by (simp add: Let_def)

text \<open>(C16) A cron expression of five fields, each \<^verbatim>\<open>*\<close>, a number or a range, is read by \<^verbatim>\<open>setCron\<close>
  without an error, and the first \<^verbatim>\<open>checkCron\<close> after it lets the module run exactly when the
  minute, hour, day, month (1 to 12) and weekday of the local time satisfy the five fields;
  a range whose first bound is larger wraps around.\<close>

theorem setCron_schedules:
  assumes "\<forall>f\<in>{f0, f1, f2, f3, f4}. cron_field_ok f"
    and "cron m = None \<or> length (cron_params (the (cron m))) = 5"
    and "localtime now = Some t" and "0 < now"
  shows "\<exists>m' m''. setCron L (cron_text [f0, f1, f2, f3, f4]) m = Inr m'
           \<and> checkCron localtime now m' =
               (cron_field_holds f0 (tm_min t) \<and> cron_field_holds f1 (tm_hour t)
                    \<and> cron_field_holds f2 (tm_mday t) \<and> cron_field_holds f3 (tm_mon t + 1)
                    \<and> cron_field_holds f4 (tm_wday t), m'')"
proof -
  obtain ps where set: "setCron L (cron_text [f0, f1, f2, f3, f4]) m
      = Inr (m\<lparr>cron := Some \<lparr>utimestamp = 0, cron_interval = -1, cron_params = ps\<rparr>\<rparr>)"
    and len: "length ps = 5"
    and match: "\<forall>ts. length ts = 5 \<longrightarrow>
           cron_matches ps ts = list_all2 cron_field_holds [f0, f1, f2, f3, f4] ts"
    by (rule setCron_params[OF assms(1,2)])
  show ?thesis
    using set assms(3,4) match[rule_format, of "time_params t"]
    by (simp add: checkCron_def time_params_def)
qed


text \<open>A cron string without five fields is not ignored: \<^verbatim>\<open>setCron\<close> has already created a cron
  structure full of zeros, which asks for day 0, so no check ever lets the module run.\<close>

theorem invalid_cron_never_runs:
  assumes "length (sscanf L s [Word 255, Blank, Word 255, Blank, Word 255, Blank, Word 255, Blank, Word 255]) \<noteq> 5"
    and "cron m = None" and "\<forall>x t. localtime x = Some t \<longrightarrow> 1 \<le> tm_mday t" and "localtime now \<noteq> None"
  shows "\<exists>m'. setCron L s m = Inr m' \<and> checkCron localtime now m' = (False, m')"
proof -
  have "setCron L s m = Inr (m\<lparr>cron := Some newCron\<rparr>)"
    using assms(1,2) by (auto simp: setCron_def split: list.splits scan_arg.splits)
  moreover obtain t where t: "localtime now = Some t" using assms(4) by auto
  from assms(3) t have "1 \<le> tm_mday t" by blast
  then have "\<not> cron_matches (cron_params newCron) (time_params t)"
    by (simp add: newCron_def time_params_def numeral_eq_Suc)
  ultimately show ?thesis
    using t by (simp add: checkCron_def)
qed

text \<open>A condition \<open>op number command\<close> with one of the four comparison operators is kept,
  with its command wrapped for \<^verbatim>\<open>cmd.exe\<close>, and holds exactly when the comparison of the value with
  the number does.\<close>

theorem comparison_condition:
  assumes "op \<in> {''>'', ''<'', ''='', ''!=''}"
    and "scan_lf L (num @ SPC # cmd) = Some (v, SPC # cmd)" and "num \<noteq> []" and "\<not> is_space (hd num)"
    and "cmd \<noteq> []" and "\<not> is_space (hd cmd)" and "LF \<notin> set cmd" and "length cmd \<le> 1023"
    and "NUL \<notin> set (num @ cmd)"
  shows "\<exists>c. addGenericCondition L (op @ [SPC] @ num @ [SPC] @ cmd) None = Some [c]
           \<and> command c = ''cmd.exe /c '' @ [DQUOTE] @ cmd @ [DQUOTE]
           \<and> (\<forall>s x. evaluateCondition L s x c =
                Inr (if op = ''>'' then less_d L v x else if op = ''<'' then less_d L x v
                     else if op = ''='' then eq_d L x v else \<not> eq_d L x v))"
proof -
  have "op \<noteq> []" "\<forall>c\<in>set op. \<not> is_space c" "length op \<le> 255" "NUL \<notin> set (op @ num @ cmd)"
    using assms(1,9) by (auto simp: is_space_def)
  from numeric_condition[OF this(1,2,3) assms(2-8) this(4), of None] assms(1)
  show ?thesis by (auto simp: command_line_def evaluateCondition_def)
qed

text \<open>A regular expression that starts like a number, such as the one of
  \<^verbatim>\<open>module_condition =~ 5 ...\<close> in the sample configuration, is taken for a comparison: the condition
  is kept with the operator \<^verbatim>\<open>=~\<close> and a \<^verbatim>\<open>regex_t\<close> that was never compiled, and every evaluation of
  it is undefined.\<close>

theorem regexp_number_undefined:
  assumes "scan_lf L (num @ SPC # cmd) = Some (v, SPC # cmd)" and "num \<noteq> []" and "\<not> is_space (hd num)"
    and "cmd \<noteq> []" and "\<not> is_space (hd cmd)" and "LF \<notin> set cmd" and "length cmd \<le> 1023"
    and "NUL \<notin> set (num @ cmd)"
  shows "\<exists>c. addGenericCondition L (''=~ '' @ num @ [SPC] @ cmd) None = Some [c]
           \<and> (\<forall>s x. evaluateCondition L s x c = Inl Undefined_Behaviour)"
proof -
  have "''=~'' \<noteq> []" "\<forall>c\<in>set ''=~''. \<not> is_space c" "length ''=~'' \<le> 255"
    "NUL \<notin> set (''=~'' @ num @ cmd)"
    using assms(8) by (auto simp: is_space_def)
  from numeric_condition[OF this(1,2,3) assms(1-7) this(4), of None]
  show ?thesis by (auto simp: evaluateCondition_def)
qed

text \<open>An interval with a blank after the comma, \<open>(low, high) command\<close>, is taken for a
  comparison with the operator \<open>(low,\<close>, which never holds.\<close>

theorem interval_blank_never_holds:
  assumes "low \<noteq> []" and "\<forall>c\<in>set low. \<not> is_space c \<and> c \<noteq> NUL" and "length low \<le> 253"
    and "scan_lf L (high @ '') '' @ cmd) = Some (v, '') '' @ cmd)" and "high \<noteq> []" and "\<not> is_space (hd high)"
    and "LF \<notin> set cmd" and "length cmd \<le> 1021" and "NUL \<notin> set (high @ cmd)"
  shows "\<exists>c. addGenericCondition L (''('' @ low @ '', '' @ high @ '') '' @ cmd) None = Some [c]
           \<and> (\<forall>s x. evaluateCondition L s x c = Inr False)"
proof -
  let ?op = "''('' @ low @ '',''" and ?cmd = "'') '' @ cmd"
  let ?s = "?op @ SPC # high @ ?cmd"
  have c: "c_str ?s = ?s" using assms(2,9) by (intro c_str_id) auto
  have w: "sscanf_args L (Word 255 # Blank # Lf # command_format) ?s
      = Text ?op # sscanf_args L (Blank # Lf # command_format) (SPC # high @ ?cmd)"
    using assms(2,3) by (intro scan_word) (auto simp: is_space_def)
  have "takeWhile (\<lambda>x. x \<noteq> LF) cmd = cmd" using assms(7) by auto
  then have "sscanf_args L command_format ?cmd = [Text ?cmd]"
    using assms(8) by (simp add: command_format_def Let_def is_space_def)
  with w c have "sscanf L ?s (numeric_format @ command_format) = [Text ?op, Double v, Text ?cmd]"
    using scan_lf_blank[OF assms(4-6), of command_format] by (simp add: sscanf_def numeric_format_def)
  then show ?thesis
    by (auto simp: addGenericCondition_def push_condition_def evaluateCondition_def)
qed

section \<open>Examples\<close>

text \<open>
  A library in which the \<^verbatim>\<open>double\<close> values are the integers and a regular expression matches the
  texts that contain it.
\<close>

definition int_lib :: "int clib" where
  "int_lib = \<lparr>scan_lf = (\<lambda>s. let ds = takeWhile is_digit s
                             in if ds = [] then None else Some (digits_val ds, drop (length ds) s)),
     of_int_d = (\<lambda>i. i), less_d = (<), le_d = (\<le>), eq_d = (=),
     reg_compiles = (\<lambda>_. True), reg_matches = (\<lambda>p s. sublist p s)\<rparr>"

definition example_module :: "int pandora_module" where
  "example_module = (newPandora_Module False TYPE_GENERIC_DATA MODULE_EXEC ''load'')
     \<lparr>intensive_interval := 3, module_type_str := ''generic_data'', has_output := True\<rparr>"

lemmas example_module_simps = example_module_def newPandora_Module_def

lemma int_lib_scan: "is_digit c \<Longrightarrow> scan_lf int_lib (c # SPC # s) = Some (digit_val c, SPC # s)"
  by (simp add: int_lib_def is_digit_def digits_val_def Let_def)

theorem run_schedule_witness:
  "intensive_interval example_module > 0 \<and> executions example_module = 0 \<and> int 4 < 2 ^ 31 - 1
   \<and> snd (run (((\<lambda>m. fst (run m)) ^^ 4) example_module)) = Inl Interval_Not_Fulfilled"
proof -
  have h: "intensive_interval example_module > 0" "executions example_module = 0" "int 4 < 2 ^ 31 - 1"
    by (simp_all add: example_module_simps)
  have "nat (intensive_interval example_module) = 3" by (simp add: example_module_simps)
  with h run_schedule[OF h] show ?thesis by (simp add: Let_def)
qed

definition noon :: "int \<Rightarrow> tm option" where
  "noon _ = Some \<lparr>tm_min = 0, tm_hour = 12, tm_mday = 5, tm_mon = 2, tm_wday = 1\<rparr>"

theorem setCron_schedules_witness:
  "\<exists>m' m''. setCron int_lib (cron_text [Any, Between 22 6, Any, At 3, Any]) example_module = Inr m'
     \<and> checkCron noon 1000 m' = (False, m'')"
proof -
  have h: "\<forall>f\<in>{Any, Between 22 6, Any, At 3, Any}. cron_field_ok f"
    "cron example_module = None \<or> length (cron_params (the (cron example_module))) = 5"
    "noon 1000 = Some \<lparr>tm_min = 0, tm_hour = 12, tm_mday = 5, tm_mon = 2, tm_wday = 1\<rparr>"
    "(0::int) < 1000"
    by (simp_all add: example_module_simps noon_def)
  show ?thesis using setCron_schedules[where localtime = noon and now = 1000 and L = int_lib, OF h] by simp
qed

definition hourly :: "int pandora_module" where
  "hourly = example_module\<lparr>cron := Some \<lparr>utimestamp = 0, cron_interval = -1,
     cron_params = [(0, 0), (-1, 0), (-1, 0), (-1, 0), (-1, 0)]\<rparr>\<rparr>"


theorem invalid_cron_never_runs_witness:
  "\<exists>m'. setCron int_lib ''0 12 *'' example_module = Inr m' \<and> checkCron noon 1000 m' = (False, m')"
proof -
  have h: "length (sscanf int_lib ''0 12 *''
      [Word 255, Blank, Word 255, Blank, Word 255, Blank, Word 255, Blank, Word 255]) \<noteq> 5"
    "cron example_module = None" "\<forall>x t. noon x = Some t \<longrightarrow> 1 \<le> tm_mday t" "noon 1000 \<noteq> None"
    by (auto simp: sscanf_def c_str_def is_space_def Let_def example_module_simps noon_def)
  show ?thesis by (rule invalid_cron_never_runs[OF h])
qed

theorem comparison_condition_witness:
  "\<exists>c. addGenericCondition int_lib ''> 5 dir'' None = Some [c]
     \<and> evaluateCondition int_lib ''7'' 7 c = Inr True \<and> evaluateCondition int_lib ''5'' 5 c = Inr False"
proof -
  have h: "''>'' \<in> {''>'', ''<'', ''='', ''!=''}"
    "scan_lf int_lib (''5'' @ SPC # ''dir'') = Some (5, SPC # ''dir'')" "''5'' \<noteq> []"
    "\<not> is_space (hd ''5'')" "''dir'' \<noteq> []" "\<not> is_space (hd ''dir'')" "LF \<notin> set ''dir''"
    "length ''dir'' \<le> 1023" "NUL \<notin> set (''5'' @ ''dir'')"
    using int_lib_scan[of "CHR ''5''" "''dir''"] by (simp_all add: is_digit_def digit_val_def is_space_def)
  have "less_d int_lib = (<)" by (simp add: int_lib_def)
  with comparison_condition[OF h] show ?thesis by auto
qed

theorem regexp_number_undefined_witness:
  "\<exists>c. addGenericCondition int_lib ''=~ 5 dir'' None = Some [c]
     \<and> (\<forall>s x. evaluateCondition int_lib s x c = Inl Undefined_Behaviour)"
proof -
  have h: "scan_lf int_lib (''5'' @ SPC # ''dir'') = Some (5, SPC # ''dir'')" "''5'' \<noteq> []"
    "\<not> is_space (hd ''5'')" "''dir'' \<noteq> []" "\<not> is_space (hd ''dir'')" "LF \<notin> set ''dir''"
    "length ''dir'' \<le> 1023" "NUL \<notin> set (''5'' @ ''dir'')"
    using int_lib_scan[of "CHR ''5''" "''dir''"] by (simp_all add: is_digit_def digit_val_def is_space_def)
  show ?thesis using regexp_number_undefined[OF h] by simp
qed

theorem interval_blank_never_holds_witness:
  "\<exists>c. addGenericCondition int_lib ''(3, 8) dir'' None = Some [c]
     \<and> (\<forall>s x. evaluateCondition int_lib s x c = Inr False)"
proof -
  have h: "''3'' \<noteq> []" "\<forall>c\<in>set ''3''. \<not> is_space c \<and> c \<noteq> NUL" "length ''3'' \<le> 253"
    "scan_lf int_lib (''8'' @ '') '' @ ''dir'') = Some (8, '') '' @ ''dir'')" "''8'' \<noteq> []"
    "\<not> is_space (hd ''8'')" "LF \<notin> set ''dir''" "length ''dir'' \<le> 1021" "NUL \<notin> set (''8'' @ ''dir'')"
    by (simp_all add: int_lib_def is_digit_def digits_val_def digit_val_def is_space_def Let_def)
  show ?thesis using interval_blank_never_holds[OF h] by simp
qed

end
