(* ===== verification/Pandora_Report.thy ===== *)
theory Pandora_Report
  imports Pandora_Module
begin

text \<open>
  The XML that \<^verbatim>\<open>getXml\<close> of \<^verbatim>\<open>src/modules/pandora_module.cc\<close> writes, read back by a small reader for
  it, and what the limits of a module do to its output.  The definitions of this theory state
  the specification; the code is modelled in \<open>Pandora_Module\<close>.
\<close>

section \<open>Reading the XML back\<close>

text \<open>
  A reader for the elements the module writes, one per line: the text of an element is a CDATA
  section or runs up to the next tag.
\<close>

definition close_tag :: "string \<Rightarrow> string" where
  "close_tag tag = ''</'' @ tag @ ''>'' @ [LF]"

definition read_body :: "string \<Rightarrow> (string \<times> string) option" where
  "read_body s =
     (if prefix ''<![CDATA['' s
      then (case str_find (drop 9 s) '']]>'' of
              None \<Rightarrow> None
            | Some k \<Rightarrow> Some (take k (drop 9 s), drop (k + 3) (drop 9 s)))
      else Some (takeWhile (\<lambda>c. c \<noteq> CHR ''<'') s, dropWhile (\<lambda>c. c \<noteq> CHR ''<'') s))"

definition read_element :: "string \<Rightarrow> ((string \<times> string) \<times> string) option" where
  "read_element s =
     (if \<not> prefix [TAB, CHR ''<''] s then None
      else let tag = takeWhile (\<lambda>c. c \<noteq> CHR ''>'') (drop 2 s)
           in case read_body (drop (3 + length tag) s) of
                None \<Rightarrow> None
              | Some (v, rest) \<Rightarrow>
                  if prefix (close_tag tag) rest
                  then Some ((tag, v), drop (length (close_tag tag)) rest) else None)"

lemma read_body_length: "read_body s = Some (v, rest) \<Longrightarrow> length rest \<le> length s"
  by (auto simp: read_body_def length_dropWhile_le split: if_splits option.splits)

lemma read_element_length: "read_element s = Some (e, rest) \<Longrightarrow> length rest < length s"
  by (auto simp: read_element_def Let_def close_tag_def dest!: read_body_length prefix_length_le
        split: if_splits option.splits)

function read_elements :: "string \<Rightarrow> (string \<times> string) list \<times> string" where
  "read_elements s =
     (case read_element s of
        None \<Rightarrow> ([], s)
      | Some (e, rest) \<Rightarrow> (let (es, tail) = read_elements rest in (e # es, tail)))"
  by pat_completeness auto
termination by (relation "measure length") (auto dest: read_element_length)

declare read_elements.simps [simp del]

definition read_module :: "string \<Rightarrow> (string \<times> string) list option" where
  "read_module s =
     (if prefix (''<module>'' @ [LF]) s
      then (let (es, tail) = read_elements (drop 9 s)
            in if tail = ''</module>'' @ [LF] then Some es else None)
      else None)"

text \<open>The fields of a report: \<open>True\<close> marks those written as CDATA.\<close>

type_synonym field = "bool \<times> string \<times> string"

fun field_text :: "field \<Rightarrow> string" where
  "field_text (cdata, tag, v) = (if cdata then cdata_field tag v else plain_field tag v)"

fun field_ok :: "field \<Rightarrow> bool" where
  "field_ok (cdata, tag, v) =
     (CHR ''>'' \<notin> set tag \<and> (if cdata then \<not> sublist '']]>'' v else CHR ''<'' \<notin> set v))"

lemma str_find_cdata_end:
  assumes "\<not> sublist '']]>'' v"
  shows "str_find (v @ '']]>'' @ r) '']]>'' = Some (length v)"
  using assms
proof (induction v)
  case Nil
  then show ?case by simp
next
  case (Cons c v)
  have "\<not> prefix '']]>'' (c # v @ '']]>'' @ r)"
  proof
    assume p: "prefix '']]>'' (c # v @ '']]>'' @ r)"
    then obtain d e w where "v = d # e # w"
      by (cases v; cases "tl v") auto
    with p have "prefix '']]>'' (c # v)" by auto
    with Cons.prems show False by auto
  qed
  with Cons show ?case by (auto simp: sublist_Cons_right)
qed

lemma prefix_same: "prefix (xs @ ys) (xs @ zs) = prefix ys zs"
  by simp

lemma read_element_field:
  assumes "field_ok (cdata, tag, v)"
  shows "read_element (field_text (cdata, tag, v) @ s) = Some ((tag, v), s)"
proof -
  define body where "body = (if cdata then ''<![CDATA['' @ v @ '']]>'' else v)"
  have line: "field_text (cdata, tag, v) @ s = [TAB, CHR ''<''] @ tag @ ''>'' @ body @ close_tag tag @ s"
    by (simp add: cdata_field_def plain_field_def close_tag_def body_def)
  have tag: "takeWhile (\<lambda>c. c \<noteq> CHR ''>'') (tag @ ''>'' @ x) = tag" for x
    using assms by (auto simp: takeWhile_append)
  have read: "read_body (body @ close_tag tag @ s) = Some (v, close_tag tag @ s)"
  proof (cases cdata)
    case True
    then show ?thesis
      using assms str_find_cdata_end[of v "close_tag tag @ s"] by (simp add: body_def read_body_def)
  next
    case False
    have no: "\<not> prefix ''<![CDATA['' (v @ close_tag tag @ s)"
      using False assms by (cases v) (auto simp: close_tag_def)
    show ?thesis
      using False assms no
      by (auto simp: body_def read_body_def close_tag_def takeWhile_append dropWhile_append)
  qed
  show ?thesis
    unfolding line using read tag by (simp add: read_element_def Let_def numeral_eq_Suc)
qed

text \<open>
  What a reader of a sequence of elements relies on: an element is read back from its text
  whatever follows, and the sequence is read element by element.
\<close>

locale element_reader =
  fixes put :: "'e \<Rightarrow> string" and ok :: "'e \<Rightarrow> bool" and content :: "'e \<Rightarrow> 'v"
    and get :: "string \<Rightarrow> ('v \<times> string) option" and get_all :: "string \<Rightarrow> 'v list \<times> string"
  assumes get_put: "ok e \<Longrightarrow> get (put e @ s) = Some (content e, s)"
    and get_all_None: "get s = None \<Longrightarrow> get_all s = ([], s)"
    and get_all_Some: "get s = Some (v, rest) \<Longrightarrow> get_all s = (v # fst (get_all rest), snd (get_all rest))"
begin

lemma get_all_put:
  assumes "\<forall>e\<in>set es. ok e" and "get s = None"
  shows "get_all (concat (map put es) @ s) = (map content es, s)"
  using assms
proof (induction es)
  case Nil
  then show ?case by (simp add: get_all_None)
next
  case (Cons e es)
  then show ?case using get_all_Some[OF get_put, of e] by simp
qed

end

interpretation field_reader: element_reader field_text field_ok snd read_element read_elements
proof
  show "read_element (field_text e @ s) = Some (snd e, s)" if "field_ok e" for e s
    using read_element_field that by (cases e) auto
  show "read_elements s = ([], s)" if "read_element s = None" for s
    using that by (subst read_elements.simps) simp
  show "read_elements s = (v # fst (read_elements rest), snd (read_elements rest))"
    if "read_element s = Some (v, rest)" for s v rest
    using that by (subst read_elements.simps) (simp add: case_prod_unfold Let_def)
qed

definition unless_empty_field :: "bool \<Rightarrow> string \<Rightarrow> string \<Rightarrow> field list" where
  "unless_empty_field cdata tag v = (if v \<noteq> [] then [(cdata, tag, v)] else [])"

definition module_fields :: "'d pandora_module \<Rightarrow> field list" where
  "module_fields m =
     [(True, ''name'', mod_name m), (True, ''type'', module_type_str m)] @
     unless_empty_field True ''description'' (module_description m) @
     [(True, ''module_interval'', int_digits (module_interval m))] @
     (if has_min m then [(True, ''min'', int_digits (min_value m))] else []) @
     (if has_max m then [(True, ''max'', int_digits (max_value m))] else []) @
     concat (map (\<lambda>(tag, v). unless_empty_field True tag v)
       [(''post_process'', post_process m), (''min_critical'', min_critical m),
        (''max_critical'', max_critical m), (''min_warning'', min_warning m),
        (''max_warning'', max_warning m), (''disabled'', disabled m),
        (''min_ff_event'', min_ff_event m), (''unit'', unit_str m)]) @
     concat (map (\<lambda>(tag, v). unless_empty_field False tag v)
       [(''module_group'', module_group m), (''custom_id'', custom_id m),
        (''str_warning'', str_warning m), (''str_critical'', str_critical m),
        (''critical_instructions'', critical_instructions m),
        (''warning_instructions'', warning_instructions m),
        (''unknown_instructions'', unknown_instructions m), (''tags'', tags m),
        (''critical_inverse'', critical_inverse m), (''warning_inverse'', warning_inverse m),
        (''quiet'', quiet m), (''module_ff_interval'', module_ff_interval m)])"

lemma unless_empty_text:
  "concat (map field_text (unless_empty_field cdata tag v))
     = unless_empty (if cdata then cdata_field else plain_field) tag v"
  by (simp add: unless_empty_field_def unless_empty_def)

lemma xml_fields_text:
  "xml_identity m @ xml_thresholds m @ xml_extras m
     = ''<module>'' @ [LF] @ concat (map field_text (module_fields m))"
  by (simp add: xml_identity_def xml_thresholds_def xml_extras_def module_fields_def
        unless_empty_text)

lemma module_text_read:
  assumes "\<forall>f\<in>set fs. field_ok f"
  shows "read_module (''<module>'' @ [LF] @ concat (map field_text fs) @ ''</module>'' @ [LF])
           = Some (map snd fs)"
proof -
  have "read_element (''</module>'' @ [LF]) = None" by (simp add: read_element_def)
  from field_reader.get_all_put[OF assms this] show ?thesis by (simp add: read_module_def)
qed

definition double_percent :: "string \<Rightarrow> string" where
  "double_percent s = concat (map (\<lambda>c. if c = CHR ''%'' then ''%%'' else [c]) s)"

lemma data_clean_eq:
  "data_clean L junk m d =
     (case getDataOutput L junk m d of
        Inl Output_Error \<Rightarrow> Inr None | Inl e \<Rightarrow> Inl e | Inr v \<Rightarrow> Inr (Some (double_percent v)))"
  by (simp add: data_clean_def strreplace_replace_all replace_all_single double_percent_def
        split: sum.splits module_error.splits)

section \<open>Limits\<close>

lemma xml_datalist_fails:
  assumes "d \<in> set ds" and "getDataOutput L junk m d = Inl Value_Error"
  shows "\<exists>e. xml_datalist L junk m ds = Inl e"
  using assms
proof (induction ds)
  case (Cons x ds)
  then show ?case
    by (cases "x = d") (auto simp: data_clean_eq split: sum.splits option.splits)
qed simp

lemma xml_data_fails:
  assumes "d \<in> set ds" and "getDataOutput L junk m d = Inl Value_Error"
  shows "\<exists>e. xml_data L junk m ds = Inl e"
  using xml_datalist_fails[OF assms] assms
  by (auto simp: xml_data_def data_clean_eq split: list.splits)

lemma getDataOutput_cong:
  assumes "module_type m' = module_type m" "has_limits m' = has_limits m"
    "max_value m' = max_value m" "min_value m' = min_value m"
  shows "getDataOutput L junk m' d = getDataOutput L junk m d"
  unfolding getDataOutput_def assms ..

lemma setOutputs_data:
  assumes "data_list m = Some ds"
  shows "\<exists>es out. fold (\<lambda>(now, x). setOutput now x) outs m
           = m\<lparr>data_list := Some (ds @ es), latest_output := out\<rparr>"
  using assms
proof (induction outs arbitrary: m ds)
  case Nil
  then show ?case by (intro exI[of _ "[]"] exI[of _ "latest_output m"]) simp
next
  case (Cons p outs)
  obtain now x where p: "p = (now, x)" by (cases p) auto
  have "data_list (setOutput now x m) = Some (ds @ [newPandora_Data x now (mod_name m)])"
    using Cons.prems by (simp add: setOutput_def push_data_def)
  from Cons.IH[OF this] show ?case by (auto simp: p setOutput_def)
qed

section \<open>Properties\<close>


text \<open>A value outside the limits is fatal for the module's reports: \<^verbatim>\<open>getXml\<close> throws and leaves the
  value in the module's list, so that it throws again after any number of further outputs.\<close>

theorem out_of_limits_sticks:
  assumes "has_output m" and "module_type m \<noteq> TYPE_LOG" and "data_list m = Some ds"
    and "d \<in> set ds" and "getDataOutput L junk m d = Inl Value_Error"
  shows "\<exists>e. getXml L junk (fold (\<lambda>(now, x). setOutput now x) outs m)
             = (fold (\<lambda>(now, x). setOutput now x) outs m, Inl e)"
proof -
  obtain es out where m': "fold (\<lambda>(now, x). setOutput now x) outs m
      = m\<lparr>data_list := Some (ds @ es), latest_output := out\<rparr>" (is "_ = ?m")
    using setOutputs_data[OF assms(3)] by blast
  have "getDataOutput L junk ?m d = Inl Value_Error"
    using assms(5) getDataOutput_cong[of ?m m] by simp
  then obtain e where "xml_data L junk ?m (ds @ es) = Inl e"
    using xml_data_fails[of d "ds @ es" L junk ?m] assms(4) by auto
  with assms(1,2) have "getXml L junk ?m = (?m, Inl e)" by (simp add: getXml_def)
  then show ?thesis unfolding m' by blast
qed

text \<open>The limits set by \<^verbatim>\<open>setMax\<close> and \<^verbatim>\<open>setMin\<close> are themselves rejected, although both are documented
  as included; and a module with a lower limit only, whose upper limit is still 0, rejects
  every value from 0 on.\<close>

theorem limits_excluded:
  assumes "module_type m \<notin> {TYPE_GENERIC_DATA_STRING, TYPE_ASYNC_STRING, TYPE_LOG}"
    and "scan_le L (data_value d) = Scan_Value x"
    and "le_d L (of_int_d L hi) (of_int_d L hi)" and "le_d L (of_int_d L lo) (of_int_d L lo)"
  shows "(x \<in> {of_int_d L hi, of_int_d L lo}
            \<longrightarrow> getDataOutput L junk (setMax hi (setMin lo m)) d = Inl Value_Error)
         \<and> (max_value m = 0 \<and> le_d L (of_int_d L 0) x
            \<longrightarrow> getDataOutput L junk (setMin lo m) d = Inl Value_Error)"
  using assms by (auto simp: getDataOutput_def setMax_def setMin_def strtodouble_def)

section \<open>Examples\<close>

definition new_year :: systemtime where
  "new_year = \<lparr>wYear = 2015, wMonth = 1, wDay = 1, wHour = 0, wMinute = 0, wSecond = 0\<rparr>"

definition reading :: "string \<Rightarrow> pandora_data" where
  "reading v = newPandora_Data v new_year ''load''"

lemma reading_scan:
  "scan_le int_lib (data_value (reading ''5'')) = Scan_Value 5"
  by (simp add: reading_def newPandora_Data_def scan_le_def c_str_def is_space_def int_lib_def
        is_digit_def digits_val_def digit_val_def Let_def)

lemma trim_5: "trim ''5'' = ''5''"
  by (simp add: trim_eq_strip strip_def trim_delims_def)


theorem out_of_limits_sticks_witness:
  "\<exists>e. let m = setMax 5 (example_module\<lparr>data_list := Some [reading ''5'']\<rparr>)
       in getXml int_lib 0 (fold (\<lambda>(now, x). setOutput now x) [(new_year, ''3'')] m)
            = (fold (\<lambda>(now, x). setOutput now x) [(new_year, ''3'')] m, Inl e)"
proof -
  let ?m = "setMax 5 (example_module\<lparr>data_list := Some [reading ''5'']\<rparr>)"
  have h: "has_output ?m" "module_type ?m \<noteq> TYPE_LOG" "data_list ?m = Some [reading ''5'']"
    "reading ''5'' \<in> set [reading ''5'']"
    by (simp_all add: example_module_simps setMax_def)
  have le: "le_d int_lib = (\<le>)" "of_int_d int_lib = (\<lambda>i. i)" by (simp_all add: int_lib_def)
  have v: "getDataOutput int_lib 0 ?m (reading ''5'') = Inl Value_Error"
    using reading_scan
    by (simp add: getDataOutput_def strtodouble_def example_module_simps setMax_def le)
  show ?thesis unfolding Let_def by (rule out_of_limits_sticks[OF h v])
qed

theorem limits_excluded_witness:
  "getDataOutput int_lib 0 (setMax 5 (setMin 1 example_module)) (reading ''5'') = Inl Value_Error
   \<and> getDataOutput int_lib 0 (setMin 1 example_module) (reading ''5'') = Inl Value_Error"
proof -
  have h: "module_type example_module \<notin> {TYPE_GENERIC_DATA_STRING, TYPE_ASYNC_STRING, TYPE_LOG}"
    "le_d int_lib (of_int_d int_lib 5) (of_int_d int_lib 5)"
    "le_d int_lib (of_int_d int_lib 1) (of_int_d int_lib 1)"
    "max_value example_module = 0" "le_d int_lib (of_int_d int_lib 0) 5" "of_int_d int_lib 5 = 5"
    by (simp_all add: example_module_simps int_lib_def)
  show ?thesis
    using limits_excluded[OF h(1) reading_scan h(2,3), of 0] h(4-6) by simp
qed

end
