(* ===== verification/Pandora_Kinds.thy ===== *)
theory Pandora_Kinds
  imports Pandora_Conf Pandora_Report
begin

text \<open>
  The sub-classes of \<^verbatim>\<open>Pandora_Module\<close> under \<^verbatim>\<open>src/modules/\<close>: their constructors, their \<^verbatim>\<open>run\<close> methods
  and the plugin's \<^verbatim>\<open>getXml\<close>.  What a module measures comes from outside: the WMI queries of
  \<^verbatim>\<open>src/windows/pandora_wmi.cc\<close>, child processes, sockets and files are arguments.  The threads that
  asynchronous modules start are not modelled, and neither is how the event log and performance
  counter modules ask the operating system for their data.
\<close>

section \<open>Objects\<close>

record proc_state =
  process_name :: string
  proc_watchdog :: bool
  start_command :: string
  retries :: int
  start_delay :: int
  retry_delay :: int

text \<open>The stream a \<^verbatim>\<open>Module_Regexp\<close> keeps open: \<open>None\<close> when closed, else the read position.\<close>

record regexp_state =
  regexp_source :: string
  regexp_pattern :: string
  no_seek_eof :: u8
  file_pos :: "nat option"
  file_size :: int

datatype module_class =
    Module_Exec string bool
  | Module_Proc proc_state
  | Module_Service string bool
  | Module_Freedisk string
  | Module_Freedisk_Percent string
  | Module_Freememory
  | Module_Freememory_Percent
  | Module_Cpuusage int
  | Module_Inventory string bool
  | Module_Logevent string string string string string
  | Module_WMIQuery string string
  | Module_Perfcounter string string
  | Module_Tcpcheck string int int
  | Module_Regexp regexp_state
  | Module_Plugin string

type_synonym 'd module_object = "'d pandora_module \<times> module_class"

definition to_upper :: "char \<Rightarrow> char" where
  "to_upper c =
     (let n = (of_char c :: nat) in if 97 \<le> n \<and> n \<le> 122 then char_of (n - 32) else c)"

subsection \<open>Constructors\<close>

definition newModule_Exec :: "'d pandora_module \<Rightarrow> string \<Rightarrow> 'd module_object" where
  "newModule_Exec base exec = (setKind ''module_exec'' base, Module_Exec (command_line exec) False)"

definition newModule_Proc :: "'d pandora_module \<Rightarrow> string \<Rightarrow> 'd module_object" where
  "newModule_Proc base process =
     (setKind ''module_proc'' base,
      Module_Proc \<lparr>process_name = map to_lower process, proc_watchdog = False, start_command = [],
        retries = 3, start_delay = 5000, retry_delay = 2000\<rparr>)"

definition newModule_Service :: "'d pandora_module \<Rightarrow> string \<Rightarrow> 'd module_object" where
  "newModule_Service base service =
     (setKind ''module_service'' base, Module_Service (map to_lower service) False)"

definition newModule_Freedisk :: "'d pandora_module \<Rightarrow> string \<Rightarrow> 'd module_object" where
  "newModule_Freedisk base disk =
     (setKind ''module_freedisk'' base, Module_Freedisk (map to_upper disk))"

definition newModule_Freedisk_Percent :: "'d pandora_module \<Rightarrow> string \<Rightarrow> 'd module_object" where
  "newModule_Freedisk_Percent base disk =
     (setKind ''module_freedisk_percent'' base, Module_Freedisk_Percent (map to_upper disk))"

definition newModule_Freememory :: "'d pandora_module \<Rightarrow> 'd module_object" where
  "newModule_Freememory base = (setKind ''module_freememory'' base, Module_Freememory)"

definition newModule_Freememory_Percent :: "'d pandora_module \<Rightarrow> 'd module_object" where
  "newModule_Freememory_Percent base =
     (setKind ''module_freememory_percent'' base, Module_Freememory_Percent)"

definition newModule_Cpuusage :: "'d pandora_module \<Rightarrow> int \<Rightarrow> 'd module_object" where
  "newModule_Cpuusage base cpu_id = (setKind ''module_cpuusage'' base, Module_Cpuusage cpu_id)"

definition newModule_WMIQuery :: "'d pandora_module \<Rightarrow> string \<Rightarrow> string \<Rightarrow> 'd module_object" where
  "newModule_WMIQuery base query col =
     (setKind ''module_wmiquery'' base, Module_WMIQuery query col)"

definition newModule_Inventory :: "'d pandora_module \<Rightarrow> string \<Rightarrow> 'd module_object" where
  "newModule_Inventory base options = (setKind ''module_inventory'' base, Module_Inventory options False)"

text \<open>
  The event log and performance counter modules keep the constructor's arguments; what their
  constructors load from system libraries is not modelled.
\<close>

definition newModule_Logevent ::
    "'d pandora_module \<Rightarrow> string \<Rightarrow> string \<Rightarrow> string \<Rightarrow> string \<Rightarrow> string \<Rightarrow> 'd module_object" where
  "newModule_Logevent base source type code pattern application =
     (setKind ''module_logevent'' base, Module_Logevent source type code pattern application)"

definition newModule_Perfcounter :: "'d pandora_module \<Rightarrow> string \<Rightarrow> string \<Rightarrow> 'd module_object" where
  "newModule_Perfcounter base source cooked =
     (setKind ''module_perfcounter'' base, Module_Perfcounter source cooked)"

text \<open>\<^verbatim>\<open>DEFAULT_TIMEOUT\<close> is 3 seconds.\<close>

definition newModule_Tcpcheck ::
    "'d pandora_module \<Rightarrow> string \<Rightarrow> string \<Rightarrow> string \<Rightarrow> 'd module_object result" where
  "newModule_Tcpcheck base address port timeout =
     (case atoi port of
        Inl e \<Rightarrow> Inl e
      | Inr p \<Rightarrow>
          (case atoi timeout of
             Inl e \<Rightarrow> Inl e
           | Inr t \<Rightarrow>
               Inr (setKind ''module_tcpcheck'' base,
                    Module_Tcpcheck address p (if t < 1 then 3 else t))))"

definition newModule_Regexp :: "'d pandora_module \<Rightarrow> string \<Rightarrow> string \<Rightarrow> u8 \<Rightarrow> 'd module_object" where
  "newModule_Regexp base source pattern no_seek =
     (setKind ''module_regexp'' base,
      Module_Regexp \<lparr>regexp_source = source, regexp_pattern = pattern, no_seek_eof = no_seek,
        file_pos = None, file_size = 0\<rparr>)"

text \<open>A plugin is an \<^verbatim>\<open>exec\<close> module named \<^verbatim>\<open>plugin\<close> with a timeout of \<^verbatim>\<open>INT_MAX\<close> seconds.\<close>

definition newModule_Plugin :: "'d pandora_module \<Rightarrow> string \<Rightarrow> 'd module_object" where
  "newModule_Plugin base plugin =
     (setTimeout (2 ^ 31 - 1) (setKind ''module_plugin''
        (fst (newModule_Exec (base\<lparr>mod_name := ''plugin''\<rparr>) plugin))),
      Module_Plugin (command_line plugin))"

definition newModule_Ping ::
    "'d pandora_module \<Rightarrow> string \<Rightarrow> string \<Rightarrow> string \<Rightarrow> string \<Rightarrow> 'd module_object" where
  "newModule_Ping base host count timeout options =
     (setKind ''module_ping'' (fst (newModule_Exec base [])),
      Module_Exec (command_line
        (''ping -n '' @ count @ '' -w '' @ timeout @ '' '' @ options @ '' '' @ host)) True)"

definition newModule_SNMPGet ::
    "'d pandora_module \<Rightarrow> string \<Rightarrow> string \<Rightarrow> string \<Rightarrow> string \<Rightarrow> string \<Rightarrow> 'd module_object" where
  "newModule_SNMPGet base version community agent oid options =
     (let exec = ''snmpget.exe -OUevqt -v '' @ version @ '' -c '' @ community @ '' '' @ options @
                 '' '' @ agent @ '' '' @ oid @ '' 2>nul | tr.exe -d '' @
                 [CHR 0x5C, DQUOTE, CHR 0x5C] @ ''n''
      in (setKind ''module_snmpget'' (fst (newModule_Exec base exec)),
          snd (newModule_Exec base exec)))"

subsection \<open>Settings of the process and service modules\<close>

definition setWatchdog :: "bool \<Rightarrow> proc_state \<Rightarrow> proc_state" where
  "setWatchdog w p = p\<lparr>proc_watchdog := w\<rparr>"

definition setStartCommand :: "string \<Rightarrow> proc_state \<Rightarrow> proc_state" where
  "setStartCommand c p = p\<lparr>start_command := c\<rparr>"

definition setRetries :: "int \<Rightarrow> proc_state \<Rightarrow> proc_state" where
  "setRetries n p = (if n < 1 then p else p\<lparr>retries := n\<rparr>)"

definition setStartDelay :: "int \<Rightarrow> proc_state \<Rightarrow> proc_state" where
  "setStartDelay n p = (if n < 0 then p else p\<lparr>start_delay := n\<rparr>)"

definition setRetryDelay :: "int \<Rightarrow> proc_state \<Rightarrow> proc_state" where
  "setRetryDelay n p = (if n < 0 then p else p\<lparr>retry_delay := n\<rparr>)"

section \<open>Running\<close>

text \<open>
  What the system answers during one run.  A WMI query that throws is \<open>None\<close>; \<open>tcp_answer\<close> is how far
  the connection of a \<^verbatim>\<open>tcpcheck\<close> got; \<open>perf_value\<close> is the value of a performance counter, \<open>None\<close> if
  there is none; \<open>log_events\<close> are the new events of an event log, each with a time stamp of 19
  characters in front; \<open>file_content\<close> is the file of a \<^verbatim>\<open>regexp\<close> module, \<open>None\<close> if it cannot be opened.
\<close>

datatype tcp_answer = No_Socket | Not_Resolved | Connect_Failed | Select_Timeout | Select_Ready

record world =
  now :: systemtime
  getDiskFreeSpace :: "string \<Rightarrow> int option"
  getDiskFreeSpacePercent :: "string \<Rightarrow> int option"
  getFreememory :: "int option"
  getFreememoryPercent :: "int option"
  getCpuUsagePercentage :: "int \<Rightarrow> int option"
  isProcessRunning :: "string \<Rightarrow> int"
  isServiceRunning :: "string \<Rightarrow> int"
  runWMIQuery :: "string \<Rightarrow> string \<Rightarrow> string list"
  perf_value :: "string \<Rightarrow> string \<Rightarrow> string option"
  log_events :: "string \<Rightarrow> string list"
  inventory_rows :: "string \<Rightarrow> string list"
  launched :: "string \<Rightarrow> launch"
  tcp :: "string \<Rightarrow> int \<Rightarrow> int \<Rightarrow> tcp_answer"
  file_content :: "string \<Rightarrow> string option"

text \<open>\<^verbatim>\<open>try { Pandora_Module::run (); } catch (Interval_Not_Fulfilled e) { return; }\<close>\<close>

definition guarded_run ::
    "'d pandora_module \<Rightarrow> ('d pandora_module \<Rightarrow> 'd pandora_module mod_result) \<Rightarrow> 'd pandora_module mod_result" where
  "guarded_run m body =
     (case run m of
        (m', Inl Interval_Not_Fulfilled) \<Rightarrow> Inr m'
      | (m', Inl e) \<Rightarrow> Inl e
      | (m', Inr _) \<Rightarrow> body m')"

text \<open>The loop that waits for the child process and collects what it prints.\<close>

fun exec_wait :: "int \<Rightarrow> poll list \<Rightarrow> string \<Rightarrow> string option" where
  "exec_wait timeout [] output = None"
| "exec_wait timeout (p # ps) output =
     (if poll_wait p = WAIT_ABANDONED then Some output
      else let output' = (case poll_read p of None \<Rightarrow> output | Some b \<Rightarrow> output @ c_str b)
           in if poll_wait p = WAIT_OBJECT_0 \<or> word_of_int timeout < poll_ticks p
              then Some output'
              else exec_wait timeout ps output')"

definition run_exec :: "world \<Rightarrow> string \<Rightarrow> bool \<Rightarrow> 'd pandora_module \<Rightarrow> 'd pandora_module mod_result" where
  "run_exec W cmd proc m =
     guarded_run m (\<lambda>m'.
       case launched W cmd of
         Launched polls retval \<Rightarrow>
           (case exec_wait (module_timeout m') polls [] of
              None \<Rightarrow> Inl Diverges
            | Some output \<Rightarrow>
                let m1 = (if retval \<noteq> 0 then m'\<lparr>has_output := False\<rparr> else m')
                in if proc
                   then (if retval = 0 then Inr (setOutput (now W) ''1'' m1)
                         else Inr ((setOutput (now W) ''0'' m1)\<lparr>has_output := True\<rparr>))
                   else Inr (setOutput (now W) output m1))
       | _ \<Rightarrow> Inr (m'\<lparr>has_output := False\<rparr>))"

text \<open>The modules that report one number of a WMI query.\<close>

definition set_number :: "world \<Rightarrow> int option \<Rightarrow> 'd pandora_module \<Rightarrow> 'd pandora_module" where
  "set_number W res m =
     (case res of
        None \<Rightarrow> m\<lparr>has_output := False\<rparr>
      | Some n \<Rightarrow> setOutput (now W) (longtostr (s32 n)) m)"

definition run_query :: "world \<Rightarrow> int option \<Rightarrow> 'd pandora_module \<Rightarrow> 'd pandora_module mod_result" where
  "run_query W res m = guarded_run m (\<lambda>m'. Inr (set_number W res m'))"

definition run_freedisk :: "world \<Rightarrow> string \<Rightarrow> 'd pandora_module \<Rightarrow> 'd pandora_module mod_result" where
  "run_freedisk W disk_id m = run_query W (getDiskFreeSpace W disk_id) m"

definition run_freedisk_percent :: "world \<Rightarrow> string \<Rightarrow> 'd pandora_module \<Rightarrow> 'd pandora_module mod_result" where
  "run_freedisk_percent W disk_id m = run_query W (getDiskFreeSpacePercent W disk_id) m"

definition run_freememory :: "world \<Rightarrow> 'd pandora_module \<Rightarrow> 'd pandora_module mod_result" where
  "run_freememory W m = run_query W (getFreememory W) m"

definition run_freememory_percent :: "world \<Rightarrow> 'd pandora_module \<Rightarrow> 'd pandora_module mod_result" where
  "run_freememory_percent W m = run_query W (getFreememoryPercent W) m"

definition run_cpuusage :: "world \<Rightarrow> int \<Rightarrow> 'd pandora_module \<Rightarrow> 'd pandora_module mod_result" where
  "run_cpuusage W cpu_id m = run_query W (getCpuUsagePercentage W cpu_id) m"

text \<open>\<^verbatim>\<open>Pandora_Module_Proc::run\<close> and \<^verbatim>\<open>Pandora_Module_Service::run\<close>; an asynchronous module starts its
  thread and clears the flag.\<close>

definition run_watched :: "world \<Rightarrow> int \<Rightarrow> 'd pandora_module \<Rightarrow> 'd pandora_module mod_result" where
  "run_watched W res m =
     guarded_run m (\<lambda>m'. Inr ((setOutput (now W) (inttostr res) m')\<lparr>async := False\<rparr>))"

definition run_proc :: "world \<Rightarrow> proc_state \<Rightarrow> 'd pandora_module \<Rightarrow> 'd pandora_module mod_result" where
  "run_proc W p m = run_watched W (isProcessRunning W (process_name p)) m"

definition run_service :: "world \<Rightarrow> string \<Rightarrow> 'd pandora_module \<Rightarrow> 'd pandora_module mod_result" where
  "run_service W service_name m = run_watched W (isServiceRunning W service_name) m"

definition run_wmiquery ::
    "world \<Rightarrow> string \<Rightarrow> string \<Rightarrow> 'd pandora_module \<Rightarrow> 'd pandora_module mod_result" where
  "run_wmiquery W query col m =
     guarded_run m (\<lambda>m'.
       if query = [] \<or> col = [] then Inr m'
       else case runWMIQuery W query col of
              [] \<Rightarrow> Inr (setOutput (now W) [] m')
            | rows \<Rightarrow> Inr (fold (setOutput (now W)) rows m'))"

definition run_tcpcheck ::
    "world \<Rightarrow> string \<Rightarrow> int \<Rightarrow> int \<Rightarrow> 'd pandora_module \<Rightarrow> 'd pandora_module mod_result" where
  "run_tcpcheck W address port timeout m =
     guarded_run m (\<lambda>m'.
       if address = [] then Inr m'
       else case tcp W address port timeout of
              No_Socket \<Rightarrow> Inr m'
            | Not_Resolved \<Rightarrow> Inr m'
            | Connect_Failed \<Rightarrow> Inr m'
            | Select_Timeout \<Rightarrow> Inr (setOutput (now W) ''0'' m')
            | Select_Ready \<Rightarrow> Inr (setOutput (now W) ''1'' m'))"

definition run_perfcounter ::
    "world \<Rightarrow> string \<Rightarrow> string \<Rightarrow> 'd pandora_module \<Rightarrow> 'd pandora_module mod_result" where
  "run_perfcounter W source cooked m =
     guarded_run m (\<lambda>m'.
       case perf_value W source cooked of
         None \<Rightarrow> Inr m'
       | Some v \<Rightarrow> Inr (setOutput (now W) v m'))"

text \<open>\<^verbatim>\<open>atoi (timestamp.substr (pos, n).c_str ())\<close>, stored in a 16-bit field.\<close>

definition stamp_field :: "string \<Rightarrow> nat \<Rightarrow> nat \<Rightarrow> nat" where
  "stamp_field stamp pos n =
     (case atoi (take n (drop pos stamp)) of Inl _ \<Rightarrow> 0 | Inr i \<Rightarrow> nat (i mod 2 ^ 16))"

definition timestampToSystemtime :: "string \<Rightarrow> systemtime" where
  "timestampToSystemtime stamp =
     \<lparr>wYear = stamp_field stamp 0 4, wMonth = stamp_field stamp 5 2, wDay = stamp_field stamp 8 2,
      wHour = stamp_field stamp 11 2, wMinute = stamp_field stamp 14 2,
      wSecond = stamp_field stamp 17 2\<rparr>"

definition add_event :: "string \<Rightarrow> 'd pandora_module \<Rightarrow> 'd pandora_module" where
  "add_event event m =
     (if length event < 19 then m
      else setOutput_at (drop 19 event) (timestampToSystemtime (take 19 event)) m)"

definition run_logevent :: "world \<Rightarrow> string \<Rightarrow> 'd pandora_module \<Rightarrow> 'd pandora_module mod_result" where
  "run_logevent W source m = guarded_run m (\<lambda>m'. Inr (fold add_event (log_events W source) m'))"

subsection \<open>Files searched for a regular expression\<close>

definition restart :: "string option \<Rightarrow> bool \<Rightarrow> regexp_state \<Rightarrow> regexp_state" where
  "restart content from_start r =
     r\<lparr>file_pos := (case content of
                      None \<Rightarrow> None
                    | Some c \<Rightarrow> Some (if from_start then 0 else length c))\<rparr>"

text \<open>
  The loop over the new lines: the updated module and the number of matches.  A pattern that
  did not compile makes \<^verbatim>\<open>regexec\<close> undefined.
\<close>

fun match_lines ::
    "'d clib \<Rightarrow> world \<Rightarrow> string \<Rightarrow> string list \<Rightarrow> nat \<Rightarrow> 'd pandora_module \<Rightarrow> (nat \<times> 'd pandora_module) mod_result" where
  "match_lines L W pattern [] n m = Inr (n, m)"
| "match_lines L W pattern (line # rest) n m =
     (if line = [] then match_lines L W pattern rest n m
      else if \<not> reg_compiles L pattern then Inl (Cxx Undefined_Behaviour)
      else if reg_matches L pattern (c_str line)
      then match_lines L W pattern rest (Suc n)
             (if module_type m \<in> {TYPE_GENERIC_DATA_STRING, TYPE_ASYNC_STRING}
              then setOutput (now W) line m
              else if module_type m = TYPE_LOG then setOutput (now W) (line @ [LF]) m
              else m)
      else match_lines L W pattern rest n m)"

definition set_count :: "world \<Rightarrow> nat \<Rightarrow> 'd pandora_module \<Rightarrow> 'd pandora_module" where
  "set_count W n m =
     (if module_type m \<in> {TYPE_GENERIC_DATA_STRING, TYPE_ASYNC_STRING, TYPE_LOG} then m
      else if module_type m \<in> {TYPE_GENERIC_PROC, TYPE_ASYNC_PROC}
      then setOutput (now W) (if n > 0 then ''1'' else ''0'') m
      else setOutput (now W) (nat_digits n) m)"

text \<open>Reopening the file, and noticing that it was truncated.\<close>

definition reopen :: "string option \<Rightarrow> regexp_state \<Rightarrow> regexp_state" where
  "reopen content r =
     (let r1 = (if file_pos r = None then restart content (no_seek_eof r \<noteq> 0) r else r)
      in if no_seek_eof r1 = 0
         then (case content of
                 None \<Rightarrow> r1
               | Some c \<Rightarrow>
                   (if int (length c) < file_size r1 then restart content True r1 else r1)
                     \<lparr>file_size := int (length c)\<rparr>)
         else r1)"

definition run_regexp ::
    "'d clib \<Rightarrow> world \<Rightarrow> regexp_state \<Rightarrow> 'd pandora_module \<Rightarrow> (regexp_state \<times> 'd pandora_module) mod_result" where
  "run_regexp L W r m =
     (case run m of
        (m', Inl Interval_Not_Fulfilled) \<Rightarrow> Inr (r, m')
      | (m', Inl e) \<Rightarrow> Inl e
      | (m', Inr _) \<Rightarrow>
          let content = file_content W (regexp_source r);
              r1 = reopen content r
          in case file_pos r1 of
               None \<Rightarrow> Inr (r1, m')
             | Some pos \<Rightarrow>
                 let c = (case content of None \<Rightarrow> [] | Some c \<Rightarrow> c)
                 in (case match_lines L W (regexp_pattern r1) (getlines (drop pos c)) 0 m' of
                       Inl e \<Rightarrow> Inl e
                     | Inr (n, m1) \<Rightarrow>
                         Inr (r1\<lparr>file_pos := (if no_seek_eof r1 = 1 then None
                                            else Some (max pos (length c)))\<rparr>,
                              set_count W n m1)))"

subsection \<open>Inventory\<close>

text \<open>
  Module intervals of inventory modules are days: the first run multiplies the interval by the
  number of agent intervals (given in milliseconds) of a day.
\<close>

definition fix_interval :: "int \<Rightarrow> 'd pandora_module \<Rightarrow> 'd pandora_module mod_result" where
  "fix_interval agent_interval m =
     (if cdiv agent_interval 1000 = 0 then Inl (Cxx Undefined_Behaviour)
      else Inr (setInterval (cdiv (s32 (module_interval m * 86400)) (cdiv agent_interval 1000)) m))"

definition setOutput_inventory ::
    "systemtime \<Rightarrow> string \<Rightarrow> string \<Rightarrow> 'd pandora_module \<Rightarrow> 'd pandora_module" where
  "setOutput_inventory t output origin m =
     m\<lparr>inventory_list := push_data (newPandora_Data output t origin) (inventory_list m)\<rparr>"

definition inventory_sections :: "string list" where
  "inventory_sections = [''CDROM'', ''Video'', ''HD'', ''CPU'', ''NIC'', ''Patches'', ''RAM'',
     ''Software'', ''Services'']"

definition add_section :: "world \<Rightarrow> string \<Rightarrow> string \<Rightarrow> 'd pandora_module \<Rightarrow> 'd pandora_module" where
  "add_section W options section m =
     (if str_find options section = None then m
      else let rows = inventory_rows W section;
               m' = fold (\<lambda>row. setOutput_inventory (now W) row section) rows m
           in if rows \<noteq> [] \<and> section \<notin> {''Software'', ''Services''}
              then m'\<lparr>has_output := True\<rparr> else m')"

definition run_inventory ::
    "world \<Rightarrow> int \<Rightarrow> string \<Rightarrow> bool \<Rightarrow> 'd pandora_module \<Rightarrow> 'd pandora_module mod_result" where
  "run_inventory W agent_interval options fixed m =
     (case (if fixed then Inr m else fix_interval agent_interval m) of
        Inl e \<Rightarrow> Inl e
      | Inr m' \<Rightarrow>
          guarded_run (m'\<lparr>has_output := False\<rparr>) (\<lambda>m1.
            Inr (fold (add_section W options) inventory_sections m1)))"

subsection \<open>Dispatch\<close>

text \<open>The virtual call \<^verbatim>\<open>module->run ()\<close>.\<close>

definition run_object ::
    "'d clib \<Rightarrow> world \<Rightarrow> int \<Rightarrow> 'd module_object \<Rightarrow> 'd module_object mod_result" where
  "run_object L W agent_interval obj =
     (let m = fst obj; keep = map_sum (\<lambda>e. e) (\<lambda>m'. (m', snd obj))
      in case snd obj of
           Module_Exec cmd proc \<Rightarrow> keep (run_exec W cmd proc m)
         | Module_Plugin cmd \<Rightarrow> keep (run_exec W cmd False m)
         | Module_Proc p \<Rightarrow> keep (run_proc W p m)
         | Module_Service s w \<Rightarrow> keep (run_service W s m)
         | Module_Freedisk d \<Rightarrow> keep (run_freedisk W d m)
         | Module_Freedisk_Percent d \<Rightarrow> keep (run_freedisk_percent W d m)
         | Module_Freememory \<Rightarrow> keep (run_freememory W m)
         | Module_Freememory_Percent \<Rightarrow> keep (run_freememory_percent W m)
         | Module_Cpuusage n \<Rightarrow> keep (run_cpuusage W n m)
         | Module_WMIQuery q c \<Rightarrow> keep (run_wmiquery W q c m)
         | Module_Tcpcheck a p t \<Rightarrow> keep (run_tcpcheck W a p t m)
         | Module_Inventory opts fixed \<Rightarrow>
             map_sum (\<lambda>e. e) (\<lambda>m'. (m', Module_Inventory opts True))
               (run_inventory W agent_interval opts fixed m)
         | Module_Regexp r \<Rightarrow>
             map_sum (\<lambda>e. e) (\<lambda>(r', m'). (m', Module_Regexp r')) (run_regexp L W r m)
         | Module_Perfcounter source cooked \<Rightarrow> keep (run_perfcounter W source cooked m)
         | Module_Logevent source _ _ _ _ \<Rightarrow> keep (run_logevent W source m))"

section \<open>XML of the sub-classes\<close>

definition getXml_plugin :: "'d pandora_module \<Rightarrow> 'd pandora_module \<times> string mod_result" where
  "getXml_plugin m =
     (case data_list m of
        None \<Rightarrow> (cleanDataList m, Inr [])
      | Some [] \<Rightarrow> (m, Inl (Cxx Undefined_Behaviour))
      | Some (d # _) \<Rightarrow> (cleanDataList m, Inr (data_value d)))"

definition inventory_open :: "'d pandora_module \<Rightarrow> string \<Rightarrow> string \<Rightarrow> string" where
  "inventory_open m prev current =
     (if current \<noteq> prev
      then (if prev \<noteq> []
            then [TAB, TAB, TAB] @ ''</datalist>'' @ [LF, TAB, TAB] @ ''</inventory_module>'' @ [LF]
            else []) @
           [TAB, TAB] @ ''<inventory_module>'' @ [LF] @
           [TAB, TAB, TAB] @ ''<name><![CDATA['' @ current @ '']]></name>'' @ [LF] @
           [TAB, TAB, TAB] @ ''<type><![CDATA['' @ module_type_str m @ '']]></type>'' @ [LF] @
           [TAB, TAB, TAB] @ ''<datalist>'' @ [LF]
      else [])"

text \<open>A value that is left out does not become the previous one: its section is opened again.\<close>

fun inventory_items ::
    "'d clib \<Rightarrow> 'd \<Rightarrow> 'd pandora_module \<Rightarrow> string \<Rightarrow> pandora_data list \<Rightarrow> string mod_result" where
  "inventory_items L junk m prev [] = Inr []"
| "inventory_items L junk m prev (d # ds) =
     (case data_clean L junk m d of
        Inl e \<Rightarrow> Inl e
      | Inr None \<Rightarrow>
          map_sum (\<lambda>e. e) (\<lambda>rest. inventory_open m prev (data_origin d) @ rest)
            (inventory_items L junk m prev ds)
      | Inr (Some v) \<Rightarrow>
          map_sum (\<lambda>e. e)
            (\<lambda>rest. inventory_open m prev (data_origin d) @
               [TAB, TAB, TAB, TAB] @ ''<data><![CDATA['' @ v @ '']]></data>'' @ [LF] @ rest)
            (inventory_items L junk m (data_origin d) ds))"

definition getXml_inventory ::
    "'d clib \<Rightarrow> 'd \<Rightarrow> 'd pandora_module \<Rightarrow> 'd pandora_module \<times> string mod_result" where
  "getXml_inventory L junk m =
     (if \<not> has_output m then (m, Inr [])
      else case inventory_list m of
             None \<Rightarrow> (m, Inr [])
           | Some ds \<Rightarrow>
               if length ds \<le> 1 then (cleanDataList m, Inr [])
               else (case inventory_items L junk m [] ds of
                       Inl e \<Rightarrow> (m, Inl e)
                     | Inr items \<Rightarrow>
                         (cleanDataList m,
                          Inr (TAB # ''<inventory>'' @ [LF] @ items @
                               [TAB, TAB, TAB] @ ''</datalist>'' @ [LF, TAB, TAB] @
                               ''</inventory_module>'' @ [LF, TAB] @ ''</inventory>'' @ [LF]))))"

definition getXml_object :: "'d clib \<Rightarrow> 'd \<Rightarrow> 'd module_object \<Rightarrow> 'd module_object \<times> string mod_result" where
  "getXml_object L junk obj =
     (let (m', r) = (case snd obj of
                       Module_Plugin _ \<Rightarrow> getXml_plugin (fst obj)
                     | Module_Inventory _ _ \<Rightarrow> getXml_inventory L junk (fst obj)
                     | _ \<Rightarrow> getXml L junk (fst obj))
      in ((m', snd obj), r))"

section \<open>Well-formed modules\<close>

text \<open>
  What the code takes for granted of a module: it has a type and a kind, a list of data is not
  empty (\<^verbatim>\<open>front ()\<close> is called on it), a cron has its five fields, and limits come from \<^verbatim>\<open>setMin\<close> or
  \<^verbatim>\<open>setMax\<close>.
\<close>

definition wf_module :: "'d pandora_module \<Rightarrow> bool" where
  "wf_module m \<longleftrightarrow>
     module_type m \<noteq> TYPE_0 \<and> module_kind m \<noteq> MODULE_0 \<and>
     data_list m \<noteq> Some [] \<and> inventory_list m \<noteq> Some [] \<and>
     (case cron m of None \<Rightarrow> True | Some c \<Rightarrow> length (cron_params c) = 5) \<and>
     (has_limits m \<longleftrightarrow> has_min m \<or> has_max m)"

text \<open>The kinds of the objects of each class; the casts of the factory rely on them.\<close>

fun class_kinds :: "module_class \<Rightarrow> module_kind list" where
  "class_kinds (Module_Exec _ _) = [MODULE_EXEC, MODULE_PING, MODULE_SNMPGET]"
| "class_kinds (Module_Proc _) = [MODULE_PROC]"
| "class_kinds (Module_Service _ _) = [MODULE_SERVICE]"
| "class_kinds (Module_Freedisk _) = [MODULE_FREEDISK]"
| "class_kinds (Module_Freedisk_Percent _) = [MODULE_FREEDISK_PERCENT]"
| "class_kinds Module_Freememory = [MODULE_FREEMEMORY]"
| "class_kinds Module_Freememory_Percent = [MODULE_FREEMEMORY_PERCENT]"
| "class_kinds (Module_Cpuusage _) = [MODULE_CPUUSAGE]"
| "class_kinds (Module_Inventory _ _) = [MODULE_INVENTORY]"
| "class_kinds (Module_Logevent _ _ _ _ _) = [MODULE_LOGEVENT]"
| "class_kinds (Module_WMIQuery _ _) = [MODULE_WMIQUERY]"
| "class_kinds (Module_Perfcounter _ _) = [MODULE_PERFCOUNTER]"
| "class_kinds (Module_Tcpcheck _ _ _) = [MODULE_TCPCHECK]"
| "class_kinds (Module_Regexp _) = [MODULE_REGEXP]"
| "class_kinds (Module_Plugin _) = [MODULE_PLUGIN]"

definition wf_object :: "'d module_object \<Rightarrow> bool" where
  "wf_object obj \<longleftrightarrow> wf_module (fst obj) \<and> module_kind (fst obj) \<in> set (class_kinds (snd obj))"

definition wf_as :: "module_kind \<Rightarrow> 'd pandora_module \<Rightarrow> bool" where
  "wf_as k m \<longleftrightarrow> wf_module m \<and> module_kind m = k"

text \<open>
  What a run may do to a module is fixed by the few methods of the super-class that the
  sub-classes call.  A predicate that these methods keep is kept by the run of every class; only
  the first run of an inventory module also sets the interval.
\<close>

lemmas run_kind_defs = run_freedisk_def run_freedisk_percent_def run_freememory_def
  run_freememory_percent_def run_cpuusage_def run_proc_def run_service_def

locale module_invariant =
  fixes P :: "'d pandora_module \<Rightarrow> bool"
  assumes executions: "P m \<Longrightarrow> P (m\<lparr>executions := i\<rparr>)"
    and has_output: "P m \<Longrightarrow> P (m\<lparr>has_output := b\<rparr>)"
    and async: "P m \<Longrightarrow> P (m\<lparr>async := b\<rparr>)"
    and setOutput: "P m \<Longrightarrow> P (setOutput t s m)"
    and setOutput_at: "P m \<Longrightarrow> P (setOutput_at s t m)"
    and setOutput_inventory: "P m \<Longrightarrow> P (setOutput_inventory t s c m)"
begin

lemmas laws = executions has_output async setOutput setOutput_at setOutput_inventory

lemma fold_keeps: "(\<And>x m. P m \<Longrightarrow> P (f x m)) \<Longrightarrow> P m \<Longrightarrow> P (fold f xs m)"
  by (induction xs arbitrary: m) auto

lemma run_keeps: "run m = (m', r) \<Longrightarrow> P m \<Longrightarrow> P m'"
  by (auto simp: run_def Let_def split: if_splits intro!: laws)

lemma guarded_run_keeps:
  assumes "guarded_run m body = Inr m'" and "P m" and "\<And>m1 m2. P m1 \<Longrightarrow> body m1 = Inr m2 \<Longrightarrow> P m2"
  shows "P m'"
proof -
  obtain m1 r where r: "run m = (m1, r)" by (cases "run m") auto
  then have "P m1" using assms(2) by (rule run_keeps)
  with assms(1,3) r show ?thesis
    by (auto simp: guarded_run_def split: sum.splits module_error.splits)
qed

lemma run_exec_keeps: "run_exec W cmd proc m = Inr m' \<Longrightarrow> P m \<Longrightarrow> P m'"
  unfolding run_exec_def
  by (erule guarded_run_keeps)
    (auto simp: Let_def split: launch.splits option.splits if_splits intro!: laws)

lemma run_query_keeps: "run_query W res m = Inr m' \<Longrightarrow> P m \<Longrightarrow> P m'"
  unfolding run_query_def set_number_def
  by (erule guarded_run_keeps) (auto split: option.splits intro!: laws)

lemma run_watched_keeps: "run_watched W res m = Inr m' \<Longrightarrow> P m \<Longrightarrow> P m'"
  unfolding run_watched_def by (erule guarded_run_keeps) (auto intro!: laws)

lemma run_wmiquery_keeps: "run_wmiquery W q c m = Inr m' \<Longrightarrow> P m \<Longrightarrow> P m'"
  unfolding run_wmiquery_def
  by (erule guarded_run_keeps) (auto split: list.splits if_splits intro!: laws fold_keeps)

lemma run_tcpcheck_keeps: "run_tcpcheck W a p t m = Inr m' \<Longrightarrow> P m \<Longrightarrow> P m'"
  unfolding run_tcpcheck_def
  by (erule guarded_run_keeps) (auto split: tcp_answer.splits if_splits intro!: laws)

lemma run_perfcounter_keeps: "run_perfcounter W a b m = Inr m' \<Longrightarrow> P m \<Longrightarrow> P m'"
  unfolding run_perfcounter_def
  by (erule guarded_run_keeps) (auto split: option.splits intro!: laws)

lemma run_logevent_keeps: "run_logevent W a m = Inr m' \<Longrightarrow> P m \<Longrightarrow> P m'"
  unfolding run_logevent_def
  by (erule guarded_run_keeps) (auto simp: add_event_def intro!: laws fold_keeps)

lemma run_inventory_keeps:
  assumes "run_inventory W a opts fixed m = Inr m'" and "P m"
    and "fixed \<or> (\<forall>i m. P m \<longrightarrow> P (setInterval i m))"
  shows "P m'"
proof -
  have sections: "P (fold (add_section W opts) ss m1)" if "P m1" for ss m1
    using that by (intro fold_keeps) (auto simp: add_section_def Let_def intro!: laws fold_keeps)
  from assms show ?thesis unfolding run_inventory_def
    by (auto split: sum.splits if_splits simp: fix_interval_def
        intro!: laws sections elim!: guarded_run_keeps)
qed

lemma match_lines_keeps: "match_lines L W p ls n m = Inr (j, m') \<Longrightarrow> P m \<Longrightarrow> P m'"
  by (induction L W p ls n m rule: match_lines.induct) (auto split: if_splits intro!: laws)

lemma set_count_keeps: "P m \<Longrightarrow> P (set_count W n m)"
  by (auto simp: set_count_def intro!: laws)

lemma run_regexp_keeps: "run_regexp L W r m = Inr (r', m') \<Longrightarrow> P m \<Longrightarrow> P m'"
  by (auto simp: run_regexp_def Let_def split: prod.splits sum.splits module_error.splits option.splits
      dest!: run_keeps match_lines_keeps intro!: set_count_keeps)

lemma run_object_keeps:
  assumes "run_object L W agent obj = Inr obj'" and "P (fst obj)"
    and "(\<nexists>opts. snd obj = Module_Inventory opts False) \<or> (\<forall>i m. P m \<longrightarrow> P (setInterval i m))"
  shows "P (fst obj')" and "class_kinds (snd obj') = class_kinds (snd obj)"
proof -
  have inv: "fixed \<or> (\<forall>i m. P m \<longrightarrow> P (setInterval i m))" if "snd obj = Module_Inventory opts fixed"
    for opts fixed using assms(3) that by (cases fixed) auto
  have "P (fst obj') \<and> class_kinds (snd obj') = class_kinds (snd obj)"
    using assms(1,2) inv
    by (cases "snd obj") (auto simp: run_object_def run_kind_defs Let_def map_sum_def split: sum.splits
        dest: run_exec_keeps run_query_keeps run_watched_keeps run_wmiquery_keeps
          run_tcpcheck_keeps run_perfcounter_keeps run_logevent_keeps run_inventory_keeps
          run_regexp_keeps)
  then show "P (fst obj')" and "class_kinds (snd obj') = class_kinds (snd obj)" by auto
qed

end

lemma wf_update [simp]:
  "wf_as k (m\<lparr>has_output := b\<rparr>) = wf_as k m"
  "wf_as k (m\<lparr>executions := i\<rparr>) = wf_as k m"
  "wf_as k (m\<lparr>async := b\<rparr>) = wf_as k m"
  "wf_as k (setInterval i m) = wf_as k m"
  "wf_as k (setTimestamp i m) = wf_as k m"
  "wf_as k (setIntensiveMatch w m) = wf_as k m"
  by (simp_all add: wf_as_def wf_module_def setInterval_def setTimestamp_def setIntensiveMatch_def)

lemma wf_output [simp]:
  "wf_as k m \<Longrightarrow> wf_as k (setOutput t s m)"
  "wf_as k m \<Longrightarrow> wf_as k (setOutput_at s t m)"
  "wf_as k m \<Longrightarrow> wf_as k (setOutput_inventory t s c m)"
  "wf_as k m \<Longrightarrow> wf_as k (cleanDataList m)"
  "wf_as k m \<Longrightarrow> wf_as k (setNoOutput m)"
  by (auto simp: wf_as_def wf_module_def setOutput_def setOutput_at_def setOutput_inventory_def
        push_data_def cleanDataList_def setNoOutput_def)

interpretation wf_inv: module_invariant "wf_as k" for k
  by unfold_locales simp_all

text \<open>What decides when a module reports next; a run does not touch it.\<close>

definition schedule_is ::
    "int \<Rightarrow> u8 \<Rightarrow> 'd condition list option \<Rightarrow> int \<Rightarrow> 'd pandora_module \<Rightarrow> bool" where
  "schedule_is t w cs i m \<longleftrightarrow> timestamp m = t \<and> intensive_match m = w \<and>
     intensive_condition_list m = cs \<and> module_interval m = i"

interpretation schedule_inv: module_invariant "schedule_is t w cs i" for t w cs i
  by unfold_locales
    (simp_all add: schedule_is_def setOutput_def setOutput_at_def setOutput_inventory_def)

lemma wf_checkCron:
  assumes "wf_as k m" and "checkCron localtime t m = (b, m')"
  shows "wf_as k m'"
  using assms by (auto simp: checkCron_def wf_as_def wf_module_def split: option.splits if_splits)

lemma wf_object_as: "wf_object (m, c) \<longleftrightarrow> (\<exists>k\<in>set (class_kinds c). wf_as k m)"
  by (auto simp: wf_object_def wf_as_def)

lemma run_object_wf:
  assumes "run_object L W agent obj = Inr obj'" and "wf_object obj"
  shows "wf_object obj'"
proof -
  obtain m c m' c' where obj: "obj = (m, c)" "obj' = (m', c')" by (cases obj, cases obj') auto
  with assms(2) obtain k where k: "k \<in> set (class_kinds c)" "wf_as k m" by (auto simp: wf_object_as)
  then have "wf_as k m'" "class_kinds c' = class_kinds c"
    using wf_inv.run_object_keeps[OF assms(1), of k] obj by simp_all
  with k(1) show ?thesis by (auto simp: obj wf_object_as)
qed

text \<open>What can go wrong when a report is written.\<close>

definition data_of :: "'d pandora_module \<Rightarrow> pandora_data list" where
  "data_of m = (case data_list m of None \<Rightarrow> [] | Some ds \<Rightarrow> ds)"

definition stamped :: "pandora_data \<Rightarrow> bool" where
  "stamped d \<longleftrightarrow> (case getTimestamp_data d of Inl _ \<Rightarrow> False | Inr _ \<Rightarrow> True)"

lemma data_clean_error: "data_clean L junk m d = Inl e \<Longrightarrow> e = Value_Error"
  by (auto simp: data_clean_eq getDataOutput_def strtodouble_def split: sum.splits module_error.splits
      if_splits scan_outcome.splits cxx_error.splits)

lemma xml_log_items_error: "xml_log_items L junk m ds = Inl e \<Longrightarrow> e = Value_Error"
  by (induction L junk m ds rule: xml_log_items.induct)
    (auto split: sum.splits dest: data_clean_error)

lemma xml_datalist_error:
  "xml_datalist L junk m ds = Inl e \<Longrightarrow> \<forall>d\<in>set ds. stamped d \<Longrightarrow> e = Value_Error"
  by (induction L junk m ds rule: xml_datalist.induct)
    (auto simp: stamped_def split: sum.splits option.splits dest: data_clean_error)

lemma inventory_items_error: "inventory_items L junk m prev ds = Inl e \<Longrightarrow> e = Value_Error"
  by (induction L junk m prev ds rule: inventory_items.induct)
    (auto simp: map_sum_def split: sum.splits option.splits dest: data_clean_error)

lemma xml_data_error:
  "xml_data L junk m ds = Inl e \<Longrightarrow> ds \<noteq> [] \<Longrightarrow> \<forall>d\<in>set ds. stamped d \<Longrightarrow> e = Value_Error"
  by (auto simp: xml_data_def simp del: xml_datalist.simps split: list.splits sum.splits option.splits
      dest!: data_clean_error xml_datalist_error)

lemma getXml_error:
  assumes "wf_module m" and "\<forall>d\<in>set (data_of m). stamped d" and "getXml L junk m = (m', Inl e)"
  shows "e = Value_Error"
  using assms
  by (auto simp: getXml_def wf_module_def data_of_def xml_log_def split: if_splits option.splits sum.splits
      dest: xml_log_items_error xml_data_error)

lemma getXml_keeps:
  assumes "getXml_object L junk obj = (obj', r)"
  shows "snd obj' = snd obj" and "fst obj' = fst obj \<or> fst obj' = cleanDataList (fst obj)"
  using assms
  by (auto simp: getXml_object_def getXml_def getXml_plugin_def getXml_inventory_def Let_def
      split: module_class.splits if_splits option.splits sum.splits list.splits prod.splits)

section \<open>Properties\<close>

text \<open>The invariant of the module objects is kept by everything the service does with them: running
  a module of any kind, checking its cron, dropping its output and writing its report.\<close>

theorem wf_object_kept:
  assumes "wf_object obj"
  shows "(\<forall>obj'. run_object L W agent obj = Inr obj' \<longrightarrow> wf_object obj')
       \<and> wf_object (snd (checkCron localtime t (fst obj)), snd obj)
       \<and> wf_object (setNoOutput (fst obj), snd obj)
       \<and> wf_object (fst (getXml_object L junk obj))"
proof -
  obtain m c where obj: "obj = (m, c)" by (cases obj) auto
  with assms have m: "wf_as (module_kind m) m" and k: "module_kind m \<in> set (class_kinds c)"
    by (auto simp: wf_object_def wf_as_def)
  have "wf_as (module_kind m) (snd (checkCron localtime t m))"
    using wf_checkCron[OF m] by (cases "checkCron localtime t m") auto
  moreover have "wf_as (module_kind m) (setNoOutput m)" "wf_as (module_kind m) (cleanDataList m)"
    using m by simp_all
  moreover have "snd (fst (getXml_object L junk obj)) = c"
    "fst (fst (getXml_object L junk obj)) \<in> {m, cleanDataList m}"
    using getXml_keeps[of L junk obj] obj by (metis prod.collapse fst_conv snd_conv, metis prod.collapse fst_conv insertCI)
  ultimately show ?thesis
    using k m run_object_wf[OF _ assms] unfolding obj
    by (auto simp: wf_object_def wf_as_def)
qed

text \<open>The report of a well-formed module whose data have time stamps of at most 19 characters
  fails in no other way than by a value outside the module's limits: no list is empty when
  \<^verbatim>\<open>front ()\<close> is called, no conversion error escapes and the replacement of percent signs ends.\<close>

theorem getXml_fails_only_on_limits:
  assumes "wf_object obj" and "\<forall>d\<in>set (data_of (fst obj)). stamped d"
    and "getXml_object L junk obj = (obj', Inl e)"
  shows "e = Value_Error"
proof (cases "snd obj")
  case (Module_Plugin c)
  with assms show ?thesis
    by (auto simp: getXml_object_def getXml_plugin_def wf_object_def wf_module_def Let_def
        split: option.splits list.splits)
next
  case (Module_Inventory opts f)
  with assms show ?thesis
    by (auto simp: getXml_object_def getXml_inventory_def Let_def split: if_splits option.splits sum.splits
        dest: inventory_items_error)
qed (use assms in \<open>auto simp: getXml_object_def wf_object_def Let_def split: prod.splits dest: getXml_error\<close>)

section \<open>Examples\<close>

definition example_object :: "int module_object" where
  "example_object = (setMax 5 (example_module\<lparr>data_list := Some [reading ''5'']\<rparr>),
     Module_Exec (command_line ''dir'') False)"

lemma example_object_wf: "wf_object example_object"
  by (simp add: example_object_def wf_object_def wf_module_def setMax_def example_module_simps)

theorem wf_object_kept_witness:
  "wf_object example_object \<and> wf_object (setNoOutput (fst example_object), snd example_object)
   \<and> wf_object (fst (getXml_object int_lib 0 example_object))"
  using wf_object_kept[OF example_object_wf, of int_lib _ 0 noon 0 0] example_object_wf by simp

theorem getXml_fails_only_on_limits_witness:
  "\<exists>obj' e. getXml_object int_lib 0 example_object = (obj', Inl e) \<and> e = Value_Error"
proof -
  let ?m = "fst example_object"
  have stamps: "\<forall>d\<in>set (data_of ?m). stamped d"
  proof -
    have "stamped (reading ''5'')" by code_simp
    then show ?thesis by (simp add: data_of_def example_object_def setMax_def)
  qed
  have le: "le_d int_lib = (\<le>)" "of_int_d int_lib = (\<lambda>i. i)" by (simp_all add: int_lib_def)
  have "getXml int_lib 0 ?m = (?m, Inl Value_Error)"
    using reading_scan
    by (simp add: getXml_def xml_data_def data_clean_eq getDataOutput_def strtodouble_def le
        example_object_def setMax_def example_module_simps)
  then have "getXml_object int_lib 0 example_object = (example_object, Inl Value_Error)"
    by (simp add: getXml_object_def example_object_def)
  with getXml_fails_only_on_limits[OF example_object_wf stamps this] show ?thesis by blast
qed

end
