(* ===== verification/Pandora_Factory.thy ===== *)
theory Pandora_Factory
  imports Pandora_Kinds
begin

text \<open>
  \<^verbatim>\<open>src/modules/pandora_module_factory.cc\<close>: a module from its definition in the configuration file.
  The source keeps one variable for each of its 69 single-valued tokens and treats all of them
  alike when it scans the lines and when it substitutes macros; here they are one function from
  the token's text to the value, so that the variable \<^verbatim>\<open>module_name\<close> is \<open>field_of d TOKEN_NAME\<close>.
  \<^verbatim>\<open>NULL\<close> is \<open>None\<close>.
\<close>

section \<open>Tokens and lines\<close>

abbreviation TOKEN_NAME :: string where "TOKEN_NAME \<equiv> ''module_name ''"
abbreviation TOKEN_TYPE :: string where "TOKEN_TYPE \<equiv> ''module_type ''"
abbreviation TOKEN_INTERVAL :: string where "TOKEN_INTERVAL \<equiv> ''module_interval ''"
abbreviation TOKEN_EXEC :: string where "TOKEN_EXEC \<equiv> ''module_exec ''"
abbreviation TOKEN_PROC :: string where "TOKEN_PROC \<equiv> ''module_proc ''"
abbreviation TOKEN_SERVICE :: string where "TOKEN_SERVICE \<equiv> ''module_service ''"
abbreviation TOKEN_FREEDISK :: string where "TOKEN_FREEDISK \<equiv> ''module_freedisk ''"
abbreviation TOKEN_FREEDISK_PERCENT :: string where "TOKEN_FREEDISK_PERCENT \<equiv> ''module_freepercentdisk ''"
abbreviation TOKEN_FREEMEMORY :: string where "TOKEN_FREEMEMORY \<equiv> ''module_freememory''"
abbreviation TOKEN_FREEMEMORY_PERCENT :: string where "TOKEN_FREEMEMORY_PERCENT \<equiv> ''module_freepercentmemory''"
abbreviation TOKEN_CPUUSAGE :: string where "TOKEN_CPUUSAGE \<equiv> ''module_cpuusage ''"
abbreviation TOKEN_INVENTORY :: string where "TOKEN_INVENTORY \<equiv> ''module_inventory''"
abbreviation TOKEN_MAX :: string where "TOKEN_MAX \<equiv> ''module_max ''"
abbreviation TOKEN_MIN :: string where "TOKEN_MIN \<equiv> ''module_min ''"
abbreviation TOKEN_POST_PROCESS :: string where "TOKEN_POST_PROCESS \<equiv> ''module_postprocess ''"
abbreviation TOKEN_MIN_CRITICAL :: string where "TOKEN_MIN_CRITICAL \<equiv> ''module_min_critical ''"
abbreviation TOKEN_MAX_CRITICAL :: string where "TOKEN_MAX_CRITICAL \<equiv> ''module_max_critical ''"
abbreviation TOKEN_MIN_WARNING :: string where "TOKEN_MIN_WARNING \<equiv> ''module_min_warning ''"
abbreviation TOKEN_MAX_WARNING :: string where "TOKEN_MAX_WARNING \<equiv> ''module_max_warning ''"
abbreviation TOKEN_DISABLED :: string where "TOKEN_DISABLED \<equiv> ''module_disabled ''"
abbreviation TOKEN_MIN_FF_EVENT :: string where "TOKEN_MIN_FF_EVENT \<equiv> ''module_min_ff_event ''"
abbreviation TOKEN_DESCRIPTION :: string where "TOKEN_DESCRIPTION \<equiv> ''module_description ''"
abbreviation TOKEN_LOGEVENT :: string where "TOKEN_LOGEVENT \<equiv> ''module_logevent''"
abbreviation TOKEN_SOURCE :: string where "TOKEN_SOURCE \<equiv> ''module_source ''"
abbreviation TOKEN_EVENTTYPE :: string where "TOKEN_EVENTTYPE \<equiv> ''module_eventtype ''"
abbreviation TOKEN_EVENTCODE :: string where "TOKEN_EVENTCODE \<equiv> ''module_eventcode ''"
abbreviation TOKEN_PATTERN :: string where "TOKEN_PATTERN \<equiv> ''module_pattern ''"
abbreviation TOKEN_APPLICATION :: string where "TOKEN_APPLICATION \<equiv> ''module_application ''"
abbreviation TOKEN_ASYNC :: string where "TOKEN_ASYNC \<equiv> ''module_async''"
abbreviation TOKEN_WATCHDOG :: string where "TOKEN_WATCHDOG \<equiv> ''module_watchdog ''"
abbreviation TOKEN_START_COMMAND :: string where "TOKEN_START_COMMAND \<equiv> ''module_start_command ''"
abbreviation TOKEN_WMIQUERY :: string where "TOKEN_WMIQUERY \<equiv> ''module_wmiquery ''"
abbreviation TOKEN_WMICOLUMN :: string where "TOKEN_WMICOLUMN \<equiv> ''module_wmicolumn ''"
abbreviation TOKEN_RETRIES :: string where "TOKEN_RETRIES \<equiv> ''module_retries ''"
abbreviation TOKEN_STARTDELAY :: string where "TOKEN_STARTDELAY \<equiv> ''module_startdelay ''"
abbreviation TOKEN_RETRYDELAY :: string where "TOKEN_RETRYDELAY \<equiv> ''module_retrydelay ''"
abbreviation TOKEN_PERFCOUNTER :: string where "TOKEN_PERFCOUNTER \<equiv> ''module_perfcounter ''"
abbreviation TOKEN_COOKED :: string where "TOKEN_COOKED \<equiv> ''module_cooked ''"
abbreviation TOKEN_TCPCHECK :: string where "TOKEN_TCPCHECK \<equiv> ''module_tcpcheck ''"
abbreviation TOKEN_PORT :: string where "TOKEN_PORT \<equiv> ''module_port ''"
abbreviation TOKEN_TIMEOUT :: string where "TOKEN_TIMEOUT \<equiv> ''module_timeout ''"
abbreviation TOKEN_REGEXP :: string where "TOKEN_REGEXP \<equiv> ''module_regexp ''"
abbreviation TOKEN_PLUGIN :: string where "TOKEN_PLUGIN \<equiv> ''module_plugin ''"
abbreviation TOKEN_SAVE :: string where "TOKEN_SAVE \<equiv> ''module_save ''"
abbreviation TOKEN_CONDITION :: string where "TOKEN_CONDITION \<equiv> ''module_condition ''"
abbreviation TOKEN_CRONTAB :: string where "TOKEN_CRONTAB \<equiv> ''module_crontab ''"
abbreviation TOKEN_CRONINTERVAL :: string where "TOKEN_CRONINTERVAL \<equiv> ''module_cron_interval ''"
abbreviation TOKEN_PRECONDITION :: string where "TOKEN_PRECONDITION \<equiv> ''module_precondition ''"
abbreviation TOKEN_NOSEEKEOF :: string where "TOKEN_NOSEEKEOF \<equiv> ''module_noseekeof ''"
abbreviation TOKEN_PING :: string where "TOKEN_PING \<equiv> ''module_ping ''"
abbreviation TOKEN_PING_COUNT :: string where "TOKEN_PING_COUNT \<equiv> ''module_ping_count ''"
abbreviation TOKEN_PING_TIMEOUT :: string where "TOKEN_PING_TIMEOUT \<equiv> ''module_ping_timeout ''"
abbreviation TOKEN_SNMPGET :: string where "TOKEN_SNMPGET \<equiv> ''module_snmpget''"
abbreviation TOKEN_SNMPVERSION :: string where "TOKEN_SNMPVERSION \<equiv> ''module_snmp_version ''"
abbreviation TOKEN_SNMPCOMMUNITY :: string where "TOKEN_SNMPCOMMUNITY \<equiv> ''module_snmp_community ''"
abbreviation TOKEN_SNMPAGENT :: string where "TOKEN_SNMPAGENT \<equiv> ''module_snmp_agent ''"
abbreviation TOKEN_SNMPOID :: string where "TOKEN_SNMPOID \<equiv> ''module_snmp_oid ''"
abbreviation TOKEN_ADVANCEDOPTIONS :: string where "TOKEN_ADVANCEDOPTIONS \<equiv> ''module_advanced_options ''"
abbreviation TOKEN_INTENSIVECONDITION :: string where "TOKEN_INTENSIVECONDITION \<equiv> ''module_intensive_condition ''"
abbreviation TOKEN_UNIT :: string where "TOKEN_UNIT \<equiv> ''module_unit ''"
abbreviation TOKEN_MODULE_GROUP :: string where "TOKEN_MODULE_GROUP \<equiv> ''module_group ''"
abbreviation TOKEN_CUSTOM_ID :: string where "TOKEN_CUSTOM_ID \<equiv> ''module_custom_id ''"
abbreviation TOKEN_STR_WARNING :: string where "TOKEN_STR_WARNING \<equiv> ''module_str_warning ''"
abbreviation TOKEN_STR_CRITICAL :: string where "TOKEN_STR_CRITICAL \<equiv> ''module_str_critical ''"
abbreviation TOKEN_CRITICAL_INSTRUCTIONS :: string where "TOKEN_CRITICAL_INSTRUCTIONS \<equiv> ''module_critical_instructions ''"
abbreviation TOKEN_WARNING_INSTRUCTIONS :: string where "TOKEN_WARNING_INSTRUCTIONS \<equiv> ''module_warning_instructions ''"
abbreviation TOKEN_UNKNOWN_INSTRUCTIONS :: string where "TOKEN_UNKNOWN_INSTRUCTIONS \<equiv> ''module_unknown_instructions ''"
abbreviation TOKEN_TAGS :: string where "TOKEN_TAGS \<equiv> ''module_tags ''"
abbreviation TOKEN_CRITICAL_INVERSE :: string where "TOKEN_CRITICAL_INVERSE \<equiv> ''module_critical_inverse ''"
abbreviation TOKEN_WARNING_INVERSE :: string where "TOKEN_WARNING_INVERSE \<equiv> ''module_warning_inverse ''"
abbreviation TOKEN_QUIET :: string where "TOKEN_QUIET \<equiv> ''module_quiet ''"
abbreviation TOKEN_MODULE_FF_INTERVAL :: string where "TOKEN_MODULE_FF_INTERVAL \<equiv> ''module_ff_interval ''"
abbreviation TOKEN_MACRO :: string where "TOKEN_MACRO \<equiv> ''module_macro''"

definition parseLine :: "string \<Rightarrow> string \<Rightarrow> string" where
  "parseLine line token =
     (if str_find line token = Some 0
      then (let retstr = drop (length token) line in if retstr = [] then '' '' else retstr)
      else [])"

record definition_lines =
  field_of :: "string \<Rightarrow> string"
  preconditions :: "string list"
  conditions :: "string list"
  intensive_conditions :: "string list"
  macros :: "string list"

definition no_lines :: definition_lines where
  "no_lines = \<lparr>field_of = (\<lambda>_. []), preconditions = [], conditions = [], intensive_conditions = [],
     macros = []\<rparr>"

text \<open>The tokens that may occur several times are queued.\<close>

definition queue_value :: "string \<Rightarrow> string \<Rightarrow> string list \<Rightarrow> string list" where
  "queue_value line token vs =
     (let v = parseLine line token in if v \<noteq> [] then vs @ [v] else vs)"

definition scan_line :: "string \<Rightarrow> definition_lines \<Rightarrow> definition_lines" where
  "scan_line tok d =
     (let line = trim tok
      in d\<lparr>field_of := (\<lambda>t. if field_of d t = [] then parseLine line t else field_of d t),
           preconditions := queue_value line TOKEN_PRECONDITION (preconditions d),
           conditions := queue_value line TOKEN_CONDITION (conditions d),
           intensive_conditions := queue_value line TOKEN_INTENSIVECONDITION (intensive_conditions d),
           macros := queue_value line TOKEN_MACRO (macros d)\<rparr>)"

definition scan_definition :: "string \<Rightarrow> definition_lines" where
  "scan_definition text = fold scan_line (stringtok [] text [LF]) no_lines"

section \<open>Macros\<close>

definition replace_first :: "string \<Rightarrow> string \<Rightarrow> string \<Rightarrow> string" where
  "replace_first key value s =
     (case str_find s key of
        None \<Rightarrow> s
      | Some pos \<Rightarrow> str_replace_at s pos (length key) value)"

definition subst_macro :: "string \<Rightarrow> definition_lines \<Rightarrow> definition_lines" where
  "subst_macro macro d =
     (case str_find macro '' '' of
        None \<Rightarrow> d
      | Some pos \<Rightarrow>
          let value = drop (pos + 1) macro; key = take pos macro
          in d\<lparr>field_of := (\<lambda>t. if field_of d t \<noteq> [] then replace_first key value (field_of d t) else []),
               preconditions := map (replace_first key value) (preconditions d),
               conditions := map (replace_first key value) (conditions d),
               intensive_conditions := map (replace_first key value) (intensive_conditions d)\<rparr>)"

definition subst_macros :: "definition_lines \<Rightarrow> definition_lines" where
  "subst_macros d = fold subst_macro (macros d) d"

section \<open>Creating the object\<close>

definition default_to :: "string \<Rightarrow> string \<Rightarrow> string" where
  "default_to v s = (if s = [] then v else s)"

text \<open>\<^verbatim>\<open>if (module_timeout != "") module->setTimeout (atoi (module_timeout.c_str ()))\<close>\<close>

definition with_timeout :: "string \<Rightarrow> 'd module_object \<Rightarrow> 'd module_object result" where
  "with_timeout s obj =
     (if s = [] then Inr obj
      else map_sum (\<lambda>e. e) (\<lambda>t. (setTimeout t (fst obj), snd obj)) (atoi s))"

definition bind_result :: "'a result \<Rightarrow> ('a \<Rightarrow> 'b result) \<Rightarrow> 'b result" where
  "bind_result r f = (case r of Inl e \<Rightarrow> Inl e | Inr x \<Rightarrow> f x)"

definition create_proc ::
    "'d pandora_module \<Rightarrow> (string \<Rightarrow> string) \<Rightarrow> 'd module_object option result" where
  "create_proc base f =
     (let obj = newModule_Proc base (f TOKEN_PROC)
      in if f TOKEN_WATCHDOG = [] \<or> \<not> is_enabled (f TOKEN_WATCHDOG) then Inr (Some obj)
         else if f TOKEN_START_COMMAND = [] then Inr None
         else case snd obj of
                Module_Proc p \<Rightarrow>
                  bind_result (atoi (f TOKEN_RETRIES)) (\<lambda>n.
                  bind_result (atoi (f TOKEN_STARTDELAY)) (\<lambda>sd.
                  bind_result (atoi (f TOKEN_RETRYDELAY)) (\<lambda>rd.
                    Inr (Some (fst obj, Module_Proc (setRetryDelay rd (setStartDelay sd
                      (setRetries n (setStartCommand (f TOKEN_START_COMMAND)
                        (setWatchdog True p)))))))))) 
              | _ \<Rightarrow> Inr (Some obj))"

definition create_service :: "'d pandora_module \<Rightarrow> (string \<Rightarrow> string) \<Rightarrow> 'd module_object" where
  "create_service base f =
     (case newModule_Service base (f TOKEN_SERVICE) of
        (m, Module_Service s w) \<Rightarrow>
          (m, Module_Service s (if f TOKEN_WATCHDOG \<noteq> [] then is_enabled (f TOKEN_WATCHDOG) else w))
      | obj \<Rightarrow> obj)"

definition create_cpuusage ::
    "int \<Rightarrow> 'd pandora_module \<Rightarrow> (string \<Rightarrow> string) \<Rightarrow> 'd module_object result" where
  "create_cpuusage junk base f =
     (case strtoint junk (f TOKEN_CPUUSAGE) of
        Inl Invalid_Conversion \<Rightarrow> Inr (newModule_Cpuusage base (-1))
      | Inl e \<Rightarrow> Inl e
      | Inr n \<Rightarrow> Inr (newModule_Cpuusage base n))"

text \<open>The first kind token that is set decides; \<open>None\<close> if there is none.\<close>

definition create_object ::
    "int \<Rightarrow> 'd pandora_module \<Rightarrow> (string \<Rightarrow> string) \<Rightarrow> 'd module_object option result" where
  "create_object junk base f =
     (let some = map_sum (\<lambda>e. e) Some
      in if f TOKEN_EXEC \<noteq> []
      then some (with_timeout (f TOKEN_TIMEOUT) (newModule_Exec base (f TOKEN_EXEC)))
      else if f TOKEN_PROC \<noteq> [] then create_proc base f
      else if f TOKEN_SERVICE \<noteq> [] then Inr (Some (create_service base f))
      else if f TOKEN_FREEDISK \<noteq> [] then Inr (Some (newModule_Freedisk base (f TOKEN_FREEDISK)))
      else if f TOKEN_FREEDISK_PERCENT \<noteq> []
      then Inr (Some (newModule_Freedisk_Percent base (f TOKEN_FREEDISK_PERCENT)))
      else if f TOKEN_FREEMEMORY \<noteq> [] then Inr (Some (newModule_Freememory base))
      else if f TOKEN_FREEMEMORY_PERCENT \<noteq> [] then Inr (Some (newModule_Freememory_Percent base))
      else if f TOKEN_CPUUSAGE \<noteq> [] then some (create_cpuusage junk base f)
      else if f TOKEN_INVENTORY \<noteq> [] then Inr (Some (newModule_Inventory base (f TOKEN_INVENTORY)))
      else if f TOKEN_LOGEVENT \<noteq> []
      then Inr (Some (newModule_Logevent base (f TOKEN_SOURCE) (f TOKEN_EVENTTYPE)
             (f TOKEN_EVENTCODE) (f TOKEN_PATTERN) (f TOKEN_APPLICATION)))
      else if f TOKEN_WMIQUERY \<noteq> []
      then Inr (Some (newModule_WMIQuery base (f TOKEN_WMIQUERY) (f TOKEN_WMICOLUMN)))
      else if f TOKEN_PERFCOUNTER \<noteq> []
      then Inr (Some (newModule_Perfcounter base (f TOKEN_PERFCOUNTER) (f TOKEN_COOKED)))
      else if f TOKEN_TCPCHECK \<noteq> []
      then some (newModule_Tcpcheck base (f TOKEN_TCPCHECK) (f TOKEN_PORT) (f TOKEN_TIMEOUT))
      else if f TOKEN_REGEXP \<noteq> []
      then some (map_sum (\<lambda>e. e)
             (\<lambda>n. newModule_Regexp base (f TOKEN_REGEXP) (f TOKEN_PATTERN) (word_of_int n))
             (atoi (f TOKEN_NOSEEKEOF)))
      else if f TOKEN_PLUGIN \<noteq> [] then Inr (Some (newModule_Plugin base (f TOKEN_PLUGIN)))
      else if f TOKEN_PING \<noteq> []
      then some (with_timeout (f TOKEN_TIMEOUT)
             (newModule_Ping base (f TOKEN_PING) (default_to ''1'' (f TOKEN_PING_COUNT))
               (default_to ''1000'' (f TOKEN_PING_TIMEOUT)) (f TOKEN_ADVANCEDOPTIONS)))
      else if f TOKEN_SNMPGET \<noteq> []
      then some (with_timeout (f TOKEN_TIMEOUT)
             (newModule_SNMPGet base (default_to ''1'' (f TOKEN_SNMPVERSION))
               (default_to ''public'' (f TOKEN_SNMPCOMMUNITY))
               (default_to ''localhost'' (f TOKEN_SNMPAGENT)) (f TOKEN_SNMPOID)
               (f TOKEN_ADVANCEDOPTIONS)))
      else Inr None)"

section \<open>Settings\<close>

definition set_unless_empty ::
    "(string \<Rightarrow> 'd pandora_module \<Rightarrow> 'd pandora_module) \<Rightarrow> string \<Rightarrow> 'd pandora_module \<Rightarrow> 'd pandora_module" where
  "set_unless_empty setter v m = (if v \<noteq> [] then setter v m else m)"

definition set_common ::
    "'d clib \<Rightarrow> definition_lines \<Rightarrow> 'd pandora_module \<Rightarrow> 'd pandora_module" where
  "set_common L d m =
     (let m1 = set_unless_empty setDescription (field_of d TOKEN_DESCRIPTION) m;
          m2 = set_unless_empty setSave (field_of d TOKEN_SAVE) m1;
          m3 = (if field_of d TOKEN_ASYNC \<noteq> [] then setAsync True m2 else m2);
          m4 = fold (addPreCondition L) (preconditions d) m3
      in fold (addCondition L) (conditions d) m4)"

definition set_interval :: "int \<Rightarrow> string \<Rightarrow> 'd pandora_module \<Rightarrow> 'd pandora_module result" where
  "set_interval junk s m =
     (if s = [] then Inr m
      else case strtoint junk s of
             Inl Invalid_Conversion \<Rightarrow> Inr m
           | Inl e \<Rightarrow> Inl e
           | Inr i \<Rightarrow> Inr (setIntensiveInterval i (setInterval i m)))"

text \<open>
  \<open>agent\<close> and \<open>intensive\<close> are \<^verbatim>\<open>getInterval ()\<close> and \<^verbatim>\<open>getIntensiveInterval ()\<close> of the service.
\<close>

definition set_intensive ::
    "'d clib \<Rightarrow> int \<Rightarrow> int \<Rightarrow> definition_lines \<Rightarrow> 'd pandora_module \<Rightarrow> 'd pandora_module result" where
  "set_intensive L agent intensive d m =
     (if intensive_conditions d \<noteq> []
      then Inr (fold (addIntensiveCondition L) (intensive_conditions d) m)
      else if intensive = 0 then Inl Undefined_Behaviour
      else Inr (setIntensiveInterval (s32 (module_interval m * cdiv agent intensive)) m))"

definition set_cron :: "'d clib \<Rightarrow> (string \<Rightarrow> string) \<Rightarrow> 'd pandora_module \<Rightarrow> 'd pandora_module result" where
  "set_cron L f m =
     (if f TOKEN_CRONTAB = [] then Inr m
      else bind_result (setCron L (f TOKEN_CRONTAB) m) (\<lambda>m'.
             if f TOKEN_CRONINTERVAL = [] then Inr m'
             else bind_result (atoi (f TOKEN_CRONINTERVAL)) (\<lambda>i. Inr (setCronInterval i m'))))"

text \<open>The type and whether it is numeric; \<open>None\<close> for a bad type.\<close>

definition set_type :: "(string \<Rightarrow> string) \<Rightarrow> 'd pandora_module \<Rightarrow> (bool \<times> 'd pandora_module) option" where
  "set_type f m =
     (if f TOKEN_PLUGIN = []
      then (let type = parseModuleTypeFromString (f TOKEN_TYPE)
            in if type \<in> {TYPE_GENERIC_DATA, TYPE_GENERIC_DATA_INC, TYPE_GENERIC_PROC,
                          TYPE_ASYNC_DATA, TYPE_ASYNC_PROC}
               then Some (True, setType (f TOKEN_TYPE) m)
               else if type \<in> {TYPE_GENERIC_DATA_STRING, TYPE_ASYNC_STRING, TYPE_LOG}
               then Some (False, setType (f TOKEN_TYPE) m)
               else None)
      else Some (False, setType ''generic_data_string'' m))"

definition set_limit ::
    "int \<Rightarrow> (int \<Rightarrow> 'd pandora_module \<Rightarrow> 'd pandora_module) \<Rightarrow> string \<Rightarrow> 'd pandora_module
     \<Rightarrow> 'd pandora_module result" where
  "set_limit junk setter s m =
     (if s = [] then Inr m
      else case strtoint junk s of
             Inl Invalid_Conversion \<Rightarrow> Inr m
           | Inl e \<Rightarrow> Inl e
           | Inr v \<Rightarrow> Inr (setter v m))"

definition set_limits ::
    "int \<Rightarrow> bool \<Rightarrow> (string \<Rightarrow> string) \<Rightarrow> 'd pandora_module \<Rightarrow> 'd pandora_module result" where
  "set_limits junk numeric f m =
     (if \<not> numeric then Inr m
      else bind_result (set_limit junk setMax (f TOKEN_MAX) m) (\<lambda>m'.
             set_limit junk setMin (f TOKEN_MIN) m'))"

definition set_strings :: "(string \<Rightarrow> string) \<Rightarrow> 'd pandora_module \<Rightarrow> 'd pandora_module" where
  "set_strings f m =
     fold (\<lambda>(setter, token). set_unless_empty setter (f token))
       [(setPostProcess, TOKEN_POST_PROCESS), (setMinCritical, TOKEN_MIN_CRITICAL),
        (setMaxCritical, TOKEN_MAX_CRITICAL), (setMinWarning, TOKEN_MIN_WARNING),
        (setMaxWarning, TOKEN_MAX_WARNING), (setDisabled, TOKEN_DISABLED),
        (setMinFFEvent, TOKEN_MIN_FF_EVENT), (setUnit, TOKEN_UNIT),
        (setModuleGroup, TOKEN_MODULE_GROUP), (setCustomId, TOKEN_CUSTOM_ID),
        (setStrWarning, TOKEN_STR_WARNING), (setStrCritical, TOKEN_STR_CRITICAL),
        (setCriticalInstructions, TOKEN_CRITICAL_INSTRUCTIONS),
        (setWarningInstructions, TOKEN_WARNING_INSTRUCTIONS),
        (setUnknownInstructions, TOKEN_UNKNOWN_INSTRUCTIONS), (setTags, TOKEN_TAGS),
        (setCriticalInverse, TOKEN_CRITICAL_INVERSE), (setWarningInverse, TOKEN_WARNING_INVERSE),
        (setQuiet, TOKEN_QUIET), (setModuleFFInterval, TOKEN_MODULE_FF_INTERVAL)] m"

section \<open>getModuleFromDefinition\<close>

text \<open>The memory of the new object, which its constructor leaves uninitialised in part.\<close>

record memory =
  junk_output :: bool
  junk_type :: module_type
  junk_kind :: module_kind
  junk_int :: int

definition configure ::
    "'d clib \<Rightarrow> memory \<Rightarrow> int \<Rightarrow> int \<Rightarrow> definition_lines \<Rightarrow> 'd pandora_module
     \<Rightarrow> 'd pandora_module option result" where
  "configure L mem agent intensive d m =
     bind_result (set_interval (junk_int mem) (field_of d TOKEN_INTERVAL) (set_common L d m)) (\<lambda>m1.
     bind_result (set_intensive L agent intensive d m1) (\<lambda>m2.
     bind_result (set_cron L (field_of d) m2) (\<lambda>m3.
       case set_type (field_of d) m3 of
         None \<Rightarrow> Inr None
       | Some (numeric, m4) \<Rightarrow>
           bind_result (set_limits (junk_int mem) numeric (field_of d) m4) (\<lambda>m5.
             Inr (Some (set_strings (field_of d) m5))))))"

definition getModuleFromDefinition ::
    "'d clib \<Rightarrow> memory \<Rightarrow> int \<Rightarrow> int \<Rightarrow> string \<Rightarrow> 'd module_object option result" where
  "getModuleFromDefinition L mem agent intensive text =
     (let d = subst_macros (scan_definition text);
          base = newPandora_Module (junk_output mem) (junk_type mem) (junk_kind mem)
                   (field_of d TOKEN_NAME)
      in bind_result (create_object (junk_int mem) base (field_of d)) (\<lambda>created.
           case created of
             None \<Rightarrow> Inr None
           | Some obj \<Rightarrow>
               map_sum (\<lambda>e. e) (map_option (\<lambda>m. (m, snd obj)))
                 (configure L mem agent intensive d (fst obj))))"

section \<open>Facts about the lines\<close>

text \<open>The value a line gives to a token, and the reference definition of the scan.\<close>

definition line_value :: "string \<Rightarrow> string \<Rightarrow> string" where
  "line_value token line = (if line = token then '' '' else drop (length token) line)"

definition first_value :: "string \<Rightarrow> string list \<Rightarrow> string" where
  "first_value token ls = (case find (prefix token) ls of None \<Rightarrow> [] | Some l \<Rightarrow> line_value token l)"

definition all_values :: "string \<Rightarrow> string list \<Rightarrow> string list" where
  "all_values token ls = map (line_value token) (filter (prefix token) ls)"

lemma str_find_0: "str_find s pat = Some 0 \<longleftrightarrow> prefix pat s"
  by (cases s) auto

lemma drop_length_eq_Nil: "prefix xs ys \<Longrightarrow> drop (length xs) ys = [] \<longleftrightarrow> ys = xs"
  by (auto simp: prefix_def)

lemma parseLine_value: "parseLine line token = (if prefix token line then line_value token line else [])"
  using drop_length_eq_Nil[of token line]
  by (auto simp: parseLine_def line_value_def str_find_0 Let_def)

lemma line_value_not_Nil: "prefix token line \<Longrightarrow> line_value token line \<noteq> []"
  using drop_length_eq_Nil[of token line] by (auto simp: line_value_def)

lemma queue_value_eq: "queue_value line token vs = vs @ all_values token [line]"
  using line_value_not_Nil by (auto simp: queue_value_def parseLine_value all_values_def Let_def)

lemma scan_lines:
  "field_of (fold scan_line ls d) t =
     (if field_of d t \<noteq> [] then field_of d t else first_value t (map trim ls))"
  "preconditions (fold scan_line ls d) = preconditions d @ all_values TOKEN_PRECONDITION (map trim ls)"
  "conditions (fold scan_line ls d) = conditions d @ all_values TOKEN_CONDITION (map trim ls)"
  "intensive_conditions (fold scan_line ls d)
     = intensive_conditions d @ all_values TOKEN_INTENSIVECONDITION (map trim ls)"
  "macros (fold scan_line ls d) = macros d @ all_values TOKEN_MACRO (map trim ls)"
proof (induction ls arbitrary: d)
  case Nil
  {
    case 1 then show ?case by (simp add: first_value_def)
  next
    case 2 then show ?case by (simp add: all_values_def)
  next
    case 3 then show ?case by (simp add: all_values_def)
  next
    case 4 then show ?case by (simp add: all_values_def)
  next
    case 5 then show ?case by (simp add: all_values_def)
  }
next
  case (Cons l ls)
  {
    case 1
    then show ?case
      using Cons(1)[of "scan_line l d"] line_value_not_Nil[of t "trim l"]
      by (simp add: scan_line_def parseLine_value first_value_def Let_def)
  next
    case 2
    then show ?case using Cons(2)[of "scan_line l d"] 
      by (simp add: scan_line_def queue_value_eq all_values_def Let_def)
  next
    case 3
    then show ?case using Cons(3)[of "scan_line l d"] 
      by (simp add: scan_line_def queue_value_eq all_values_def Let_def)
  next
    case 4
    then show ?case using Cons(4)[of "scan_line l d"] 
      by (simp add: scan_line_def queue_value_eq all_values_def Let_def)
  next
    case 5
    then show ?case using Cons(5)[of "scan_line l d"] 
      by (simp add: scan_line_def queue_value_eq all_values_def Let_def)
  }
qed

section \<open>Facts about the objects\<close>

text \<open>Everything of the invariant but the type, which is set late.\<close>

definition ready :: "module_kind \<Rightarrow> 'd pandora_module \<Rightarrow> bool" where
  "ready k m \<longleftrightarrow> wf_as k (m\<lparr>module_type := TYPE_LOG\<rparr>)"

lemmas ready_simps = ready_def wf_as_def wf_module_def

lemma ready_setters:
  assumes "ready k m"
  shows "ready k (setTimeout i m)" "ready k (setDescription s m)" "ready k (setSave s m)"
    "ready k (setAsync b m)" "ready k (setInterval i m)" "ready k (setIntensiveInterval i m)"
    "ready k (addPreCondition L s m)" "ready k (addCondition L s m)"
    "ready k (addIntensiveCondition L s m)" "ready k (setMax i m)" "ready k (setMin i m)"
    "ready k (setCronInterval i m)"
  using assms
  by (auto simp: ready_simps setTimeout_def setDescription_def setSave_def setAsync_def setInterval_def
      setIntensiveInterval_def addPreCondition_def addCondition_def addIntensiveCondition_def
      setMax_def setMin_def setCronInterval_def newCron_def split: option.splits)

lemma ready_fold: "(\<And>x m. ready k m \<Longrightarrow> ready k (f x m)) \<Longrightarrow> ready k m \<Longrightarrow> ready k (fold f xs m)"
  by (induction xs arbitrary: m) auto

lemma cron_fields_length: "cron_fields L ss olds = Inr ps \<Longrightarrow> length ps = length olds"
  by (induction L ss olds arbitrary: ps rule: cron_fields.induct)
    (auto simp: map_sum_def split: sum.splits)

lemma setCron_effect:
  assumes "setCron L s m = Inr m'"
  shows "m' = m\<lparr>cron := cron m'\<rparr>" and "\<exists>c. cron m' = Some c
    \<and> length (cron_params c) = length (cron_params (case cron m of None \<Rightarrow> newCron | Some c \<Rightarrow> c))"
  using assms unfolding setCron_def Let_def
  by (auto split: list.splits scan_arg.splits sum.splits dest: cron_fields_length)

lemma ready_setCron:
  assumes "setCron L s m = Inr m'" and "ready k m"
  shows "ready k m'"
proof -
  obtain c where c: "cron m' = Some c"
    "length (cron_params c) = length (cron_params (case cron m of None \<Rightarrow> newCron | Some c \<Rightarrow> c))"
    using setCron_effect(2)[OF assms(1)] by auto
  have "m' = m\<lparr>cron := cron m'\<rparr>" by (rule setCron_effect(1)[OF assms(1)])
  also note c(1)
  finally have "m' = m\<lparr>cron := Some c\<rparr>" .
  with c(2) assms(2) show ?thesis
    by (auto simp: ready_simps newCron_def split: option.splits)
qed

lemma ready_set_common: "ready k m \<Longrightarrow> ready k (set_common L d m)"
  by (auto simp: set_common_def set_unless_empty_def Let_def intro!: ready_fold ready_setters)

lemma ready_set_interval: "set_interval j s m = Inr m' \<Longrightarrow> ready k m \<Longrightarrow> ready k m'"
  by (auto simp: set_interval_def split: if_splits sum.splits cxx_error.splits intro!: ready_setters)

lemma ready_set_intensive: "set_intensive L a i d m = Inr m' \<Longrightarrow> ready k m \<Longrightarrow> ready k m'"
  by (auto simp: set_intensive_def split: if_splits intro!: ready_fold ready_setters)

lemma ready_set_cron: "set_cron L f m = Inr m' \<Longrightarrow> ready k m \<Longrightarrow> ready k m'"
  by (auto simp: set_cron_def bind_result_def split: if_splits sum.splits
      dest!: ready_setCron intro!: ready_setters)

lemma parse_string_type: "parseModuleTypeFromString ''generic_data_string'' = TYPE_GENERIC_DATA_STRING"
  by (simp add: parseModuleTypeFromString_def)

lemma wf_set_type: "set_type f m = Some (b, m') \<Longrightarrow> ready k m \<Longrightarrow> wf_as k m'"
  by (auto simp: set_type_def ready_simps setType_def Let_def parse_string_type split: if_splits)

lemma wf_limit_setters: "wf_as k m \<Longrightarrow> wf_as k (setMax v m)" "wf_as k m \<Longrightarrow> wf_as k (setMin v m)"
  by (auto simp: wf_as_def wf_module_def setMax_def setMin_def)

lemma wf_set_limit:
  assumes "set_limit j setter s m = Inr m'" and "wf_as k m"
    and "\<And>v m. wf_as k m \<Longrightarrow> wf_as k (setter v m)"
  shows "wf_as k m'"
  using assms by (auto simp: set_limit_def split: if_splits sum.splits cxx_error.splits)

lemma wf_set_limits:
  assumes "set_limits j b f m = Inr m'" and "wf_as k m"
  shows "wf_as k m'"
  using assms
  by (auto simp: set_limits_def bind_result_def split: if_splits sum.splits
      elim!: wf_set_limit intro: wf_limit_setters)

lemma set_unless_empty_fold:
  assumes "\<forall>(setter, t)\<in>set ps. \<forall>v m. P (setter v m) = P m"
  shows "P (fold (\<lambda>(setter, t). set_unless_empty setter (f t)) ps m) = P m"
  using assms by (induction ps arbitrary: m) (auto simp: set_unless_empty_def)

lemmas string_setters = setPostProcess_def setMinCritical_def setMaxCritical_def setMinWarning_def
  setMaxWarning_def setDisabled_def setMinFFEvent_def setUnit_def setModuleGroup_def
  setCustomId_def setStrWarning_def setStrCritical_def setCriticalInstructions_def
  setWarningInstructions_def setUnknownInstructions_def setTags_def setCriticalInverse_def
  setWarningInverse_def setQuiet_def setModuleFFInterval_def

lemma set_strings_keeps:
  "wf_as k (set_strings f m) = wf_as k m"
  "intensive_interval (set_strings f m) = intensive_interval m"
  "executions (set_strings f m) = executions m"
  unfolding set_strings_def
  by (rule set_unless_empty_fold; simp add: string_setters wf_as_def wf_module_def)+

text \<open>A new object of any class.\<close>

definition fresh :: "'d pandora_module \<Rightarrow> bool" where
  "fresh m \<longleftrightarrow> data_list m = None \<and> inventory_list m = None \<and> cron m = None \<and>
     \<not> has_limits m \<and> \<not> has_min m \<and> \<not> has_max m \<and> executions m = 0 \<and> module_interval m = 1"

definition new_object :: "'d module_object \<Rightarrow> bool" where
  "new_object obj \<longleftrightarrow> fresh (fst obj) \<and> module_kind (fst obj) \<in> set (class_kinds (snd obj))"

lemma fresh_keeps [simp]:
  "fresh (setKind k m) = fresh m" "fresh (setTimeout t m) = fresh m" "fresh (m\<lparr>mod_name := s\<rparr>) = fresh m"
  by (simp_all add: fresh_def setKind_def setTimeout_def)

lemma kind_set [simp]:
  "module_kind (setKind k m) = parseModuleKindFromString k"
  "module_kind (setTimeout t m) = module_kind m"
  by (simp_all add: setKind_def setTimeout_def)

lemma fresh_base: "fresh (newPandora_Module a b c s)"
  by (simp add: fresh_def newPandora_Module_def)

lemmas constructors = newModule_Exec_def newModule_Proc_def newModule_Service_def
  newModule_Freedisk_def newModule_Freedisk_Percent_def newModule_Freememory_def
  newModule_Freememory_Percent_def newModule_Cpuusage_def newModule_Inventory_def
  newModule_Logevent_def newModule_WMIQuery_def newModule_Perfcounter_def newModule_Tcpcheck_def
  newModule_Regexp_def newModule_Plugin_def newModule_Ping_def newModule_SNMPGet_def

lemma constructors_new:
  assumes "fresh base"
  shows "new_object (newModule_Exec base s)" "new_object (newModule_Proc base s)"
    "new_object (newModule_Service base s)" "new_object (newModule_Freedisk base s)"
    "new_object (newModule_Freedisk_Percent base s)" "new_object (newModule_Freememory base)"
    "new_object (newModule_Freememory_Percent base)" "new_object (newModule_Cpuusage base i)"
    "new_object (newModule_Inventory base s)" "new_object (newModule_Logevent base s s1 s2 s3 s4)"
    "new_object (newModule_WMIQuery base s s1)" "new_object (newModule_Perfcounter base s s1)"
    "new_object (newModule_Regexp base s s1 w)" "new_object (newModule_Plugin base s)"
    "new_object (newModule_Ping base s s1 s2 s3)" "new_object (newModule_SNMPGet base s s1 s2 s3 s4)"
  using assms
  by (simp_all add: new_object_def constructors parseModuleKindFromString_def Let_def)

lemma new_Tcpcheck: "newModule_Tcpcheck base s s1 s2 = Inr obj \<Longrightarrow> fresh base \<Longrightarrow> new_object obj"
  by (auto simp: newModule_Tcpcheck_def new_object_def parseModuleKindFromString_def split: sum.splits)

lemma new_with_timeout: "with_timeout s obj = Inr obj' \<Longrightarrow> new_object obj \<Longrightarrow> new_object obj'"
  by (auto simp: with_timeout_def new_object_def map_sum_def split: if_splits sum.splits)

lemma new_create_proc: "create_proc base f = Inr (Some obj) \<Longrightarrow> fresh base \<Longrightarrow> new_object obj"
  using constructors_new(2)[of base "f TOKEN_PROC"]
  by (auto simp: create_proc_def bind_result_def Let_def new_object_def
      split: if_splits module_class.splits sum.splits)

lemma new_create_service: "fresh base \<Longrightarrow> new_object (create_service base f)"
  by (auto simp: create_service_def newModule_Service_def new_object_def parseModuleKindFromString_def)

lemma new_create_cpuusage: "create_cpuusage j base f = Inr obj \<Longrightarrow> fresh base \<Longrightarrow> new_object obj"
  by (auto simp: create_cpuusage_def split: sum.splits cxx_error.splits intro: constructors_new)

lemma new_Regexp: "newModule_Regexp base s s1 w = obj \<Longrightarrow> fresh base \<Longrightarrow> new_object obj"
  using constructors_new(13) by blast

lemma new_create_object:
  assumes "create_object j base f = Inr (Some obj)" and "fresh base"
  shows "new_object obj"
  using assms unfolding create_object_def Let_def
  by (auto simp: map_sum_def split: if_splits sum.splits
      dest: new_create_proc new_create_cpuusage new_Tcpcheck new_Regexp elim!: new_with_timeout
      intro: constructors_new new_create_service)

lemma wf_configure:
  assumes "configure L mem a i d m = Inr (Some m')" and "ready k m"
  shows "wf_as k m'"
  using assms
  by (auto simp: configure_def bind_result_def set_strings_keeps split: sum.splits option.splits
      dest!: ready_set_interval ready_set_intensive ready_set_cron wf_set_type wf_set_limits
      intro: ready_set_common)

text \<open>The tokens that choose the kind of a module.\<close>

definition kind_tokens :: "string list" where
  "kind_tokens = [TOKEN_EXEC, TOKEN_PROC, TOKEN_SERVICE, TOKEN_FREEDISK, TOKEN_FREEDISK_PERCENT,
     TOKEN_FREEMEMORY, TOKEN_FREEMEMORY_PERCENT, TOKEN_CPUUSAGE, TOKEN_INVENTORY, TOKEN_LOGEVENT,
     TOKEN_WMIQUERY, TOKEN_PERFCOUNTER, TOKEN_TCPCHECK, TOKEN_REGEXP, TOKEN_PLUGIN, TOKEN_PING,
     TOKEN_SNMPGET]"

text \<open>A process module that shall be restarted without a command for it.\<close>

definition lacks_start_command :: "(string \<Rightarrow> string) \<Rightarrow> bool" where
  "lacks_start_command f \<longleftrightarrow> f TOKEN_EXEC = [] \<and> f TOKEN_PROC \<noteq> [] \<and> is_enabled (f TOKEN_WATCHDOG) \<and>
     f TOKEN_START_COMMAND = []"

lemma create_proc_None:
  "create_proc base f = Inr r \<Longrightarrow>
     r = None \<longleftrightarrow> is_enabled (f TOKEN_WATCHDOG) \<and> f TOKEN_START_COMMAND = []"
  by (auto simp: create_proc_def newModule_Proc_def bind_result_def Let_def is_enabled_def
      split: if_splits sum.splits)

lemma create_object_None:
  assumes "create_object j base f = Inr r"
  shows "r = None \<longleftrightarrow> (\<forall>t\<in>set kind_tokens. f t = []) \<or> lacks_start_command f"
proof (cases "f TOKEN_EXEC = [] \<and> f TOKEN_PROC \<noteq> []")
  case True
  then have "create_proc base f = Inr r" using assms by (simp add: create_object_def Let_def)
  from create_proc_None[OF this] True show ?thesis
    by (auto simp: kind_tokens_def lacks_start_command_def)
next
  case False
  then have "\<not> lacks_start_command f" by (auto simp: lacks_start_command_def)
  moreover have "r = None \<longleftrightarrow> (\<forall>t\<in>set kind_tokens. f t = [])"
    using assms False unfolding create_object_def Let_def
    by (auto simp: map_sum_def kind_tokens_def split: if_splits sum.splits)
  ultimately show ?thesis by simp
qed

definition bad_type :: "(string \<Rightarrow> string) \<Rightarrow> bool" where
  "bad_type f \<longleftrightarrow> f TOKEN_PLUGIN = [] \<and> parseModuleTypeFromString (f TOKEN_TYPE) = TYPE_0"

lemma set_type_None: "set_type f m = None \<longleftrightarrow> bad_type f"
  by (cases "parseModuleTypeFromString (f TOKEN_TYPE)") (auto simp: set_type_def bad_type_def Let_def)

lemma configure_None:
  "configure L mem a i d m = Inr r \<Longrightarrow> r = None \<longleftrightarrow> bad_type (field_of d)"
  using set_type_None[of "field_of d"]
  by (auto simp: configure_def bind_result_def split: sum.splits option.splits)

text \<open>What a definition says about the interval survives the rest of the configuration.\<close>

lemma sched_set_common:
  "module_interval (set_common L d m) = module_interval m" "executions (set_common L d m) = executions m"
proof -
  have pre: "module_interval (fold (addPreCondition L) cs m) = module_interval m"
    "executions (fold (addPreCondition L) cs m) = executions m" for cs and m :: "'a pandora_module"
    by (induction cs arbitrary: m) (auto simp: addPreCondition_def)
  have cond: "module_interval (fold (addCondition L) cs m) = module_interval m"
    "executions (fold (addCondition L) cs m) = executions m" for cs and m :: "'a pandora_module"
    by (induction cs arbitrary: m) (auto simp: addCondition_def)
  show "module_interval (set_common L d m) = module_interval m" "executions (set_common L d m) = executions m"
    by (simp_all add: set_common_def Let_def pre cond set_unless_empty_def setDescription_def
        setSave_def setAsync_def)
qed

lemma sched_set_cron:
  assumes "set_cron L f m = Inr m'"
  shows "intensive_interval m' = intensive_interval m \<and> executions m' = executions m"
proof -
  have eff: "intensive_interval m1 = intensive_interval m \<and> executions m1 = executions m"
    if "setCron L s m = Inr m1" for s m1
    using setCron_effect(1)[OF that] by (metis pandora_module.select_convs(3,26) pandora_module.update_convs(22) pandora_module.surjective)
  show ?thesis
    using assms eff
    by (auto simp: set_cron_def bind_result_def setCronInterval_def split: if_splits sum.splits)
qed

lemma sched_set_type:
  assumes "set_type f m = Some (b, m')"
  shows "intensive_interval m' = intensive_interval m" "executions m' = executions m"
  using assms by (auto simp: set_type_def setType_def Let_def split: if_splits)

lemma sched_set_limits:
  assumes "set_limits j b f m = Inr m'"
  shows "intensive_interval m' = intensive_interval m" "executions m' = executions m"
proof -
  have "intensive_interval m2 = intensive_interval m1 \<and> executions m2 = executions m1"
    if "set_limit j setter s m1 = Inr m2" "setter \<in> {setMax, setMin}" for setter s and m1 m2 :: "'a pandora_module"
    using that by (auto simp: set_limit_def setMax_def setMin_def split: if_splits sum.splits cxx_error.splits)
  with assms show "intensive_interval m' = intensive_interval m" "executions m' = executions m"
    by (auto simp: set_limits_def bind_result_def split: if_splits sum.splits)
qed

lemma configure_interval:
  assumes "configure L mem agent intensive d m = Inr (Some m')" and "executions m = 0"
    and "set_interval (junk_int mem) (field_of d TOKEN_INTERVAL) (set_common L d m) = Inr m1"
    and "intensive_conditions d = []" and "intensive \<noteq> 0"
  shows "intensive_interval m' = s32 (module_interval m1 * cdiv agent intensive)"
    and "executions m' = executions m1"
  using assms
  by (auto simp: configure_def bind_result_def set_intensive_def setIntensiveInterval_def
      set_strings_keeps sched_set_type sched_set_limits split: sum.splits option.splits
      dest!: sched_set_cron)

lemma getModule_wf:
  assumes "getModuleFromDefinition L mem agent intensive text = Inr (Some obj)"
  shows "wf_object obj"
proof -
  let ?d = "subst_macros (scan_definition text)"
  let ?base = "newPandora_Module (junk_output mem) (junk_type mem) (junk_kind mem) (field_of ?d TOKEN_NAME)"
  obtain o1 m where o1: "create_object (junk_int mem) ?base (field_of ?d) = Inr (Some o1)"
    and m: "configure L mem agent intensive ?d (fst o1) = Inr (Some m)" and obj: "obj = (m, snd o1)"
    using assms
    by (auto simp: getModuleFromDefinition_def bind_result_def map_sum_def Let_def
        split: sum.splits option.splits)
  from new_create_object[OF o1 fresh_base] have new: "new_object o1" .
  then have "ready (module_kind (fst o1)) (fst o1)"
    by (auto simp: new_object_def fresh_def ready_simps split: option.splits)
       (cases "snd o1"; auto)
  from wf_configure[OF m this] new show ?thesis
    by (auto simp: wf_object_def wf_as_def new_object_def obj)
qed

section \<open>Properties\<close>

text \<open>(C33) The scan of a definition is what its comment says: every single-valued token gets the value of
  the first line that starts with it, a value that would be empty becomes a blank, and the four
  tokens that may be repeated collect the values of all their lines in order.\<close>

theorem scan_definition_correct:
  "let ls = map trim (tokens (\<lambda>c. isseparator c [LF]) text); d = scan_definition text
   in (\<forall>t. field_of d t = first_value t ls)
    \<and> preconditions d = all_values TOKEN_PRECONDITION ls
    \<and> conditions d = all_values TOKEN_CONDITION ls
    \<and> intensive_conditions d = all_values TOKEN_INTENSIVECONDITION ls
    \<and> macros d = all_values TOKEN_MACRO ls"
  by (simp add: scan_definition_def stringtok_def stringtok_loop_tokens scan_lines no_lines_def Let_def)

text \<open>(C34) Every module the factory returns satisfies the invariant of the module objects, whatever the
  definition and whatever was in the memory of the new object; it has not been executed and has
  no data.\<close>

theorem factory_wf:
  assumes "getModuleFromDefinition L mem agent intensive text = Inr (Some obj)"
  shows "wf_object obj"
  using assms by (rule getModule_wf)

text \<open>When the factory returns without undefined behaviour, it returns \<^verbatim>\<open>NULL\<close> in exactly three cases: no
  token of a kind is set, a process module is to be restarted but has no command for it, or the
  type is not one of the eight known ones and the module is no plugin.\<close>

theorem factory_null:
  assumes "getModuleFromDefinition L mem agent intensive text = Inr r"
  shows "let f = field_of (subst_macros (scan_definition text))
         in r = None \<longleftrightarrow> (\<forall>t\<in>set kind_tokens. f t = []) \<or> lacks_start_command f \<or> bad_type f"
  using assms
  by (auto simp: getModuleFromDefinition_def bind_result_def map_sum_def Let_def
      split: sum.splits option.splits dest!: create_object_None configure_None)

text \<open>A module whose definition says \<^verbatim>\<open>module_interval i\<close> and has no intensive conditions executes
  once in every \<open>i * (agent interval / intensive interval)\<close> loops of the agent, the first time
  at once.\<close>

theorem factory_schedule:
  assumes "getModuleFromDefinition L mem agent intensive text = Inr (Some obj)"
    and "field_of (subst_macros (scan_definition text)) TOKEN_INTERVAL = nat_digits i" and "0 < i"
    and "intensive_conditions (subst_macros (scan_definition text)) = []"
    and "0 < intensive" and "intensive \<le> agent" and "int i * (agent div intensive) < 2 ^ 31"
    and "int n < 2 ^ 31 - 1"
  shows "snd (run (((\<lambda>m. fst (run m)) ^^ n) (fst obj)))
           = (if n mod (i * nat (agent div intensive)) = 0 then Inr () else Inl Interval_Not_Fulfilled)"
proof -
  let ?d = "subst_macros (scan_definition text)"
  let ?base = "newPandora_Module (junk_output mem) (junk_type mem) (junk_kind mem) (field_of ?d TOKEN_NAME)"
  obtain o1 m where o1: "create_object (junk_int mem) ?base (field_of ?d) = Inr (Some o1)"
    and m: "configure L mem agent intensive ?d (fst o1) = Inr (Some m)" and obj: "obj = (m, snd o1)"
    using assms(1)
    by (auto simp: getModuleFromDefinition_def bind_result_def map_sum_def Let_def
        split: sum.splits option.splits)
  have q: "1 \<le> agent div intensive" using assms(5,6) by (simp add: int_one_le_iff_zero_less pos_imp_zdiv_pos_iff)
  then have "int i * 1 \<le> int i * (agent div intensive)" by (intro mult_left_mono) auto
  then have "strtoint (junk_int mem) (nat_digits i) = Inr (int i)"
    using strtoint_int_digits[of "int i" "junk_int mem"] assms(7) by (simp add: int_digits_def fits_s32_def)
  then have si: "set_interval (junk_int mem) (field_of ?d TOKEN_INTERVAL) (set_common L ?d (fst o1))
      = Inr (setIntensiveInterval (int i) (setInterval (int i) (set_common L ?d (fst o1))))"
    by (simp add: set_interval_def assms(2))
  have e0: "executions (fst o1) = 0"
    using new_create_object[OF o1 fresh_base] by (simp add: new_object_def fresh_def)
  have "intensive_interval m = s32 (int i * cdiv agent intensive)" and "executions m = 0"
    using configure_interval[OF m e0 si assms(4)] assms(5) e0
    by (simp_all add: setIntensiveInterval_def setInterval_def sched_set_common)
  moreover have "0 \<le> int i * (agent div intensive)" using q by simp
  then have "fits_s32 (int i * (agent div intensive))" using assms(7) by (simp add: fits_s32_def)
  then have "s32 (int i * cdiv agent intensive) = int i * (agent div intensive)"
    using assms(5,6) by (simp add: cdiv_nonneg s32_id)
  ultimately have k: "intensive_interval (fst obj) = int i * (agent div intensive)" "executions (fst obj) = 0"
    by (simp_all add: obj)
  moreover have "0 < int i * (agent div intensive)" using q assms(3) by simp
  moreover have "nat (int i * (agent div intensive)) = i * nat (agent div intensive)"
    by (simp add: nat_mult_distrib)
  ultimately show ?thesis
    using run_at(1)[of "((\<lambda>m. fst (run m)) ^^ n) (fst obj)" n] run_steps[of "fst obj" n] assms(8) by simp
qed

section \<open>Examples\<close>

definition example_text :: string where
  "example_text = ''module_name load'' @ [LF] @ ''module_type generic_data'' @ [LF] @
     ''module_interval 2'' @ [LF] @ ''module_exec dir'' @ [LF]"

definition example_memory :: memory where
  "example_memory = \<lparr>junk_output = True, junk_type = TYPE_0, junk_kind = MODULE_0, junk_int = 7\<rparr>"

lemma example_factory:
  "\<exists>m c. getModuleFromDefinition int_lib example_memory 600 300 example_text = Inr (Some (m, c))"
proof -
  have "(case getModuleFromDefinition int_lib example_memory 600 300 example_text of
      Inr (Some obj) \<Rightarrow> True | _ \<Rightarrow> False)"
    by code_simp
  then show ?thesis by (auto split: sum.splits option.splits)
qed

theorem factory_wf_witness:
  "\<exists>obj. getModuleFromDefinition int_lib example_memory 600 300 example_text = Inr (Some obj)
     \<and> wf_object obj"
  using example_factory factory_wf by blast

theorem factory_null_witness:
  "getModuleFromDefinition int_lib example_memory 600 300 ''module_name load'' = Inr None
   \<and> list_all (\<lambda>t. field_of (subst_macros (scan_definition ''module_name load'')) t = []) kind_tokens"
proof -
  have r: "getModuleFromDefinition int_lib example_memory 600 300 ''module_name load'' = Inr None"
  proof -
    have "(case getModuleFromDefinition int_lib example_memory 600 300 ''module_name load'' of
        Inr None \<Rightarrow> True | _ \<Rightarrow> False)"
      by code_simp
    then show ?thesis by (auto split: sum.splits option.splits)
  qed
  have "\<not> lacks_start_command (field_of (subst_macros (scan_definition ''module_name load'')))"
    "\<not> bad_type (field_of (subst_macros (scan_definition ''module_name load'')))"
    by code_simp+
  with factory_null[OF r] r show ?thesis by (simp add: Let_def list_all_iff)
qed

theorem factory_schedule_witness:
  "\<exists>obj. getModuleFromDefinition int_lib example_memory 600 300 example_text = Inr (Some obj)
     \<and> snd (run (((\<lambda>m. fst (run m)) ^^ 4) (fst obj))) = Inr ()
     \<and> snd (run (((\<lambda>m. fst (run m)) ^^ 5) (fst obj))) = Inl Interval_Not_Fulfilled"
proof -
  obtain obj where obj: "getModuleFromDefinition int_lib example_memory 600 300 example_text = Inr (Some obj)"
    using example_factory by blast
  have h: "field_of (subst_macros (scan_definition example_text)) TOKEN_INTERVAL = nat_digits 2"
    "0 < (2::nat)" "intensive_conditions (subst_macros (scan_definition example_text)) = []"
    "0 < (300::int)" "(300::int) \<le> 600" "int 2 * (600 div 300) < 2 ^ 31"
    by code_simp+
  have n: "int 4 < 2 ^ 31 - 1" "int 5 < 2 ^ 31 - 1" by simp_all
  show ?thesis using obj factory_schedule[OF obj h n(1)] factory_schedule[OF obj h n(2)] by auto
qed

end
