(* ===== verification/Pandora_Service.thy ===== *)
theory Pandora_Service
  imports Pandora_Factory
begin

text \<open>
  The list of modules, \<^verbatim>\<open>src/modules/pandora_module_list.cc\<close>, and the main loop of the agent in
  \<^verbatim>\<open>src/pandora_windows_service.cc\<close> as far as it concerns the modules: one run over all of them, the
  decision to report, and the text of the report after its header.
\<close>

section \<open>The list of modules\<close>

text \<open>The lines after \<^verbatim>\<open>module_begin\<close> up to \<^verbatim>\<open>module_end\<close> or the end of the file.\<close>

fun collect_module :: "string list \<Rightarrow> string \<Rightarrow> string \<times> string list" where
  "collect_module [] str_module = (str_module, [])"
| "collect_module (buffer # rest) str_module =
     (if str_find buffer ''module_end'' \<noteq> None then (str_module @ buffer @ [LF], rest)
      else collect_module rest (str_module @ buffer @ [LF]))"

lemma collect_module_length: "collect_module ls s = (t, rest) \<Longrightarrow> length rest \<le> length ls"
  by (induction ls s rule: collect_module.induct) (auto split: if_splits)

text \<open>The definitions of an included file.\<close>

function parseModuleConf :: "string list \<Rightarrow> string list" where
  "parseModuleConf [] = []"
| "parseModuleConf (buffer # rest) =
     (if skip_line buffer then parseModuleConf rest
      else if str_find buffer ''module_begin'' \<noteq> None
      then (case collect_module rest (buffer @ [LF]) of
              (str_module, rest') \<Rightarrow> str_module # parseModuleConf rest')
      else if str_find buffer ''module_plugin'' \<noteq> None then buffer # parseModuleConf rest
      else parseModuleConf rest)"
  by pat_completeness auto
termination
  by (relation "measure length") (auto dest: collect_module_length[OF sym])

definition included_definitions :: "file_system \<Rightarrow> string \<Rightarrow> string list" where
  "included_definitions fs path =
     (case fs path of None \<Rightarrow> [] | Some content \<Rightarrow> parseModuleConf (getlines content))"

text \<open>The branch for a line that holds \<^verbatim>\<open>include\<close>; the rest of the line is then examined as well.\<close>

definition include_definitions :: "file_system \<Rightarrow> string \<Rightarrow> string list result" where
  "include_definitions fs buffer =
     (case str_find buffer ''include'' of
        None \<Rightarrow> Inr []
      | Some pos \<Rightarrow>
          map_sum (\<lambda>e. e) (\<lambda>path. included_definitions fs (unquote path)) (str_substr buffer (pos + 8)))"

function module_definitions :: "file_system \<Rightarrow> string list \<Rightarrow> string list result" where
  "module_definitions fs [] = Inr []"
| "module_definitions fs (buffer # rest) =
     (if skip_line buffer then module_definitions fs rest
      else bind_result (include_definitions fs buffer) (\<lambda>inc.
        map_sum (\<lambda>e. e) (\<lambda>defs. inc @ defs)
          (if str_find buffer ''module_begin'' \<noteq> None
           then (case collect_module rest (buffer @ [LF]) of
                   (str_module, rest') \<Rightarrow>
                     map_sum (\<lambda>e. e) (\<lambda>defs. str_module # defs) (module_definitions fs rest'))
           else if str_find buffer ''module_plugin'' \<noteq> None
           then map_sum (\<lambda>e. e) (\<lambda>defs. buffer # defs) (module_definitions fs rest)
           else module_definitions fs rest)))"
  by pat_completeness auto
termination
  by (relation "measure (\<lambda>(fs, ls). length ls)") (auto dest: collect_module_length[OF sym])

text \<open>
  \<^verbatim>\<open>parseModuleDefinition\<close>: the object is kept if it has one of the known kinds.  \<open>mem\<close> gives the
  contents of the memory in which the object of a definition is created.
\<close>

definition parseModuleDefinition ::
    "'d clib \<Rightarrow> (string \<Rightarrow> memory) \<Rightarrow> int \<Rightarrow> int \<Rightarrow> string \<Rightarrow> 'd module_object list result" where
  "parseModuleDefinition L mem agent intensive text =
     map_sum (\<lambda>e. e)
       (\<lambda>r. case r of None \<Rightarrow> [] | Some obj \<Rightarrow> if module_kind (fst obj) \<noteq> MODULE_0 then [obj] else [])
       (getModuleFromDefinition L (mem text) agent intensive text)"

fun add_modules ::
    "'d clib \<Rightarrow> (string \<Rightarrow> memory) \<Rightarrow> int \<Rightarrow> int \<Rightarrow> string list \<Rightarrow> 'd module_object list result" where
  "add_modules L mem agent intensive [] = Inr []"
| "add_modules L mem agent intensive (t # ts) =
     bind_result (parseModuleDefinition L mem agent intensive t) (\<lambda>new.
       map_sum (\<lambda>e. e) (\<lambda>objs. new @ objs) (add_modules L mem agent intensive ts))"

definition newPandora_Module_List ::
    "'d clib \<Rightarrow> (string \<Rightarrow> memory) \<Rightarrow> int \<Rightarrow> int \<Rightarrow> file_system \<Rightarrow> string \<Rightarrow> 'd module_object list result" where
  "newPandora_Module_List L mem agent intensive fs filename =
     (case fs filename of
        None \<Rightarrow> Inr []
      | Some content \<Rightarrow>
          bind_result (module_definitions fs (getlines content)) (add_modules L mem agent intensive))"

section \<open>One run of a module\<close>

text \<open>What the system answers while one module is handled.\<close>

record moment =
  m_world :: world
  m_launches :: "nat \<Rightarrow> launch"
  m_localtime :: "int \<Rightarrow> tm option"
  m_time :: int
  m_spawn :: "string \<Rightarrow> bool"

text \<open>
  The outcome: the module, whether it has something to report, the variables put into the
  environment and the commands of its conditions.
\<close>

record 'd outcome =
  o_module :: "'d module_object"
  o_reports :: bool
  o_putenv :: "string list"
  o_commands :: "string list"

definition silent :: "'d module_object \<Rightarrow> string list \<Rightarrow> 'd outcome" where
  "silent obj env = \<lparr>o_module = (setNoOutput (fst obj), snd obj), o_reports = False,
     o_putenv = env, o_commands = []\<rparr>"

record service =
  interval_sec :: int
  interval_ms :: int
  run_time :: int
  svc_timestamp :: int

text \<open>\<^verbatim>\<open>module->getTimestamp () + module->getInterval () * this->interval_sec\<close>\<close>

definition next_report :: "service \<Rightarrow> 'd pandora_module \<Rightarrow> int" where
  "next_report S m = s32 (timestamp m + s32 (module_interval m * interval_sec S))"

definition export_data :: "'d pandora_module \<Rightarrow> string list mod_result" where
  "export_data m = (if save m \<noteq> [] then map_sum Cxx (\<lambda>s. [s]) (exportDataOutput m) else Inr [])"

text \<open>The part of the loop body after the module has run.\<close>

definition report_step ::
    "'d clib \<Rightarrow> 'd \<Rightarrow> moment \<Rightarrow> service \<Rightarrow> bool \<Rightarrow> 'd module_object \<Rightarrow> 'd outcome mod_result" where
  "report_step L junk M S forced obj =
     (let m = fst obj
      in case export_data m of
           Inl e \<Rightarrow> Inl e
         | Inr env \<Rightarrow>
             (case evaluateIntensiveConditions L junk m of
                Inl e \<Rightarrow> Inl (Cxx e)
              | Inr holds \<Rightarrow>
                  let matched = (if holds then 1 else 0)
                  in if \<not> forced \<and> matched = intensive_match m \<and> next_report S m > run_time S
                     then Inr (silent obj env)
                     else let m1 = setIntensiveMatch matched m;
                              m2 = (if next_report S m1 \<le> run_time S
                                    then setTimestamp (run_time S) m1 else m1)
                          in map_sum Cxx
                               (\<lambda>cmds. \<lparr>o_module = (m2, snd obj), o_reports = True,
                                        o_putenv = env, o_commands = cmds\<rparr>)
                               (evaluateConditions L junk (m_spawn M) m2)))"

definition module_step ::
    "'d clib \<Rightarrow> 'd \<Rightarrow> moment \<Rightarrow> service \<Rightarrow> bool \<Rightarrow> 'd module_object \<Rightarrow> 'd outcome mod_result" where
  "module_step L junk M S forced obj =
     (case evaluatePreconditions L junk (m_launches M) (fst obj) of
        Inl e \<Rightarrow> Inl e
      | Inr False \<Rightarrow> Inr (silent obj [])
      | Inr True \<Rightarrow>
          (case checkCron (m_localtime M) (m_time M) (fst obj) of
             (False, m1) \<Rightarrow> Inr (silent (m1, snd obj) [])
           | (True, m1) \<Rightarrow>
               (case run_object L (m_world M) (interval_ms S) (m1, snd obj) of
                  Inl e \<Rightarrow> Inl e
                | Inr obj' \<Rightarrow>
                    if \<not> hasOutput (fst obj') then Inr (silent obj' [])
                    else report_step L junk M S forced obj')))"

text \<open>The loop over the modules; the flag says whether any of them reports.\<close>

fun run_modules ::
    "'d clib \<Rightarrow> 'd \<Rightarrow> service \<Rightarrow> bool \<Rightarrow> (moment \<times> 'd module_object) list \<Rightarrow> 'd outcome list mod_result" where
  "run_modules L junk S forced [] = Inr []"
| "run_modules L junk S forced ((M, obj) # rest) =
     (case module_step L junk M S forced obj of
        Inl e \<Rightarrow> Inl e
      | Inr out \<Rightarrow> map_sum (\<lambda>e. e) (\<lambda>outs. out # outs) (run_modules L junk S forced rest))"

section \<open>The report\<close>

definition name_token :: "nat \<Rightarrow> string" where
  "name_token c = ''custom_field'' @ nat_digits c @ ''_name''"

definition value_token :: "nat \<Rightarrow> string" where
  "value_token c = ''custom_field'' @ nat_digits c @ ''_value''"

text \<open>The buffers of the two \<^verbatim>\<open>sprintf\<close> calls have 21 bytes, the terminating NUL included.\<close>

definition tokens_fit :: "nat \<Rightarrow> bool" where
  "tokens_fit c \<longleftrightarrow> length (name_token c) < 21 \<and> length (value_token c) < 21"

lemma nat_digits_long: "100 \<le> c \<Longrightarrow> 2 < length (nat_digits c)"
proof -
  assume c: "100 \<le> c"
  then have "\<not> c < 10" "\<not> c div 10 < 10" by auto
  then have "nat_digits c = nat_digits (c div 10 div 10) @ [digit_char (c div 10 mod 10)] @ [digit_char (c mod 10)]"
    by (metis append.assoc nat_digits.simps)
  moreover have "0 < length (nat_digits (c div 10 div 10))" by simp
  ultimately show ?thesis by simp
qed

lemma tokens_fit_bound: "tokens_fit c \<Longrightarrow> c < 100"
  using nat_digits_long[of c] by (force simp: tokens_fit_def value_token_def)

definition custom_field :: "string \<Rightarrow> string \<Rightarrow> string" where
  "custom_field n v =
     TAB # ''<field>'' @ [LF] @
     [TAB, TAB] @ ''<name><![CDATA['' @ n @ '']]></name>'' @ [LF] @
     [TAB, TAB] @ ''<value><![CDATA['' @ v @ '']]></value>'' @ [LF] @
     TAB # ''</field>'' @ [LF]"

function custom_field_items :: "(string \<Rightarrow> string) \<Rightarrow> nat \<Rightarrow> string result" where
  "custom_field_items value_of c =
     (if \<not> tokens_fit c then Inl Undefined_Behaviour
      else let n = value_of (name_token c); v = value_of (value_token c)
           in if n \<noteq> [] \<and> v \<noteq> []
              then map_sum (\<lambda>e. e) (\<lambda>rest. custom_field n v @ rest) (custom_field_items value_of (c + 1))
              else Inr [])"
  by pat_completeness auto
termination
  by (relation "measure (\<lambda>(f, c). 100 - c)") (auto dest: tokens_fit_bound)

declare custom_field_items.simps [simp del]

definition custom_fields :: "(string \<Rightarrow> string) \<Rightarrow> string result" where
  "custom_fields value_of =
     (if value_of (name_token 1) \<noteq> [] \<and> value_of (value_token 1) \<noteq> []
      then map_sum (\<lambda>e. e)
             (\<lambda>items. ''<custom_fields>'' @ [LF] @ items @ ''</custom_fields>'' @ [LF])
             (custom_field_items value_of 1)
      else Inr [])"

text \<open>An exception leaves the modules after the one that throws as they are.\<close>

fun modules_xml ::
    "'d clib \<Rightarrow> 'd \<Rightarrow> 'd module_object list \<Rightarrow> 'd module_object list \<times> string mod_result" where
  "modules_xml L junk [] = ([], Inr [])"
| "modules_xml L junk (obj # objs) =
     (case getXml_object L junk obj of
        (obj', Inl e) \<Rightarrow> (obj' # objs, Inl e)
      | (obj', Inr xml) \<Rightarrow>
          (case modules_xml L junk objs of
             (objs', r) \<Rightarrow> (obj' # objs', map_sum (\<lambda>e. e) (\<lambda>rest. xml @ rest) r)))"

definition data_xml ::
    "'d clib \<Rightarrow> 'd \<Rightarrow> string \<Rightarrow> (string \<Rightarrow> string) \<Rightarrow> 'd module_object list
     \<Rightarrow> 'd module_object list \<times> string mod_result" where
  "data_xml L junk header value_of objs =
     (case custom_fields value_of of
        Inl e \<Rightarrow> (objs, Inl (Cxx e))
      | Inr custom \<Rightarrow>
          (case modules_xml L junk objs of
             (objs', r) \<Rightarrow>
               (objs', map_sum (\<lambda>e. e) (\<lambda>xml. header @ custom @ xml @ ''</agent_data>'') r)))"

definition interval_passed :: "service \<Rightarrow> bool" where
  "interval_passed S \<longleftrightarrow> s32 (svc_timestamp S + interval_sec S) \<le> run_time S"

section \<open>Names of directories\<close>

text \<open>
  A directory name gets a backslash at its end if it has none; the last character of an empty name
  is read before the beginning of the string.
\<close>

definition with_end :: "char \<Rightarrow> string \<Rightarrow> string result" where
  "with_end c path =
     (if path = [] then Inl Undefined_Behaviour
      else Inr (if last path \<noteq> c then path @ [c] else path))"

abbreviation with_slash :: "string \<Rightarrow> string result" where
  "with_slash \<equiv> with_end (CHR 0x5C)"

section \<open>The invariant of the modules\<close>

lemma wf_object_mono:
  "wf_object (m, c) \<Longrightarrow> (\<And>k. wf_as k m \<Longrightarrow> wf_as k m') \<Longrightarrow> wf_object (m', c)"
  by (auto simp: wf_object_as)

lemma wf_object_update:
  assumes "wf_object (m, c)"
  shows "wf_object (setNoOutput m, c)" "wf_object (cleanDataList m, c)"
    "wf_object (setTimestamp t m, c)" "wf_object (setIntensiveMatch w m, c)"
  by (rule wf_object_mono[OF assms], simp)+

lemma silent_wf: "wf_object obj \<Longrightarrow> wf_object (o_module (silent obj env))"
  by (cases obj) (simp add: silent_def wf_object_update)

lemma report_step_wf:
  assumes "report_step L junk M S forced obj = Inr out" and "wf_object obj"
  shows "wf_object (o_module out)"
proof -
  obtain m c where obj: "obj = (m, c)" by (cases obj) auto
  from assms show ?thesis
    unfolding report_step_def obj
    by (auto simp: Let_def map_sum_def wf_object_update silent_wf split: sum.splits if_splits)
qed

lemma module_step_wf:
  assumes "module_step L junk M S forced obj = Inr out" and "wf_object obj"
  shows "wf_object (o_module out)"
proof -
  obtain m c where obj: "obj = (m, c)" by (cases obj) auto
  have cron: "wf_object (m1, c)" if "checkCron (m_localtime M) (m_time M) m = (b, m1)" for b m1
    using assms(2) wf_checkCron[OF _ that] by (auto simp: obj wf_object_as)
  from assms show ?thesis
    unfolding module_step_def obj
    by (auto split: sum.splits bool.splits if_splits prod.splits
        dest!: cron dest: run_object_wf report_step_wf intro!: silent_wf)
qed

lemma run_modules_wf:
  assumes "run_modules L junk S forced ms = Inr outs" and "\<forall>(M, obj)\<in>set ms. wf_object obj"
  shows "\<forall>out\<in>set outs. wf_object (o_module out)"
  using assms
proof (induction L junk S forced ms arbitrary: outs rule: run_modules.induct)
  case (2 L junk S forced M obj rest)
  then show ?case
    by (auto simp: map_sum_def split: sum.splits dest: module_step_wf)
qed simp

lemma getXml_object_wf:
  assumes "wf_object obj" and "getXml_object L junk obj = (obj', r)"
  shows "wf_object obj'"
proof -
  obtain m c m' c' where obj: "obj = (m, c)" "obj' = (m', c')" by (cases obj, cases obj') auto
  with getXml_keeps[OF assms(2)] assms(1) show ?thesis by (auto simp: wf_object_update)
qed

lemma modules_xml_wf:
  assumes "modules_xml L junk objs = (objs', r)" and "\<forall>obj\<in>set objs. wf_object obj"
  shows "\<forall>obj\<in>set objs'. wf_object obj"
  using assms
proof (induction L junk objs arbitrary: objs' r rule: modules_xml.induct)
  case (2 L junk obj objs)
  then show ?case
    by (auto split: prod.splits sum.splits dest: getXml_object_wf)
qed simp

lemma data_xml_wf:
  assumes "data_xml L junk header value_of objs = (objs', r)" and "\<forall>obj\<in>set objs. wf_object obj"
  shows "\<forall>obj\<in>set objs'. wf_object obj"
  using assms
  by (auto simp: data_xml_def split: prod.splits sum.splits dest!: modules_xml_wf)

lemma add_modules_wf:
  "add_modules L mem agent intensive ts = Inr objs \<Longrightarrow> \<forall>obj\<in>set objs. wf_object obj"
proof (induction L mem agent intensive ts arbitrary: objs rule: add_modules.induct)
  case (2 L mem agent intensive t ts)
  then show ?case
    by (fastforce simp: parseModuleDefinition_def bind_result_def map_sum_def
        split: sum.splits option.splits if_splits dest: getModule_wf)
qed simp

lemma newPandora_Module_List_wf:
  "newPandora_Module_List L mem agent intensive fs filename = Inr objs \<Longrightarrow> \<forall>obj\<in>set objs. wf_object obj"
  by (auto simp: newPandora_Module_List_def bind_result_def split: option.splits sum.splits
      dest: add_modules_wf)

section \<open>Spacing\<close>

lemma schedule_is_self: "schedule_is (timestamp m) (intensive_match m) (intensive_condition_list m) (module_interval m) m"
  by (simp add: schedule_is_def)

lemma schedule_checkCron: "schedule_is t w cs i (snd (checkCron localtime x m)) = schedule_is t w cs i m"
  by (auto simp: checkCron_def schedule_is_def split: option.splits)

lemma run_object_schedule:
  assumes "run_object L W agent (m, c) = Inr obj'" and "\<nexists>opts. c = Module_Inventory opts False"
  shows "schedule_is (timestamp m) (intensive_match m) (intensive_condition_list m) (module_interval m) (fst obj')"
  using schedule_inv.run_object_keeps(1)[OF assms(1), of _ _ _ _] schedule_is_self[of m] assms(2) by fastforce

lemma not_intensive: "intensive_condition_list m \<in> {None, Some []} \<Longrightarrow> evaluateIntensiveConditions L junk m = Inr True"
  by (auto simp: evaluateIntensiveConditions_def)

lemma report_step_quiet:
  assumes "report_step L junk M S False obj = Inr out" and "intensive_condition_list (fst obj) \<in> {None, Some []}"
    and "intensive_match (fst obj) = 1" and "run_time S < next_report S (fst obj)"
  shows "\<not> o_reports out"
  using assms by (auto simp: report_step_def not_intensive Let_def silent_def split: sum.splits)

lemma report_step_effect:
  assumes "report_step L junk M S forced obj = Inr out" and "o_reports out"
    and "intensive_condition_list (fst obj) \<in> {None, Some []}"
  shows "intensive_match (fst (o_module out)) = 1"
    and "intensive_condition_list (fst (o_module out)) = intensive_condition_list (fst obj)"
    and "module_interval (fst (o_module out)) = module_interval (fst obj)"
    and "snd (o_module out) = snd obj"
    and "next_report S (fst obj) \<le> run_time S \<Longrightarrow> timestamp (fst (o_module out)) = run_time S"
  using assms
  by (auto simp: report_step_def not_intensive Let_def silent_def setIntensiveMatch_def setTimestamp_def
      next_report_def map_sum_def split: sum.splits if_splits)

lemma module_step_reports:
  assumes "module_step L junk M S forced (m, c) = Inr out" and "o_reports out"
    and "\<nexists>opts. c = Module_Inventory opts False"
  obtains obj where "report_step L junk M S forced obj = Inr out"
    and "schedule_is (timestamp m) (intensive_match m) (intensive_condition_list m) (module_interval m) (fst obj)"
    and "\<nexists>opts. snd obj = Module_Inventory opts False"
proof -
  let ?m1 = "snd (checkCron (m_localtime M) (m_time M) m)"
  obtain obj where run: "run_object L (m_world M) (interval_ms S) (?m1, c) = Inr obj"
    and rep: "report_step L junk M S forced obj = Inr out"
    using assms(1,2)
    by (auto simp: module_step_def silent_def split: sum.splits bool.splits if_splits prod.splits)
  have "schedule_is (timestamp m) (intensive_match m) (intensive_condition_list m) (module_interval m) ?m1"
    using schedule_checkCron schedule_is_self by blast
  then have "schedule_is (timestamp m) (intensive_match m) (intensive_condition_list m) (module_interval m) (fst obj)"
    using schedule_inv.run_object_keeps(1)[OF run] assms(3) by simp
  moreover have "\<nexists>opts. snd obj = Module_Inventory opts False"
    using run assms(3)
    by (cases c) (auto simp: run_object_def Let_def map_sum_def split: sum.splits)
  ultimately show ?thesis using rep that by blast
qed

section \<open>Custom fields\<close>

lemma tokens_fit_iff: "tokens_fit c \<longleftrightarrow> c < 100"
proof
  assume "c < 100"
  then have "length (nat_digits c) \<le> 2" by (intro nat_digits_length) auto
  then show "tokens_fit c" by (simp add: tokens_fit_def name_token_def value_token_def)
qed (rule tokens_fit_bound)

definition field_defined :: "(string \<Rightarrow> string) \<Rightarrow> nat \<Rightarrow> bool" where
  "field_defined value_of c \<longleftrightarrow> value_of (name_token c) \<noteq> [] \<and> value_of (value_token c) \<noteq> []"

definition field_xml :: "(string \<Rightarrow> string) \<Rightarrow> nat \<Rightarrow> string" where
  "field_xml value_of c = custom_field (value_of (name_token c)) (value_of (value_token c))"

lemma custom_field_items_eq:
  assumes "\<forall>i. c \<le> i \<and> i < k \<longrightarrow> field_defined value_of i" and "\<not> field_defined value_of k"
    and "c \<le> k"
  shows "custom_field_items value_of c =
    (if k < 100 then Inr (concat (map (field_xml value_of) [c..<k])) else Inl Undefined_Behaviour)"
  using assms
proof (induction "k - c" arbitrary: c)
  case 0
  then have "c = k" by simp
  with 0 show ?case
    by (subst custom_field_items.simps) (auto simp: tokens_fit_iff field_defined_def Let_def)
next
  case (Suc n)
  then have ck: "c < k" and def_c: "field_defined value_of c" by auto
  have IH: "custom_field_items value_of (Suc c) =
      (if k < 100 then Inr (concat (map (field_xml value_of) [Suc c..<k])) else Inl Undefined_Behaviour)"
    using Suc by (intro Suc.hyps(1)) auto
  have "[c..<k] = c # [Suc c..<k]" using ck by (rule upt_conv_Cons)
  with IH def_c ck show ?case
    by (subst custom_field_items.simps)
      (auto simp: tokens_fit_iff field_defined_def field_xml_def Let_def)
qed

section \<open>Configuration files with modules\<close>

text \<open>A block of a module, the line of a plugin, or any other line.\<close>

datatype config_item = Block "string list" | Plugin string | Other string

fun item_lines :: "config_item \<Rightarrow> string list" where
  "item_lines (Block body) = ''module_begin'' # body @ [''module_end'']"
| "item_lines (Plugin l) = [l]"
| "item_lines (Other l) = [l]"

fun item_definitions :: "config_item \<Rightarrow> string list" where
  "item_definitions (Block body) = [concat (map (\<lambda>l. l @ [LF]) (''module_begin'' # body @ [''module_end'']))]"
| "item_definitions (Plugin l) = [l]"
| "item_definitions (Other l) = []"

definition plain_line :: "string \<Rightarrow> bool" where
  "plain_line l \<longleftrightarrow> \<not> sublist ''include'' l \<and> \<not> sublist ''module_begin'' l"

fun item_ok :: "config_item \<Rightarrow> bool" where
  "item_ok (Block body) = (\<forall>l\<in>set body. LF \<notin> set l \<and> \<not> sublist ''module_end'' l)"
| "item_ok (Plugin l) = (LF \<notin> set l \<and> \<not> skip_line l \<and> plain_line l \<and> sublist ''module_plugin'' l)"
| "item_ok (Other l) = (LF \<notin> set l \<and> (skip_line l \<or> plain_line l \<and> \<not> sublist ''module_plugin'' l))"

lemma collect_module_block:
  assumes "\<forall>l\<in>set body. \<not> sublist ''module_end'' l"
  shows "collect_module (body @ ''module_end'' # rest) s
    = (s @ concat (map (\<lambda>l. l @ [LF]) (body @ [''module_end''])), rest)"
  using assms by (induction body arbitrary: s) (auto simp: str_find_None_iff)

lemma plain_line_parts:
  assumes "plain_line l"
  shows "include_definitions fs l = Inr []" and "str_find l ''module_begin'' = None"
proof -
  have "str_find l ''include'' = None" "str_find l ''module_begin'' = None"
    using assms by (simp_all add: plain_line_def str_find_None_iff)
  then show "include_definitions fs l = Inr []" and "str_find l ''module_begin'' = None"
    by (simp_all add: include_definitions_def)
qed

lemma module_definitions_item:
  assumes "item_ok it"
  shows "module_definitions fs (item_lines it @ rest)
    = map_sum (\<lambda>e. e) (\<lambda>defs. item_definitions it @ defs) (module_definitions fs rest)"
proof (cases it)
  case (Block body)
  have c: "collect_module (body @ ''module_end'' # rest) (''module_begin'' @ [LF])
      = (concat (map (\<lambda>l. l @ [LF]) (''module_begin'' # body @ [''module_end''])), rest)"
    using assms Block by (subst collect_module_block) auto
  have b: "\<not> skip_line ''module_begin''" "str_find ''module_begin'' ''include'' = None"
    "str_find ''module_begin'' ''module_begin'' \<noteq> None"
    by (simp_all add: skip_line_def str_head_def)
  show ?thesis
    using b c by (simp add: Block include_definitions_def bind_result_def map_sum_def split: sum.split)
next
  case (Plugin l)
  with assms have l: "\<not> skip_line l" "plain_line l" "str_find l ''module_plugin'' \<noteq> None"
    by (simp_all only: item_ok.simps str_find_None_iff simp_thms)
  show ?thesis using l(1,3) plain_line_parts[OF l(2)]
    by (simp add: Plugin bind_result_def map_sum_def split: sum.split)
next
  case (Other l)
  show ?thesis
  proof (cases "skip_line l")
    case True
    then show ?thesis by (simp add: Other map_sum_def split: sum.split)
  next
    case False
    with assms Other have l: "plain_line l" "str_find l ''module_plugin'' = None"
      by (simp_all only: item_ok.simps str_find_None_iff simp_thms)
    show ?thesis using False l(2) plain_line_parts[OF l(1)]
      by (simp add: Other bind_result_def map_sum_def split: sum.split)
  qed
qed

lemma module_definitions_items:
  "\<forall>it\<in>set its. item_ok it \<Longrightarrow>
     module_definitions fs (concat (map item_lines its) @ [[]]) = Inr (concat (map item_definitions its))"
proof (induction its)
  case Nil
  then show ?case by (simp add: skip_line_def str_head_def)
next
  case (Cons it its)
  then show ?case by (simp add: module_definitions_item)
qed

lemma item_lines_no_LF: "item_ok it \<Longrightarrow> l \<in> set (item_lines it) \<Longrightarrow> LF \<notin> set l"
  by (cases it) auto

lemma getlines_lines:
  "\<forall>l\<in>set ls. LF \<notin> set l \<Longrightarrow> getlines (concat (map (\<lambda>l. l @ [LF]) ls)) = ls @ [[]]"
  by (induction ls) (auto simp: getlines_append)

section \<open>Properties\<close>

text \<open>(C35) A configuration file that consists of module blocks, plugin lines and other lines is taken
  apart into exactly the texts of its blocks and plugin lines, in order.\<close>

theorem module_definitions_correct:
  assumes "\<forall>it\<in>set its. item_ok it"
  shows "module_definitions fs (getlines (concat (map (\<lambda>l. l @ [LF]) (concat (map item_lines its)))))
    = Inr (concat (map item_definitions its))"
proof -
  have "\<forall>l\<in>set (concat (map item_lines its)). LF \<notin> set l"
    using assms item_lines_no_LF by fastforce
  then show ?thesis using module_definitions_items[OF assms] by (simp only: getlines_lines)
qed


text \<open>The custom fields of a report are the pairs with the numbers from 1 up to the first one that is
  missing, in order; from 99 pairs on, the name of the next value no longer fits the buffer of 21
  bytes into which it is printed.\<close>

theorem custom_fields_correct:
  assumes "\<forall>i. 1 \<le> i \<and> i < k \<longrightarrow> field_defined value_of i" and "\<not> field_defined value_of k" and "1 \<le> k"
  shows "custom_fields value_of =
    (if k = 1 then Inr []
     else if k < 100
     then Inr (''<custom_fields>'' @ [LF] @ concat (map (field_xml value_of) [1..<k]) @ ''</custom_fields>'' @ [LF])
     else Inl Undefined_Behaviour)"
proof (cases "k = 1")
  case True
  with assms(2) show ?thesis by (auto simp: custom_fields_def field_defined_def)
next
  case False
  with assms have "field_defined value_of 1" by simp
  with False custom_field_items_eq[OF assms] show ?thesis
    by (simp add: custom_fields_def field_defined_def)
qed

section \<open>Examples\<close>

definition example_config :: string where
  "example_config = ''module_begin'' @ [LF] @ ''module_name load'' @ [LF] @ ''module_type generic_data'' @
     [LF] @ ''module_exec dir'' @ [LF] @ ''module_end'' @ [LF]"

theorem module_definitions_correct_witness:
  "module_definitions (\<lambda>_. None) (getlines (concat (map (\<lambda>l. l @ [LF])
     (concat (map item_lines [Other ''# agent'', Block [''module_exec dir''], Plugin ''module_plugin p''])))))
   = Inr [concat (map (\<lambda>l. l @ [LF]) [''module_begin'', ''module_exec dir'', ''module_end'']), ''module_plugin p'']"
proof -
  have "\<forall>it\<in>set [Other ''# agent'', Block [''module_exec dir''], Plugin ''module_plugin p'']. item_ok it"
    by code_simp
  from module_definitions_correct[OF this] show ?thesis by simp
qed

definition example_world :: world where
  "example_world = \<lparr>now = new_year, getDiskFreeSpace = (\<lambda>_. None), getDiskFreeSpacePercent = (\<lambda>_. None),
     getFreememory = None, getFreememoryPercent = None, getCpuUsagePercentage = (\<lambda>_. None),
     isProcessRunning = (\<lambda>_. 0), isServiceRunning = (\<lambda>_. 0), runWMIQuery = (\<lambda>_ _. []),
     perf_value = (\<lambda>_ _. None), log_events = (\<lambda>_. []), inventory_rows = (\<lambda>_. []),
     launched = (\<lambda>_. Launched [\<lparr>poll_wait = WAIT_OBJECT_0, poll_read = Some ''5'', poll_ticks = 0\<rparr>] 0),
     tcp = (\<lambda>_ _ _. No_Socket), file_content = (\<lambda>_. None)\<rparr>"

definition example_moment :: moment where
  "example_moment = \<lparr>m_world = example_world, m_launches = (\<lambda>_. No_Job), m_localtime = noon,
     m_time = 1000, m_spawn = (\<lambda>_. True)\<rparr>"

definition service_at :: "int \<Rightarrow> service" where
  "service_at t = \<lparr>interval_sec = 300, interval_ms = 300000, run_time = t, svc_timestamp = 0\<rparr>"

definition load_module :: "int pandora_module" where
  "load_module = example_module\<lparr>intensive_interval := 1\<rparr>"


definition one_field :: "string \<Rightarrow> string" where
  "one_field s = (if s = ''custom_field1_name'' then ''site'' else if s = ''custom_field1_value'' then ''lab'' else [])"

theorem custom_fields_correct_witness:
  "custom_fields one_field = Inr (''<custom_fields>'' @ [LF] @ custom_field ''site'' ''lab'' @ ''</custom_fields>'' @ [LF])"
proof -
  have t: "name_token 1 = ''custom_field1_name''" "value_token 1 = ''custom_field1_value''"
    "\<not> field_defined one_field 2" "field_defined one_field 1"
    by code_simp+
  then have h: "\<forall>i. 1 \<le> i \<and> i < 2 \<longrightarrow> field_defined one_field i" "\<not> field_defined one_field 2" "1 \<le> (2::nat)"
    by (auto simp: less_Suc_eq numeral_2_eq_2)
  show ?thesis using custom_fields_correct[OF h] t(1,2) by (simp add: field_xml_def one_field_def upt_rec numeral_2_eq_2)
qed

end
