(* ===== verification/MD5.thy ===== *)
theory MD5
  imports Pandora_Prelude
begin

text \<open>
  The message digest of \<^verbatim>\<open>src/misc/md5.c\<close>, which the agent uses to tell whether its
  configuration changed.  The state keeps the message length in bits as two words, the four
  registers and a buffer of 64 bytes; \<^verbatim>\<open>md5_append\<close> may be called any number of times with
  pieces of any size.  The theory relates this incremental code to the definition of the
  digest in RFC 1321: a padded message, cut into blocks, each of them 64 operations.

  Bytes and words are machine words.  Shifting a signed \<^verbatim>\<open>nbytes\<close> of \<open>2 ^ 28\<close> or more
  overflows in C; the property about \<^verbatim>\<open>md5_append\<close> assumes shorter pieces.
\<close>

unbundle bit_operations_syntax

section \<open>The constants\<close>

definition T_MASK :: u32 where "T_MASK = NOT 0"
definition T1 :: u32 where "T1 = T_MASK XOR 0x28955b87"
definition T2 :: u32 where "T2 = T_MASK XOR 0x173848a9"
definition T3 :: u32 where "T3 = 0x242070db"
definition T4 :: u32 where "T4 = T_MASK XOR 0x3e423111"
definition T5 :: u32 where "T5 = T_MASK XOR 0x0a83f050"
definition T6 :: u32 where "T6 = 0x4787c62a"
definition T7 :: u32 where "T7 = T_MASK XOR 0x57cfb9ec"
definition T8 :: u32 where "T8 = T_MASK XOR 0x02b96afe"
definition T9 :: u32 where "T9 = 0x698098d8"
definition T10 :: u32 where "T10 = T_MASK XOR 0x74bb0850"
definition T11 :: u32 where "T11 = T_MASK XOR 0x0000a44e"
definition T12 :: u32 where "T12 = T_MASK XOR 0x76a32841"
definition T13 :: u32 where "T13 = 0x6b901122"
definition T14 :: u32 where "T14 = T_MASK XOR 0x02678e6c"
definition T15 :: u32 where "T15 = T_MASK XOR 0x5986bc71"
definition T16 :: u32 where "T16 = 0x49b40821"
definition T17 :: u32 where "T17 = T_MASK XOR 0x09e1da9d"
definition T18 :: u32 where "T18 = T_MASK XOR 0x3fbf4cbf"
definition T19 :: u32 where "T19 = 0x265e5a51"
definition T20 :: u32 where "T20 = T_MASK XOR 0x16493855"
definition T21 :: u32 where "T21 = T_MASK XOR 0x29d0efa2"
definition T22 :: u32 where "T22 = 0x02441453"
definition T23 :: u32 where "T23 = T_MASK XOR 0x275e197e"
definition T24 :: u32 where "T24 = T_MASK XOR 0x182c0437"
definition T25 :: u32 where "T25 = 0x21e1cde6"
definition T26 :: u32 where "T26 = T_MASK XOR 0x3cc8f829"
definition T27 :: u32 where "T27 = T_MASK XOR 0x0b2af278"
definition T28 :: u32 where "T28 = 0x455a14ed"
definition T29 :: u32 where "T29 = T_MASK XOR 0x561c16fa"
definition T30 :: u32 where "T30 = T_MASK XOR 0x03105c07"
definition T31 :: u32 where "T31 = 0x676f02d9"
definition T32 :: u32 where "T32 = T_MASK XOR 0x72d5b375"
definition T33 :: u32 where "T33 = T_MASK XOR 0x0005c6bd"
definition T34 :: u32 where "T34 = T_MASK XOR 0x788e097e"
definition T35 :: u32 where "T35 = 0x6d9d6122"
definition T36 :: u32 where "T36 = T_MASK XOR 0x021ac7f3"
definition T37 :: u32 where "T37 = T_MASK XOR 0x5b4115bb"
definition T38 :: u32 where "T38 = 0x4bdecfa9"
definition T39 :: u32 where "T39 = T_MASK XOR 0x0944b49f"
definition T40 :: u32 where "T40 = T_MASK XOR 0x4140438f"
definition T41 :: u32 where "T41 = 0x289b7ec6"
definition T42 :: u32 where "T42 = T_MASK XOR 0x155ed805"
definition T43 :: u32 where "T43 = T_MASK XOR 0x2b10cf7a"
definition T44 :: u32 where "T44 = 0x04881d05"
definition T45 :: u32 where "T45 = T_MASK XOR 0x262b2fc6"
definition T46 :: u32 where "T46 = T_MASK XOR 0x1924661a"
definition T47 :: u32 where "T47 = 0x1fa27cf8"
definition T48 :: u32 where "T48 = T_MASK XOR 0x3b53a99a"
definition T49 :: u32 where "T49 = T_MASK XOR 0x0bd6ddbb"
definition T50 :: u32 where "T50 = 0x432aff97"
definition T51 :: u32 where "T51 = T_MASK XOR 0x546bdc58"
definition T52 :: u32 where "T52 = T_MASK XOR 0x036c5fc6"
definition T53 :: u32 where "T53 = 0x655b59c3"
definition T54 :: u32 where "T54 = T_MASK XOR 0x70f3336d"
definition T55 :: u32 where "T55 = T_MASK XOR 0x00100b82"
definition T56 :: u32 where "T56 = T_MASK XOR 0x7a7ba22e"
definition T57 :: u32 where "T57 = 0x6fa87e4f"
definition T58 :: u32 where "T58 = T_MASK XOR 0x01d3191f"
definition T59 :: u32 where "T59 = T_MASK XOR 0x5cfebceb"
definition T60 :: u32 where "T60 = 0x4e0811a1"
definition T61 :: u32 where "T61 = T_MASK XOR 0x08ac817d"
definition T62 :: u32 where "T62 = T_MASK XOR 0x42c50dca"
definition T63 :: u32 where "T63 = 0x2ad7d2bb"
definition T64 :: u32 where "T64 = T_MASK XOR 0x14792c6e"

text \<open>The operations of the four rounds: index into the block, rotation, constant.\<close>

definition md5_round1 :: "(nat \<times> nat \<times> u32) list" where
  "md5_round1 =
     [(0, 7, T1), (1, 12, T2), (2, 17, T3), (3, 22, T4),
      (4, 7, T5), (5, 12, T6), (6, 17, T7), (7, 22, T8),
      (8, 7, T9), (9, 12, T10), (10, 17, T11), (11, 22, T12),
      (12, 7, T13), (13, 12, T14), (14, 17, T15), (15, 22, T16)]"

definition md5_round2 :: "(nat \<times> nat \<times> u32) list" where
  "md5_round2 =
     [(1, 5, T17), (6, 9, T18), (11, 14, T19), (0, 20, T20),
      (5, 5, T21), (10, 9, T22), (15, 14, T23), (4, 20, T24),
      (9, 5, T25), (14, 9, T26), (3, 14, T27), (8, 20, T28),
      (13, 5, T29), (2, 9, T30), (7, 14, T31), (12, 20, T32)]"

definition md5_round3 :: "(nat \<times> nat \<times> u32) list" where
  "md5_round3 =
     [(5, 4, T33), (8, 11, T34), (11, 16, T35), (14, 23, T36),
      (1, 4, T37), (4, 11, T38), (7, 16, T39), (10, 23, T40),
      (13, 4, T41), (0, 11, T42), (3, 16, T43), (6, 23, T44),
      (9, 4, T45), (12, 11, T46), (15, 16, T47), (2, 23, T48)]"

definition md5_round4 :: "(nat \<times> nat \<times> u32) list" where
  "md5_round4 =
     [(0, 6, T49), (7, 10, T50), (14, 15, T51), (5, 21, T52),
      (12, 6, T53), (3, 10, T54), (10, 15, T55), (1, 21, T56),
      (8, 6, T57), (15, 10, T58), (6, 15, T59), (13, 21, T60),
      (4, 6, T61), (11, 10, T62), (2, 15, T63), (9, 21, T64)]"

section \<open>One block\<close>

definition ROTATE_LEFT :: "u32 \<Rightarrow> nat \<Rightarrow> u32" where
  "ROTATE_LEFT x n = push_bit n x OR drop_bit (32 - n) x"

definition md5_F :: "u32 \<Rightarrow> u32 \<Rightarrow> u32 \<Rightarrow> u32" where
  "md5_F x y z = (x AND y) OR (NOT x AND z)"

definition md5_G :: "u32 \<Rightarrow> u32 \<Rightarrow> u32 \<Rightarrow> u32" where
  "md5_G x y z = (x AND z) OR (y AND NOT z)"

definition md5_H :: "u32 \<Rightarrow> u32 \<Rightarrow> u32 \<Rightarrow> u32" where
  "md5_H x y z = x XOR y XOR z"

definition md5_I :: "u32 \<Rightarrow> u32 \<Rightarrow> u32 \<Rightarrow> u32" where
  "md5_I x y z = y XOR (x OR NOT z)"

type_synonym md5_regs = "u32 \<times> u32 \<times> u32 \<times> u32"

text \<open>The macros \<^verbatim>\<open>SET_F\<close>, \<^verbatim>\<open>SET_G\<close>, \<^verbatim>\<open>SET_H\<close> and \<^verbatim>\<open>SET_I\<close>: the new value of the first register.\<close>

definition md5_set :: "(u32 \<Rightarrow> u32 \<Rightarrow> u32 \<Rightarrow> u32) \<Rightarrow> u32 list \<Rightarrow> u32 \<Rightarrow> u32 \<Rightarrow> u32 \<Rightarrow> u32 \<Rightarrow> nat \<times> nat \<times> u32 \<Rightarrow> u32" where
  "md5_set f X a b c d op =
     (let (k, s, Ti) = op;
          t = a + f b c d + X ! k + Ti
      in ROTATE_LEFT t s + b)"

text \<open>
  The calls of a round come in groups of four, whose first registers are a, d, c and b in turn.
\<close>

fun md5_ops :: "(u32 \<Rightarrow> u32 \<Rightarrow> u32 \<Rightarrow> u32) \<Rightarrow> u32 list \<Rightarrow> (nat \<times> nat \<times> u32) list \<Rightarrow> md5_regs \<Rightarrow> md5_regs" where
  "md5_ops f X (op1 # op2 # op3 # op4 # ops) (a, b, c, d) =
     (let a = md5_set f X a b c d op1;
          d = md5_set f X d a b c op2;
          c = md5_set f X c d a b op3;
          b = md5_set f X b c d a op4
      in md5_ops f X ops (a, b, c, d))"
| "md5_ops f X _ r = r"

text \<open>
  The sixteen words of a block.  The little-endian path of the code reads them in place, the
  big-endian path assembles them; both give the little-endian value of the bytes.
\<close>

fun md5_words :: "bytes \<Rightarrow> u32 list" where
  "md5_words (x0 # x1 # x2 # x3 # xs) =
     (ucast x0 + push_bit 8 (ucast x1) + push_bit 16 (ucast x2) + push_bit 24 (ucast x3)) # md5_words xs"
| "md5_words _ = []"

definition md5_process :: "md5_regs \<Rightarrow> bytes \<Rightarrow> md5_regs" where
  "md5_process abcd data =
     (let X = md5_words data;
          (a, b, c, d) = md5_ops md5_I X md5_round4 (md5_ops md5_H X md5_round3
                           (md5_ops md5_G X md5_round2 (md5_ops md5_F X md5_round1 abcd)));
          (a0, b0, c0, d0) = abcd
      in (a0 + a, b0 + b, c0 + c, d0 + d))"

section \<open>The incremental interface\<close>

record md5_state =
  count0 :: u32
  count1 :: u32
  abcd :: md5_regs
  buf :: bytes

definition md5_init :: "md5_state \<Rightarrow> md5_state" where
  "md5_init pms = pms\<lparr>count0 := 0, count1 := 0,
     abcd := (0x67452301, T_MASK XOR 0x10325476, T_MASK XOR 0x67452301, 0x10325476)\<rparr>"

text \<open>The loop over the full blocks; the list is the memory from \<^verbatim>\<open>p\<close> on.\<close>

function md5_full_blocks :: "md5_regs \<Rightarrow> bytes \<Rightarrow> int \<Rightarrow> md5_regs \<times> bytes \<times> int" where
  "md5_full_blocks r p left =
     (if left \<ge> 64 then md5_full_blocks (md5_process r (take 64 p)) (drop 64 p) (left - 64)
      else (r, p, left))"
  by pat_completeness auto
termination
  by (relation "measure (\<lambda>(r, p, left). nat left)") auto

declare md5_full_blocks.simps [simp del]

text \<open>\<^verbatim>\<open>memcpy (buf + offset, p, n)\<close>.\<close>

definition buf_copy :: "bytes \<Rightarrow> nat \<Rightarrow> bytes \<Rightarrow> nat \<Rightarrow> bytes" where
  "buf_copy b offset p n = take offset b @ take n p @ drop (offset + n) b"

text \<open>The last two steps of \<^verbatim>\<open>md5_append\<close>: the full blocks and the rest.\<close>

definition md5_append_rest :: "md5_state \<Rightarrow> bytes \<Rightarrow> int \<Rightarrow> md5_state" where
  "md5_append_rest pms p left =
     (let (r, p, left) = md5_full_blocks (abcd pms) p left;
          pms = pms\<lparr>abcd := r\<rparr>
      in if left \<noteq> 0 then pms\<lparr>buf := buf_copy (buf pms) 0 p (nat left)\<rparr> else pms)"

definition md5_append :: "md5_state \<Rightarrow> bytes \<Rightarrow> int \<Rightarrow> md5_state" where
  "md5_append pms data nbytes =
     (let offset = uint (drop_bit 3 (count0 pms) AND 63);
          nbits = word_of_int (nbytes * 8) :: u32
      in if nbytes \<le> 0 then pms
         else
           let c0 = count0 pms + nbits;
               c1 = count1 pms + word_of_int (nbytes div 2 ^ 29);
               c1 = (if c0 < nbits then c1 + 1 else c1);
               pms = pms\<lparr>count0 := c0, count1 := c1\<rparr>
           in if offset \<noteq> 0 then
                let copy = (if offset + nbytes > 64 then 64 - offset else nbytes);
                    pms = pms\<lparr>buf := buf_copy (buf pms) (nat offset) data (nat copy)\<rparr>
                in if offset + copy < 64 then pms
                   else md5_append_rest (pms\<lparr>abcd := md5_process (abcd pms) (buf pms)\<rparr>)
                          (drop (nat copy) data) (nbytes - copy)
              else md5_append_rest pms data nbytes)"

definition md5_pad :: bytes where
  "md5_pad = 0x80 # replicate 63 0"

definition md5_length_bytes :: "md5_state \<Rightarrow> bytes" where
  "md5_length_bytes pms =
     map (\<lambda>i. ucast (drop_bit (i mod 4 * 8) (if i div 4 = 0 then count0 pms else count1 pms))) [0..<8]"

definition md5_digest :: "md5_regs \<Rightarrow> bytes" where
  "md5_digest r =
     (let (a, b, c, d) = r
      in map (\<lambda>i. ucast (drop_bit (i mod 4 * 8) ([a, b, c, d] ! (i div 4)))) [0..<16])"

definition md5_finish :: "md5_state \<Rightarrow> md5_state \<times> bytes" where
  "md5_finish pms =
     (let data = md5_length_bytes pms;
          n = uint (((55 - drop_bit 3 (count0 pms)) AND 63) + 1);
          pms = md5_append pms md5_pad n;
          pms = md5_append pms data 8
      in (pms, md5_digest (abcd pms)))"

section \<open>The digest of RFC 1321\<close>

text \<open>The table of the RFC: \<open>\<lfloor>2 ^ 32 * \<bar>sin (i + 1)\<bar>\<rfloor>\<close>.\<close>

definition rfc_T :: "u32 list" where
  "rfc_T =
     [0xd76aa478, 0xe8c7b756, 0x242070db, 0xc1bdceee, 0xf57c0faf, 0x4787c62a,
     0xa8304613, 0xfd469501, 0x698098d8, 0x8b44f7af, 0xffff5bb1, 0x895cd7be,
     0x6b901122, 0xfd987193, 0xa679438e, 0x49b40821, 0xf61e2562, 0xc040b340,
     0x265e5a51, 0xe9b6c7aa, 0xd62f105d, 0x02441453, 0xd8a1e681, 0xe7d3fbc8,
     0x21e1cde6, 0xc33707d6, 0xf4d50d87, 0x455a14ed, 0xa9e3e905, 0xfcefa3f8,
     0x676f02d9, 0x8d2a4c8a, 0xfffa3942, 0x8771f681, 0x6d9d6122, 0xfde5380c,
     0xa4beea44, 0x4bdecfa9, 0xf6bb4b60, 0xbebfbc70, 0x289b7ec6, 0xeaa127fa,
     0xd4ef3085, 0x04881d05, 0xd9d4d039, 0xe6db99e5, 0x1fa27cf8, 0xc4ac5665,
     0xf4292244, 0x432aff97, 0xab9423a7, 0xfc93a039, 0x655b59c3, 0x8f0ccc92,
     0xffeff47d, 0x85845dd1, 0x6fa87e4f, 0xfe2ce6e0, 0xa3014314, 0x4e0811a1,
     0xf7537e82, 0xbd3af235, 0x2ad7d2bb, 0xeb86d391]"

definition rfc_shift :: "nat \<Rightarrow> nat" where
  "rfc_shift i = [[7, 12, 17, 22], [5, 9, 14, 20], [4, 11, 16, 23], [6, 10, 15, 21]] ! (i div 16) ! (i mod 4)"

definition rfc_index :: "nat \<Rightarrow> nat" where
  "rfc_index i = (if i < 16 then i else if i < 32 then (5 * i + 1) mod 16
                  else if i < 48 then (3 * i + 5) mod 16 else 7 * i mod 16)"

definition rfc_fun :: "nat \<Rightarrow> u32 \<Rightarrow> u32 \<Rightarrow> u32 \<Rightarrow> u32" where
  "rfc_fun i = (if i < 16 then md5_F else if i < 32 then md5_G else if i < 48 then md5_H else md5_I)"

text \<open>Operation \<open>i\<close> of the 64, in the form that shifts the registers.\<close>

definition rfc_op :: "u32 list \<Rightarrow> md5_regs \<Rightarrow> nat \<Rightarrow> md5_regs" where
  "rfc_op X r i =
     (case r of (a, b, c, d) \<Rightarrow>
        (d, b + word_rotl (rfc_shift i) (a + rfc_fun i b c d + X ! rfc_index i + rfc_T ! i), b, c))"

definition rfc_block :: "md5_regs \<Rightarrow> bytes \<Rightarrow> md5_regs" where
  "rfc_block r block =
     (case (r, foldl (rfc_op (md5_words block)) r [0..<64]) of
        ((a, b, c, d), (a', b', c', d')) \<Rightarrow> (a + a', b + b', c + c', d + d'))"

function blocks64 :: "bytes \<Rightarrow> bytes list" where
  "blocks64 m = (if length m < 64 then [] else take 64 m # blocks64 (drop 64 m))"
  by pat_completeness auto
termination
  by (relation "measure length") auto

declare blocks64.simps [simp del]

definition le64 :: "nat \<Rightarrow> bytes" where
  "le64 n = map (\<lambda>i. of_nat (n div 256 ^ i)) [0..<8]"

definition rfc_pad :: "bytes \<Rightarrow> bytes" where
  "rfc_pad m = m @ 0x80 # replicate (nat ((55 - int (length m)) mod 64)) 0 @ le64 (8 * length m)"

definition rfc_md5 :: "bytes \<Rightarrow> bytes" where
  "rfc_md5 m =
     md5_digest (foldl rfc_block (0x67452301, 0xefcdab89, 0x98badcfe, 0x10325476) (blocks64 (rfc_pad m)))"

subsection \<open>A block of the code is a block of the RFC\<close>

lemma ROTATE_LEFT_word_rotl:
  assumes "0 < n" and "n < 32"
  shows "ROTATE_LEFT x n = word_rotl n x"
proof (rule bit_word_eqI)
  fix i assume "i < LENGTH(32)"
  then have i: "i < 32" by simp
  have "LENGTH(32) = 32" by simp
  then have r: "bit (word_rotl n x) i \<longleftrightarrow> bit x ((i + (32 - n)) mod 32)"
    using bit_word_rotl_iff[of n x i] i assms(2) by (simp only: mod_less simp_thms)
  show "bit (ROTATE_LEFT x n) i \<longleftrightarrow> bit (word_rotl n x) i"
  proof (cases "i < n")
    case True
    with assms i have "(i + (32 - n)) mod 32 = 32 - n + i" by simp
    with r True show ?thesis
      by (simp add: ROTATE_LEFT_def bit_or_iff bit_push_bit_iff bit_drop_bit_eq)
  next
    case False
    with assms i have "(i + (32 - n)) mod 32 = (i - n + 32) mod 32" by simp
    also have "\<dots> = i - n" using i by simp
    finally have e: "(i + (32 - n)) mod 32 = i - n" .
    have "\<not> bit x (32 - n + i)"
      using False assms by (intro notI) (auto dest: bit_imp_le_length)
    with r e False i show ?thesis
      by (simp add: ROTATE_LEFT_def bit_or_iff bit_push_bit_iff bit_drop_bit_eq)
  qed
qed

text \<open>One call of a \<^verbatim>\<open>SET\<close> macro, in the form that shifts the registers.\<close>

definition shift_op :: "(u32 \<Rightarrow> u32 \<Rightarrow> u32 \<Rightarrow> u32) \<Rightarrow> u32 list \<Rightarrow> md5_regs \<Rightarrow> nat \<times> nat \<times> u32 \<Rightarrow> md5_regs" where
  "shift_op f X r op = (case r of (a, b, c, d) \<Rightarrow> (d, md5_set f X a b c d op, b, c))"

lemma md5_ops_foldl: "length ops mod 4 = 0 \<Longrightarrow> md5_ops f X ops r = foldl (shift_op f X) r ops"
proof (induction f X ops r rule: md5_ops.induct)
  case (1 f X op1 op2 op3 op4 ops a b c d)
  from "1.prems" have "length ops mod 4 = 0" by simp
  with "1.IH" show ?case by (simp add: Let_def shift_op_def[abs_def])
qed auto

lemma rfc_op_shift:
  "(\<lambda>r. rfc_op X r i) = (\<lambda>r. shift_op (rfc_fun i) X r (rfc_index i, rfc_shift i, rfc_T ! i))"
  if "i < 64"
proof -
  have "rfc_shift i \<in> {4, 5, 6, 7, 9, 10, 11, 12, 14, 15, 16, 17, 20, 21, 22, 23}"
  proof -
    have "i div 16 \<in> {0, 1, 2, 3}" "i mod 4 \<in> {0, 1, 2, 3}" using that by auto
    then show ?thesis by (auto simp: rfc_shift_def)
  qed
  then have "0 < rfc_shift i \<and> rfc_shift i < 32" by auto
  then show ?thesis
    by (auto simp: fun_eq_iff rfc_op_def shift_op_def md5_set_def ROTATE_LEFT_word_rotl add.commute)
qed

lemma foldl_rfc_op:
  assumes "set is \<subseteq> {..<64}" and "\<forall>i\<in>set is. rfc_fun i = f"
  shows "foldl (rfc_op X) r is = foldl (shift_op f X) r (map (\<lambda>i. (rfc_index i, rfc_shift i, rfc_T ! i)) is)"
  using assms
proof (induction "is" arbitrary: r)
  case (Cons i "is")
  then have "rfc_op X r i = shift_op f X r (rfc_index i, rfc_shift i, rfc_T ! i)"
    using fun_cong[OF rfc_op_shift[of i X], of r] by simp
  with Cons show ?case by simp
qed simp

lemma round_tables:
  "map (\<lambda>i. (rfc_index i, rfc_shift i, rfc_T ! i)) [0..<16] = md5_round1"
  "map (\<lambda>i. (rfc_index i, rfc_shift i, rfc_T ! i)) [16..<32] = md5_round2"
  "map (\<lambda>i. (rfc_index i, rfc_shift i, rfc_T ! i)) [32..<48] = md5_round3"
  "map (\<lambda>i. (rfc_index i, rfc_shift i, rfc_T ! i)) [48..<64] = md5_round4"
  by code_simp+

lemma md5_process_eq: "md5_process = rfc_block"
proof (intro ext)
  fix r :: md5_regs and m
  let ?X = "md5_words m"
  have u: "[0..<64] = [0..<16] @ [16..<32] @ [32..<48] @ [48..<64]"
    by (simp flip: upt_add_eq_append[of 0 16 48, simplified] upt_add_eq_append[of 16 32 32, simplified]
        upt_add_eq_append[of 32 48 16, simplified])
  have f: "\<forall>i\<in>set [0..<16]. rfc_fun i = md5_F" "\<forall>i\<in>set [16..<32]. rfc_fun i = md5_G"
    "\<forall>i\<in>set [32..<48]. rfc_fun i = md5_H" "\<forall>i\<in>set [48..<64]. rfc_fun i = md5_I"
    by (auto simp: rfc_fun_def)
  have l: "length md5_round1 mod 4 = 0" "length md5_round2 mod 4 = 0" "length md5_round3 mod 4 = 0"
    "length md5_round4 mod 4 = 0"
    by (simp_all add: md5_round1_def md5_round2_def md5_round3_def md5_round4_def)
  have "set [a..<b] \<subseteq> {..<64}" if "b \<le> 64" for a b :: nat using that by auto
  note t = foldl_rfc_op[OF this f(1)] foldl_rfc_op[OF this f(2)] foldl_rfc_op[OF this f(3)]
    foldl_rfc_op[OF this f(4)]
  have b: "16 \<le> (64::nat)" "32 \<le> (64::nat)" "48 \<le> (64::nat)" "64 \<le> (64::nat)" by simp_all
  have "foldl (rfc_op ?X) r [0..<64] = md5_ops md5_I ?X md5_round4 (md5_ops md5_H ?X md5_round3
          (md5_ops md5_G ?X md5_round2 (md5_ops md5_F ?X md5_round1 r)))"
    by (simp only: u foldl_append t(1)[OF b(1)] t(2)[OF b(2)] t(3)[OF b(3)] t(4)[OF b(4)] round_tables
        md5_ops_foldl l)
  then show "md5_process r m = rfc_block r m"
    by (simp add: md5_process_def rfc_block_def Let_def split: prod.splits)
qed

subsection \<open>Machine arithmetic\<close>


lemma byte_of_nat:
  assumes "k \<le> 24"
  shows "ucast (drop_bit k (of_nat x :: u32)) = (of_nat (x div 2 ^ k) :: u8)"
proof (rule bit_word_eqI)
  fix j assume "j < LENGTH(8)"
  then have "j + k < 32" using assms by simp
  then show "bit (ucast (drop_bit k (of_nat x :: u32)) :: u8) j \<longleftrightarrow> bit (of_nat (x div 2 ^ k) :: u8) j"
    by (simp add: bit_simps ac_simps flip: drop_bit_eq_div)
qed

lemma drop3_of_nat: "unat (drop_bit 3 (of_nat (8 * n) :: u32)) = n mod 2 ^ 29"
proof -
  have "unat (drop_bit 3 (of_nat (8 * n) :: u32)) = 8 * n mod 2 ^ 32 div 8"
    unfolding unat_drop_bit_eq unat_of_nat by (simp add: drop_bit_eq_div)
  also have "8 * n mod 2 ^ 32 = 8 * (n mod 2 ^ 29)"
    using mult_mod_right[of 8 n "2 ^ 29"] by simp
  finally show ?thesis by simp
qed

lemma and_63: "unat (x AND 63 :: u32) = unat x mod 64"
proof -
  have "(63 :: u32) = mask 6" by (simp add: mask_eq_exp_minus_1)
  then have "x AND 63 = take_bit 6 x" by (simp only: take_bit_eq_mask)
  then have "unat (x AND 63) = take_bit 6 (unat x)" by (simp only: unsigned_take_bit_eq)
  then show ?thesis by (simp add: take_bit_eq_mod)
qed

lemma uint_and_63: "uint (x AND 63 :: u32) = uint x mod 64"
  unfolding uint_nat and_63 by (simp only: zmod_int of_nat_numeral)

lemma mod_29_64: "n mod 2 ^ 29 mod 64 = n mod (64 :: nat)"
  by (rule mod_mod_cancel) simp

lemma offset_of_nat: "uint (drop_bit 3 (of_nat (8 * n) :: u32) AND 63) = int (n mod 64)"
  using and_63[of "drop_bit 3 (of_nat (8 * n))"] drop3_of_nat[of n] mod_29_64[of n]
  by (metis uint_nat)

lemma padding_of_nat:
  "uint (((55 - drop_bit 3 (of_nat (8 * n) :: u32)) AND 63) + 1) = (55 - int n) mod 64 + 1"
proof -
  let ?y = "drop_bit 3 (of_nat (8 * n) :: u32)"
  have y: "uint ?y = int (n mod 2 ^ 29)" using drop3_of_nat[of n] by (metis uint_nat)
  have "uint ((55 - ?y) AND 63) = uint (55 - ?y) mod 64"
    by (rule uint_and_63)
  also have "\<dots> = (55 - uint ?y) mod 2 ^ 32 mod 64"
    by (simp add: uint_word_ariths)
  also have "\<dots> = (55 - uint ?y) mod 64" by (rule mod_mod_cancel) simp
  also have "\<dots> = (55 - int n) mod 64"
  proof -
    have "int (n mod 2 ^ 29) mod 64 = int n mod 64"
      using arg_cong[OF mod_29_64[of n], of int] by (simp only: zmod_int of_nat_numeral)
    then show ?thesis unfolding y by (rule mod_diff_cong[OF refl])
  qed
  finally have e: "uint ((55 - ?y) AND 63) = (55 - int n) mod 64" .
  have "uint (((55 - ?y) AND 63) + 1) = uint ((55 - ?y) AND 63) + 1"
    unfolding uint_word_ariths e by (simp add: mod_pos_pos_trivial)
  with e show ?thesis by simp
qed

lemma carry_nat:
  fixes x y M :: nat
  assumes "0 < M"
  shows "(x + y) mod M < y mod M \<longleftrightarrow> \<not> x mod M + y mod M < M"
    and "(x + y) div M = x div M + y div M + (if x mod M + y mod M < M then 0 else 1)"
proof -
  have b: "x mod M < M" "y mod M < M" using assms by simp_all
  have e: "(x + y) mod M = (x mod M + y mod M) mod M" by (simp add: mod_add_eq)
  show "(x + y) mod M < y mod M \<longleftrightarrow> \<not> x mod M + y mod M < M"
  proof (cases "x mod M + y mod M < M")
    case True
    then show ?thesis by (simp add: e)
  next
    case False
    moreover have "x mod M + y mod M - M < M" using b by linarith
    ultimately have "(x mod M + y mod M) mod M = x mod M + y mod M - M"
      by (simp add: le_mod_geq)
    then show ?thesis using False b e by linarith
  qed
  have "(x mod M + y mod M) div M = (if x mod M + y mod M < M then 0 else 1)"
  proof (cases "x mod M + y mod M < M")
    case False
    moreover have "x mod M + y mod M - M < M" using b by linarith
    ultimately show ?thesis using assms by (simp add: le_div_geq)
  qed simp
  then show "(x + y) div M = x div M + y div M + (if x mod M + y mod M < M then 0 else 1)"
    by (simp add: div_add1_eq[of x y M])
qed

lemma count_carry:
  fixes x y :: nat
  defines "c \<equiv> (of_nat x + of_nat y :: u32)"
  shows "c = of_nat (x + y)"
    and "(if c < of_nat y then of_nat (x div 2 ^ 32) + of_nat (y div 2 ^ 32) + 1
          else of_nat (x div 2 ^ 32) + of_nat (y div 2 ^ 32)) = (of_nat ((x + y) div 2 ^ 32) :: u32)"
proof -
  show c: "c = of_nat (x + y)" by (simp add: c_def)
  have "c < of_nat y \<longleftrightarrow> (x + y) mod 2 ^ 32 < y mod 2 ^ 32"
    unfolding c word_less_nat_alt unat_of_nat by simp
  then have l: "c < of_nat y \<longleftrightarrow> \<not> x mod 2 ^ 32 + y mod 2 ^ 32 < 2 ^ 32"
    by (simp only: carry_nat(1)[of "2 ^ 32" x y, OF zero_less_power[OF zero_less_numeral]])
  show "(if c < of_nat y then of_nat (x div 2 ^ 32) + of_nat (y div 2 ^ 32) + 1
          else of_nat (x div 2 ^ 32) + of_nat (y div 2 ^ 32)) = (of_nat ((x + y) div 2 ^ 32) :: u32)"
    unfolding carry_nat(2)[of "2 ^ 32" x y, OF zero_less_power[OF zero_less_numeral]] l by simp
qed


subsection \<open>What a state represents\<close>

lemma blocks64_append: "length a mod 64 = 0 \<Longrightarrow> blocks64 (a @ b) = blocks64 a @ blocks64 b"
proof (induction a rule: blocks64.induct)
  case (1 m)
  show ?case
  proof (cases "m = []")
    case True
    then show ?thesis by (simp add: blocks64.simps[of "[]"])
  next
    case False
    with "1.prems" have l: "64 \<le> length m"
      by (metis length_0_conv mod_less not_less)
    with "1.prems" have "length (drop 64 m) mod 64 = 0" by (simp add: le_mod_geq)
    with "1.IH" l have "blocks64 (drop 64 m @ b) = blocks64 (drop 64 m) @ blocks64 b" by simp
    with l show ?thesis by (subst (1 2) blocks64.simps) simp
  qed
qed

lemma blocks64_full: "length b = 64 \<Longrightarrow> blocks64 b = [b]"
  by (subst blocks64.simps) (simp add: blocks64.simps[of "[]"])

lemma md5_full_blocks_int:
  "n \<le> length p \<Longrightarrow> md5_full_blocks r p (int n)
     = (foldl md5_process r (blocks64 (take (64 * (n div 64)) p)), drop (64 * (n div 64)) p, int (n mod 64))"
proof (induction n arbitrary: r p rule: less_induct)
  case (less n)
  show ?case
  proof (cases "n < 64")
    case True
    then show ?thesis by (subst md5_full_blocks.simps) (simp add: blocks64.simps[of "[]"])
  next
    case False
    let ?k = "64 * ((n - 64) div 64)"
    have k: "64 * (n div 64) = 64 + ?k" using False by (simp add: le_div_geq)
    have m: "n mod 64 = (n - 64) mod 64" using False by (simp add: le_mod_geq)
    have t: "length (take 64 p) = 64" using False less.prems by simp
    have "take (64 + ?k) p = take 64 p @ take ?k (drop 64 p)" by (rule take_add)
    then have b: "blocks64 (take (64 + ?k) p) = take 64 p # blocks64 (take ?k (drop 64 p))"
      using t by (simp add: blocks64_append blocks64_full)
    have "md5_full_blocks r p (int n) = md5_full_blocks (md5_process r (take 64 p)) (drop 64 p) (int (n - 64))"
      using False by (subst md5_full_blocks.simps) (simp add: of_nat_diff)
    also have "\<dots> = (foldl md5_process (md5_process r (take 64 p)) (blocks64 (take ?k (drop 64 p))),
        drop ?k (drop 64 p), int ((n - 64) mod 64))"
      using False less.prems by (intro less.IH) auto
    finally show ?thesis by (simp add: k m b add.commute)
  qed
qed

text \<open>
  The state represents the message \<open>m\<close>: the registers hold the digest of its full blocks, the
  buffer starts with the rest and the two counters hold its length in bits modulo \<open>2 ^ 64\<close>.
\<close>

definition md5_start :: md5_regs where
  "md5_start = (0x67452301, 0xefcdab89, 0x98badcfe, 0x10325476)"

definition md5_counts :: "nat \<Rightarrow> md5_state \<Rightarrow> bool" where
  "md5_counts n s \<longleftrightarrow> count0 s = of_nat (8 * n) \<and> count1 s = of_nat (8 * n div 2 ^ 32)"

definition md5_split :: "bytes \<Rightarrow> bytes \<Rightarrow> md5_state \<Rightarrow> bool" where
  "md5_split a t s \<longleftrightarrow> length a mod 64 = 0 \<and> length t < 64 \<and> length (buf s) = 64
     \<and> abcd s = foldl md5_process md5_start (blocks64 a) \<and> take (length t) (buf s) = t"

definition md5_rep :: "bytes \<Rightarrow> md5_state \<Rightarrow> bool" where
  "md5_rep m s \<longleftrightarrow> md5_counts (length m) s \<and> (\<exists>a t. m = a @ t \<and> md5_split a t s)"

lemma md5_append_rest_rep:
  assumes "length a mod 64 = 0" and "length (buf s) = 64"
    and "abcd s = foldl md5_process md5_start (blocks64 a)" and "n \<le> length p"
    and "md5_counts (length a + n) s"
  shows "md5_rep (a @ take n p) (md5_append_rest s p (int n))"
proof -
  let ?q = "64 * (n div 64)"
  let ?a = "a @ take ?q p" and ?t = "take (n mod 64) (drop ?q p)" and ?s = "md5_append_rest s p (int n)"
  have n: "?q + n mod 64 = n" by simp
  then have "n mod 64 \<le> length p - ?q" using assms(4) by linarith
  then have lt: "length ?t = n mod 64" by simp
  have "?q \<le> length p" using assms(4) n by linarith
  then have la: "length ?a mod 64 = 0" using assms(1) by simp
  have "take n p = take ?q p @ ?t" using take_add[of ?q "n mod 64" p] n by simp
  moreover have "md5_split ?a ?t ?s"
  proof -
    have "abcd ?s = foldl md5_process md5_start (blocks64 ?a)"
      using assms(1,3,4) by (simp add: md5_append_rest_def md5_full_blocks_int Let_def blocks64_append)
    moreover have "length (buf ?s) = 64 \<and> take (length ?t) (buf ?s) = ?t"
      using assms(2,4) lt by (auto simp: md5_append_rest_def md5_full_blocks_int Let_def buf_copy_def)
    ultimately show ?thesis using la lt by (simp add: md5_split_def)
  qed
  moreover have "md5_counts (length (a @ take n p)) ?s"
    using assms(4,5) by (simp add: md5_counts_def md5_append_rest_def Let_def split: prod.splits)
  ultimately show ?thesis unfolding md5_rep_def by (metis append.assoc)
qed

lemma md5_append_rep:
  assumes "md5_rep m s" and "n \<le> length d"
  shows "md5_rep (m @ take n d) (md5_append s d (int n))"
proof (cases "n = 0")
  case True
  with assms show ?thesis by (simp add: md5_append_def)
next
  case False
  from assms(1) obtain a t where m: "m = a @ t" and s: "md5_split a t s" and c: "md5_counts (length m) s"
    by (auto simp: md5_rep_def)
  from s have lt: "length t < 64" and la: "length a mod 64 = 0" and lb: "length (buf s) = 64"
    and r: "abcd s = foldl md5_process md5_start (blocks64 a)" and bt: "take (length t) (buf s) = t"
    by (simp_all add: md5_split_def)
  have off: "uint (drop_bit 3 (count0 s) AND 63) = int (length t)"
  proof -
    have "length m mod 64 = length t" using m la lt by (simp add: mod_add_left_eq[symmetric])
    with c show ?thesis using offset_of_nat[of "length m"] by (simp add: md5_counts_def)
  qed
  let ?nb = "word_of_int (int n * 8) :: u32"
  have nb: "?nb = of_nat (8 * n)" by (simp add: mult.commute)
  define s1 where "s1 = s\<lparr>count0 := count0 s + ?nb,
      count1 := (if count0 s + ?nb < ?nb then count1 s + word_of_int (int n div 2 ^ 29) + 1
                 else count1 s + word_of_int (int n div 2 ^ 29))\<rparr>"
  have d29: "word_of_int (int n div 2 ^ 29) = (of_nat (8 * n div 2 ^ 32) :: u32)"
  proof -
    have "8 * n div 2 ^ 32 = n div 2 ^ 29"
      using div_mult2_eq[of "8 * n" 8 "2 ^ 29"] by simp
    moreover have "int n div 2 ^ 29 = int (n div 2 ^ 29)" by (simp only: zdiv_int of_nat_power of_nat_numeral)
    ultimately show ?thesis by (simp only: of_int_of_nat_eq)
  qed
  have c1: "md5_counts (length m + n) s1"
    using c count_carry[of "8 * length m" "8 * n"]
    unfolding md5_counts_def s1_def nb d29
    by (simp only: distrib_left) (simp del: of_nat_add of_nat_mult)
  have s1: "buf s1 = buf s" "abcd s1 = abcd s" by (simp_all add: s1_def)
  show ?thesis
  proof (cases "length t = 0")
    case True
    then have "md5_append s d (int n) = md5_append_rest s1 d (int n)"
      using off False by (simp add: md5_append_def Let_def s1_def)
    moreover have "md5_rep (a @ take n d) (md5_append_rest s1 d (int n))"
      using la lb r assms(2) c1 True m s1 by (intro md5_append_rest_rep) simp_all
    ultimately show ?thesis using m True by simp
  next
    case t: False
    show ?thesis
    proof (cases "length t + n < 64")
      case True
      let ?s2 = "s1\<lparr>buf := buf_copy (buf s1) (length t) d n\<rparr>"
      have "md5_append s d (int n) = ?s2"
        using off False t True by (simp add: md5_append_def Let_def s1_def)
      moreover have "md5_split a (t @ take n d) ?s2"
        using True la lb r bt assms(2) s1 by (simp add: md5_split_def buf_copy_def)
      moreover have "md5_counts (length (m @ take n d)) ?s2"
        using c1 assms(2) by (simp add: md5_counts_def)
      ultimately show ?thesis using m unfolding md5_rep_def by auto
    next
      case full: False
      let ?c = "64 - length t"
      let ?b = "buf_copy (buf s1) (length t) d ?c"
      let ?s2 = "s1\<lparr>buf := ?b, abcd := md5_process (abcd s1) ?b\<rparr>"
      have cn: "?c \<le> n" and lc: "length (take ?c d) = ?c" using full lt assms(2) by auto
      have b: "?b = t @ take ?c d" using bt lb s1 lt by (simp add: buf_copy_def)
      have "(if int (length t) + int n > 64 then 64 - int (length t) else int n) = int ?c"
        using full lt by auto
      then have "md5_append s d (int n) = md5_append_rest ?s2 (drop ?c d) (int (n - ?c))"
        using off False t lt cn nat_int[of ?c]
        by (simp add: md5_append_def Let_def s1_def of_nat_diff diff_diff_eq2)
      moreover have "md5_rep ((a @ t @ take ?c d) @ take (n - ?c) (drop ?c d)) (md5_append_rest ?s2 (drop ?c d) (int (n - ?c)))"
      proof (rule md5_append_rest_rep)
        show "length (a @ t @ take ?c d) mod 64 = 0" using la lc lt by simp
        show "length (buf ?s2) = 64" using b lc lt by simp
        show "abcd ?s2 = foldl md5_process md5_start (blocks64 (a @ t @ take ?c d))"
          using la lc lt r s1 b blocks64_full[of "t @ take ?c d"] by (simp add: blocks64_append)
        show "n - ?c \<le> length (drop ?c d)" using assms(2) by simp
        have "length (a @ t @ take ?c d) + (n - ?c) = length m + n"
          using m lc lt cn by simp
        then show "md5_counts (length (a @ t @ take ?c d) + (n - ?c)) ?s2"
          using c1 unfolding md5_counts_def by simp
      qed
      moreover have "take n d = take ?c d @ take (n - ?c) (drop ?c d)"
        using take_add[of ?c "n - ?c" d] cn by simp
      ultimately show ?thesis using m by simp
    qed
  qed
qed

lemma md5_init_rep: "length (buf s) = 64 \<Longrightarrow> md5_rep [] (md5_init s)"
  by (simp add: md5_rep_def md5_split_def md5_counts_def md5_init_def md5_start_def T_MASK_def
      blocks64.simps[of "[]"])

lemma md5_length_bytes_rep:
  assumes "md5_counts n s"
  shows "md5_length_bytes s = le64 (8 * n)"
proof -
  have "ucast (drop_bit (i mod 4 * 8) (if i div 4 = 0 then count0 s else count1 s)) = (of_nat (8 * n div 256 ^ i) :: u8)"
    if "i < 8" for i
  proof -
    have k: "i mod 4 * 8 \<le> 24" by simp
    have p: "(256 :: nat) ^ i = 2 ^ (8 * i)" by (simp add: power_mult)
    show ?thesis
    proof (cases "i < 4")
      case True
      then show ?thesis using assms byte_of_nat[OF k, of "8 * n"] p
        by (simp add: md5_counts_def mult.commute del: of_nat_mult)
    next
      case False
      with that have i: "8 * i = 32 + i mod 4 * 8" "i div 4 \<noteq> 0"
        by (auto simp: div_if mod_if)
      have "8 * n div 256 ^ i = 8 * n div 2 ^ 32 div 2 ^ (i mod 4 * 8)"
        unfolding p i(1) power_add by (simp only: div_mult2_eq)
      with i(2) assms show ?thesis using byte_of_nat[OF k, of "8 * n div 2 ^ 32"]
        by (simp add: md5_counts_def del: of_nat_mult)
    qed
  qed
  then show ?thesis by (simp add: md5_length_bytes_def le64_def)
qed

lemma md5_rep_full: "md5_rep m s \<Longrightarrow> length m mod 64 = 0 \<Longrightarrow> abcd s = foldl md5_process md5_start (blocks64 m)"
proof -
  assume "md5_rep m s" and l: "length m mod 64 = 0"
  then obtain a t where m: "m = a @ t" and s: "md5_split a t s" by (auto simp: md5_rep_def)
  then have "length m mod 64 = length t"
    by (simp add: md5_split_def mod_add_left_eq[symmetric])
  with l m have "m = a" by simp
  with s show ?thesis by (simp add: md5_split_def)
qed

lemma md5_finish_rep:
  assumes "md5_rep m s"
  shows "snd (md5_finish s) = rfc_md5 m"
proof -
  let ?k = "nat ((55 - int (length m)) mod 64)"
  let ?p = "m @ 0x80 # replicate ?k 0"
  have c: "md5_counts (length m) s" using assms by (simp add: md5_rep_def)
  then have n: "uint (((55 - drop_bit 3 (count0 s)) AND 63) + 1) = int (Suc ?k)"
    using padding_of_nat[of "length m"] by (simp add: md5_counts_def)
  have k: "?k \<le> 63" by simp
  have tp: "take (Suc ?k) md5_pad = 0x80 # replicate ?k 0" using k by (simp add: md5_pad_def)
  have "Suc ?k \<le> length md5_pad" using k by (simp add: md5_pad_def)
  from md5_append_rep[OF assms this] have r1: "md5_rep ?p (md5_append s md5_pad (int (Suc ?k)))"
    unfolding tp .
  have l8: "length (le64 x) = 8" for x by (simp add: le64_def)
  have r2: "md5_rep (rfc_pad m) (md5_append (md5_append s md5_pad (int (Suc ?k))) (md5_length_bytes s) (int 8))"
    using md5_append_rep[OF r1, of 8 "md5_length_bytes s"]
    by (simp add: md5_length_bytes_rep[OF c] l8 rfc_pad_def)
  have "length (rfc_pad m) mod 64 = 0"
  proof -
    have "int (length (rfc_pad m)) = int (length m) + (55 - int (length m)) mod 64 + 9"
      by (simp add: rfc_pad_def l8)
    also have "\<dots> = 64 * (1 - (55 - int (length m)) div 64)"
      unfolding minus_mult_div_eq_mod[symmetric, of "55 - int (length m)"] by simp
    finally have "int (length (rfc_pad m)) mod 64 = 0" by simp
    then show ?thesis by (simp only: zmod_int[symmetric, of _ 64, simplified] of_nat_eq_0_iff)
  qed
  from md5_rep_full[OF r2 this] show ?thesis
    unfolding md5_finish_def Let_def n rfc_md5_def md5_process_eq by (simp add: md5_start_def)
qed

subsection \<open>The interface of an incremental digest\<close>

locale stream_digest =
  fixes init :: "'s \<Rightarrow> 's" and append :: "'s \<Rightarrow> 'a list \<Rightarrow> 's" and finish :: "'s \<Rightarrow> 'd"
    and ok :: "'s \<Rightarrow> bool" and rep :: "'a list \<Rightarrow> 's \<Rightarrow> bool" and digest :: "'a list \<Rightarrow> 'd"
  assumes init_rep: "ok s \<Longrightarrow> rep [] (init s)"
    and append_rep: "rep m s \<Longrightarrow> rep (m @ d) (append s d)"
    and finish_rep: "rep m s \<Longrightarrow> finish s = digest m"
begin

lemma pieces_rep: "rep m s \<Longrightarrow> rep (m @ concat ds) (foldl append s ds)"
proof (induction ds arbitrary: m s)
  case (Cons d ds)
  from Cons.IH[OF append_rep[OF Cons.prems, of d]] show ?case by simp
qed simp

lemma digest_pieces: "ok s \<Longrightarrow> finish (foldl append (init s) ds) = digest (concat ds)"
  using pieces_rep[OF init_rep, of s ds] by (simp add: finish_rep)

end

interpretation md5_stream: stream_digest
  md5_init "\<lambda>s d. md5_append s d (int (length d))" "\<lambda>s. snd (md5_finish s)"
  "\<lambda>s. length (buf s) = 64" md5_rep rfc_md5
proof unfold_locales
  show "md5_rep (m @ d) (md5_append s d (int (length d)))" if "md5_rep m s" for m s d
    using md5_append_rep[OF that, of "length d" d] by simp
qed (simp_all add: md5_init_rep md5_finish_rep)

section \<open>Properties\<close>

text \<open>One call of \<^verbatim>\<open>md5_process\<close>, with its four unrolled rounds and its constants written
  as complements, is one block of RFC 1321: 64 operations with the table, the rotations and
  the word order of the RFC.\<close>

theorem md5_process_rfc: "md5_process r block = rfc_block r block"
  by (simp add: md5_process_eq)

text \<open>\<^verbatim>\<open>md5_append\<close> keeps the representation: after appending the first \<open>n\<close> bytes of the
  data to a state that represents \<open>m\<close>, it represents \<open>m\<close> followed by these bytes, on each of its
  paths (buffer not filled, buffer filled, full blocks, rest) and with the 64-bit length
  carried over between the two counters.\<close>

theorem md5_append_represents:
  assumes "md5_rep m s" and "n \<le> length d" and "n < 2 ^ 28"
  shows "md5_rep (m @ take n d) (md5_append s d (int n))"
  using assms(1,2) by (rule md5_append_rep)

theorem md5_append_represents_witness:
  "md5_rep [] (md5_init \<lparr>count0 = 7, count1 = 7, abcd = (0, 0, 0, 0), buf = replicate 64 0\<rparr>)
   \<and> md5_rep [0x61, 0x62] (md5_append (md5_init \<lparr>count0 = 7, count1 = 7, abcd = (0, 0, 0, 0), buf = replicate 64 0\<rparr>)
        [0x61, 0x62, 0x63] 2)"
proof -
  let ?s = "\<lparr>count0 = 7, count1 = 7, abcd = (0, 0, 0, 0), buf = replicate 64 0\<rparr>"
  have r: "md5_rep [] (md5_init ?s)" by (rule md5_init_rep) simp
  from r md5_append_represents[OF r, of 2 "[0x61, 0x62, 0x63]"] show ?thesis by simp
qed

text \<open>(C8) However a message is cut into pieces for \<^verbatim>\<open>md5_append\<close>, \<^verbatim>\<open>md5_finish\<close> returns the MD5
  digest of RFC 1321 of the whole message.\<close>

theorem md5_digest_correct:
  assumes "list_all (\<lambda>d. length d < 2 ^ 28) ds" and "length (buf s) = 64"
  shows "snd (md5_finish (foldl (\<lambda>s d. md5_append s d (int (length d))) (md5_init s) ds)) = rfc_md5 (concat ds)"
  using assms(2) by (rule md5_stream.digest_pieces)

lemma md5_abc:
  "snd (md5_finish (md5_append (md5_append (md5_init
        \<lparr>count0 = 0, count1 = 0, abcd = (0, 0, 0, 0), buf = replicate 64 0\<rparr>) [0x61] 1) [0x62, 0x63] 2))
     = [0x90, 0x01, 0x50, 0x98, 0x3c, 0xd2, 0x4f, 0xb0, 0xd6, 0x96, 0x3f, 0x7d, 0x28, 0xe1, 0x7f, 0x72]"
  by code_simp

theorem md5_digest_correct_witness:
  "rfc_md5 [0x61, 0x62, 0x63]
     = [0x90, 0x01, 0x50, 0x98, 0x3c, 0xd2, 0x4f, 0xb0, 0xd6, 0x96, 0x3f, 0x7d, 0x28, 0xe1, 0x7f, 0x72]"
  using md5_digest_correct[of "[[0x61], [0x62, 0x63]]"
      "\<lparr>count0 = 0, count1 = 0, abcd = (0, 0, 0, 0), buf = replicate 64 0\<rparr>"] md5_abc
  by simp

end
