(* ===== verification/Pandora_Files.thy ===== *)
theory Pandora_Files
  imports Pandora_Service MD5 "HOL-Library.AList"
begin

text \<open>
  Files and directories: \<^verbatim>\<open>src/misc/pandora_file.cc\<close>.  The disk is a tree of directories whose
  entries are kept in the order in which \<^verbatim>\<open>readdir\<close> gives them.  Two predicates stand for what the
  system refuses: \<open>locked\<close> names cannot be opened for writing or removed, \<open>unreadable\<close> directories
  cannot be opened.  Names are compared exactly; \<^verbatim>\<open>.\<close> and \<^verbatim>\<open>..\<close> in a path are not resolved.
\<close>

section \<open>The disk\<close>

datatype node = File string | Dir "(string \<times> node) list"

type_synonym path = "string list"

fun node_at :: "node \<Rightarrow> path \<Rightarrow> node option" where
  "node_at t [] = Some t"
| "node_at (File c) (x # xs) = None"
| "node_at (Dir es) (x # xs) = (case map_of es x of None \<Rightarrow> None | Some t \<Rightarrow> node_at t xs)"

text \<open>Sets or removes the entry at a path; below a file or a missing directory nothing changes.\<close>

definition set_entry :: "string \<Rightarrow> node option \<Rightarrow> (string \<times> node) list \<Rightarrow> (string \<times> node) list" where
  "set_entry x opt es = (case opt of None \<Rightarrow> AList.delete x es | Some t \<Rightarrow> AList.update x t es)"

fun update_at :: "path \<Rightarrow> node option \<Rightarrow> node \<Rightarrow> node" where
  "update_at [] opt t = t"
| "update_at (x # xs) opt (File c) = File c"
| "update_at (x # xs) opt (Dir es) =
     Dir (if xs = [] then set_entry x opt es
          else case map_of es x of None \<Rightarrow> es | Some t \<Rightarrow> AList.update x (update_at xs opt t) es)"

definition is_dir :: "node \<Rightarrow> path \<Rightarrow> bool" where
  "is_dir t p \<longleftrightarrow> (case node_at t p of Some (Dir _) \<Rightarrow> True | _ \<Rightarrow> False)"

definition content_of :: "node \<Rightarrow> path \<Rightarrow> string option" where
  "content_of t p = (case node_at t p of Some (File c) \<Rightarrow> Some c | _ \<Rightarrow> None)"

lemma content_of_simps [simp]:
  "content_of (File c) [] = Some c"
  "content_of (File c) (x # xs) = None"
  "content_of (Dir es) [] = None"
  "content_of (Dir es) (x # xs) = (case map_of es x of None \<Rightarrow> None | Some t \<Rightarrow> content_of t xs)"
  by (auto simp: content_of_def split: option.splits)

lemma is_dir_simps [simp]:
  "is_dir (File c) p = False"
  "is_dir (Dir es) [] = True"
  "is_dir (Dir es) (x # xs) = (case map_of es x of None \<Rightarrow> False | Some t \<Rightarrow> is_dir t xs)"
  by (cases p) (auto simp: is_dir_def split: option.splits)

lemma map_of_set_entry: "map_of (set_entry x opt es) = (map_of es)(x := opt)"
  by (auto simp: set_entry_def update_conv' delete_conv' split: option.splits)

lemma node_at_update_same:
  "p \<noteq> [] \<Longrightarrow> is_dir t (butlast p) \<Longrightarrow> node_at (update_at p opt t) p = opt"
proof (induction p opt t rule: update_at.induct)
  case (3 x xs opt es)
  show ?case
  proof (cases "xs = []")
    case True
    then show ?thesis by (cases opt) (simp_all add: map_of_set_entry)
  next
    case False
    with "3.prems" obtain t where t: "map_of es x = Some t" "is_dir t (butlast xs)"
      by (auto split: option.splits)
    with "3.IH"[OF False t(1) False t(2)] False show ?thesis by (simp add: update_conv')
  qed
qed auto

lemma node_at_update_parallel:
  "p \<parallel> q \<Longrightarrow> node_at (update_at p opt t) q = node_at t q"
proof (induction p opt t arbitrary: q rule: update_at.induct)
  case (3 x xs opt es)
  then obtain y ys where q: "q = y # ys" by (cases q) auto
  show ?case
  proof (cases "x = y")
    case False
    then show ?thesis
      by (simp add: q map_of_set_entry update_conv' split: option.splits)
  next
    case True
    with "3.prems" q have par: "xs \<parallel> ys" by (simp add: parallel_def)
    then have "xs \<noteq> []" by auto
    with True q par "3.IH" show ?thesis by (auto simp: update_conv' split: option.splits)
  qed
qed auto

text \<open>An update below \<open>q\<close> keeps a directory at \<open>q\<close>.\<close>

lemma is_dir_update:
  "strict_prefix q p \<Longrightarrow> is_dir (update_at p opt t) q = is_dir t q"
proof (induction p opt t arbitrary: q rule: update_at.induct)
  case (3 x xs opt es)
  show ?case
  proof (cases q)
    case Nil
    then show ?thesis by simp
  next
    case (Cons y ys)
    with "3.prems" have "y = x" "strict_prefix ys xs" "xs \<noteq> []" by (auto simp: strict_prefix_def)
    with Cons "3.IH" show ?thesis by (auto simp: update_conv' split: option.splits)
  qed
qed auto

lemma node_at_append: "node_at t p = Some t' \<Longrightarrow> node_at t (p @ q) = node_at t' q"
  by (induction t p rule: node_at.induct) (auto split: option.splits)

lemma node_at_append_None: "node_at t p = None \<Longrightarrow> node_at t (p @ q) = None"
  by (induction t p rule: node_at.induct) (auto split: option.splits)

text \<open>The names along a path are separated by backslashes.\<close>

abbreviation BACKSLASH :: char where "BACKSLASH \<equiv> CHR 0x5C"

fun split_path :: "string \<Rightarrow> string list" where
  "split_path [] = [[]]"
| "split_path (c # s) =
     (if c = BACKSLASH then [] # split_path s
      else (case split_path s of [] \<Rightarrow> [[c]] | l # ls \<Rightarrow> (c # l) # ls))"

definition path_of :: "string \<Rightarrow> path" where
  "path_of s = filter (\<lambda>n. n \<noteq> []) (split_path s)"

lemma split_path_not_Nil [simp]: "split_path s \<noteq> []"
  by (induction s) (auto split: list.splits)

lemma split_path_append: "split_path (a @ BACKSLASH # b) = split_path a @ split_path b"
  by (induction a) (auto split: list.splits simp: neq_Nil_conv)

lemma split_path_plain: "BACKSLASH \<notin> set s \<Longrightarrow> split_path s = [s]"
  by (induction s) auto

lemma path_of_append: "path_of (a @ BACKSLASH # b) = path_of a @ path_of b"
  by (simp add: path_of_def split_path_append)

lemma path_of_plain: "BACKSLASH \<notin> set s \<Longrightarrow> s \<noteq> [] \<Longrightarrow> path_of s = [s]"
  by (simp add: path_of_def split_path_plain)

lemma path_of_slash: "with_slash dir = Inr d \<Longrightarrow> path_of (d @ f) = path_of dir @ path_of f"
proof -
  assume "with_slash dir = Inr d"
  then have nz: "dir \<noteq> []" and d: "d = (if last dir \<noteq> BACKSLASH then dir @ [BACKSLASH] else dir)"
    by (auto simp: with_end_def split: if_splits)
  show ?thesis
  proof (cases "last dir = BACKSLASH")
    case True
    then obtain d' where d': "dir = d' @ [BACKSLASH]" using nz by (metis append_butlast_last_id)
    have "path_of dir = path_of d'" using path_of_append[of d' "[]"] by (simp add: d' path_of_def)
    then show ?thesis using True d d' path_of_append[of d' f] by simp
  next
    case False
    then show ?thesis using d path_of_append[of dir f] by simp
  qed
qed

text \<open>Paths as they are written.\<close>

fun join_path :: "path \<Rightarrow> string" where
  "join_path [] = []"
| "join_path [n] = n"
| "join_path (n # ns) = n @ BACKSLASH # join_path ns"

record disk =
  disk_entries :: "(string \<times> node) list"
  locked :: "path \<Rightarrow> bool"
  unreadable :: "path \<Rightarrow> bool"

definition root :: "disk \<Rightarrow> node" where
  "root d = Dir (disk_entries d)"

definition content_at :: "disk \<Rightarrow> path \<Rightarrow> string option" where
  "content_at d = content_of (root d)"

fun entries_of :: "node \<Rightarrow> (string \<times> node) list" where
  "entries_of (Dir es) = es"
| "entries_of (File c) = []"

definition set_at :: "path \<Rightarrow> node option \<Rightarrow> disk \<Rightarrow> disk" where
  "set_at p opt d = d\<lparr>disk_entries := entries_of (update_at p opt (root d))\<rparr>"

lemma root_set_at [simp]: "root (set_at p opt d) = update_at p opt (root d)"
  by (cases p) (simp_all add: set_at_def root_def)

lemma set_at_keeps [simp]:
  "locked (set_at p opt d) = locked d" "unreadable (set_at p opt d) = unreadable d"
  by (simp_all add: set_at_def)

text \<open>Files opened in text mode: the pair CR LF is read as LF, and LF is written as CR LF.\<close>

fun text_mode :: "string \<Rightarrow> string" where
  "text_mode [] = []"
| "text_mode [c] = [c]"
| "text_mode (c # d # s) = (if c = CR \<and> d = LF then LF # text_mode s else c # text_mode (d # s))"

definition text_out :: "string \<Rightarrow> string" where
  "text_out s = concat (map (\<lambda>c. if c = LF then [CR, LF] else [c]) s)"

lemma text_out_Cons: "text_out (c # s) = (if c = LF then [CR, LF] else [c]) @ text_out s"
  by (simp add: text_out_def)

lemma text_mode_out: "CR \<notin> set s \<Longrightarrow> text_mode (text_out s) = s"
proof (induction s)
  case (Cons c s)
  show ?case
  proof (cases "text_out s")
    case Nil
    with Cons show ?thesis by (auto simp: text_out_Cons)
  next
    case (Cons d t)
    with Cons.IH Cons.prems show ?thesis by (auto simp: text_out_Cons)
  qed
qed (simp add: text_out_def)

text \<open>What an \<^verbatim>\<open>ifstream\<close> reads.\<close>

definition text_files :: "disk \<Rightarrow> file_system" where
  "text_files d filename = map_option text_mode (content_at d (path_of filename))"

section \<open>Operations on files\<close>

datatype file_exception = File_Exception | File_Not_Found

definition FILE_NOT_FOUND :: int where "FILE_NOT_FOUND = 20"
definition DELETE_ERROR :: int where "DELETE_ERROR = 22"

definition fileExists :: "disk \<Rightarrow> string \<Rightarrow> bool" where
  "fileExists d filepath \<longleftrightarrow> text_files d filepath \<noteq> None"

definition readFile :: "disk \<Rightarrow> string \<Rightarrow> string \<Rightarrow> int \<times> string" where
  "readFile d filepath res =
     (case text_files d filepath of
        None \<Rightarrow> (FILE_NOT_FOUND, res)
      | Some s \<Rightarrow> (0, res @ concat (map (\<lambda>line. line @ [LF]) (getlines s))))"

text \<open>The length is kept in an \<^verbatim>\<open>int\<close>.\<close>

definition readBinFile :: "disk \<Rightarrow> string \<Rightarrow> file_exception + string" where
  "readBinFile d filepath =
     (case content_at d (path_of filepath) of
        None \<Rightarrow> Inl File_Not_Found
      | Some c \<Rightarrow>
          let len = s32 (int (length c))
          in if len < 1 then Inl File_Exception else Inr (take (nat len) c))"

text \<open>The C function \<^verbatim>\<open>remove\<close> deletes files, not directories.\<close>

definition remove_entry :: "path \<Rightarrow> disk \<Rightarrow> bool \<times> disk" where
  "remove_entry p d =
     (if content_at d p = None \<or> locked d p then (False, d) else (True, set_at p None d))"

text \<open>\<^verbatim>\<open>removeFile\<close> ends without a return statement when it succeeds; no caller uses its value.\<close>

definition removeFile :: "string \<Rightarrow> disk \<Rightarrow> int option \<times> disk" where
  "removeFile filepath d =
     (case remove_entry (path_of filepath) d of
        (False, d') \<Rightarrow> (Some DELETE_ERROR, d')
      | (True, d') \<Rightarrow> (None, d'))"

text \<open>A stream opens for writing if its directory exists and the name is not one of a directory.\<close>

definition can_write :: "disk \<Rightarrow> path \<Rightarrow> bool" where
  "can_write d p \<longleftrightarrow>
     p \<noteq> [] \<and> is_dir (root d) (butlast p) \<and> \<not> is_dir (root d) p \<and> \<not> locked d p"

definition writeFile :: "string \<Rightarrow> string \<Rightarrow> disk \<Rightarrow> file_exception + disk" where
  "writeFile filepath data d =
     (if can_write d (path_of filepath)
      then Inr (set_at (path_of filepath) (Some (File (text_out data))) d)
      else Inl File_Not_Found)"

definition writeBinFile :: "string \<Rightarrow> string \<Rightarrow> disk \<Rightarrow> file_exception + disk" where
  "writeBinFile filepath buffer d =
     (if can_write d (path_of filepath)
      then Inr (set_at (path_of filepath) (Some (File buffer)) d)
      else Inl File_Not_Found)"

definition fileName :: "string \<Rightarrow> string" where
  "fileName filepath =
     (case find_index (\<lambda>c. c = BACKSLASH) (rev filepath) of
        None \<Rightarrow> filepath
      | Some k \<Rightarrow> drop (length filepath - k) filepath)"

text \<open>\<^verbatim>\<open>snprintf (buffer + (i << 1), 3, "%.2x", digest[i])\<close> for the 16 bytes of the digest.\<close>

definition hex_byte :: "u8 \<Rightarrow> string" where
  "hex_byte b = [hex_char (unat b div 16), hex_char (unat b mod 16)]"

definition md5 :: "md5_state \<Rightarrow> string \<Rightarrow> string" where
  "md5 junk data =
     concat (map hex_byte (snd (md5_finish
       (md5_append (md5_init junk) (map of_char data) (int (length data))))))"

text \<open>
  \<^verbatim>\<open>removeDir\<close> on a tree: whether everything was deleted, and what is left.  The entries are handled
  in order, and the first one that cannot be deleted ends the loop.
\<close>

function remove_tree :: "(path \<Rightarrow> bool) \<Rightarrow> (path \<Rightarrow> bool) \<Rightarrow> path \<Rightarrow> node \<Rightarrow> bool \<times> node option"
  and remove_entries :: "(path \<Rightarrow> bool) \<Rightarrow> (path \<Rightarrow> bool) \<Rightarrow> path \<Rightarrow> (string \<times> node) list \<Rightarrow> bool \<times> (string \<times> node) list"
  where
  "remove_tree lk un p (File c) = (if lk p then (False, Some (File c)) else (True, None))"
| "remove_tree lk un p (Dir es) =
     (if un p then (False, Some (Dir es))
      else case remove_entries lk un p es of
             (False, es') \<Rightarrow> (False, Some (Dir es'))
           | (True, es') \<Rightarrow> if lk p then (False, Some (Dir es')) else (True, None))"
| "remove_entries lk un p [] = (True, [])"
| "remove_entries lk un p ((n, t) # es) =
     (case remove_tree lk un (p @ [n]) t of
        (True, _) \<Rightarrow> remove_entries lk un p es
      | (False, None) \<Rightarrow> (False, es)
      | (False, Some t') \<Rightarrow> (False, (n, t') # es))"
  by pat_completeness auto
termination
  by (relation "measure (\<lambda>x. case x of Inl (_, _, _, t) \<Rightarrow> size t
                             | Inr (_, _, _, es) \<Rightarrow> size_list (size_prod (\<lambda>_. 0) size) es)")
     auto

definition removeDir :: "string \<Rightarrow> disk \<Rightarrow> int \<times> disk" where
  "removeDir filepath d =
     (let p = path_of filepath
      in case node_at (root d) p of
           None \<Rightarrow> (0, d)
         | Some t \<Rightarrow>
             (case remove_tree (locked d) (unreadable d) p t of
                (ok, left) \<Rightarrow> (if ok then 0 else DELETE_ERROR, set_at p left d)))"

section \<open>The disk as a map from paths to contents\<close>

lemma is_dir_set_file:
  "\<not> is_dir t p \<Longrightarrow> opt = None \<or> opt = Some (File c) \<Longrightarrow> is_dir (update_at p opt t) q = is_dir t q"
proof (induction p opt t arbitrary: q rule: update_at.induct)
  case (3 x xs opt es)
  show ?case
  proof (cases q)
    case (Cons y ys)
    show ?thesis
    proof (cases "xs = []")
      case True
      have "\<not> is_dir t ys" if "map_of es x = Some t" for t
        using that "3.prems"(1) True by (cases t) auto
      with True 3 Cons show ?thesis by (auto simp: map_of_set_entry split: option.splits)
    next
      case False
      with 3 Cons show ?thesis by (auto simp: update_conv' split: option.splits)
    qed
  qed simp
qed auto

lemma content_of_update:
  assumes "p \<noteq> []" and "is_dir t (butlast p)" and "\<not> is_dir t p" and "opt = None \<or> opt = Some (File c)"
  shows "content_of (update_at p opt t)
    = (content_of t)(p := (case opt of None \<Rightarrow> None | Some n \<Rightarrow> content_of n []))"
proof
  fix q
  show "content_of (update_at p opt t) q
      = ((content_of t)(p := (case opt of None \<Rightarrow> None | Some n \<Rightarrow> content_of n []))) q"
    using assms
  proof (induction p opt t arbitrary: q rule: update_at.induct)
    case (3 x xs opt es)
    show ?case
    proof (cases q)
      case (Cons y ys)
      show ?thesis
      proof (cases "xs = []")
        case True
        have "content_of t ys = None" if "map_of es x = Some t" "ys \<noteq> []" for t
          using that "3.prems"(3) True by (cases t; cases ys) auto
        moreover have "content_of (File c) ys = None" if "ys \<noteq> []" using that by (cases ys) auto
        ultimately show ?thesis using True 3 Cons
          by (cases "ys = []") (auto simp: map_of_set_entry split: option.splits)
      next
        case False
        then obtain t where t: "map_of es x = Some t" "is_dir t (butlast xs)" "\<not> is_dir t xs"
          using "3.prems" by (auto split: option.splits)
        from "3.IH"[OF False t(1) False t(2,3) "3.prems"(4)] False t Cons show ?thesis
          by (auto simp: update_conv')
      qed
    qed simp
  qed auto
qed

lemma is_dir_parent: "node_at t p = Some n \<Longrightarrow> p \<noteq> [] \<Longrightarrow> is_dir t (butlast p)"
  by (induction t p rule: node_at.induct) (auto split: option.splits)

locale file_map =
  fixes content :: "'d \<Rightarrow> 'p \<Rightarrow> 'v option"
    and writable :: "'d \<Rightarrow> 'p \<Rightarrow> bool"
    and put :: "'p \<Rightarrow> 'v \<Rightarrow> 'd \<Rightarrow> 'd"
    and del :: "'p \<Rightarrow> 'd \<Rightarrow> 'd"
  assumes content_put: "writable d p \<Longrightarrow> content (put p v d) = (content d)(p \<mapsto> v)"
    and content_del: "content d p \<noteq> None \<Longrightarrow> content (del p d) = (content d)(p := None)"
    and writable_put: "writable d p \<Longrightarrow> writable (put p v d) q = writable d q"
    and writable_del: "content d p \<noteq> None \<Longrightarrow> writable (del p d) q = writable d q"
begin

text \<open>A file that is stored, read and removed leaves the other files as they were.\<close>

lemma put_del:
  assumes "writable d p"
  shows "content (del p (put p v d)) = (content d)(p := None)"
    and "writable (del p (put p v d)) q = writable d q"
  using assms by (simp_all add: content_put content_del writable_put writable_del)

lemma put_del_put:
  assumes "writable d p" and "writable d q" and "p \<noteq> q"
  shows "content (put q w (del p (put p v d))) = (content d)(p := None, q \<mapsto> w)"
    and "writable (put q w (del p (put p v d))) r = writable d r"
  using assms by (simp_all add: content_put put_del writable_put)

end

interpretation disk_files: file_map content_at can_write "\<lambda>p c. set_at p (Some (File c))" "\<lambda>p. set_at p None"
proof
  fix d p v and q :: path
  assume w: "can_write d p"
  then show "content_at (set_at p (Some (File v)) d) = (content_at d)(p \<mapsto> v)"
    by (simp add: content_at_def can_write_def content_of_update)
  show "can_write (set_at p (Some (File v)) d) q = can_write d q"
    using w by (auto simp: can_write_def is_dir_set_file)
next
  fix d p and q :: path
  assume "content_at d p \<noteq> None"
  then obtain c where c: "node_at (root d) p = Some (File c)"
    by (auto simp: content_at_def content_of_def split: option.splits node.splits)
  then have nd: "\<not> is_dir (root d) p" by (simp add: is_dir_def)
  then have nz: "p \<noteq> []" by (auto simp: root_def)
  show "can_write (set_at p None d) q = can_write d q"
    using nd by (auto simp: can_write_def is_dir_set_file)
  show "content_at (set_at p None d) = (content_at d)(p := None)"
    using content_of_update[OF nz is_dir_parent[OF c nz] nd] by (simp add: content_at_def)
qed

section \<open>Removing directories\<close>

lemma remove_tree_gone: "remove_tree lk un p t = (True, left) \<Longrightarrow> left = None"
  by (cases t) (auto split: if_splits prod.splits bool.splits)

lemma remove_tree_free:
  "(\<And>q. prefix p q \<Longrightarrow> \<not> lk q \<and> \<not> un q) \<Longrightarrow> remove_tree lk un p t = (True, None)"
  "(\<And>q. prefix p q \<Longrightarrow> \<not> lk q \<and> \<not> un q) \<Longrightarrow> remove_entries lk un p es = (True, [])"
proof (induction lk un p t and lk un p es rule: remove_tree_remove_entries.induct)
  case (4 lk un p n t es)
  have "remove_tree lk un (p @ [n]) t = (True, None)"
    using 4 by (meson prefix_order.trans prefixI)
  with 4 show ?case by simp
qed auto

lemma removeDir_effect:
  assumes "path_of filepath \<noteq> []" and "removeDir filepath d = (rc, d')"
  shows "path_of filepath \<parallel> q \<Longrightarrow> node_at (root d') q = node_at (root d) q"
    and "rc = 0 \<Longrightarrow> node_at (root d') (path_of filepath @ q) = None"
    and "(\<And>q. prefix (path_of filepath) q \<Longrightarrow> \<not> locked d q \<and> \<not> unreadable d q) \<Longrightarrow> rc = 0"
    and "locked d' = locked d" and "unreadable d' = unreadable d"
proof -
  have "(\<forall>q. path_of filepath \<parallel> q \<longrightarrow> node_at (root d') q = node_at (root d) q)
    \<and> (rc = 0 \<longrightarrow> (\<forall>q. node_at (root d') (path_of filepath @ q) = None))
    \<and> ((\<forall>q. prefix (path_of filepath) q \<longrightarrow> \<not> locked d q \<and> \<not> unreadable d q) \<longrightarrow> rc = 0)
    \<and> locked d' = locked d \<and> unreadable d' = unreadable d"
  proof (cases "node_at (root d) (path_of filepath)")
    case None
    with assms(2) show ?thesis by (auto simp: removeDir_def node_at_append_None)
  next
    case (Some t)
    obtain ok left where r: "remove_tree (locked d) (unreadable d) (path_of filepath) t = (ok, left)"
      by (cases "remove_tree (locked d) (unreadable d) (path_of filepath) t")
    then have d': "d' = set_at (path_of filepath) left d" and rc: "rc = (if ok then 0 else DELETE_ERROR)"
      using assms(2) Some by (auto simp: removeDir_def)
    have "node_at (root d') (path_of filepath) = left"
      using node_at_update_same[OF assms(1) is_dir_parent[OF Some assms(1)]] by (simp add: d')
    moreover have "left = None" if "rc = 0"
      using that rc r remove_tree_gone by (auto simp: DELETE_ERROR_def split: if_splits)
    moreover have "rc = 0" if "\<forall>q. prefix (path_of filepath) q \<longrightarrow> \<not> locked d q \<and> \<not> unreadable d q"
      using remove_tree_free(1)[of "path_of filepath" "locked d" "unreadable d" t] that r rc by simp
    ultimately show ?thesis by (auto simp: d' node_at_update_parallel node_at_append_None)
  qed
  then show "path_of filepath \<parallel> q \<Longrightarrow> node_at (root d') q = node_at (root d) q"
    and "rc = 0 \<Longrightarrow> node_at (root d') (path_of filepath @ q) = None"
    and "(\<And>q. prefix (path_of filepath) q \<Longrightarrow> \<not> locked d q \<and> \<not> unreadable d q) \<Longrightarrow> rc = 0"
    and "locked d' = locked d" and "unreadable d' = unreadable d"
    by blast+
qed

lemma md5_hex: "length (buf junk) = 64 \<Longrightarrow> md5 junk data = concat (map hex_byte (rfc_md5 (map of_char data)))"
  using md5_stream.digest_pieces[of junk "[map of_char data]"] by (simp add: md5_def)

lemma length_md5: "length (md5 junk data) = 32"
  by (simp add: md5_def md5_finish_def md5_digest_def Let_def split_def length_concat hex_byte_def
      comp_def sum_list_triv upt_rec)

section \<open>Properties\<close>

text \<open>(C21) \<^verbatim>\<open>removeDir\<close> changes nothing outside the directory; when it returns 0 the directory is gone
  with everything below it; and it returns 0 if the system refuses nothing at or below it.\<close>

theorem removeDir_complete:
  assumes "path_of filepath \<noteq> []" and "removeDir filepath d = (rc, d')"
  shows "(\<forall>q. path_of filepath \<parallel> q \<longrightarrow> node_at (root d') q = node_at (root d) q)
    \<and> (rc = 0 \<longrightarrow> (\<forall>q. node_at (root d') (path_of filepath @ q) = None))
    \<and> ((\<forall>q. prefix (path_of filepath) q \<longrightarrow> \<not> locked d q \<and> \<not> unreadable d q) \<longrightarrow> rc = 0)"
  using removeDir_effect[OF assms] by blast

text \<open>What \<^verbatim>\<open>writeBinFile\<close> writes is what \<^verbatim>\<open>readBinFile\<close> reads, unless it is empty or 2 GiB or more;
  no other file changes, and removing the file afterwards takes away exactly this file.\<close>

theorem write_read_remove:
  assumes "writeBinFile filepath buffer d = Inr d'" and "buffer \<noteq> []" and "length buffer < 2 ^ 31"
  shows "readBinFile d' filepath = Inr buffer
    \<and> content_at d' = (content_at d)(path_of filepath \<mapsto> buffer)
    \<and> content_at (snd (removeFile filepath d')) = (content_at d)(path_of filepath := None)"
proof -
  from assms(1) have w: "can_write d (path_of filepath)"
    and d': "d' = set_at (path_of filepath) (Some (File buffer)) d"
    by (auto simp: writeBinFile_def split: if_splits)
  have c: "content_at d' = (content_at d)(path_of filepath \<mapsto> buffer)"
    using disk_files.content_put[OF w] by (simp add: d')
  have len: "s32 (int (length buffer)) = int (length buffer)"
    using assms(3) by (intro s32_id) (simp add: fits_s32_def)
  have "\<not> locked d' (path_of filepath)" using w by (simp add: d' can_write_def)
  then have "snd (removeFile filepath d') = set_at (path_of filepath) None d'"
    using c by (simp add: removeFile_def remove_entry_def)
  then show ?thesis using c len assms(2) disk_files.put_del(1)[OF w]
    by (auto simp: readBinFile_def d' Let_def simp flip: length_greater_0_conv)
qed

definition example_disk :: disk where
  "example_disk = \<lparr>disk_entries = [(''C:'', Dir [(''temp'', Dir []),
       (''pandora'', Dir [(''pandora_agent.conf'', File ''remote_config 1''),
          (''collections'', Dir [(''fc_1'', Dir [(''a.vbs'', File ''x'')])])])])],
     locked = (\<lambda>_. False), unreadable = (\<lambda>_. False)\<rparr>"

theorem removeDir_complete_witness:
  "fst (removeDir (join_path [''C:'', ''pandora'', ''collections'', ''fc_1'']) example_disk) = 0
   \<and> node_at (root (snd (removeDir (join_path [''C:'', ''pandora'', ''collections'', ''fc_1'']) example_disk)))
       [''C:'', ''pandora'', ''collections'', ''fc_1'', ''a.vbs''] = None"
proof -
  let ?p = "join_path [''C:'', ''pandora'', ''collections'', ''fc_1'']"
  have p: "path_of ?p = [''C:'', ''pandora'', ''collections'', ''fc_1'']" by code_simp
  obtain rc d' where r: "removeDir ?p example_disk = (rc, d')" by (cases "removeDir ?p example_disk")
  from removeDir_complete[OF _ r] p have rc: "rc = 0"
    and gone: "node_at (root d') (path_of ?p @ [''a.vbs'']) = None"
    by (simp_all add: example_disk_def)
  then show ?thesis using r p by simp
qed

theorem write_read_remove_witness:
  "\<exists>d'. writeBinFile (join_path [''C:'', ''temp'', ''f'']) ''abc'' example_disk = Inr d' \<and> readBinFile d' (join_path [''C:'', ''temp'', ''f'']) = Inr ''abc''"
proof -
  have "case writeBinFile (join_path [''C:'', ''temp'', ''f'']) ''abc'' example_disk of Inr d' \<Rightarrow> True | _ \<Rightarrow> False" by code_simp
  then obtain d' where w: "writeBinFile (join_path [''C:'', ''temp'', ''f'']) ''abc'' example_disk = Inr d'" by (auto split: sum.splits)
  from write_read_remove[OF w] w show ?thesis by simp
qed

end
