(* ===== verification/Pandora_Transfer.thy ===== *)
theory Pandora_Transfer
  imports Pandora_Files
begin

text \<open>
  How the agent exchanges files with its server: the transfer functions of
  \<^verbatim>\<open>src/pandora_windows_service.cc\<close>, the clients \<^verbatim>\<open>src/ssh/pandora_ssh_client.cc\<close> and
  \<^verbatim>\<open>src/ftp/pandora_ftp_client.cc\<close>, the remote configuration (\<^verbatim>\<open>checkConfig\<close>) and the file
  collections (\<^verbatim>\<open>checkCollections\<close>).  The programs the agent starts, libssh2, libcurl and the Windows
  calls are functions of the record \<open>system\<close>; they may change the disk and the rest of the world,
  which is of any type.
\<close>

section \<open>Computations on the machine\<close>

record 'x machine =
  mc_disk :: disk
  mc_cwd :: string
  mc_path :: string
  mc_rest :: 'x

text \<open>
  A computation ends normally or with a C++ exception, which \<^verbatim>\<open>catch (...)\<close> can catch; in both cases
  the machine may have changed.  Undefined behaviour and loops without end cannot be caught.
\<close>

datatype 'a attempt = Threw | Done 'a

type_synonym ('x, 'a) action = "'x machine \<Rightarrow> module_error + ('a attempt \<times> 'x machine)"

definition return_act :: "'a \<Rightarrow> ('x, 'a) action" where
  "return_act x m = Inr (Done x, m)"

definition throw_act :: "('x, 'a) action" where
  "throw_act m = Inr (Threw, m)"

definition bind_act :: "('x, 'a) action \<Rightarrow> ('a \<Rightarrow> ('x, 'b) action) \<Rightarrow> ('x, 'b) action" where
  "bind_act a f m =
     (case a m of
        Inl e \<Rightarrow> Inl e
      | Inr (Threw, m') \<Rightarrow> Inr (Threw, m')
      | Inr (Done x, m') \<Rightarrow> f x m')"

definition catch_act :: "('x, 'a) action \<Rightarrow> ('x, 'a) action \<Rightarrow> ('x, 'a) action" where
  "catch_act a handler m =
     (case a m of
        Inl e \<Rightarrow> Inl e
      | Inr (Threw, m') \<Rightarrow> handler m'
      | Inr (Done x, m') \<Rightarrow> Inr (Done x, m'))"

text \<open>A computation that only reads: exceptions are thrown, undefined behaviour stays undefined.\<close>

definition lift_result :: "'a result \<Rightarrow> ('x, 'a) action" where
  "lift_result r m =
     (case r of
        Inl Undefined_Behaviour \<Rightarrow> Inl (Cxx Undefined_Behaviour)
      | Inl _ \<Rightarrow> Inr (Threw, m)
      | Inr x \<Rightarrow> Inr (Done x, m))"

definition undefined_act :: "('x, 'a) action" where
  "undefined_act m = Inl (Cxx Undefined_Behaviour)"

definition call :: "('x machine \<Rightarrow> 'a \<times> 'x machine) \<Rightarrow> ('x, 'a) action" where
  "call f m = (case f m of (x, m') \<Rightarrow> Inr (Done x, m'))"

definition on_disk :: "(disk \<Rightarrow> file_exception + disk) \<Rightarrow> ('x, unit) action" where
  "on_disk f m =
     (case f (mc_disk m) of
        Inl _ \<Rightarrow> Inr (Threw, m)
      | Inr d \<Rightarrow> Inr (Done (), m\<lparr>mc_disk := d\<rparr>))"

definition read_bin :: "string \<Rightarrow> ('x, string) action" where
  "read_bin filepath m =
     (case readBinFile (mc_disk m) filepath of Inl _ \<Rightarrow> Inr (Threw, m) | Inr c \<Rightarrow> Inr (Done c, m))"

definition remove_file :: "string \<Rightarrow> ('x, unit) action" where
  "remove_file filepath m = Inr (Done (), m\<lparr>mc_disk := snd (removeFile filepath (mc_disk m))\<rparr>)"

definition remove_dir :: "string \<Rightarrow> ('x, int) action" where
  "remove_dir filepath m =
     (case removeDir filepath (mc_disk m) of (rc, d) \<Rightarrow> Inr (Done rc, m\<lparr>mc_disk := d\<rparr>))"

lemma return_act_simps [simp]:
  "bind_act (return_act x) f = f x"
  "catch_act (return_act x) h = return_act x"
  "bind_act throw_act f = throw_act"
  "catch_act throw_act h = h"
  by (auto simp: bind_act_def catch_act_def return_act_def throw_act_def)

lemma bind_act_Done: "a m = Inr (Done x, m') \<Longrightarrow> bind_act a f m = f x m'"
  by (simp add: bind_act_def)

lemma bind_act_Threw: "a m = Inr (Threw, m') \<Longrightarrow> bind_act a f m = Inr (Threw, m')"
  by (simp add: bind_act_def)

lemma catch_act_Done: "a m = Inr (Done x, m') \<Longrightarrow> catch_act a h m = Inr (Done x, m')"
  by (simp add: catch_act_def)

lemma catch_act_Threw: "a m = Inr (Threw, m') \<Longrightarrow> catch_act a h m = h m'"
  by (simp add: catch_act_def)

section \<open>The system\<close>

datatype ssh_connection = SSH_No_Socket | SSH_No_Host | SSH_Refused | SSH_No_Startup | SSH_Session

datatype curl_code = CURLE_OK | CURLE_FTP_QUOTE_ERROR | CURLE_COULDNT_CONNECT
  | CURLE_FTP_ACCESS_DENIED | CURLE_other

record 'x system =
  install_dir :: string
  system_name :: string
  md5_memory :: md5_state
  int_memory :: int
  system_call :: "string \<Rightarrow> 'x machine \<Rightarrow> int \<times> 'x machine"
  create_process :: "string \<Rightarrow> 'x machine \<Rightarrow> bool \<times> 'x machine"
  wait_process :: "int \<Rightarrow> 'x machine \<Rightarrow> int option \<times> 'x machine"
  chdir_ok :: "string \<Rightarrow> 'x machine \<Rightarrow> bool"
  mkdir_ok :: "string \<Rightarrow> 'x machine \<Rightarrow> bool"
  ssh_connect :: "string \<Rightarrow> int \<Rightarrow> 'x machine \<Rightarrow> ssh_connection \<times> 'x machine"
  ssh_auth :: "string \<Rightarrow> string \<Rightarrow> string \<Rightarrow> string \<Rightarrow> 'x machine \<Rightarrow> int \<times> 'x machine"
  scp_send :: "string \<Rightarrow> nat \<Rightarrow> 'x machine \<Rightarrow> bool \<times> 'x machine"
  scp_write :: "string \<Rightarrow> 'x machine \<Rightarrow> int \<times> 'x machine"
  curl_perform :: "string \<Rightarrow> string list \<Rightarrow> string \<Rightarrow> 'x machine \<Rightarrow> curl_code option \<times> 'x machine"

definition PANDORA_EXCEPTION :: int where "PANDORA_EXCEPTION = 11"
definition AUTHENTICATION_FAILED :: int where "AUTHENTICATION_FAILED = 12"
definition UNKNOWN_HOST :: int where "UNKNOWN_HOST = 13"
definition FTP_EXCEPTION :: int where "FTP_EXCEPTION = 14"
definition SESSION_ALREADY_OPENED :: int where "SESSION_ALREADY_OPENED = 15"
definition RESOLV_FAILED :: int where "RESOLV_FAILED = 16"
definition CONNECTION_FAILED :: int where "CONNECTION_FAILED = 17"
definition SESSION_ERROR :: int where "SESSION_ERROR = 18"
definition SESSION_NOT_OPENED :: int where "SESSION_NOT_OPENED = 19"
definition SSH_DEFAULT_PORT :: int where "SSH_DEFAULT_PORT = 22"
definition FTP_DEFAULT_PORT :: int where "FTP_DEFAULT_PORT = 21"

lemmas code_defs = PANDORA_EXCEPTION_def AUTHENTICATION_FAILED_def UNKNOWN_HOST_def FTP_EXCEPTION_def
  SESSION_NOT_OPENED_def FILE_NOT_FOUND_def DELETE_ERROR_def

section \<open>Sending files\<close>

text \<open>The options of the Tentacle client.\<close>

definition tentacle_options :: "string \<Rightarrow> string \<Rightarrow> string \<Rightarrow> string \<Rightarrow> string" where
  "tentacle_options port ssl pass opts =
     (if port \<noteq> [] then '' -p '' @ port else []) @
     (if ssl = ''1'' then '' -c'' else []) @
     (if pass \<noteq> [] then '' -x '' @ pass else []) @
     (if opts \<noteq> [] then SPC # opts else [])"

text \<open>The command is started before the timeout is read; \<^verbatim>\<open>INFINITE\<close> is -1 as an \<^verbatim>\<open>int\<close>.\<close>

definition copyTentacleDataFile ::
    "'x system \<Rightarrow> agent_conf \<Rightarrow> string \<Rightarrow> string \<Rightarrow> string \<Rightarrow> string \<Rightarrow> string \<Rightarrow> string \<Rightarrow> ('x, int) action" where
  "copyTentacleDataFile S conf host filename port ssl pass opts =
     bind_act (lift_result (with_slash (getValue conf ''temporal''))) (\<lambda>var.
     let filepath = var @ filename;
         tentacle_cmd = ''tentacle_client.exe -a '' @ host @ tentacle_options port ssl pass opts @
           [SPC, DQUOTE] @ filepath @ [DQUOTE]
     in bind_act (call (create_process S tentacle_cmd)) (\<lambda>started.
        if \<not> started then return_act (-1)
        else bind_act (lift_result (atoi (getValue conf ''tentacle_timeout''))) (\<lambda>t.
          bind_act (call (wait_process S (if t \<le> 0 then -1 else s32 (t * 1000)))) (\<lambda>rc.
          return_act (if rc = Some 0 then 0 else -1)))))"

subsection \<open>The SSH client\<close>

text \<open>The return value and whether a session is open; on every error the client disconnects.\<close>

definition newConnection :: "'x system \<Rightarrow> bool \<Rightarrow> string \<Rightarrow> int \<Rightarrow> ('x, int \<times> bool) action" where
  "newConnection S session host port =
     (if session then return_act (SESSION_ALREADY_OPENED, True)
      else bind_act (call (ssh_connect S host port)) (\<lambda>r.
        return_act
          (case r of
             SSH_No_Socket \<Rightarrow> (-1, False)
           | SSH_No_Host \<Rightarrow> (RESOLV_FAILED, False)
           | SSH_Refused \<Rightarrow> (CONNECTION_FAILED, False)
           | SSH_No_Startup \<Rightarrow> (SESSION_ERROR, False)
           | SSH_Session \<Rightarrow> (0, True))))"

text \<open>The client is new, and the return value of \<^verbatim>\<open>newConnection\<close> is not used.\<close>

definition connectWithPublicKey ::
    "'x system \<Rightarrow> string \<Rightarrow> int \<Rightarrow> string \<Rightarrow> string \<Rightarrow> string \<Rightarrow> string \<Rightarrow> ('x, int \<times> bool) action" where
  "connectWithPublicKey S host port username pubkey privkey passphrase =
     bind_act (newConnection S False host port) (\<lambda>(rc, session).
     if session then
       bind_act (call (ssh_auth S username pubkey privkey passphrase)) (\<lambda>rc.
       return_act (if rc \<noteq> 0 then (AUTHENTICATION_FAILED, False) else (0, True)))
     else return_act (0, False))"

text \<open>
  \<^verbatim>\<open>sent\<close> has the unsigned type \<^verbatim>\<open>size_t\<close>, so the test \<^verbatim>\<open>sent < 0\<close> never holds and the branch for a
  failed write is not reached.
\<close>

definition scpFileFilename :: "'x system \<Rightarrow> bool \<Rightarrow> string \<Rightarrow> string \<Rightarrow> ('x, int) action" where
  "scpFileFilename S session remote_filename filename m =
     (if \<not> session then return_act SESSION_NOT_OPENED m
      else case readFile (mc_disk m) filename [] of
             (rc, buffer) \<Rightarrow>
               if rc = FILE_NOT_FOUND then return_act rc m
               else bind_act (call (scp_send S remote_filename (length buffer))) (\<lambda>channel.
                    if \<not> channel then throw_act
                    else bind_act (call (scp_write S buffer)) (\<lambda>sent. return_act 0)) m)"

definition copyScpDataFile ::
    "'x system \<Rightarrow> agent_conf \<Rightarrow> string \<Rightarrow> string \<Rightarrow> string \<Rightarrow> ('x, int) action" where
  "copyScpDataFile S conf host remote_path filename =
     bind_act (lift_result (with_slash (getValue conf ''temporal''))) (\<lambda>tmp_dir.
     let filepath = tmp_dir @ filename;
         key_dir = install_dir S @ ''key'' @ [BACKSLASH];
         port_str = getValue conf ''server_port''
     in bind_act (if port_str = [] then return_act SSH_DEFAULT_PORT
                  else lift_result (strtoint (int_memory S) port_str)) (\<lambda>port.
        bind_act (connectWithPublicKey S host port ''pandora'' (key_dir @ ''id_dsa.pub'')
                    (key_dir @ ''id_dsa'') []) (\<lambda>(rc, session).
        if rc = AUTHENTICATION_FAILED \<or> rc = PANDORA_EXCEPTION then return_act rc
        else scpFileFilename S session (remote_path @ filename) filepath)))"

subsection \<open>The FTP client\<close>

text \<open>
  \<^verbatim>\<open>connect\<close> keeps no port.  After a successful transfer \<^verbatim>\<open>ftpFileFilename\<close> ends without a return
  statement, and \<^verbatim>\<open>fclose\<close> is called with a null pointer if the file does not exist.
\<close>

definition ftpFileFilename ::
    "'x system \<Rightarrow> string \<Rightarrow> string \<Rightarrow> string \<Rightarrow> string \<Rightarrow> string \<Rightarrow> ('x, int) action" where
  "ftpFileFilename S host username password remote_filename filepath m =
     (if host = [] then return_act UNKNOWN_HOST m
      else let filename = fileName filepath;
               url = ''ftp://'' @ username @ '':'' @ password @ ''@'' @ host @ ''/'' @ filename
           in case content_at (mc_disk m) (path_of filepath) of
                None \<Rightarrow> undefined_act m
              | Some data \<Rightarrow>
                  bind_act (call (curl_perform S url [''RNFR '' @ filename, ''RNTO '' @ remote_filename] data)) (\<lambda>r.
                  case r of
                    None \<Rightarrow> undefined_act
                  | Some CURLE_OK \<Rightarrow> undefined_act
                  | Some CURLE_FTP_QUOTE_ERROR \<Rightarrow> undefined_act
                  | Some CURLE_COULDNT_CONNECT \<Rightarrow> return_act UNKNOWN_HOST
                  | Some CURLE_FTP_ACCESS_DENIED \<Rightarrow> return_act AUTHENTICATION_FAILED
                  | Some CURLE_other \<Rightarrow> return_act FTP_EXCEPTION) m)"

definition copyFtpDataFile ::
    "'x system \<Rightarrow> agent_conf \<Rightarrow> string \<Rightarrow> string \<Rightarrow> string \<Rightarrow> string \<Rightarrow> ('x, int) action" where
  "copyFtpDataFile S conf host remote_path filename password =
     bind_act (lift_result (with_slash (getValue conf ''temporal''))) (\<lambda>dir.
     let filepath = dir @ filename;
         port_str = getValue conf ''server_port''
     in bind_act (if port_str = [] then return_act FTP_DEFAULT_PORT
                  else lift_result (strtoint (int_memory S) port_str)) (\<lambda>port.
        ftpFileFilename S host ''pandora'' password (remote_path @ filename) filepath))"

subsection \<open>Local copies and the choice of the method\<close>

text \<open>\<^verbatim>\<open>CopyFile\<close> with its third argument true fails if the new file exists.\<close>

definition CopyFile :: "string \<Rightarrow> string \<Rightarrow> disk \<Rightarrow> disk option" where
  "CopyFile local_file remote_file d =
     (case content_at d (path_of local_file) of
        None \<Rightarrow> None
      | Some c \<Rightarrow>
          if content_at d (path_of remote_file) = None \<and> can_write d (path_of remote_file)
          then Some (set_at (path_of remote_file) (Some (File c)) d) else None)"

text \<open>After a successful copy \<^verbatim>\<open>copyLocalDataFile\<close> ends without a return statement.\<close>

definition copyLocalDataFile :: "agent_conf \<Rightarrow> string \<Rightarrow> string \<Rightarrow> ('x, int) action" where
  "copyLocalDataFile conf remote_path filename =
     bind_act (lift_result (with_slash (getValue conf ''temporal''))) (\<lambda>local_path m.
     case CopyFile (local_path @ filename) (remote_path @ filename) (mc_disk m) of
       None \<Rightarrow> return_act PANDORA_EXCEPTION m
     | Some d \<Rightarrow> undefined_act m)"

text \<open>
  The message about an invalid mode has a \<^verbatim>\<open>%s\<close> for which no argument is given.
\<close>

definition fix_remote_path :: "string \<Rightarrow> string \<Rightarrow> string result" where
  "fix_remote_path mode remote_path = with_end (if mode \<noteq> ''local'' then CHR ''/'' else BACKSLASH) remote_path"

definition send_to_primary ::
    "'x system \<Rightarrow> agent_conf \<Rightarrow> string \<Rightarrow> string \<Rightarrow> string \<Rightarrow> string \<Rightarrow> ('x, int) action" where
  "send_to_primary S conf mode host remote_path filename =
     (if mode = ''ftp'' then copyFtpDataFile S conf host remote_path filename (getValue conf ''server_pwd'')
      else if mode = ''tentacle'' \<or> mode = [] then
        copyTentacleDataFile S conf host filename (getValue conf ''server_port'') (getValue conf ''server_ssl'')
          (getValue conf ''server_pwd'') (getValue conf ''server_opts'')
      else if mode = ''ssh'' then copyScpDataFile S conf host remote_path filename
      else if mode = ''local'' then copyLocalDataFile conf remote_path filename
      else undefined_act)"

definition send_to_secondary ::
    "'x system \<Rightarrow> agent_conf \<Rightarrow> string \<Rightarrow> string \<Rightarrow> string \<Rightarrow> string \<Rightarrow> ('x, int) action" where
  "send_to_secondary S conf mode host remote_path filename =
     (if mode = ''ftp'' then copyFtpDataFile S conf host remote_path filename (getValue conf ''secondary_server_pwd'')
      else if mode = ''tentacle'' \<or> mode = [] then
        copyTentacleDataFile S conf host filename (getValue conf ''secondary_server_port'')
          (getValue conf ''secondary_server_ssl'') (getValue conf ''secondary_server_pwd'')
          (getValue conf ''secondary_server_opts'')
      else if mode = ''ssh'' then copyScpDataFile S conf host remote_path filename
      else undefined_act)"

definition copyDataFile :: "'x system \<Rightarrow> agent_conf \<Rightarrow> string \<Rightarrow> ('x, int) action" where
  "copyDataFile S conf filename =
     (let mode = getValue conf ''transfer_mode''
      in bind_act (lift_result (fix_remote_path mode (getValue conf ''server_path''))) (\<lambda>remote_path.
         bind_act (send_to_primary S conf mode (getValue conf ''server_ip'') remote_path filename) (\<lambda>rc.
         let secondary_mode = getValue conf ''secondary_mode'';
             copy_to_secondary = (rc \<noteq> 0 \<and> secondary_mode = ''on_error'' \<or> secondary_mode = ''always'')
         in if \<not> copy_to_secondary then return_act rc
            else let mode = getValue conf ''secondary_transfer_mode''
                 in bind_act (lift_result (fix_remote_path mode (getValue conf ''secondary_server_path''))) (\<lambda>remote_path.
                    send_to_secondary S conf mode (getValue conf ''secondary_server_ip'') remote_path filename))))"

section \<open>Receiving files\<close>

definition recv_command :: "agent_conf \<Rightarrow> string \<Rightarrow> string \<Rightarrow> string" where
  "recv_command conf host filename =
     ''tentacle_client.exe -g -a '' @ host @
     tentacle_options (getValue conf ''server_port'') (getValue conf ''server_ssl'')
       (getValue conf ''server_pwd'') (getValue conf ''server_opts'') @ SPC # filename"

text \<open>The client stores the file in the working directory.\<close>

definition recvTentacleDataFile :: "'x system \<Rightarrow> agent_conf \<Rightarrow> string \<Rightarrow> string \<Rightarrow> ('x, unit) action" where
  "recvTentacleDataFile S conf host filename m =
     (let var = getValue conf ''temporal''
      in if \<not> chdir_ok S var m then throw_act m
         else bind_act (call (system_call S (recv_command conf host filename))) (\<lambda>rc.
              if rc = 0 then return_act () else throw_act) (m\<lparr>mc_cwd := var\<rparr>))"

definition recvDataFile :: "'x system \<Rightarrow> agent_conf \<Rightarrow> string \<Rightarrow> ('x, unit) action" where
  "recvDataFile S conf filename =
     bind_act (lift_result (with_end (CHR ''/'') (getValue conf ''server_path''))) (\<lambda>remote_path.
     if getValue conf ''transfer_mode'' = ''tentacle''
     then recvTentacleDataFile S conf (getValue conf ''server_ip'') filename
     else throw_act)"

section \<open>Remote configuration\<close>

text \<open>
  The name of the agent in a configuration file.  A file that cannot be opened never reaches its
  end, and the loop goes on for ever.
\<close>

fun agent_name_in :: "string list \<Rightarrow> string result" where
  "agent_name_in [] = Inr []"
| "agent_name_in (buffer # rest) =
     (if skip_line buffer then agent_name_in rest
      else case str_find buffer ''agent_name'' of
             None \<Rightarrow> agent_name_in rest
           | Some pos \<Rightarrow> str_substr buffer (pos + 11))"

definition checkAgentName :: "string \<Rightarrow> ('x, string) action" where
  "checkAgentName filename m =
     (case text_files (mc_disk m) filename of
        None \<Rightarrow> Inl Diverges
      | Some content \<Rightarrow> lift_result (agent_name_in (getlines content)) m)"

text \<open>The branch in which the server has no configuration for the agent.\<close>

definition upload_config ::
    "'x system \<Rightarrow> agent_conf \<Rightarrow> string \<Rightarrow> string \<Rightarrow> string \<Rightarrow> string \<Rightarrow> string \<Rightarrow> ('x, unit) action" where
  "upload_config S conf temp_dir conf_tmp_file conf_str md5_tmp_file conf_md5 =
     bind_act (on_disk (writeBinFile (temp_dir @ conf_tmp_file) conf_str)) (\<lambda>_.
     bind_act (copyDataFile S conf conf_tmp_file) (\<lambda>_.
     bind_act (remove_file (temp_dir @ conf_tmp_file)) (\<lambda>_.
     bind_act (on_disk (writeBinFile (temp_dir @ md5_tmp_file) conf_md5)) (\<lambda>_.
     bind_act (copyDataFile S conf md5_tmp_file) (\<lambda>_.
     remove_file (temp_dir @ md5_tmp_file))))))"

text \<open>The digest the server keeps; too short a file is left in the temporal directory.\<close>

definition read_remote_md5 :: "string \<Rightarrow> ('x, string option) action" where
  "read_remote_md5 tmp =
     catch_act
       (bind_act (read_bin tmp) (\<lambda>remote_md5.
        if length remote_md5 < 32 then return_act None
        else bind_act (remove_file tmp) (\<lambda>_. return_act (Some remote_md5))))
       (return_act None)"

definition fetch_config ::
    "'x system \<Rightarrow> agent_conf \<Rightarrow> string \<Rightarrow> string \<Rightarrow> string \<Rightarrow> ('x, int) action" where
  "fetch_config S conf temp_dir conf_tmp_file file =
     catch_act
       (bind_act (recvDataFile S conf conf_tmp_file) (\<lambda>_.
        bind_act (read_bin (temp_dir @ conf_tmp_file)) (\<lambda>conf_str.
        bind_act (remove_file (temp_dir @ conf_tmp_file)) (\<lambda>_.
        bind_act (on_disk (writeBinFile file conf_str)) (\<lambda>_. return_act 1)))))
       (return_act 0)"

text \<open>The part of \<^verbatim>\<open>checkConfig\<close> after the local file has been read.\<close>

definition compare_config ::
    "'x system \<Rightarrow> agent_conf \<Rightarrow> string \<Rightarrow> string \<Rightarrow> string \<Rightarrow> string \<Rightarrow> ('x, int) action" where
  "compare_config S conf temp_dir agent_md5 conf_str file =
     (let conf_md5 = md5 (md5_memory S) conf_str;
          conf_tmp_file = agent_md5 @ ''.conf'';
          md5_tmp_file = agent_md5 @ ''.md5''
      in bind_act
           (catch_act
              (bind_act (recvDataFile S conf md5_tmp_file) (\<lambda>_. return_act True))
              (bind_act
                 (catch_act (upload_config S conf temp_dir conf_tmp_file conf_str md5_tmp_file conf_md5)
                    (return_act ()))
                 (\<lambda>_. return_act False)))
           (\<lambda>received.
              if \<not> received then return_act 0
              else bind_act (read_remote_md5 (temp_dir @ md5_tmp_file)) (\<lambda>r.
                   case r of
                     None \<Rightarrow> return_act 0
                   | Some remote_md5 \<Rightarrow>
                       if take 32 remote_md5 = conf_md5 then return_act 0
                       else fetch_config S conf temp_dir conf_tmp_file file)))"

definition checkConfig :: "'x system \<Rightarrow> agent_conf \<Rightarrow> string \<Rightarrow> ('x, int) action" where
  "checkConfig S conf file =
     (if getValue conf ''remote_config'' \<noteq> ''1'' then return_act 0
      else bind_act (lift_result (with_slash (getValue conf ''temporal''))) (\<lambda>temp_dir.
        bind_act (checkAgentName file) (\<lambda>tmp.
        let agent_name = (if tmp = [] then system_name S else tmp)
        in if agent_name = [] then return_act 0
           else bind_act (catch_act (bind_act (read_bin file) (\<lambda>c. return_act (Some c))) (return_act None)) (\<lambda>r.
             case r of
               None \<Rightarrow> return_act 0
             | Some conf_str \<Rightarrow>
                 compare_config S conf temp_dir (md5 (md5_memory S) agent_name) conf_str file))))"

section \<open>File collections\<close>

text \<open>
  \<^verbatim>\<open>unzipCollection\<close> reports errors by its return value, which its callers do not use; they expect
  exceptions.
\<close>

definition unzipCollection :: "'x system \<Rightarrow> string \<Rightarrow> string \<Rightarrow> ('x, int) action" where
  "unzipCollection S zip_path dest_dir =
     bind_act (remove_dir dest_dir) (\<lambda>_ m.
     if \<not> (mkdir_ok S dest_dir m \<and> can_write (mc_disk m) (path_of dest_dir)
             \<and> content_at (mc_disk m) (path_of dest_dir) = None)
     then return_act (-1) m
     else bind_act (call (create_process S
              (''unzip.exe '' @ [DQUOTE] @ zip_path @ [DQUOTE] @ '' -d '' @ [DQUOTE] @ dest_dir @ [DQUOTE]))) (\<lambda>started.
            if \<not> started then return_act (-1)
            else bind_act (call (wait_process S (-1))) (\<lambda>rc. return_act (if rc = Some 0 then 0 else -1)))
          (m\<lparr>mc_disk := set_at (path_of dest_dir) (Some (Dir [])) (mc_disk m)\<rparr>))"

text \<open>Downloads and unpacks a collection; the result says whether the archive arrived.\<close>

definition fetch_collection ::
    "'x system \<Rightarrow> agent_conf \<Rightarrow> string \<Rightarrow> string \<Rightarrow> string \<Rightarrow> ('x, bool) action" where
  "fetch_collection S conf temp_dir collections_dir coll_name =
     (let zip = temp_dir @ coll_name @ ''.zip''
      in catch_act
           (bind_act (recvDataFile S conf (coll_name @ ''.zip'')) (\<lambda>_.
            bind_act (unzipCollection S zip (collections_dir @ coll_name)) (\<lambda>_.
            bind_act (remove_file zip) (\<lambda>_. return_act True))))
           (return_act False))"

text \<open>A collection without a digest on the disk: the digest is stored before the archive is fetched.\<close>

definition new_collection ::
    "'x system \<Rightarrow> agent_conf \<Rightarrow> string \<Rightarrow> string \<Rightarrow> string \<Rightarrow> ('x, unit) action" where
  "new_collection S conf temp_dir collections_dir coll_name =
     (let collection_md5 = coll_name @ ''.md5''; tmp = temp_dir @ collection_md5
      in bind_act
           (catch_act
              (bind_act (recvDataFile S conf collection_md5) (\<lambda>_.
               bind_act (read_bin tmp) (\<lambda>coll_md5.
               if length coll_md5 < 32 then bind_act (remove_file tmp) (\<lambda>_. return_act False)
               else bind_act (remove_file tmp) (\<lambda>_.
                    bind_act (on_disk (writeBinFile (collections_dir @ collection_md5) (take 32 coll_md5))) (\<lambda>_.
                    return_act True)))))
              (return_act False))
           (\<lambda>stored.
              if stored
              then bind_act (fetch_collection S conf temp_dir collections_dir coll_name) (\<lambda>_. return_act ())
              else return_act ()))"

text \<open>A collection with a digest on the disk: the archive is fetched if the server's digest differs.\<close>

definition known_collection ::
    "'x system \<Rightarrow> agent_conf \<Rightarrow> string \<Rightarrow> string \<Rightarrow> string \<Rightarrow> string \<Rightarrow> ('x, unit) action" where
  "known_collection S conf temp_dir collections_dir coll_name coll_md5 =
     (let collection_md5 = coll_name @ ''.md5''; tmp = temp_dir @ collection_md5
      in bind_act
           (catch_act
              (bind_act (recvDataFile S conf collection_md5) (\<lambda>_.
               bind_act (read_bin tmp) (\<lambda>server_md5.
               bind_act (remove_file tmp) (\<lambda>_.
               return_act (if length server_md5 < 32 then None else Some server_md5)))))
              (return_act None))
           (\<lambda>r. case r of
                  None \<Rightarrow> return_act ()
                | Some server_md5 \<Rightarrow>
                    if take 32 coll_md5 = take 32 server_md5 then return_act ()
                    else bind_act (fetch_collection S conf temp_dir collections_dir coll_name) (\<lambda>arrived.
                         if arrived
                         then on_disk (writeBinFile (collections_dir @ collection_md5) (take 32 server_md5))
                         else return_act ())))"

definition check_collection ::
    "'x system \<Rightarrow> agent_conf \<Rightarrow> string \<Rightarrow> string \<Rightarrow> string \<Rightarrow> ('x, unit) action" where
  "check_collection S conf temp_dir collections_dir coll_name =
     bind_act
       (catch_act
          (bind_act (read_bin (collections_dir @ coll_name @ ''.md5'')) (\<lambda>c. return_act (Some c)))
          (return_act None))
       (\<lambda>r. case r of
              None \<Rightarrow> new_collection S conf temp_dir collections_dir coll_name
            | Some coll_md5 \<Rightarrow>
                if length coll_md5 < 32 then return_act ()
                else known_collection S conf temp_dir collections_dir coll_name coll_md5)"

text \<open>The directory of a collection is appended to \<^verbatim>\<open>PATH\<close> unless it is there already.\<close>

definition add_to_path :: "string \<Rightarrow> string \<Rightarrow> string" where
  "add_to_path collection_path path =
     (if str_find path (collection_path @ '';'') \<noteq> None then path
      else if suffix collection_path path then path
      else path @ '';'' @ collection_path)"

text \<open>The loop; it gives the list with every collection marked as verified.\<close>

fun check_each ::
    "'x system \<Rightarrow> agent_conf \<Rightarrow> string \<Rightarrow> string \<Rightarrow> collection list \<Rightarrow> ('x, collection list) action" where
  "check_each S conf temp_dir collections_dir [] = return_act []"
| "check_each S conf temp_dir collections_dir (c # cs) =
     bind_act (call (\<lambda>m. ((), if verify c = 0
                then m\<lparr>mc_path := add_to_path (collections_dir @ name c) (mc_path m)\<rparr> else m))) (\<lambda>_.
     bind_act (check_collection S conf temp_dir collections_dir (name c)) (\<lambda>_.
     bind_act (check_each S conf temp_dir collections_dir cs) (\<lambda>cs'.
     return_act (c\<lparr>verify := (if verify c = 0 then 1 else verify c)\<rparr> # cs'))))"

text \<open>Deletes what is in the directory of the collections and not in the list.\<close>

fun purge_names :: "agent_conf \<Rightarrow> string \<Rightarrow> string list \<Rightarrow> disk \<Rightarrow> disk" where
  "purge_names conf filepath [] d = d"
| "purge_names conf filepath (n # ns) d =
     purge_names conf filepath ns
       (if n \<noteq> ''.'' \<and> n \<noteq> ''..'' \<and> \<not> isInCollectionList conf n
        then snd (removeDir (filepath @ n) d) else d)"

definition purgeDiskCollections :: "'x system \<Rightarrow> agent_conf \<Rightarrow> ('x, unit) action" where
  "purgeDiskCollections S conf m =
     (if broker_enabled conf then return_act () m
      else let filepath = install_dir S @ ''collections'' @ [BACKSLASH]
           in case node_at (root (mc_disk m)) (path_of filepath) of
                Some (Dir es) \<Rightarrow>
                  if unreadable (mc_disk m) (path_of filepath) then undefined_act m
                  else return_act () (m\<lparr>mc_disk := purge_names conf filepath (map fst es) (mc_disk m)\<rparr>)
              | _ \<Rightarrow> undefined_act m)"

definition checkCollections :: "'x system \<Rightarrow> agent_conf \<Rightarrow> ('x, agent_conf) action" where
  "checkCollections S conf =
     bind_act (lift_result (with_slash (getValue conf ''temporal''))) (\<lambda>temp_dir.
     bind_act (check_each S conf temp_dir (install_dir S @ ''collections'' @ [BACKSLASH]) (collection_list conf)) (\<lambda>cs.
     let conf' = conf\<lparr>collection_list := cs, collection_it := length cs\<rparr>
     in bind_act (purgeDiskCollections S conf') (\<lambda>_. return_act conf')))"

section \<open>A server that answers\<close>

lemmas act_defs = bind_act_def catch_act_def return_act_def throw_act_def call_def lift_result_def

text \<open>
  The Tentacle client and a server: a requested file that the server has is stored in the working
  directory and the client returns 0; a file it does not have makes the client return 1.
\<close>

definition serves :: "'x system \<Rightarrow> agent_conf \<Rightarrow> (string \<Rightarrow> string option) \<Rightarrow> bool" where
  "serves S conf server \<longleftrightarrow>
     (\<forall>m. chdir_ok S (getValue conf ''temporal'') m) \<and>
     (\<forall>f m. mc_cwd m = getValue conf ''temporal'' \<longrightarrow>
        system_call S (recv_command conf (getValue conf ''server_ip'') f) m
        = (case server f of
             None \<Rightarrow> (1, m)
           | Some c \<Rightarrow> (0, m\<lparr>mc_disk := set_at (path_of (getValue conf ''temporal'') @ path_of f)
                                (Some (File c)) (mc_disk m)\<rparr>)))"

text \<open>What the transfer needs of the configuration.\<close>

definition tentacle_conf :: "agent_conf \<Rightarrow> bool" where
  "tentacle_conf conf \<longleftrightarrow> getValue conf ''transfer_mode'' = ''tentacle''
     \<and> getValue conf ''server_path'' \<noteq> [] \<and> getValue conf ''temporal'' \<noteq> []"

lemma recvDataFile_serves:
  assumes "serves S conf server" and "tentacle_conf conf"
  shows "recvDataFile S conf f m
    = (case server f of
         None \<Rightarrow> Inr (Threw, m\<lparr>mc_cwd := getValue conf ''temporal''\<rparr>)
       | Some c \<Rightarrow> Inr (Done (), m\<lparr>mc_cwd := getValue conf ''temporal'',
            mc_disk := set_at (path_of (getValue conf ''temporal'') @ path_of f) (Some (File c)) (mc_disk m)\<rparr>))"
proof -
  obtain rp where "with_end (CHR ''/'') (getValue conf ''server_path'') = Inr rp"
    using assms(2) by (auto simp: tentacle_conf_def with_end_def)
  with assms show ?thesis
    by (auto simp: recvDataFile_def recvTentacleDataFile_def serves_def tentacle_conf_def act_defs Let_def
        split: option.splits)
qed

definition hex_alphabet :: string where
  "hex_alphabet = ''0123456789abcdef''"

lemma hex_char_digit: "n < 16 \<Longrightarrow> hex_char n \<in> set hex_alphabet"
proof -
  assume "n < 16"
  then have "n \<in> set [0..<16]" by simp
  moreover have "list_all (\<lambda>n. hex_char n \<in> set hex_alphabet) [0..<16]" by code_simp
  ultimately show ?thesis by (simp only: list_all_iff)
qed

lemma md5_chars: "c \<in> set (md5 junk data) \<Longrightarrow> c \<in> set hex_alphabet"
proof -
  assume "c \<in> set (md5 junk data)"
  then obtain b where c: "c \<in> set (hex_byte b)" by (auto simp: md5_def)
  have "unat b < 256" using unsigned_less[of b] by simp
  then have "unat b div 16 < 16" "unat b mod 16 < 16" by auto
  from this[THEN hex_char_digit] c show ?thesis by (auto simp: hex_byte_def)
qed

lemma md5_plain: "BACKSLASH \<notin> set (md5 junk data)"
proof -
  have "BACKSLASH \<notin> set hex_alphabet" by code_simp
  then show ?thesis using md5_chars by blast
qed

lemma path_of_md5_name: "BACKSLASH \<notin> set ext \<Longrightarrow> path_of (md5 junk data @ ext) = [md5 junk data @ ext]"
  using md5_plain length_md5[of junk data] by (intro path_of_plain) auto

text \<open>Reading a file that has just been stored, and removing it.\<close>

lemma readBinFile_content:
  assumes "content_at d (path_of f) = Some c" and "c \<noteq> []" and "length c < 2 ^ 31"
  shows "readBinFile d f = Inr c"
proof -
  have "s32 (int (length c)) = int (length c)"
    using assms(3) by (intro s32_id) (simp add: fits_s32_def)
  with assms(1,2) show ?thesis by (auto simp: readBinFile_def Let_def simp flip: length_greater_0_conv)
qed

lemma removeFile_content:
  "content_at d (path_of f) \<noteq> None \<Longrightarrow> \<not> locked d (path_of f) \<Longrightarrow> snd (removeFile f d) = set_at (path_of f) None d"
  by (auto simp: removeFile_def remove_entry_def)

text \<open>
  The common course of a download: the file is stored at \<open>p\<close>, read and removed.
\<close>

lemma stored_file:
  assumes "can_write d (path_of f)" and "c \<noteq> []" and "length c < 2 ^ 31"
  shows "readBinFile (set_at (path_of f) (Some (File c)) d) f = Inr c"
    and "snd (removeFile f (set_at (path_of f) (Some (File c)) d))
           = set_at (path_of f) None (set_at (path_of f) (Some (File c)) d)"
  using assms
  by (auto intro!: readBinFile_content removeFile_content simp: disk_files.content_put can_write_def)

section \<open>Remote configuration with such a server\<close>

text \<open>The situation of an agent with remote configuration, its file and its temporal directory.\<close>

definition config_ready :: "'x system \<Rightarrow> agent_conf \<Rightarrow> string \<Rightarrow> string \<Rightarrow> 'x machine \<Rightarrow> bool" where
  "config_ready S conf file agent m \<longleftrightarrow>
     tentacle_conf conf \<and> getValue conf ''remote_config'' = ''1'' \<and> agent \<noteq> [] \<and>
     can_write (mc_disk m) (path_of file) \<and>
     (\<forall>ext\<in>{''.md5'', ''.conf''}.
        let p = path_of (getValue conf ''temporal'') @ [md5 (md5_memory S) agent @ ext]
        in p \<noteq> path_of file \<and> can_write (mc_disk m) p)"

text \<open>The content of a configuration file that names the agent, or the system's name for it.\<close>

definition names_agent :: "'x system \<Rightarrow> string \<Rightarrow> string \<Rightarrow> bool" where
  "names_agent S c agent \<longleftrightarrow> c \<noteq> [] \<and> length c < 2 ^ 31 \<and>
     (\<exists>nm. agent_name_in (getlines (text_mode c)) = Inr nm \<and> agent = (if nm = [] then system_name S else nm))"

abbreviation temp_file :: "'x system \<Rightarrow> agent_conf \<Rightarrow> string \<Rightarrow> string \<Rightarrow> path" where
  "temp_file S conf agent ext \<equiv> path_of (getValue conf ''temporal'') @ [md5 (md5_memory S) agent @ ext]"

lemma temp_dir_path:
  assumes "with_slash (getValue conf ''temporal'') = Inr temp_dir" and "BACKSLASH \<notin> set ext"
  shows "path_of (temp_dir @ md5 (md5_memory S) agent @ ext) = temp_file S conf agent ext"
  using path_of_slash[OF assms(1)] path_of_md5_name[OF assms(2)] by simp

text \<open>A download: the file is received, its contents are read and the file is removed.\<close>

lemma fetch_temp:
  assumes "serves S conf server" and "tentacle_conf conf"
    and "with_slash (getValue conf ''temporal'') = Inr temp_dir" and "path_of f = [f]"
    and "server f = Some c" and "c \<noteq> []" and "length c < 2 ^ 31"
    and "can_write (mc_disk m) (path_of (getValue conf ''temporal'') @ [f])"
  obtains m1 where "recvDataFile S conf f m = Inr (Done (), m1)"
    and "readBinFile (mc_disk m1) (temp_dir @ f) = Inr c"
    and "content_at (snd (removeFile (temp_dir @ f) (mc_disk m1)))
           = (content_at (mc_disk m))(path_of (getValue conf ''temporal'') @ [f] := None)"
    and "can_write (snd (removeFile (temp_dir @ f) (mc_disk m1))) = can_write (mc_disk m)"
    and "\<And>q. path_of (getValue conf ''temporal'') @ [f] \<parallel> q \<Longrightarrow>
           node_at (root (snd (removeFile (temp_dir @ f) (mc_disk m1)))) q = node_at (root (mc_disk m)) q"
proof -
  let ?p = "path_of (getValue conf ''temporal'') @ [f]"
  let ?m1 = "m\<lparr>mc_cwd := getValue conf ''temporal'', mc_disk := set_at ?p (Some (File c)) (mc_disk m)\<rparr>"
  have p: "path_of (temp_dir @ f) = ?p" using path_of_slash[OF assms(3)] assms(4) by simp
  have recv: "recvDataFile S conf f m = Inr (Done (), ?m1)"
    using recvDataFile_serves[OF assms(1,2)] assms(4,5) by simp
  note st = stored_file[of "mc_disk m" "temp_dir @ f" c, unfolded p, OF assms(8,6,7)]
  have rm: "snd (removeFile (temp_dir @ f) (mc_disk ?m1)) = set_at ?p None (set_at ?p (Some (File c)) (mc_disk m))"
    using st(2) by simp
  show ?thesis
  proof (rule that[OF recv])
    show "readBinFile (mc_disk ?m1) (temp_dir @ f) = Inr c" using st(1) by simp
    show "content_at (snd (removeFile (temp_dir @ f) (mc_disk ?m1))) = (content_at (mc_disk m))(?p := None)"
      and "can_write (snd (removeFile (temp_dir @ f) (mc_disk ?m1))) = can_write (mc_disk m)"
      unfolding rm using disk_files.put_del[OF assms(8)] by auto
    show "node_at (root (snd (removeFile (temp_dir @ f) (mc_disk ?m1)))) q = node_at (root (mc_disk m)) q"
      if "?p \<parallel> q" for q
      unfolding rm using that by (simp add: node_at_update_parallel)
  qed
qed

lemma checkConfig_effect:
  assumes "serves S conf server" and "config_ready S conf file agent m"
    and "content_at (mc_disk m) (path_of file) = Some c" and "names_agent S c agent"
    and "server (md5 (md5_memory S) agent @ ''.md5'') = Some r" and "32 \<le> length r" and "length r < 2 ^ 31"
    and "server (md5 (md5_memory S) agent @ ''.conf'') = Some c'" and "c' \<noteq> []" and "length c' < 2 ^ 31"
  obtains m' where "checkConfig S conf file m = Inr (Done (if take 32 r = md5 (md5_memory S) c then 0 else 1), m')"
    and "content_at (mc_disk m') =
      (if take 32 r = md5 (md5_memory S) c
       then (content_at (mc_disk m))(temp_file S conf agent ''.md5'' := None)
       else (content_at (mc_disk m))(temp_file S conf agent ''.md5'' := None,
               temp_file S conf agent ''.conf'' := None, path_of file \<mapsto> c'))"
    and "can_write (mc_disk m') = can_write (mc_disk m)"
proof -
  let ?a = "md5 (md5_memory S) agent" and ?h = "md5 (md5_memory S) c"
  have t: "tentacle_conf conf" "getValue conf ''remote_config'' = ''1''" "agent \<noteq> []"
    "can_write (mc_disk m) (path_of file)" "can_write (mc_disk m) (temp_file S conf agent ''.md5'')"
    "can_write (mc_disk m) (temp_file S conf agent ''.conf'')"
    "temp_file S conf agent ''.md5'' \<noteq> path_of file" "temp_file S conf agent ''.conf'' \<noteq> path_of file"
    using assms(2) by (simp_all add: config_ready_def Let_def)
  obtain temp_dir where td: "with_slash (getValue conf ''temporal'') = Inr temp_dir"
    using t(1) by (auto simp: tentacle_conf_def with_end_def)
  obtain nm where nm: "agent_name_in (getlines (text_mode c)) = Inr nm" "agent = (if nm = [] then system_name S else nm)"
    and c: "c \<noteq> []" "length c < 2 ^ 31"
    using assms(4) by (auto simp: names_agent_def)
  have pre: "checkConfig S conf file m = compare_config S conf temp_dir ?a c file m"
    using t(2,3) td nm readBinFile_content[OF assms(3) c] assms(3)
    by (simp add: checkConfig_def checkAgentName_def text_files_def act_defs read_bin_def Let_def)
  have r: "r \<noteq> []" using assms(6) by auto
  obtain m1 where m1: "recvDataFile S conf (?a @ ''.md5'') m = Inr (Done (), m1)"
    "readBinFile (mc_disk m1) (temp_dir @ ?a @ ''.md5'') = Inr r"
    "content_at (snd (removeFile (temp_dir @ ?a @ ''.md5'') (mc_disk m1)))
       = (content_at (mc_disk m))(temp_file S conf agent ''.md5'' := None)"
    "can_write (snd (removeFile (temp_dir @ ?a @ ''.md5'') (mc_disk m1))) = can_write (mc_disk m)"
    by (rule fetch_temp[OF assms(1) t(1) td path_of_md5_name assms(5) r assms(7) t(5)]) auto
  let ?m2 = "m1\<lparr>mc_disk := snd (removeFile (temp_dir @ ?a @ ''.md5'') (mc_disk m1))\<rparr>"
  have cmp: "compare_config S conf temp_dir ?a c file m
      = (if take 32 r = ?h then Inr (Done 0, ?m2) else fetch_config S conf temp_dir (?a @ ''.conf'') file ?m2)"
    using m1(1,2) assms(6)
    by (simp add: compare_config_def read_remote_md5_def read_bin_def remove_file_def act_defs Let_def)
  show ?thesis
  proof (cases "take 32 r = ?h")
    case True
    show ?thesis by (rule that[of ?m2]) (use True pre cmp m1(3,4) in simp_all)
  next
    case False
    have w2: "can_write (mc_disk ?m2) (temp_file S conf agent ''.conf'')" using m1(4) t(6) by simp
    obtain m3 where m3: "recvDataFile S conf (?a @ ''.conf'') ?m2 = Inr (Done (), m3)"
      "readBinFile (mc_disk m3) (temp_dir @ ?a @ ''.conf'') = Inr c'"
      "content_at (snd (removeFile (temp_dir @ ?a @ ''.conf'') (mc_disk m3)))
         = (content_at (mc_disk ?m2))(temp_file S conf agent ''.conf'' := None)"
      "can_write (snd (removeFile (temp_dir @ ?a @ ''.conf'') (mc_disk m3))) = can_write (mc_disk ?m2)"
      by (rule fetch_temp[OF assms(1) t(1) td path_of_md5_name assms(8-10) w2]) auto
    let ?d = "snd (removeFile (temp_dir @ ?a @ ''.conf'') (mc_disk m3))"
    let ?m4 = "m3\<lparr>mc_disk := set_at (path_of file) (Some (File c')) ?d\<rparr>"
    have w: "can_write ?d (path_of file)" using m3(4) m1(4) t(4) by simp
    then have "fetch_config S conf temp_dir (?a @ ''.conf'') file ?m2 = Inr (Done 1, ?m4)"
      using m3(1,2)
      by (simp add: fetch_config_def read_bin_def remove_file_def on_disk_def writeBinFile_def act_defs)
    moreover have "content_at (mc_disk ?m4) = (content_at (mc_disk m))(temp_file S conf agent ''.md5'' := None,
        temp_file S conf agent ''.conf'' := None, path_of file \<mapsto> c')"
      using m3(3) m1(3) disk_files.content_put[OF w] by simp
    moreover have "can_write (mc_disk ?m4) = can_write (mc_disk m)"
      using disk_files.writable_put[OF w] m3(4) m1(4) by auto
    ultimately show ?thesis by (intro that[of ?m4]) (use False pre cmp in simp_all)
  qed
qed

lemma temp_dir_exists: "tentacle_conf conf \<Longrightarrow> \<exists>d. with_slash (getValue conf ''temporal'') = Inr d"
  by (auto simp: tentacle_conf_def with_end_def)

section \<open>Collections with such a server\<close>

text \<open>What is needed to keep the digest of a collection, in the temporal directory and on the disk.\<close>

definition collection_ready :: "agent_conf \<Rightarrow> string \<Rightarrow> string \<Rightarrow> disk \<Rightarrow> bool" where
  "collection_ready conf collections_dir coll d \<longleftrightarrow>
     (let tmp = path_of (getValue conf ''temporal'') @ [coll @ ''.md5''];
          kept = path_of collections_dir @ [coll @ ''.md5'']
      in tentacle_conf conf \<and> coll \<noteq> [] \<and> BACKSLASH \<notin> set coll
         \<and> (\<exists>base. collections_dir = base @ [BACKSLASH])
         \<and> can_write d tmp \<and> can_write d kept \<and> tmp \<noteq> kept
         \<and> tmp \<parallel> path_of collections_dir @ [coll])"

lemma collection_paths:
  assumes "collection_ready conf collections_dir coll d"
  shows "path_of (coll @ ''.md5'') = [coll @ ''.md5'']"
    and "path_of (collections_dir @ coll @ ''.md5'') = path_of collections_dir @ [coll @ ''.md5'']"
    and "path_of collections_dir @ [coll @ ''.md5''] \<parallel> path_of collections_dir @ [coll]"
proof -
  show one: "path_of (coll @ ''.md5'') = [coll @ ''.md5'']"
    using assms by (intro path_of_plain) (auto simp: collection_ready_def Let_def)
  obtain base where b: "collections_dir = base @ [BACKSLASH]"
    using assms by (auto simp: collection_ready_def Let_def)
  show "path_of (collections_dir @ coll @ ''.md5'') = path_of collections_dir @ [coll @ ''.md5'']"
    using path_of_append[of base "coll @ ''.md5''"] path_of_append[of base "[]"] one
    by (simp add: b path_of_def)
  show "path_of collections_dir @ [coll @ ''.md5''] \<parallel> path_of collections_dir @ [coll]"
    by (auto simp: parallel_def)
qed

text \<open>A new collection whose archive the server does not deliver: the digest is stored all the same.\<close>

lemma new_collection_no_zip:
  assumes "serves S conf server" and "collection_ready conf collections_dir coll (mc_disk m)"
    and "with_slash (getValue conf ''temporal'') = Inr temp_dir"
    and "content_at (mc_disk m) (path_of collections_dir @ [coll @ ''.md5'']) = None"
    and "server (coll @ ''.md5'') = Some r" and "32 \<le> length r" and "length r < 2 ^ 31"
    and "server (coll @ ''.zip'') = None"
  obtains m1 where "check_collection S conf temp_dir collections_dir coll m = Inr (Done (), m1)"
    and "content_at (mc_disk m1) (path_of collections_dir @ [coll @ ''.md5'']) = Some (take 32 r)"
    and "can_write (mc_disk m1) = can_write (mc_disk m)"
    and "node_at (root (mc_disk m1)) (path_of collections_dir @ [coll])
           = node_at (root (mc_disk m)) (path_of collections_dir @ [coll])"
proof -
  let ?tmp = "path_of (getValue conf ''temporal'') @ [coll @ ''.md5'']"
  let ?kept = "path_of collections_dir @ [coll @ ''.md5'']"
  note P = collection_paths[OF assms(2)]
  have t: "tentacle_conf conf" "can_write (mc_disk m) ?tmp" "can_write (mc_disk m) ?kept" "?tmp \<noteq> ?kept"
    "?tmp \<parallel> path_of collections_dir @ [coll]"
    using assms(2) by (auto simp: collection_ready_def Let_def)
  have r: "r \<noteq> []" using assms(6) by auto
  obtain m1 where m1: "recvDataFile S conf (coll @ ''.md5'') m = Inr (Done (), m1)"
    "readBinFile (mc_disk m1) (temp_dir @ coll @ ''.md5'') = Inr r"
    "content_at (snd (removeFile (temp_dir @ coll @ ''.md5'') (mc_disk m1))) = (content_at (mc_disk m))(?tmp := None)"
    "can_write (snd (removeFile (temp_dir @ coll @ ''.md5'') (mc_disk m1))) = can_write (mc_disk m)"
    "\<And>q. ?tmp \<parallel> q \<Longrightarrow> node_at (root (snd (removeFile (temp_dir @ coll @ ''.md5'') (mc_disk m1)))) q = node_at (root (mc_disk m)) q"
    by (rule fetch_temp[OF assms(1) t(1) assms(3) P(1) assms(5) r assms(7) t(2)]) auto
  let ?d = "snd (removeFile (temp_dir @ coll @ ''.md5'') (mc_disk m1))"
  let ?m2 = "m1\<lparr>mc_disk := set_at ?kept (Some (File (take 32 r))) ?d\<rparr>"
  let ?m3 = "?m2\<lparr>mc_cwd := getValue conf ''temporal''\<rparr>"
  have w: "can_write ?d ?kept" using m1(4) t(3) by simp
  have none: "readBinFile (mc_disk m) (collections_dir @ coll @ ''.md5'') = Inl File_Not_Found"
    using assms(4) by (simp add: readBinFile_def P(2))
  have no_zip: "recvDataFile S conf (coll @ ''.zip'') ?m2 = Inr (Threw, ?m3)"
    using recvDataFile_serves[OF assms(1) t(1)] assms(8) by simp
  have run: "check_collection S conf temp_dir collections_dir coll m = Inr (Done (), ?m3)"
    using m1(1,2) w none no_zip assms(6)
    by (simp add: check_collection_def new_collection_def fetch_collection_def read_bin_def remove_file_def
        on_disk_def writeBinFile_def P(2) act_defs Let_def)
  show ?thesis
  proof (rule that[OF run])
    show "content_at (mc_disk ?m3) ?kept = Some (take 32 r)"
      using disk_files.content_put[OF w] by simp
    show "can_write (mc_disk ?m3) = can_write (mc_disk m)"
      using disk_files.writable_put[OF w] m1(4) by auto
    show "node_at (root (mc_disk ?m3)) (path_of collections_dir @ [coll])
        = node_at (root (mc_disk m)) (path_of collections_dir @ [coll])"
      using m1(5)[OF t(5)] P(3) by (simp add: node_at_update_parallel)
  qed
qed

text \<open>A collection whose stored digest is the server's is left alone.\<close>

lemma known_collection_same:
  assumes "serves S conf server" and "collection_ready conf collections_dir coll (mc_disk m)"
    and "with_slash (getValue conf ''temporal'') = Inr temp_dir"
    and "content_at (mc_disk m) (path_of collections_dir @ [coll @ ''.md5'']) = Some h" and "length h = 32"
    and "server (coll @ ''.md5'') = Some r" and "take 32 r = h" and "length r < 2 ^ 31"
  obtains m1 where "check_collection S conf temp_dir collections_dir coll m = Inr (Done (), m1)"
    and "node_at (root (mc_disk m1)) (path_of collections_dir @ [coll])
           = node_at (root (mc_disk m)) (path_of collections_dir @ [coll])"
proof -
  let ?tmp = "path_of (getValue conf ''temporal'') @ [coll @ ''.md5'']"
  note P = collection_paths[OF assms(2)]
  have t: "tentacle_conf conf" "can_write (mc_disk m) ?tmp" "?tmp \<parallel> path_of collections_dir @ [coll]"
    using assms(2) by (auto simp: collection_ready_def Let_def)
  have r: "r \<noteq> []" "32 \<le> length r" using assms(5,7) by auto
  obtain m1 where m1: "recvDataFile S conf (coll @ ''.md5'') m = Inr (Done (), m1)"
    "readBinFile (mc_disk m1) (temp_dir @ coll @ ''.md5'') = Inr r"
    "\<And>q. ?tmp \<parallel> q \<Longrightarrow> node_at (root (snd (removeFile (temp_dir @ coll @ ''.md5'') (mc_disk m1)))) q = node_at (root (mc_disk m)) q"
    by (rule fetch_temp[OF assms(1) t(1) assms(3) P(1) assms(6) r(1) assms(8) t(2)]) auto
  have h: "readBinFile (mc_disk m) (collections_dir @ coll @ ''.md5'') = Inr h"
    using assms(4,5) by (intro readBinFile_content) (auto simp: P(2))
  let ?m2 = "m1\<lparr>mc_disk := snd (removeFile (temp_dir @ coll @ ''.md5'') (mc_disk m1))\<rparr>"
  have "check_collection S conf temp_dir collections_dir coll m = Inr (Done (), ?m2)"
    using m1(1,2) h assms(5,7) r(2)
    by (simp add: check_collection_def known_collection_def read_bin_def remove_file_def act_defs Let_def)
  then show ?thesis by (rule that) (use m1(3)[OF t(3)] in simp)
qed

section \<open>Purging the collections\<close>

definition unlisted :: "agent_conf \<Rightarrow> string \<Rightarrow> bool" where
  "unlisted conf n \<longleftrightarrow> n \<noteq> ''.'' \<and> n \<noteq> ''..'' \<and> \<not> isInCollectionList conf n"

definition plain_name :: "string \<Rightarrow> bool" where
  "plain_name n \<longleftrightarrow> n \<noteq> [] \<and> BACKSLASH \<notin> set n"

lemma path_of_below: "plain_name n \<Longrightarrow> path_of (base @ [BACKSLASH] @ n) = path_of base @ [n]"
  using path_of_append[of base n] path_of_plain[of n] by (simp add: plain_name_def)

lemma purge_names_other:
  assumes "\<forall>n\<in>set ns. plain_name n" and "\<And>n. unlisted conf n \<Longrightarrow> path_of base @ [n] \<parallel> q"
  shows "node_at (root (purge_names conf (base @ [BACKSLASH]) ns d)) q = node_at (root d) q"
    and "locked (purge_names conf (base @ [BACKSLASH]) ns d) = locked d"
    and "unreadable (purge_names conf (base @ [BACKSLASH]) ns d) = unreadable d"
proof -
  have "node_at (root (purge_names conf (base @ [BACKSLASH]) ns d)) q = node_at (root d) q
    \<and> locked (purge_names conf (base @ [BACKSLASH]) ns d) = locked d
    \<and> unreadable (purge_names conf (base @ [BACKSLASH]) ns d) = unreadable d"
    using assms(1)
  proof (induction ns arbitrary: d)
    case (Cons n ns)
    have p: "path_of ((base @ [BACKSLASH]) @ n) = path_of base @ [n]" using Cons.prems path_of_below by simp
    obtain rc d' where r: "removeDir ((base @ [BACKSLASH]) @ n) d = (rc, d')" by fastforce
    show ?case using Cons r removeDir_effect[OF _ r, unfolded p] assms(2)[of n]
      by (auto simp: unlisted_def)
  qed simp
  then show "node_at (root (purge_names conf (base @ [BACKSLASH]) ns d)) q = node_at (root d) q"
    and "locked (purge_names conf (base @ [BACKSLASH]) ns d) = locked d"
    and "unreadable (purge_names conf (base @ [BACKSLASH]) ns d) = unreadable d"
    by auto
qed

lemma purge_names_None:
  assumes "\<forall>n\<in>set ns. plain_name n" and "node_at (root d) (path_of base @ [n]) = None"
  shows "node_at (root (purge_names conf (base @ [BACKSLASH]) ns d)) (path_of base @ [n]) = None"
  using assms
proof (induction ns arbitrary: d)
  case (Cons j ns)
  have p: "path_of ((base @ [BACKSLASH]) @ j) = path_of base @ [j]" using Cons.prems path_of_below by simp
  obtain rc d' where r: "removeDir ((base @ [BACKSLASH]) @ j) d = (rc, d')" by fastforce
  have "node_at (root d') (path_of base @ [n]) = None"
  proof (cases "j = n")
    case True
    then show ?thesis using r Cons.prems(2) p by (simp add: removeDir_def)
  next
    case False
    then have "path_of base @ [j] \<parallel> path_of base @ [n]" by (auto simp: parallel_def)
    then show ?thesis using removeDir_effect(1)[OF _ r, unfolded p] Cons.prems(2) by simp
  qed
  with Cons r show ?case by simp
qed simp

lemma purge_names_gone:
  assumes "\<forall>n\<in>set ns. plain_name n" and "n \<in> set ns" and "unlisted conf n"
    and "\<forall>q. \<not> locked d q \<and> \<not> unreadable d q"
  shows "node_at (root (purge_names conf (base @ [BACKSLASH]) ns d)) (path_of base @ [n]) = None"
  using assms
proof (induction ns arbitrary: d)
  case (Cons k ns)
  have p: "path_of ((base @ [BACKSLASH]) @ k) = path_of base @ [k]" using Cons.prems path_of_below by simp
  obtain rc d' where r: "removeDir ((base @ [BACKSLASH]) @ k) d = (rc, d')" by fastforce
  note e = removeDir_effect[OF _ r, unfolded p]
  show ?case
  proof (cases "k = n")
    case True
    have "node_at (root d') (path_of base @ [n]) = None"
      using e(2)[of "[]"] e(3) Cons.prems(4) by (simp add: True)
    then show ?thesis using purge_names_None[of ns d'] Cons.prems(1,3) r True by (simp add: unlisted_def)
  next
    case False
    then show ?thesis using Cons r e(4,5) by (simp add: unlisted_def)
  qed
qed simp

section \<open>Properties\<close>

text \<open>(C6) With a server that has a configuration for the agent, \<^verbatim>\<open>checkConfig\<close> returns 0 and leaves the
  agent's file alone if the server's digest is that of the file, and otherwise returns 1 and the
  file holds the server's configuration; apart from the two files in the temporal directory no
  other file changes.\<close>

theorem checkConfig_synchronises:
  assumes "serves S conf server" and "config_ready S conf file agent m"
    and "content_at (mc_disk m) (path_of file) = Some c" and "names_agent S c agent"
    and "server (md5 (md5_memory S) agent @ ''.md5'') = Some r" and "32 \<le> length r" and "length r < 2 ^ 31"
    and "server (md5 (md5_memory S) agent @ ''.conf'') = Some c'" and "c' \<noteq> []" and "length c' < 2 ^ 31"
  shows "\<exists>m'. checkConfig S conf file m
      = Inr (Done (if take 32 r = md5 (md5_memory S) c then 0 else 1), m')
    \<and> content_at (mc_disk m') (path_of file) = Some (if take 32 r = md5 (md5_memory S) c then c else c')
    \<and> (\<forall>q. q \<notin> {path_of file, temp_file S conf agent ''.md5'', temp_file S conf agent ''.conf''}
         \<longrightarrow> content_at (mc_disk m') q = content_at (mc_disk m) q)"
proof -
  have ne: "temp_file S conf agent ''.md5'' \<noteq> path_of file" using assms(2) by (simp add: config_ready_def Let_def)
  show ?thesis by (rule checkConfig_effect[OF assms]) (use ne assms(3) in auto)
qed


text \<open>A collection is lost when the server delivers its digest and not its archive: the digest is
  stored first, so a later check finds it unchanged and does not ask for the archive again, and
  the directory of the collection stays as it was.\<close>

theorem collection_lost:
  assumes "serves S conf server" and "collection_ready conf collections_dir coll (mc_disk m)"
    and "content_at (mc_disk m) (path_of collections_dir @ [coll @ ''.md5'']) = None"
    and "server (coll @ ''.md5'') = Some r" and "32 \<le> length r" and "length r < 2 ^ 31"
    and "server (coll @ ''.zip'') = None"
    and "serves S' conf server'" and "server' (coll @ ''.md5'') = Some r"
    and "with_slash (getValue conf ''temporal'') = Inr temp_dir"
  shows "\<exists>m1 m2. check_collection S conf temp_dir collections_dir coll m = Inr (Done (), m1)
    \<and> check_collection S' conf temp_dir collections_dir coll m1 = Inr (Done (), m2)
    \<and> node_at (root (mc_disk m2)) (path_of collections_dir @ [coll])
        = node_at (root (mc_disk m)) (path_of collections_dir @ [coll])"
proof -
  obtain m1 where m1: "check_collection S conf temp_dir collections_dir coll m = Inr (Done (), m1)"
    "content_at (mc_disk m1) (path_of collections_dir @ [coll @ ''.md5'']) = Some (take 32 r)"
    "can_write (mc_disk m1) = can_write (mc_disk m)"
    "node_at (root (mc_disk m1)) (path_of collections_dir @ [coll])
       = node_at (root (mc_disk m)) (path_of collections_dir @ [coll])"
    by (rule new_collection_no_zip[OF assms(1,2,10,3-7)])
  have ready: "collection_ready conf collections_dir coll (mc_disk m1)"
    using assms(2) m1(3) by (simp add: collection_ready_def)
  show ?thesis
    by (rule known_collection_same[OF assms(8) ready assms(10) m1(2) _ assms(9) refl assms(6)])
      (use assms(5) m1(1,4) in auto)
qed


text \<open>With the transfer mode ssh a report is taken to be sent although writing it to the channel
  failed: \<^verbatim>\<open>copyDataFile\<close> returns 0 whatever the write returns.\<close>

theorem scp_failure_unnoticed:
  assumes "getValue conf ''transfer_mode'' = ''ssh''" and "getValue conf ''server_path'' = path" and "path \<noteq> []" and "last path = CHR ''/''"
    and "getValue conf ''secondary_mode'' = []" and "getValue conf ''server_port'' = []"
    and "with_slash (getValue conf ''temporal'') = Inr dir" and "fst (readFile (mc_disk m) (dir @ f) []) = 0"
    and "\<And>k h m. ssh_connect S h k m = (SSH_Session, m)" and "\<And>u a b c m. ssh_auth S u a b c m = (0, m)"
    and "\<And>r k m. scp_send S r k m = (True, m)" and "\<And>b m. scp_write S b m = (-1, m)"
  shows "copyDataFile S conf f m = Inr (Done 0, m)"
proof -
  have "fix_remote_path ''ssh'' path = Inr path" using assms(3,4) by (simp add: fix_remote_path_def with_end_def)
  moreover obtain b where "readFile (mc_disk m) (dir @ f) [] = (0, b)"
    using assms(8) by (cases "readFile (mc_disk m) (dir @ f) []") auto
  ultimately show ?thesis
    using assms(1-7,9-)
    by (simp add: copyDataFile_def send_to_primary_def copyScpDataFile_def connectWithPublicKey_def newConnection_def
        scpFileFilename_def act_defs code_defs)
qed

section \<open>Examples\<close>

definition example_conf :: agent_conf where
  "example_conf = \<lparr>key_values =
       [\<lparr>kv_key = ''remote_config'', kv_value = ''1''\<rparr>, \<lparr>kv_key = ''transfer_mode'', kv_value = ''tentacle''\<rparr>,
        \<lparr>kv_key = ''server_path'', kv_value = ''/in/''\<rparr>, \<lparr>kv_key = ''server_ip'', kv_value = ''server''\<rparr>,
        \<lparr>kv_key = ''temporal'', kv_value = join_path [''C:'', ''temp'']\<rparr>],
     collection_list = [], collection_it = 0, broker_enabled = False\<rparr>"

text \<open>A system whose Tentacle client takes the files from \<open>server\<close>, and whose scp writes fail.\<close>

definition example_system :: "(string \<Rightarrow> string option) \<Rightarrow> unit system" where
  "example_system server = \<lparr>install_dir = join_path [''C:'', ''pandora'', []], system_name = ''host'',
     md5_memory = \<lparr>count0 = 0, count1 = 0, abcd = (0, 0, 0, 0), buf = replicate 64 0\<rparr>, int_memory = 0,
     system_call = (\<lambda>cmd m.
       case server (drop (length (recv_command example_conf ''server'' [])) cmd) of
         None \<Rightarrow> (1, m)
       | Some c \<Rightarrow> (0, m\<lparr>mc_disk := set_at ([''C:'', ''temp''] @ path_of (drop (length (recv_command example_conf ''server'' [])) cmd))
                            (Some (File c)) (mc_disk m)\<rparr>)),
     create_process = (\<lambda>cmd m. (True, m)), wait_process = (\<lambda>t m. (Some 0, m)),
     chdir_ok = (\<lambda>dir m. True), mkdir_ok = (\<lambda>dir m. True),
     ssh_connect = (\<lambda>host port m. (SSH_Session, m)), ssh_auth = (\<lambda>u a b p m. (0, m)),
     scp_send = (\<lambda>r n m. (True, m)), scp_write = (\<lambda>b m. (-1, m)),
     curl_perform = (\<lambda>url ops data m. (Some CURLE_OK, m))\<rparr>"

definition example_machine :: "unit machine" where
  "example_machine = \<lparr>mc_disk = example_disk, mc_cwd = [], mc_path = [], mc_rest = ()\<rparr>"

abbreviation example_md5 :: "string \<Rightarrow> string" where
  "example_md5 \<equiv> md5 \<lparr>count0 = 0, count1 = 0, abcd = (0, 0, 0, 0), buf = replicate 64 0\<rparr>"

lemma example_values:
  "getValue example_conf ''remote_config'' = ''1''" "getValue example_conf ''transfer_mode'' = ''tentacle''"
  "getValue example_conf ''server_path'' = ''/in/''" "getValue example_conf ''server_ip'' = ''server''"
  "path_of (getValue example_conf ''temporal'') = [''C:'', ''temp'']" "tentacle_conf example_conf"
  by code_simp+

lemma example_serves: "serves (example_system server) example_conf server"
proof -
  have "recv_command example_conf ''server'' f = recv_command example_conf ''server'' [] @ f" for f
    by (simp add: recv_command_def)
  then have "drop (length (recv_command example_conf ''server'' [])) (recv_command example_conf ''server'' f) = f" for f
    by (metis append_eq_conv_conj)
  then show ?thesis by (simp add: serves_def example_system_def example_values split: option.split)
qed

lemma example_system_simps [simp]:
  "md5_memory (example_system server) = \<lparr>count0 = 0, count1 = 0, abcd = (0, 0, 0, 0), buf = replicate 64 0\<rparr>"
  "system_name (example_system server) = ''host''"
  "install_dir (example_system server) = join_path [''C:'', ''pandora'', []]"
  by (simp_all add: example_system_def)

definition example_file :: string where
  "example_file = join_path [''C:'', ''pandora'', ''pandora_agent.conf'']"

lemma can_write_temp: "f \<noteq> [] \<Longrightarrow> can_write example_disk [''C:'', ''temp'', f]"
  by (simp add: can_write_def example_disk_def root_def)

lemma example_ready: "config_ready (example_system server) example_conf example_file ''host'' example_machine"
proof -
  have "path_of example_file = [''C:'', ''pandora'', ''pandora_agent.conf'']"
    "can_write example_disk (path_of example_file)"
    by code_simp+
  then show ?thesis
    using can_write_temp by (simp add: config_ready_def example_values example_machine_def)
qed

lemma example_contents:
  "content_at (mc_disk example_machine) (path_of example_file) = Some ''remote_config 1''"
  "names_agent (example_system server) ''remote_config 1'' ''host''"
  "names_agent (example_system server) ''interval 60'' ''host''"
proof -
  have "agent_name_in (getlines (text_mode ''remote_config 1'')) = Inr []"
    "agent_name_in (getlines (text_mode ''interval 60'')) = Inr []"
    by code_simp+
  then show "names_agent (example_system server) ''remote_config 1'' ''host''"
    "names_agent (example_system server) ''interval 60'' ''host''"
    by (simp_all add: names_agent_def)
qed code_simp

definition example_server :: "string \<Rightarrow> string option" where
  "example_server f = (if f = example_md5 ''host'' @ ''.md5'' then Some (example_md5 ''interval 60'')
     else if f = example_md5 ''host'' @ ''.conf'' then Some ''interval 60'' else None)"

lemma example_server_md5: "example_server (example_md5 ''host'' @ ''.md5'') = Some (example_md5 ''interval 60'')"
  and example_server_conf: "example_server (example_md5 ''host'' @ ''.conf'') = Some ''interval 60''"
  by (simp_all add: example_server_def)

theorem checkConfig_synchronises_witness:
  "\<exists>m'. checkConfig (example_system example_server) example_conf example_file example_machine
      = Inr (Done (if example_md5 ''interval 60'' = example_md5 ''remote_config 1'' then 0 else 1), m')
    \<and> content_at (mc_disk m') (path_of example_file)
      = Some (if example_md5 ''interval 60'' = example_md5 ''remote_config 1'' then ''remote_config 1'' else ''interval 60'')"
  using checkConfig_synchronises[OF example_serves example_ready example_contents(1,2), of example_server]
    example_server_md5 example_server_conf length_md5
  by fastforce


definition example_collections :: string where
  "example_collections = join_path [''C:'', ''pandora'', ''collections'', []]"

definition collection_server :: "string option \<Rightarrow> string \<Rightarrow> string option" where
  "collection_server archive f = (if f = ''fc_2.md5'' then Some (replicate 32 (CHR ''0''))
     else if f = ''fc_2.zip'' then archive else None)"

theorem collection_lost_witness:
  "\<exists>m1 m2. check_collection (example_system (collection_server None)) example_conf
        (join_path [''C:'', ''temp'', []]) example_collections ''fc_2'' example_machine = Inr (Done (), m1)
    \<and> check_collection (example_system (collection_server (Some ''archive''))) example_conf
        (join_path [''C:'', ''temp'', []]) example_collections ''fc_2'' m1 = Inr (Done (), m2)
    \<and> node_at (root (mc_disk m2)) [''C:'', ''pandora'', ''collections'', ''fc_2''] = None"
proof -
  have p: "path_of example_collections = [''C:'', ''pandora'', ''collections'']" by code_simp
  have base: "\<exists>base. example_collections = base @ [BACKSLASH]"
    by (rule exI[of _ "join_path [''C:'', ''pandora'', ''collections'']"]) code_simp
  have w: "can_write example_disk [''C:'', ''temp'', ''fc_2.md5'']"
    "can_write example_disk [''C:'', ''pandora'', ''collections'', ''fc_2.md5'']"
    "node_at (root example_disk) [''C:'', ''pandora'', ''collections'', ''fc_2''] = None"
    "content_at example_disk [''C:'', ''pandora'', ''collections'', ''fc_2.md5''] = None"
    by code_simp+
  have td: "with_slash (getValue example_conf ''temporal'') = Inr (join_path [''C:'', ''temp'', []])" by code_simp
  have ready: "collection_ready example_conf example_collections ''fc_2'' (mc_disk example_machine)"
    using w(1,2) base by (simp add: collection_ready_def example_values p example_machine_def parallel_def)
  show ?thesis
    using collection_lost[OF example_serves ready _ _ _ _ _ example_serves _ td,
        where server = "collection_server None" and server' = "collection_server (Some ''archive'')" and r = "replicate 32 (CHR ''0'')"] w(3,4)
    by (simp add: p example_machine_def collection_server_def)
qed


definition ssh_conf :: agent_conf where
  "ssh_conf = \<lparr>key_values =
       [\<lparr>kv_key = ''transfer_mode'', kv_value = ''ssh''\<rparr>, \<lparr>kv_key = ''server_path'', kv_value = ''/in/''\<rparr>,
        \<lparr>kv_key = ''temporal'', kv_value = join_path [''C:'', ''pandora'']\<rparr>],
     collection_list = [], collection_it = 0, broker_enabled = False\<rparr>"

theorem scp_failure_unnoticed_witness:
  "copyDataFile (example_system (\<lambda>_. None)) ssh_conf ''pandora_agent.conf'' example_machine = Inr (Done 0, example_machine)"
proof -
  have v: "getValue ssh_conf ''transfer_mode'' = ''ssh''" "getValue ssh_conf ''server_path'' = ''/in/''"
    "getValue ssh_conf ''secondary_mode'' = []" "getValue ssh_conf ''server_port'' = []"
    "with_slash (getValue ssh_conf ''temporal'') = Inr (join_path [''C:'', ''pandora'', []])"
    "fst (readFile (mc_disk example_machine) (join_path [''C:'', ''pandora'', []] @ ''pandora_agent.conf'') []) = 0"
    by code_simp+
  show ?thesis by (rule scp_failure_unnoticed[OF v(1,2) _ _ v(3-6)]) (simp_all add: example_system_def)
qed

end
