(* ===== verification/Pandora_Agent.thy ===== *)
theory Pandora_Agent
  imports Pandora_Transfer
begin

text \<open>
  The agent as a whole, \<^verbatim>\<open>src/pandora_windows_service.cc\<close>: the header of a report, sending a report
  and the buffered ones, loading the configuration, and one run of the agent with its broker
  agents.  What the system answers during a run (the time, the modules' surroundings, random
  numbers, free space) is the record \<open>run_env\<close>; a run consists of passes, number 0 for the agent
  itself and then one for each broker.  Sleeping, the mutex and logging are left out.
\<close>

section \<open>The header of a report\<close>

record header_info =
  os_name :: string
  os_version :: string
  system_address :: string
  agent_version :: string
  header_time :: "systemtime option"
  gis_launch :: "string \<Rightarrow> launch"

text \<open>The program that gives the coordinates is stopped after 30 milliseconds.\<close>

definition getCoordinatesFromGisExec :: "header_info \<Rightarrow> string \<Rightarrow> string option" where
  "getCoordinatesFromGisExec H gis_exec =
     (case gis_launch H gis_exec of
        Launched polls retval \<Rightarrow>
          map_option (\<lambda>output. if retval \<noteq> 0 then [] else output) (exec_wait 30 polls [])
      | _ \<Rightarrow> Some [])"

text \<open>\<^verbatim>\<open>xml += "\" key=\""; xml += value;\<close>\<close>

definition xml_attr :: "string \<Rightarrow> string \<Rightarrow> string" where
  "xml_attr key v = [DQUOTE, SPC] @ key @ ''='' @ [DQUOTE] @ v"

definition before :: "char \<Rightarrow> string \<Rightarrow> string" where
  "before c s = (case str_find s [c] of None \<Rightarrow> s | Some pos \<Rightarrow> take pos s)"

text \<open>The coordinates a program prints, \<^verbatim>\<open>latitude,longitude,altitude\<close>.\<close>

definition gis_attrs :: "string \<Rightarrow> (string \<times> string) list" where
  "gis_attrs gis_result =
     (if gis_result = [] then []
      else let res = before CR (before LF gis_result)
           in case str_find res '','' of
                None \<Rightarrow> []
              | Some pos \<Rightarrow>
                  if pos = 0 then []
                  else let latitude = take pos res;
                           rest = drop (pos + 1) res;
                           (longitude, altitude) =
                             (case str_find rest '','' of
                                None \<Rightarrow> ([], [])
                              | Some k \<Rightarrow> if k = 0 then ([], []) else (take k rest, drop (k + 1) rest))
                       in [(''latitude'', latitude), (''longitude'', longitude), (''altitude'', altitude)])"

definition position_attrs :: "(string \<Rightarrow> string) \<Rightarrow> (string \<times> string) list" where
  "position_attrs value_of =
     (let latitude = value_of ''latitude''; longitude = value_of ''longitude'';
          altitude = value_of ''altitude''
      in if latitude \<noteq> [] \<and> longitude \<noteq> []
         then [(''latitude'', latitude), (''longitude'', longitude)] @
              (if altitude \<noteq> [] then [(''altitude'', altitude)] else [])
         else [])"

definition unless_blank :: "string \<Rightarrow> string \<Rightarrow> (string \<times> string) list" where
  "unless_blank key v = (if v \<noteq> [] then [(key, v)] else [])"

text \<open>The time goes through a buffer of 20 bytes; \<^verbatim>\<open>localtime\<close> may give a null pointer.\<close>

definition time_text :: "(string \<Rightarrow> string) \<Rightarrow> systemtime option \<Rightarrow> string result" where
  "time_text value_of t =
     (if value_of ''autotime'' = ''1'' then Inr []
      else case t of
             None \<Rightarrow> Inl Undefined_Behaviour
           | Some t \<Rightarrow>
               let s = nat_digits (wYear t) @ ''-'' @ two_digits (wMonth t) @ ''-'' @
                 two_digits (wDay t) @ '' '' @ two_digits (wHour t) @ '':'' @
                 two_digits (wMinute t) @ '':'' @ two_digits (wSecond t)
               in if length s < 20 then Inr s else Inl Undefined_Behaviour)"

definition address_of :: "header_info \<Rightarrow> (string \<Rightarrow> string) \<Rightarrow> string" where
  "address_of H value_of =
     (let address = value_of ''address''
      in if address = ''auto'' then system_address H else address)"

definition getXmlHeader :: "header_info \<Rightarrow> string \<Rightarrow> (string \<Rightarrow> string) \<Rightarrow> string mod_result" where
  "getXmlHeader H sys_name value_of =
     (let agent_name = (if value_of ''agent_name'' = [] then sys_name else value_of ''agent_name'');
          os_ver = os_name H @ os_version H;
          encoding = (if value_of ''encoding'' = [] then ''ISO-8859-1'' else value_of ''encoding'')
      in case time_text value_of (header_time H) of
           Inl e \<Rightarrow> Inl (Cxx e)
         | Inr stamp \<Rightarrow>
             (case (if value_of ''gis_exec'' \<noteq> []
                    then map_option gis_attrs (getCoordinatesFromGisExec H (value_of ''gis_exec''))
                    else Some (position_attrs value_of)) of
                None \<Rightarrow> Inl Diverges
              | Some position \<Rightarrow>
                  Inr (''<?xml version='' @ [DQUOTE] @ ''1.0'' @ [DQUOTE] @ '' encoding='' @ [DQUOTE] @ encoding @
                       [DQUOTE] @ '' ?>'' @ [LF] @ ''<agent_data agent_name='' @ [DQUOTE] @ agent_name @
                       xml_attr ''description'' (value_of ''description'') @
                       xml_attr ''version'' (agent_version H) @
                       concat (map (\<lambda>(k, v). xml_attr k v)
                         (unless_blank ''timestamp'' stamp @ unless_blank ''address'' (address_of H value_of) @
                          unless_blank ''custom_id'' (value_of ''custom_id'') @
                          unless_blank ''url_address'' (value_of ''url_address'') @ position)) @
                       xml_attr ''interval'' (value_of ''interval'') @ xml_attr ''os_name'' (os_name H) @
                       xml_attr ''os_version'' os_ver @ xml_attr ''group'' (value_of ''group'') @
                       xml_attr ''parent_agent_name'' (value_of ''parent_agent_name'') @
                       [DQUOTE] @ ''>'' @ [LF])))"

section \<open>The state of the agent\<close>

text \<open>Exceptions of the modules are C++ exceptions like any other.\<close>

definition lift_mod :: "'a mod_result \<Rightarrow> ('x, 'a) action" where
  "lift_mod r m =
     (case r of
        Inl (Cxx e) \<Rightarrow> lift_result (Inl e) m
      | Inl Diverges \<Rightarrow> Inl Diverges
      | Inl _ \<Rightarrow> throw_act m
      | Inr x \<Rightarrow> return_act x m)"

record 'd agent =
  ag_modules :: "'d module_object list"
  ag_conf :: agent_conf
  ag_service :: service
  ag_intensive :: int
  ag_sleep :: int
  ag_debug :: bool
  ag_proxy :: bool
  ag_udp :: bool
  ag_first_run :: bool
  ag_startup :: bool
  ag_name :: string
  ag_runs :: int

record 'd run_env =
  re_time :: int
  re_moment :: "nat \<Rightarrow> nat \<Rightarrow> moment"
  re_double :: "nat \<Rightarrow> 'd"
  re_header :: "nat \<Rightarrow> header_info"
  re_rand :: "nat \<Rightarrow> int"
  re_free_space :: "nat \<Rightarrow> string \<Rightarrow> int option"
  re_memory :: "nat \<Rightarrow> string \<Rightarrow> memory"

section \<open>Sending reports\<close>

text \<open>The files that \<^verbatim>\<open>FindFirstFile\<close> and \<^verbatim>\<open>FindNextFile\<close> find for \<^verbatim>\<open>*.data\<close>.\<close>

definition data_files :: "disk \<Rightarrow> path \<Rightarrow> string list" where
  "data_files d p =
     (case node_at (root d) p of
        Some (Dir es) \<Rightarrow> filter (suffix ''.data'') (map fst es)
      | _ \<Rightarrow> [])"

fun send_files :: "'x system \<Rightarrow> agent_conf \<Rightarrow> string \<Rightarrow> string list \<Rightarrow> ('x, unit) action" where
  "send_files S conf base_path [] = return_act ()"
| "send_files S conf base_path (f # fs) =
     bind_act (copyDataFile S conf f) (\<lambda>rc.
     if rc \<noteq> 0 then return_act ()
     else bind_act (remove_file (base_path @ f)) (\<lambda>_. send_files S conf base_path fs))"

definition sendBufferedXml :: "'x system \<Rightarrow> agent_conf \<Rightarrow> string \<Rightarrow> ('x, unit) action" where
  "sendBufferedXml S conf path =
     bind_act (lift_result (with_slash path)) (\<lambda>base_path m.
     send_files S conf base_path (data_files (mc_disk m) (path_of base_path)) m)"

text \<open>The part of \<^verbatim>\<open>sendXml\<close> after the text of the report has been made.\<close>

definition store_report ::
    "'x system \<Rightarrow> agent_conf \<Rightarrow> bool \<Rightarrow> (string \<Rightarrow> int option) \<Rightarrow> int \<Rightarrow> int \<Rightarrow> string \<Rightarrow> string \<Rightarrow> ('x, unit) action" where
  "store_report S conf debug free_space min_free_bytes xml_buffer tmp_filename xml =
     bind_act (lift_result (with_slash (getValue conf ''temporal''))) (\<lambda>dir m.
     let tmp_filepath = dir @ tmp_filename
     in case writeBinFile tmp_filepath (c_str xml) (mc_disk m) of
          Inl _ \<Rightarrow> return_act () m
        | Inr d \<Rightarrow>
            (if debug then return_act ()
             else bind_act (copyDataFile S conf tmp_filename) (\<lambda>rc.
               bind_act
                 (if rc = 0 \<or> xml_buffer = 0 \<or>
                     (case free_space tmp_filepath of None \<Rightarrow> False | Some b \<Rightarrow> b < min_free_bytes)
                  then remove_file tmp_filepath else return_act ())
                 (\<lambda>_. if xml_buffer = 1 then sendBufferedXml S conf (getValue conf ''temporal'')
                      else return_act ())))
            (m\<lparr>mc_disk := d\<rparr>))"

definition sendXml ::
    "'d clib \<Rightarrow> 'd run_env \<Rightarrow> nat \<Rightarrow> 'x system \<Rightarrow> agent_conf \<Rightarrow> bool \<Rightarrow> 'd module_object list
     \<Rightarrow> ('x, 'd module_object list) action" where
  "sendXml L E k S conf debug objs =
     bind_act (lift_result (atoi (getValue conf ''temporal_min_size''))) (\<lambda>min_size.
     bind_act (lift_result (atoi (getValue conf ''xml_buffer''))) (\<lambda>xml_buffer.
     bind_act (lift_mod (getXmlHeader (re_header E k) (system_name S) (getValue conf))) (\<lambda>header.
     case data_xml L (re_double E k) header (getValue conf) objs of
       (objs', r) \<Rightarrow>
         bind_act (lift_mod r) (\<lambda>xml.
         let agent_name = getValue conf ''agent_name'';
             tmp_filename = (if agent_name = [] then system_name S else agent_name) @ ''.'' @
               inttostr (re_rand E k) @ ''.data''
         in bind_act (store_report S conf debug (re_free_space E k) (s32 (1024 * min_size)) xml_buffer tmp_filename xml) (\<lambda>_.
            return_act objs')))))"

section \<open>Loading the configuration\<close>

definition conf_file :: "'x system \<Rightarrow> string" where
  "conf_file S = install_dir S @ ''pandora_agent.conf''"

text \<open>The scans for broker agents never end when the file cannot be opened.\<close>

definition broker_files :: "'x system \<Rightarrow> ('x, string list) action" where
  "broker_files S m =
     (case text_files (mc_disk m) (conf_file S) of
        None \<Rightarrow> Inl Diverges
      | Some txt \<Rightarrow>
          lift_result (check_broker_agents (install_dir S) txt (replicate (count_broker_agents txt) [])) m)"

text \<open>
  \<^verbatim>\<open>setFile\<close> of the main file may write the configuration of a broker agent; a file that cannot be
  written is passed over.
\<close>

fun store_texts :: "string list \<Rightarrow> file_system \<Rightarrow> disk \<Rightarrow> disk" where
  "store_texts [] fs d = d"
| "store_texts (f # rest) fs d =
     store_texts rest fs
       (case fs f of
          None \<Rightarrow> d
        | Some txt \<Rightarrow>
            if text_files d f = Some txt then d
            else (case writeFile f txt d of Inl _ \<Rightarrow> d | Inr d' \<Rightarrow> d'))"

definition load_main_file :: "'x system \<Rightarrow> agent_conf \<Rightarrow> ('x, agent_conf) action" where
  "load_main_file S conf m =
     (case text_files (mc_disk m) (conf_file S) of
        None \<Rightarrow> Inl Diverges
      | Some txt \<Rightarrow>
          let num = count_broker_agents txt
          in case setMainFile (install_dir S)
                    \<lparr>cs_conf = conf, cs_fs = text_files (mc_disk m), cs_all_conf = replicate num []\<rparr> of
               Inl e \<Rightarrow> lift_result (Inl e) m
             | Inr st \<Rightarrow>
                 let brokers = (case check_broker_agents (install_dir S) txt (replicate num []) of
                                  Inl _ \<Rightarrow> [] | Inr fs \<Rightarrow> fs)
                 in return_act (cs_conf st) (m\<lparr>mc_disk := store_texts brokers (cs_fs st) (mc_disk m)\<rparr>))"

definition set_intervals :: "int \<Rightarrow> agent_conf \<Rightarrow> 'd agent \<Rightarrow> 'd agent result" where
  "set_intervals junk conf ag =
     (let interval = getValue conf ''interval'';
          intensive = getValue conf ''intensive_interval''
      in case (if interval = [] then Inr None
               else case strtoint junk interval of
                      Inl Invalid_Conversion \<Rightarrow> Inr None
                    | Inl e \<Rightarrow> Inl e
                    | Inr n \<Rightarrow> Inr (Some n)) of
           Inl e \<Rightarrow> Inl e
         | Inr r \<Rightarrow>
             let svc = (case r of
                          None \<Rightarrow> ag_service ag
                        | Some n \<Rightarrow> (ag_service ag)\<lparr>interval_sec := n, interval_ms := s32 (n * 1000)\<rparr>);
                 ag1 = ag\<lparr>ag_service := svc\<rparr>
             in map_sum (\<lambda>e. e) (\<lambda>i. ag1\<lparr>ag_intensive := i, ag_sleep := i\<rparr>)
                  (if intensive = [] then Inr (interval_ms svc)
                   else case strtoint junk intensive of
                          Inl Invalid_Conversion \<Rightarrow> Inr (ag_intensive ag)
                        | Inl e \<Rightarrow> Inl e
                        | Inr n \<Rightarrow> Inr (s32 (n * 1000))))"

definition default_value :: "string \<Rightarrow> string \<Rightarrow> string" where
  "default_value d s = (if s = [] then d else s)"

definition launchTentacleProxy :: "'x system \<Rightarrow> agent_conf \<Rightarrow> 'd agent \<Rightarrow> ('x, 'd agent) action" where
  "launchTentacleProxy S conf ag =
     (let server_ip = getValue conf ''server_ip''
      in if server_ip = ''localhost'' then return_act ag
         else bind_act (call (create_process S
             (''tentacle_server.exe -b '' @ server_ip @ '' -g '' @ default_value ''41121'' (getValue conf ''server_port'') @
              '' -c '' @ default_value ''10'' (getValue conf ''proxy_max_connection'') @
              '' -t '' @ default_value ''1'' (getValue conf ''proxy_timeout'')))) (\<lambda>started.
           return_act (if started then ag\<lparr>ag_proxy := True\<rparr> else ag)))"

text \<open>The end of \<^verbatim>\<open>pandora_init\<close>: the proxy, the UDP server and, once, the search path.\<close>

definition start_services :: "'x system \<Rightarrow> agent_conf \<Rightarrow> 'd agent \<Rightarrow> ('x, 'd agent) action" where
  "start_services S conf ag2 =
     bind_act (if getValue conf ''proxy_mode'' \<noteq> [] \<and> \<not> ag_proxy ag2
               then launchTentacleProxy S conf ag2 else return_act ag2) (\<lambda>ag3.
     bind_act (if getValue conf ''udp_server'' = ''1'' \<and> \<not> ag_udp ag3
               then bind_act (lift_result (atoi (getValue conf ''udp_server_port''))) (\<lambda>port.
                    return_act (ag3\<lparr>ag_udp := True\<rparr>))
               else return_act ag3) (\<lambda>ag4.
     if ag_first_run ag4
     then bind_act (call (\<lambda>m. ((), m\<lparr>mc_path := mc_path m @ '';'' @ install_dir S @ ''util''\<rparr>))) (\<lambda>_.
          return_act (ag4\<lparr>ag_first_run := False\<rparr>))
     else return_act ag4))"

definition pandora_init ::
    "'d clib \<Rightarrow> (string \<Rightarrow> memory) \<Rightarrow> 'x system \<Rightarrow> 'd agent \<Rightarrow> ('x, 'd agent) action" where
  "pandora_init L mem S ag =
     bind_act (load_main_file S (ag_conf ag)) (\<lambda>conf.
     bind_act (lift_result (set_intervals (int_memory S) conf (ag\<lparr>ag_conf := conf\<rparr>))) (\<lambda>ag1.
     bind_act (\<lambda>m. lift_result (newPandora_Module_List L mem (interval_ms (ag_service ag1)) (ag_intensive ag1)
                 (text_files (mc_disk m)) (conf_file S)) m) (\<lambda>objs.
     bind_act (checkAgentName (conf_file S)) (\<lambda>nm.
     start_services S conf (ag1\<lparr>ag_modules := objs, ag_name := (if nm = [] then system_name S else nm),
                   ag_debug := is_enabled (getValue conf ''debug'')\<rparr>)))))"

definition pandora_init_broker ::
    "'d clib \<Rightarrow> (string \<Rightarrow> memory) \<Rightarrow> 'x system \<Rightarrow> string \<Rightarrow> 'd agent \<Rightarrow> ('x, 'd agent) action" where
  "pandora_init_broker L mem S file ag =
     bind_act (checkAgentName file) (\<lambda>nm.
     bind_act (\<lambda>m. lift_result (setFile (text_files (mc_disk m)) file (ag_conf ag)) m) (\<lambda>conf.
     bind_act (\<lambda>m. lift_result (newPandora_Module_List L mem (interval_ms (ag_service ag)) (ag_intensive ag)
                 (text_files (mc_disk m)) file) m) (\<lambda>objs.
     return_act (ag\<lparr>ag_name := nm, ag_conf := conf, ag_modules := objs\<rparr>))))"

section \<open>A run of the agent\<close>

text \<open>
  A pass over the modules and the report, which is made if the run is forced, if a module reports
  or if the agent's own interval has passed, and if the configuration names a server.
\<close>

definition agent_pass ::
    "'d clib \<Rightarrow> 'd run_env \<Rightarrow> nat \<Rightarrow> 'x system \<Rightarrow> bool \<Rightarrow> 'd agent \<Rightarrow> ('x, 'd agent) action" where
  "agent_pass L E k S forced ag =
     bind_act (lift_mod (run_modules L (re_double E k) (ag_service ag) forced
                 (map (\<lambda>(i, obj). (re_moment E k i, obj)) (enumerate 0 (ag_modules ag))))) (\<lambda>outs.
     let objs = map o_module outs
     in if (forced \<or> (\<exists>out\<in>set outs. o_reports out) \<or> interval_passed (ag_service ag))
             \<and> getValue (ag_conf ag) ''server_ip'' \<noteq> []
        then bind_act (sendXml L E k S (ag_conf ag) (ag_debug ag) objs) (\<lambda>objs'.
             return_act (ag\<lparr>ag_modules := objs'\<rparr>))
        else return_act (ag\<lparr>ag_modules := objs\<rparr>))"

text \<open>The check for a new configuration and for the collections that begins a pass.\<close>

definition refresh ::
    "'x system \<Rightarrow> string \<Rightarrow> ('d agent \<Rightarrow> ('x, 'd agent) action) \<Rightarrow> 'd agent \<Rightarrow> ('x, 'd agent) action" where
  "refresh S file reload ag =
     (if ag_debug ag then return_act ag
      else bind_act (checkConfig S (ag_conf ag) file) (\<lambda>changed.
        bind_act (if changed = 1 then reload ag else return_act ag) (\<lambda>ag1.
        bind_act (checkCollections S (ag_conf ag1)) (\<lambda>conf.
        return_act (ag1\<lparr>ag_conf := conf\<rparr>)))))"

definition pandora_run_broker ::
    "'d clib \<Rightarrow> 'd run_env \<Rightarrow> nat \<Rightarrow> 'x system \<Rightarrow> string \<Rightarrow> 'd agent \<Rightarrow> ('x, 'd agent) action" where
  "pandora_run_broker L E k S config ag =
     bind_act (refresh S config (pandora_init_broker L (re_memory E k) S config) ag) (\<lambda>ag1.
     agent_pass L E k S False ag1)"

fun run_brokers ::
    "'d clib \<Rightarrow> 'd run_env \<Rightarrow> nat \<Rightarrow> 'x system \<Rightarrow> string list \<Rightarrow> 'd agent \<Rightarrow> ('x, 'd agent) action" where
  "run_brokers L E k S [] ag = return_act ag"
| "run_brokers L E k S (config # rest) ag =
     bind_act (pandora_init_broker L (re_memory E k) S config ag) (\<lambda>ag1.
     bind_act (pandora_run_broker L E k S config ag1) (\<lambda>ag2.
     run_brokers L E (Suc k) S rest ag2))"

text \<open>The run of the agent itself, before its brokers.\<close>

definition own_run ::
    "'d clib \<Rightarrow> 'd run_env \<Rightarrow> 'x system \<Rightarrow> bool \<Rightarrow> 'd agent \<Rightarrow> ('x, 'd agent) action" where
  "own_run L E S forced ag =
     bind_act (if ag_startup ag
               then lift_result (map_sum (\<lambda>e. e) (\<lambda>_. ()) (atoi (getValue (ag_conf ag) ''startup_delay'')))
               else return_act ()) (\<lambda>_.
     let ag0 = ag\<lparr>ag_startup := False, ag_service := (ag_service ag)\<lparr>run_time := re_time E\<rparr>\<rparr>
     in bind_act (refresh S (conf_file S) (pandora_init L (re_memory E 0) S) ag0) (\<lambda>ag1.
        agent_pass L E 0 S forced (ag1\<lparr>ag_runs := s32 (ag_runs ag1 + 1)\<rparr>)))"

definition pandora_run ::
    "'d clib \<Rightarrow> 'd run_env \<Rightarrow> 'x system \<Rightarrow> bool \<Rightarrow> 'd agent \<Rightarrow> ('x, 'd agent) action" where
  "pandora_run L E S forced ag =
     bind_act (own_run L E S forced ag) (\<lambda>ag2.
     bind_act (broker_files S) (\<lambda>all_conf.
     bind_act (run_brokers L E 1 S all_conf ag2) (\<lambda>ag3.
     bind_act (if all_conf \<noteq> [] then pandora_init L (re_memory E 0) S ag3 else return_act ag3) (\<lambda>ag4.
     return_act (if interval_passed (ag_service ag4)
                 then ag4\<lparr>ag_service := (ag_service ag4)\<lparr>svc_timestamp := run_time (ag_service ag4)\<rparr>\<rparr>
                 else ag4)))))"

section \<open>The modules of the agent\<close>

lemma bind_act_Done_iff:
  "bind_act a f m = Inr (Done y, m') \<longleftrightarrow> (\<exists>x m1. a m = Inr (Done x, m1) \<and> f x m1 = Inr (Done y, m'))"
  by (auto simp: bind_act_def split: sum.splits attempt.splits)

lemma return_act_Done_iff: "return_act x m = Inr (Done y, m') \<longleftrightarrow> y = x \<and> m' = m"
  by (auto simp: return_act_def)

lemma lift_Done_iff:
  "lift_result r m = Inr (Done y, m') \<longleftrightarrow> r = Inr y \<and> m' = m"
  "lift_mod q m = Inr (Done y, m') \<longleftrightarrow> q = Inr y \<and> m' = m"
  by (auto simp: lift_result_def lift_mod_def return_act_def throw_act_def split: sum.splits cxx_error.splits module_error.splits)

lemmas done_iffs = bind_act_Done_iff return_act_Done_iff lift_Done_iff

definition modules_ok :: "'d agent \<Rightarrow> bool" where
  "modules_ok ag \<longleftrightarrow> (\<forall>obj\<in>set (ag_modules ag). wf_object obj)"

lemma launchTentacleProxy_modules:
  "launchTentacleProxy S conf ag m = Inr (Done ag', m') \<Longrightarrow> ag_modules ag' = ag_modules ag"
  by (auto simp: launchTentacleProxy_def done_iffs Let_def split: if_splits)

lemma start_services_modules:
  assumes "start_services S conf ag m = Inr (Done ag', m')"
  shows "ag_modules ag' = ag_modules ag"
proof -
  obtain ag3 ag4 m1 m2 where
    a: "(if getValue conf ''proxy_mode'' \<noteq> [] \<and> \<not> ag_proxy ag then launchTentacleProxy S conf ag else return_act ag) m
       = Inr (Done ag3, m1)"
    and b: "(if getValue conf ''udp_server'' = ''1'' \<and> \<not> ag_udp ag3
         then bind_act (lift_result (atoi (getValue conf ''udp_server_port''))) (\<lambda>port. return_act (ag3\<lparr>ag_udp := True\<rparr>))
         else return_act ag3) m1 = Inr (Done ag4, m2)"
    and c: "(if ag_first_run ag4
       then bind_act (call (\<lambda>m. ((), m\<lparr>mc_path := mc_path m @ '';'' @ install_dir S @ ''util''\<rparr>))) (\<lambda>_.
            return_act (ag4\<lparr>ag_first_run := False\<rparr>))
       else return_act ag4) m2 = Inr (Done ag', m')"
    using assms unfolding start_services_def bind_act_Done_iff[of "if _ then _ else _"] by blast
  from a have "ag_modules ag3 = ag_modules ag"
    by (auto simp: return_act_Done_iff split: if_splits dest: launchTentacleProxy_modules)
  moreover from b have "ag_modules ag4 = ag_modules ag3" by (auto simp: done_iffs split: if_splits)
  moreover from c have "ag_modules ag' = ag_modules ag4" by (auto simp: done_iffs split: if_splits)
  ultimately show ?thesis by simp
qed

lemma pandora_init_modules:
  assumes "pandora_init L mem S ag m = Inr (Done ag', m')"
  obtains agent intensive fs where "newPandora_Module_List L mem agent intensive fs (conf_file S) = Inr (ag_modules ag')"
proof -
  obtain ag1 agent intensive fs objs nm conf dbg m1 where
    "newPandora_Module_List L mem agent intensive fs (conf_file S) = Inr objs"
    and "start_services S conf (ag1\<lparr>ag_modules := objs, ag_name := nm, ag_debug := dbg\<rparr>) m1 = Inr (Done ag', m')"
    using assms unfolding pandora_init_def done_iffs by blast
  then show ?thesis using that by (auto dest!: start_services_modules)
qed

lemma pandora_init_broker_modules:
  assumes "pandora_init_broker L mem S file ag m = Inr (Done ag', m')"
  obtains agent intensive fs where "newPandora_Module_List L mem agent intensive fs file = Inr (ag_modules ag')"
proof -
  obtain agent intensive fs objs nm conf where "newPandora_Module_List L mem agent intensive fs file = Inr objs"
    and "ag' = ag\<lparr>ag_name := nm, ag_conf := conf, ag_modules := objs\<rparr>"
    using assms unfolding pandora_init_broker_def done_iffs by blast
  then show ?thesis using that by simp
qed

lemma init_ok:
  "pandora_init L mem S ag m = Inr (Done ag', m') \<Longrightarrow> modules_ok ag'"
  "pandora_init_broker L mem S file ag m = Inr (Done ag', m') \<Longrightarrow> modules_ok ag'"
  by (auto simp: modules_ok_def elim!: pandora_init_modules pandora_init_broker_modules
      dest!: newPandora_Module_List_wf)

lemma sendXml_wf:
  assumes "sendXml L E k S conf debug objs m = Inr (Done objs', m')" and "\<forall>obj\<in>set objs. wf_object obj"
  shows "\<forall>obj\<in>set objs'. wf_object obj"
proof -
  obtain header where "objs' = fst (data_xml L (re_double E k) header (getValue conf) objs)"
    using assms(1) by (auto simp: sendXml_def done_iffs Let_def case_prod_unfold)
  with data_xml_wf[OF prod.collapse[symmetric] assms(2)] show ?thesis by simp
qed

lemma agent_pass_ok:
  assumes "agent_pass L E k S forced ag m = Inr (Done ag', m')" and "modules_ok ag"
  shows "modules_ok ag'"
proof -
  let ?ms = "map (\<lambda>(i, obj). (re_moment E k i, obj)) (enumerate 0 (ag_modules ag))"
  obtain outs where outs: "run_modules L (re_double E k) (ag_service ag) forced ?ms = Inr outs"
    and cases: "ag_modules ag' = map o_module outs
      \<or> (\<exists>m1 m2. sendXml L E k S (ag_conf ag) (ag_debug ag) (map o_module outs) m1 = Inr (Done (ag_modules ag'), m2))"
    using assms(1) by (auto simp: agent_pass_def done_iffs Let_def split: if_splits) blast+
  have "\<forall>(M, obj)\<in>set ?ms. wf_object obj"
    using assms(2) by (auto simp: modules_ok_def dest: set_zip_rightD simp: enumerate_eq_zip)
  from run_modules_wf[OF outs this] cases show ?thesis
    by (auto simp: modules_ok_def dest!: sendXml_wf)
qed

lemma refresh_ok:
  assumes "refresh S file reload ag m = Inr (Done ag', m')" and "modules_ok ag"
    and "\<And>ag m ag' m'. reload ag m = Inr (Done ag', m') \<Longrightarrow> modules_ok ag'"
  shows "modules_ok ag'"
  using assms by (auto simp: refresh_def done_iffs modules_ok_def split: if_splits)

lemma run_brokers_ok:
  "run_brokers L E k S files ag m = Inr (Done ag', m') \<Longrightarrow> modules_ok ag \<Longrightarrow> modules_ok ag'"
proof (induction L E k S files ag arbitrary: m rule: run_brokers.induct)
  case (2 L E k S config rest ag)
  then show ?case
    by (auto simp: done_iffs pandora_run_broker_def dest!: init_ok refresh_ok agent_pass_ok)
qed (simp add: done_iffs)

lemma own_run_ok:
  assumes "own_run L E S forced ag m = Inr (Done ag', m')" and "modules_ok ag"
  shows "modules_ok ag'"
proof -
  let ?ag0 = "ag\<lparr>ag_startup := False, ag_service := (ag_service ag)\<lparr>run_time := re_time E\<rparr>\<rparr>"
  obtain ag1 m0 m1 where ref: "refresh S (conf_file S) (pandora_init L (re_memory E 0) S) ?ag0 m0 = Inr (Done ag1, m1)"
    and pass: "agent_pass L E 0 S forced (ag1\<lparr>ag_runs := s32 (ag_runs ag1 + 1)\<rparr>) m1 = Inr (Done ag', m')"
    using assms(1) unfolding own_run_def done_iffs Let_def by blast
  have "modules_ok ?ag0" using assms(2) by (simp add: modules_ok_def)
  then have "modules_ok ag1" by (rule refresh_ok[OF ref _ init_ok(1)])
  then show ?thesis using agent_pass_ok[OF pass] by (simp add: modules_ok_def)
qed

lemma pandora_run_parts:
  assumes "pandora_run L E S forced ag m = Inr (Done ag', m')"
  obtains ag2 m2 files m3 ag3 m4 ag4 m5 where "own_run L E S forced ag m = Inr (Done ag2, m2)"
    and "broker_files S m2 = Inr (Done files, m3)" and "run_brokers L E 1 S files ag2 m3 = Inr (Done ag3, m4)"
    and "(if files \<noteq> [] then pandora_init L (re_memory E 0) S ag3 else return_act ag3) m4 = Inr (Done ag4, m5)"
    and "ag_modules ag' = ag_modules ag4"
  using assms unfolding pandora_run_def done_iffs by (fastforce split: if_splits)

lemma pandora_run_ok:
  assumes "pandora_run L E S forced ag m = Inr (Done ag', m')" and "modules_ok ag"
  shows "modules_ok ag'"
proof (rule pandora_run_parts[OF assms(1)])
  fix ag2 m2 files m3 ag3 m4 ag4 m5
  assume own: "own_run L E S forced ag m = Inr (Done ag2, m2)"
    and br: "run_brokers L E 1 S files ag2 m3 = Inr (Done ag3, m4)"
    and four: "(if files \<noteq> [] then pandora_init L (re_memory E 0) S ag3 else return_act ag3) m4 = Inr (Done ag4, m5)"
    and eq: "ag_modules ag' = ag_modules ag4"
  have "modules_ok ag3" by (rule run_brokers_ok[OF br own_run_ok[OF own assms(2)]])
  with four have "modules_ok ag4" by (auto simp: return_act_Done_iff split: if_splits dest!: init_ok(1))
  with eq show ?thesis by (simp add: modules_ok_def)
qed

text \<open>
  The states the agent can reach: after loading its configuration and after each run; between runs
  the machine may change in any way.
\<close>

inductive agent_reach :: "'d clib \<Rightarrow> 'x system \<Rightarrow> 'd agent \<Rightarrow> 'x machine \<Rightarrow> bool" for L S where
  start: "pandora_init L mem S ag m = Inr (Done ag', m') \<Longrightarrow> agent_reach L S ag' m'"
| loop: "\<lbrakk>agent_reach L S ag m; pandora_run L E S forced ag m = Inr (Done ag', m')\<rbrakk> \<Longrightarrow> agent_reach L S ag' m'"
| elsewhere: "agent_reach L S ag m \<Longrightarrow> agent_reach L S ag m'"

subsection \<open>New modules have not been executed\<close>

lemma configure_executions:
  assumes "configure L mem agent intensive d m = Inr (Some m')"
  shows "executions m' = executions m"
proof -
  have i: "executions m2 = executions m1" if "set_interval j s m1 = Inr m2" for j s and m1 m2 :: "'a pandora_module"
    using that by (auto simp: set_interval_def setIntensiveInterval_def setInterval_def
        split: if_splits sum.splits cxx_error.splits)
  have f: "executions (fold (addIntensiveCondition L) cs m1) = executions m1" for cs and m1 :: "'a pandora_module"
    by (induction cs arbitrary: m1) (auto simp: addIntensiveCondition_def Let_def split: option.splits)
  have j: "executions m2 = executions m1" if "set_intensive L agent intensive d m1 = Inr m2" for m1 m2 :: "'a pandora_module"
    using that f by (auto simp: set_intensive_def setIntensiveInterval_def split: if_splits)
  show ?thesis using assms
    by (auto simp: configure_def bind_result_def set_strings_keeps sched_set_type sched_set_limits sched_set_common
        split: sum.splits option.splits dest!: sched_set_cron i j)
qed

lemma getModule_executions:
  assumes "getModuleFromDefinition L mem agent intensive text = Inr (Some obj)"
  shows "executions (fst obj) = 0"
proof -
  let ?d = "subst_macros (scan_definition text)"
  let ?base = "newPandora_Module (junk_output mem) (junk_type mem) (junk_kind mem) (field_of ?d TOKEN_NAME)"
  obtain o1 m where o1: "create_object (junk_int mem) ?base (field_of ?d) = Inr (Some o1)"
    and m: "configure L mem agent intensive ?d (fst o1) = Inr (Some m)" and obj: "obj = (m, snd o1)"
    using assms
    by (auto simp: getModuleFromDefinition_def bind_result_def map_sum_def Let_def
        split: sum.splits option.splits)
  from new_create_object[OF o1 fresh_base] configure_executions[OF m] show ?thesis
    by (simp add: new_object_def fresh_def obj)
qed

lemma add_modules_executions:
  "add_modules L mem agent intensive ts = Inr objs \<Longrightarrow> \<forall>obj\<in>set objs. executions (fst obj) = 0"
proof (induction L mem agent intensive ts arbitrary: objs rule: add_modules.induct)
  case (2 L mem agent intensive t ts)
  then show ?case
    by (fastforce simp: parseModuleDefinition_def bind_result_def map_sum_def
        split: sum.splits option.splits if_splits dest: getModule_executions)
qed simp

lemma newPandora_Module_List_executions:
  "newPandora_Module_List L mem agent intensive fs filename = Inr objs \<Longrightarrow> \<forall>obj\<in>set objs. executions (fst obj) = 0"
  by (auto simp: newPandora_Module_List_def bind_result_def split: option.splits sum.splits
      dest: add_modules_executions)

lemma check_broker_lines_length:
  "check_broker_lines dir ls k xs = Inr ys \<Longrightarrow> length ys = length xs"
  by (induction dir ls k xs arbitrary: ys rule: check_broker_lines.induct)
     (auto split: if_splits option.splits sum.splits)

section \<open>Buffered reports\<close>

lemma content_remove:
  "(\<forall>q. \<not> locked d q) \<Longrightarrow> content_at (snd (removeFile f d)) = (content_at d)(path_of f := None)"
  using disk_files.content_del[of d "path_of f"]
  by (cases "content_at d (path_of f)") (auto simp: removeFile_def remove_entry_def)

lemma locked_remove: "locked (snd (removeFile f d)) = locked d"
  by (simp add: removeFile_def remove_entry_def split: if_splits)

text \<open>When every transfer succeeds, exactly the files that were found are removed.\<close>

lemma send_files_all:
  assumes "\<And>f m. copyDataFile S conf f m = Inr (Done 0, m)" and "\<forall>q. \<not> locked (mc_disk m) q"
  shows "\<exists>m'. send_files S conf base fs m = Inr (Done (), m')
    \<and> (\<forall>q. content_at (mc_disk m') q
         = (if q \<in> (\<lambda>f. path_of (base @ f)) ` set fs then None else content_at (mc_disk m) q))"
  using assms(2)
proof (induction fs arbitrary: m)
  case (Cons f fs)
  let ?m1 = "m\<lparr>mc_disk := snd (removeFile (base @ f) (mc_disk m))\<rparr>"
  have step: "send_files S conf base (f # fs) m = send_files S conf base fs ?m1"
    by (simp add: assms(1) remove_file_def act_defs)
  have "\<forall>q. \<not> locked (mc_disk ?m1) q" using Cons.prems by (simp add: locked_remove)
  from Cons.IH[OF this] show ?case
    unfolding step using content_remove[OF Cons.prems, of "base @ f"] by auto
qed (auto simp: return_act_def)

text \<open>When every transfer fails, nothing is removed.\<close>

lemma send_files_none:
  assumes "\<And>f m. \<exists>rc. rc \<noteq> 0 \<and> copyDataFile S conf f m = Inr (Done rc, m)"
  shows "send_files S conf base fs m = Inr (Done (), m)"
proof (cases fs)
  case (Cons f fs')
  obtain rc where "rc \<noteq> 0" "copyDataFile S conf f m = Inr (Done rc, m)" using assms by blast
  then show ?thesis by (simp add: Cons act_defs)
qed (simp add: return_act_def)

section \<open>Reading the header\<close>

definition attr_text :: "string \<times> string \<Rightarrow> string" where
  "attr_text a = SPC # fst a @ ''='' @ [DQUOTE] @ snd a @ [DQUOTE]"

definition attr_ok :: "string \<times> string \<Rightarrow> bool" where
  "attr_ok a \<longleftrightarrow> CHR ''='' \<notin> set (fst a) \<and> DQUOTE \<notin> set (snd a)"

definition read_attr :: "string \<Rightarrow> ((string \<times> string) \<times> string) option" where
  "read_attr s =
     (case s of
        [] \<Rightarrow> None
      | c # s1 \<Rightarrow>
          if c \<noteq> SPC then None
          else let k = takeWhile (\<lambda>c. c \<noteq> CHR ''='') s1;
                   r = drop (length k) s1
               in if take 2 r \<noteq> [CHR ''='', DQUOTE] then None
                  else let v = takeWhile (\<lambda>c. c \<noteq> DQUOTE) (drop 2 r);
                           t = drop (length v) (drop 2 r)
                       in if t = [] then None else Some ((k, v), tl t))"

lemma read_attr_shorter: "read_attr s = Some (a, t) \<Longrightarrow> length t < length s"
  by (auto simp: read_attr_def Let_def split: list.splits if_splits)

function read_attrs :: "string \<Rightarrow> (string \<times> string) list \<times> string" where
  "read_attrs s =
     (case read_attr s of
        None \<Rightarrow> ([], s)
      | Some (a, t) \<Rightarrow> (case read_attrs t of (as, rest) \<Rightarrow> (a # as, rest)))"
  by pat_completeness auto
termination by (relation "measure length") (auto dest: read_attr_shorter)

declare read_attrs.simps [simp del]

lemma takeWhile_until: "x \<notin> set k \<Longrightarrow> takeWhile (\<lambda>c. c \<noteq> x) (k @ x # t) = k"
  by (induction k) auto

lemma read_attr_text:
  assumes "attr_ok a"
  shows "read_attr (attr_text a @ s) = Some (a, s)"
proof -
  obtain k v where a: "a = (k, v)" by (cases a)
  have "takeWhile (\<lambda>c. c \<noteq> CHR ''='') (k @ CHR ''='' # t) = k" for t
    using assms by (simp add: a attr_ok_def takeWhile_until)
  moreover have "takeWhile (\<lambda>c. c \<noteq> DQUOTE) (v @ DQUOTE # t) = v" for t
    using assms by (simp add: a attr_ok_def takeWhile_until)
  ultimately show ?thesis by (simp add: read_attr_def attr_text_def a Let_def)
qed

interpretation attr_reader: element_reader attr_text attr_ok "\<lambda>a. a" read_attr read_attrs
proof
  show "read_attr (attr_text e @ s) = Some (e, s)" if "attr_ok e" for e s
    using that by (rule read_attr_text)
  show "read_attrs s = ([], s)" if "read_attr s = None" for s
    using that by (subst read_attrs.simps) simp
  show "read_attrs s = (v # fst (read_attrs rest), snd (read_attrs rest))" if "read_attr s = Some (v, rest)" for s v rest
    using that by (subst read_attrs.simps) (simp add: case_prod_unfold)
qed

text \<open>The attributes of the element \<^verbatim>\<open>agent_data\<close>, which begins after the first line.\<close>

definition read_header :: "string \<Rightarrow> (string \<times> string) list" where
  "read_header xml = fst (read_attrs (drop (length ''<agent_data'') (tl (dropWhile (\<lambda>c. c \<noteq> LF) xml))))"

text \<open>The quotation mark that ends a value is written with the next attribute.\<close>

lemma concat_xml_attr:
  "concat (map (\<lambda>(k, v). xml_attr k v) as) @ DQUOTE # s = DQUOTE # concat (map attr_text as) @ s"
  by (induction as) (auto simp: xml_attr_def attr_text_def)

definition header_attrs :: "header_info \<Rightarrow> string \<Rightarrow> (string \<Rightarrow> string) \<Rightarrow> string \<Rightarrow> (string \<times> string) list \<Rightarrow> (string \<times> string) list" where
  "header_attrs H sys_name value_of stamp position =
     [(''agent_name'', if value_of ''agent_name'' = [] then sys_name else value_of ''agent_name''),
      (''description'', value_of ''description''), (''version'', agent_version H)] @
     unless_blank ''timestamp'' stamp @ unless_blank ''address'' (address_of H value_of) @
     unless_blank ''custom_id'' (value_of ''custom_id'') @ unless_blank ''url_address'' (value_of ''url_address'') @
     position @
     [(''interval'', value_of ''interval''), (''os_name'', os_name H), (''os_version'', os_name H @ os_version H),
      (''group'', value_of ''group''), (''parent_agent_name'', value_of ''parent_agent_name'')]"

lemma getXmlHeader_text:
  assumes "getXmlHeader H sys_name value_of = Inr xml" and "value_of ''gis_exec'' = []"
  obtains stamp where "time_text value_of (header_time H) = Inr stamp"
    and "xml = ''<?xml version='' @ [DQUOTE] @ ''1.0'' @ [DQUOTE] @ '' encoding='' @ [DQUOTE] @
      (if value_of ''encoding'' = [] then ''ISO-8859-1'' else value_of ''encoding'') @ [DQUOTE] @ '' ?>'' @ [LF] @
      ''<agent_data'' @ concat (map attr_text (header_attrs H sys_name value_of stamp (position_attrs value_of))) @ ''>'' @ [LF]"
proof -
  obtain stamp where st: "time_text value_of (header_time H) = Inr stamp"
    using assms by (auto simp: getXmlHeader_def Let_def split: sum.splits)
  let ?l = "unless_blank ''timestamp'' stamp @ unless_blank ''address'' (address_of H value_of) @
     unless_blank ''custom_id'' (value_of ''custom_id'') @ unless_blank ''url_address'' (value_of ''url_address'') @
     position_attrs value_of"
  let ?m = "[(''interval'', value_of ''interval''), (''os_name'', os_name H), (''os_version'', os_name H @ os_version H),
      (''group'', value_of ''group''), (''parent_agent_name'', value_of ''parent_agent_name'')]"
  have x: "xml = ''<?xml version='' @ [DQUOTE] @ ''1.0'' @ [DQUOTE] @ '' encoding='' @ [DQUOTE] @
      (if value_of ''encoding'' = [] then ''ISO-8859-1'' else value_of ''encoding'') @ [DQUOTE] @ '' ?>'' @ [LF] @
      ''<agent_data agent_name='' @ [DQUOTE] @ (if value_of ''agent_name'' = [] then sys_name else value_of ''agent_name'') @
      concat (map (\<lambda>(k, v). xml_attr k v) ((''description'', value_of ''description'') # (''version'', agent_version H) # ?l @ ?m)) @
      DQUOTE # ''>'' @ [LF]"
    using assms st by (simp add: getXmlHeader_def Let_def)
  show ?thesis
    by (rule that[OF st], subst x, subst concat_xml_attr) (simp add: header_attrs_def attr_text_def)
qed

section \<open>Properties\<close>

text \<open>(C3) In every state the agent can reach, by loading its configuration and by any number of runs with
  their brokers, downloads and reports, whatever the system and the server answer, all its modules
  satisfy the invariant of the module objects.\<close>

theorem agent_modules_wf:
  assumes "agent_reach L S ag m"
  shows "\<forall>obj\<in>set (ag_modules ag). wf_object obj"
proof -
  have "modules_ok ag"
    using assms by induction (auto intro: init_ok(1) pandora_run_ok)
  then show ?thesis by (simp add: modules_ok_def)
qed

text \<open>With a broker agent the intervals of the agent's own modules have no effect: after every run the
  configuration is loaded anew, no module counts as executed, and so every one of them executes in
  the next run, whatever its interval.\<close>

theorem brokers_restart_modules:
  assumes "pandora_run L E S forced ag m = Inr (Done ag', m')" and "own_run L E S forced ag m = Inr (Done ag2, m2)"
    and "text_files (mc_disk m2) (conf_file S) = Some txt" and "count_broker_agents txt \<noteq> 0"
  shows "\<forall>obj\<in>set (ag_modules ag'). executions (fst obj) = 0
    \<and> (intensive_interval (fst obj) \<noteq> 0 \<longrightarrow> snd (run (fst obj)) = Inr ())"
proof (rule pandora_run_parts[OF assms(1)])
  fix a2 n2 files m3 ag3 m4 ag4 m5
  assume own: "own_run L E S forced ag m = Inr (Done a2, n2)" and br: "broker_files S n2 = Inr (Done files, m3)"
    and four: "(if files \<noteq> [] then pandora_init L (re_memory E 0) S ag3 else return_act ag3) m4 = Inr (Done ag4, m5)"
    and eq: "ag_modules ag' = ag_modules ag4"
  from own assms(2) have n2: "n2 = m2" by simp
  with br assms(3) have "check_broker_agents (install_dir S) txt (replicate (count_broker_agents txt) []) = Inr files"
    by (simp add: broker_files_def lift_Done_iff)
  then have "length files = count_broker_agents txt"
    by (auto simp: check_broker_agents_def dest: check_broker_lines_length)
  with assms(4) four have "pandora_init L (re_memory E 0) S ag3 m4 = Inr (Done ag4, m5)" by (cases files) auto
  then have "\<forall>obj\<in>set (ag_modules ag'). executions (fst obj) = 0"
    unfolding eq by (rule pandora_init_modules) (rule newPandora_Module_List_executions)
  then show ?thesis by (simp add: run_def Let_def)
qed

text \<open>(C24) A report is not lost while the server cannot be reached: if every transfer fails, buffering is on
  and there is space, the report stays in the temporal directory and no other file changes, the
  buffered reports included.\<close>

theorem report_buffered:
  assumes "with_slash (getValue conf ''temporal'') = Inr dir" and "can_write (mc_disk m) (path_of (dir @ f))"
    and "\<And>g m. \<exists>rc. rc \<noteq> 0 \<and> copyDataFile S conf g m = Inr (Done rc, m)" and "xml_buffer \<noteq> 0"
    and "\<forall>b. free_space (dir @ f) = Some b \<longrightarrow> min_free \<le> b"
  shows "\<exists>m'. store_report S conf debug free_space min_free xml_buffer f xml m = Inr (Done (), m')
    \<and> content_at (mc_disk m') = (content_at (mc_disk m))(path_of (dir @ f) \<mapsto> c_str xml)"
proof -
  let ?m1 = "m\<lparr>mc_disk := set_at (path_of (dir @ f)) (Some (File (c_str xml))) (mc_disk m)\<rparr>"
  obtain rc where rc: "rc \<noteq> 0" "copyDataFile S conf f ?m1 = Inr (Done rc, ?m1)" using assms(3) by blast
  have space: "\<not> (case free_space (dir @ f) of None \<Rightarrow> False | Some b \<Rightarrow> b < min_free)"
    using assms(5) by (auto split: option.splits)
  have "sendBufferedXml S conf (getValue conf ''temporal'') ?m1 = Inr (Done (), ?m1)"
    using assms(1) send_files_none[OF assms(3)] by (simp add: sendBufferedXml_def act_defs)
  then have "store_report S conf debug free_space min_free xml_buffer f xml m = Inr (Done (), ?m1)"
    using assms(1,2,4) rc space by (auto simp: store_report_def writeBinFile_def act_defs Let_def)
  then show ?thesis using disk_files.content_put[OF assms(2)] by simp
qed

text \<open>(C12) When the server can be reached again, one pass over the buffered reports delivers them all: every
  file in the temporal directory whose name ends in \<^verbatim>\<open>.data\<close> is gone and no other file changes.\<close>

theorem buffered_reports_sent:
  assumes "with_slash (getValue conf ''temporal'') = Inr dir" and "\<forall>q. \<not> locked (mc_disk m) q"
    and "\<And>f m. copyDataFile S conf f m = Inr (Done 0, m)"
  shows "\<exists>m'. sendBufferedXml S conf (getValue conf ''temporal'') m = Inr (Done (), m')
    \<and> (\<forall>q. content_at (mc_disk m') q
         = (if q \<in> (\<lambda>f. path_of (dir @ f)) ` set (data_files (mc_disk m) (path_of dir)) then None
            else content_at (mc_disk m) q))"
  using send_files_all[OF assms(3,2), of dir "data_files (mc_disk m) (path_of dir)"] assms(1)
  by (auto simp: sendBufferedXml_def act_defs)


section \<open>Examples\<close>

definition agent_config :: string where
  "agent_config = ''debug 1'' @ [LF] @ ''broker_agent b'' @ [LF] @ example_config"

definition agent_machine :: "unit machine" where
  "agent_machine = example_machine\<lparr>mc_disk := example_disk\<lparr>disk_entries :=
     [(''C:'', Dir [(''pandora'', Dir [(''pandora_agent.conf'', File agent_config)])])]\<rparr>\<rparr>"

definition new_agent :: "int agent" where
  "new_agent = \<lparr>ag_modules = [], ag_conf = new_conf,
     ag_service = \<lparr>interval_sec = 60, interval_ms = 60000, run_time = 0, svc_timestamp = 0\<rparr>,
     ag_intensive = 60000, ag_sleep = 0, ag_debug = False, ag_proxy = False, ag_udp = False,
     ag_first_run = True, ag_startup = True, ag_name = [], ag_runs = 0\<rparr>"

definition example_header :: header_info where
  "example_header = \<lparr>os_name = ''Windows'', os_version = ''XP'', system_address = ''10.0.0.1'',
     agent_version = ''3.2'', header_time = None, gis_launch = (\<lambda>_. No_Job)\<rparr>"

definition example_run :: "int run_env" where
  "example_run = \<lparr>re_time = 1000, re_moment = (\<lambda>_ _. example_moment), re_double = (\<lambda>_. 0),
     re_header = (\<lambda>_. example_header), re_rand = (\<lambda>_. 5), re_free_space = (\<lambda>_ _. None),
     re_memory = (\<lambda>_ _. example_memory)\<rparr>"

abbreviation quiet_system :: "unit system" where
  "quiet_system \<equiv> example_system (\<lambda>_. None)"

lemma case_done_iff:
  "(case r of Inr (Done x, m) \<Rightarrow> P x m | _ \<Rightarrow> False) \<longleftrightarrow> (\<exists>x m. r = Inr (Done x, m) \<and> P x m)"
  by (auto split: sum.splits attempt.splits)

lemma example_init:
  obtains ag m where "pandora_init int_lib (\<lambda>_. example_memory) quiet_system new_agent agent_machine = Inr (Done ag, m)"
    and "length (ag_modules ag) = 1"
proof -
  have "case pandora_init int_lib (\<lambda>_. example_memory) quiet_system new_agent agent_machine of
      Inr (Done ag, m) \<Rightarrow> length (ag_modules ag) = 1 | _ \<Rightarrow> False"
    by code_simp
  then show ?thesis using that by (auto split: sum.splits attempt.splits)
qed

theorem agent_modules_wf_witness:
  "\<exists>ag m. agent_reach int_lib quiet_system ag m \<and> length (ag_modules ag) = 1 \<and> wf_object (hd (ag_modules ag))"
proof (rule example_init)
  fix ag m
  assume "pandora_init int_lib (\<lambda>_. example_memory) quiet_system new_agent agent_machine = Inr (Done ag, m)"
    and l: "length (ag_modules ag) = 1"
  then have r: "agent_reach int_lib quiet_system ag m" by (intro agent_reach.start)
  from agent_modules_wf[OF r] r l show ?thesis by (intro exI[of _ ag] exI[of _ m]) (cases "ag_modules ag"; auto)
qed

theorem brokers_restart_modules_witness:
  "case pandora_init int_lib (\<lambda>_. example_memory) quiet_system new_agent agent_machine of
     Inr (Done ag, m) \<Rightarrow>
       (case pandora_run int_lib example_run quiet_system False ag m of
          Inr (Done ag', m') \<Rightarrow> length (ag_modules ag') = 1 \<and> executions (fst (hd (ag_modules ag'))) = 0
        | _ \<Rightarrow> False)
   | _ \<Rightarrow> False"
proof -
  let ?init = "pandora_init int_lib (\<lambda>_. example_memory) quiet_system new_agent agent_machine"
  have "case ?init of
      Inr (Done ag, m) \<Rightarrow>
        (case own_run int_lib example_run quiet_system False ag m of
           Inr (Done ag2, m2) \<Rightarrow>
             (case text_files (mc_disk m2) (conf_file quiet_system) of
                Some txt \<Rightarrow> count_broker_agents txt \<noteq> 0 | None \<Rightarrow> False)
             \<and> (case pandora_run int_lib example_run quiet_system False ag m of
                  Inr (Done ag', m') \<Rightarrow> length (ag_modules ag') = 1 | _ \<Rightarrow> False)
         | _ \<Rightarrow> False)
    | _ \<Rightarrow> False"
    by code_simp
  then obtain ag m ag2 m2 content ag' m' where i: "?init = Inr (Done ag, m)"
    and ow: "own_run int_lib example_run quiet_system False ag m = Inr (Done ag2, m2)"
    and t: "text_files (mc_disk m2) (conf_file quiet_system) = Some content" "count_broker_agents content \<noteq> 0"
    and r: "pandora_run int_lib example_run quiet_system False ag m = Inr (Done ag', m')" "length (ag_modules ag') = 1"
    by (auto simp: case_done_iff split: option.splits)
  from brokers_restart_modules[OF r(1) ow t] r(2) have "executions (fst (hd (ag_modules ag'))) = 0"
    by (cases "ag_modules ag'") auto
  with i r show ?thesis by simp
qed

text \<open>A configuration without a server path whose Tentacle client does not start, and one that works.\<close>

definition tentacle_system :: "bool \<Rightarrow> unit system" where
  "tentacle_system up = quiet_system\<lparr>create_process := (\<lambda>cmd m. (up, m))\<rparr>"

lemma example_copy: "copyDataFile (tentacle_system up) example_conf f m = Inr (Done (if up then 0 else -1), m)"
proof -
  have v: "getValue example_conf ''transfer_mode'' = ''tentacle''" "fix_remote_path ''tentacle'' (getValue example_conf ''server_path'') = Inr ''/in/''"
    "getValue example_conf ''secondary_mode'' = []" "atoi (getValue example_conf ''tentacle_timeout'') = Inr 0"
    "\<exists>d. with_slash (getValue example_conf ''temporal'') = Inr d"
    by (code_simp, code_simp, code_simp, code_simp, simp add: with_end_def example_conf_def getValue_def)
  then show ?thesis
    by (auto simp: copyDataFile_def send_to_primary_def copyTentacleDataFile_def act_defs Let_def
        tentacle_system_def example_system_def)
qed

lemma example_temp: "with_slash (getValue example_conf ''temporal'') = Inr (join_path [''C:'', ''temp'', []])"
  by code_simp

lemma report_path: "path_of (join_path [''C:'', ''temp'', []] @ ''h.1.data'') = [''C:'', ''temp'', ''h.1.data'']"
  by code_simp

theorem report_buffered_witness:
  "\<exists>m'. store_report (tentacle_system False) example_conf False (\<lambda>_. None) 0 1 ''h.1.data'' ''<x>'' example_machine = Inr (Done (), m')
    \<and> content_at (mc_disk m') [''C:'', ''temp'', ''h.1.data''] = Some (c_str ''<x>'')"
proof -
  have w: "can_write (mc_disk example_machine) (path_of (join_path [''C:'', ''temp'', []] @ ''h.1.data''))"
    unfolding report_path by code_simp
  have c: "\<exists>rc. rc \<noteq> 0 \<and> copyDataFile (tentacle_system False) example_conf g m = Inr (Done rc, m)" for g m
    by (simp add: example_copy)
  show ?thesis
    using report_buffered[OF example_temp w c, of 1 "\<lambda>_. None" 0 False "''<x>''"] unfolding report_path by auto
qed

definition buffered_machine :: "unit machine" where
  "buffered_machine = example_machine\<lparr>mc_disk := example_disk\<lparr>disk_entries :=
     [(''C:'', Dir [(''temp'', Dir [(''h.1.data'', File ''<x>''), (''keep'', File ''k'')])])]\<rparr>\<rparr>"

theorem buffered_reports_sent_witness:
  "\<exists>m'. sendBufferedXml (tentacle_system True) example_conf (getValue example_conf ''temporal'') buffered_machine = Inr (Done (), m')
    \<and> content_at (mc_disk m') [''C:'', ''temp'', ''h.1.data''] = None
    \<and> content_at (mc_disk m') [''C:'', ''temp'', ''keep''] = Some ''k''"
proof -
  have c: "copyDataFile (tentacle_system True) example_conf f m = Inr (Done 0, m)" for f m
    by (simp add: example_copy)
  have l: "\<forall>q. \<not> locked (mc_disk buffered_machine) q" by (simp add: buffered_machine_def example_disk_def)
  have f: "data_files (mc_disk buffered_machine) (path_of (join_path [''C:'', ''temp'', []])) = [''h.1.data'']"
    "content_at (mc_disk buffered_machine) [''C:'', ''temp'', ''keep''] = Some ''k''"
    by code_simp+
  show ?thesis
    using buffered_reports_sent[OF example_temp l c] unfolding f(1) list.set image_insert image_empty report_path by (auto simp: f(2))
qed

definition header_values :: "string \<Rightarrow> string" where
  "header_values k = (if k = ''autotime'' then ''1'' else if k = ''interval'' then ''300'' else [])"


end
