(* ===== verification/Pandora_UDP.thy ===== *)
theory Pandora_UDP
  imports Pandora_Agent
begin

text \<open>
  The server for commands, \<^verbatim>\<open>src/udp_server/udp_server.cc\<close>: a thread of the service that waits for datagrams and
  executes them.  What \<^verbatim>\<open>recvfrom\<close> returns, and the calls of \<^verbatim>\<open>stop\<close> by the thread of the service, come as a list of
  events; the calls of \<^verbatim>\<open>Pandora_Wmi\<close>, whose results are not looked at, are functions of the record \<open>wmi\<close>.
\<close>

section \<open>The server\<close>

record udp_server =
  udp_address :: u32
  udp_auth_address :: u32
  udp_port :: int
  udp_running :: bool

record 'x wmi =
  startService :: "string \<Rightarrow> 'x machine \<Rightarrow> 'x machine"
  stopService :: "string \<Rightarrow> 'x machine \<Rightarrow> 'x machine"
  runProgram :: "string \<Rightarrow> 'x machine \<Rightarrow> 'x machine"

abbreviation INADDR_ANY :: u32 where "INADDR_ANY \<equiv> 0"
abbreviation MAX_PACKET_SIZE :: nat where "MAX_PACKET_SIZE \<equiv> 1024"

text \<open>The argument \<open>inet_addr\<close> is the function of Winsock; it gives the address in the order of the network.\<close>

definition new_UDP_Server :: "(string \<Rightarrow> u32) \<Rightarrow> string \<Rightarrow> string \<Rightarrow> int \<Rightarrow> udp_server" where
  "new_UDP_Server inet_addr address auth_address port =
     \<lparr>udp_address = (if address = [] then INADDR_ANY else inet_addr (c_str address)),
      udp_auth_address = (if auth_address = [] then INADDR_ANY else inet_addr (c_str auth_address)),
      udp_port = port, udp_running = False\<rparr>"

definition udp_start :: "bool \<Rightarrow> udp_server \<Rightarrow> int \<times> udp_server" where
  "udp_start thread_created srv =
     (if udp_running srv then (1, srv)
      else if \<not> thread_created then (1, srv\<lparr>udp_running := False\<rparr>)
      else (0, srv\<lparr>udp_running := True\<rparr>))"

definition udp_stop :: "udp_server \<Rightarrow> int \<times> udp_server" where
  "udp_stop srv = (if udp_running srv then (1, srv) else (0, srv\<lparr>udp_running := False\<rparr>))"

text \<open>\<^verbatim>\<open>htonl\<close> turns the bytes of a number around on the machines the agent runs on.\<close>

definition htonl :: "u32 \<Rightarrow> u32" where
  "htonl a = push_bit 24 (a AND 0xFF) OR push_bit 8 (a AND 0xFF00) OR drop_bit 8 (a AND 0xFF0000) OR drop_bit 24 a"

definition bind_address :: "udp_server \<Rightarrow> u32" where
  "bind_address srv = htonl (udp_address srv)"

section \<open>Commands\<close>

text \<open>
  The sections for services and processes: a result is a value the function returns at once, none that it goes on.
\<close>

definition manage_service :: "'x wmi \<Rightarrow> agent_conf \<Rightarrow> string \<Rightarrow> string \<Rightarrow> ('x, int option) action" where
  "manage_service W conf oper target =
     bind_act (lift_result (atoi (getValue conf (map to_lower (''service_'' @ target))))) (\<lambda>allowed.
     if allowed \<noteq> 1 then return_act (Some 1)
     else if oper = ''START'' then call (\<lambda>m. (None, startService W target m))
     else if oper = ''STOP'' then call (\<lambda>m. (None, stopService W target m))
     else return_act None)"

definition manage_process :: "'x wmi \<Rightarrow> agent_conf \<Rightarrow> string \<Rightarrow> string \<Rightarrow> ('x, int option) action" where
  "manage_process W conf oper target =
     (let var = map to_lower (''process_'' @ target)
      in if oper \<noteq> ''START'' \<and> oper \<noteq> ''STOP'' then return_act (Some 1)
         else let value = getValue conf (var @ (if oper = ''START'' then ''_start'' else ''_stop''))
              in if value = [] then return_act (Some 1)
                 else call (\<lambda>m. (None, runProgram W (c_str value) m)))"

definition unless_returned :: "('x, int option) action \<Rightarrow> ('x, int option) action \<Rightarrow> ('x, int option) action" where
  "unless_returned a b = bind_act a (\<lambda>r. case r of Some rc \<Rightarrow> return_act (Some rc) | None \<Rightarrow> b)"

definition process_command ::
    "'d clib \<Rightarrow> 'd run_env \<Rightarrow> 'x system \<Rightarrow> 'x wmi \<Rightarrow> string \<Rightarrow> 'd agent \<Rightarrow> ('x, int \<times> 'd agent) action" where
  "process_command L E S W cmd ag =
     (let words = take 3 (tokens is_space (c_str cmd))
      in if list_ex (\<lambda>w. MAX_PACKET_SIZE \<le> length w) words then undefined_act
         else if length words < 3 then return_act (1, ag)
         else
           let oper = words ! 0; action = words ! 1; target = words ! 2; conf = ag_conf ag
           in if oper = ''REFRESH'' then bind_act (pandora_run L E S True ag) (\<lambda>ag'. return_act (0, ag'))
              else
                bind_act
                  (unless_returned (if action = ''SERVICE'' then manage_service W conf oper target else return_act None)
                     (if action = ''PROCESS'' then manage_process W conf oper target else return_act None))
                  (\<lambda>r. return_act (case r of Some rc \<Rightarrow> rc | None \<Rightarrow> 0, ag)))"

section \<open>Listening\<close>

datatype udp_event = Received u32 string | Socket_Error | Stop_Called

text \<open>
  Each command may run the agent, and sees the machine of its own time, \<open>E k\<close>.  Whether the server runs is looked at
  between two datagrams; a call of \<^verbatim>\<open>stop\<close> finds the thread waiting in \<^verbatim>\<open>recvfrom\<close>, and there it is when the events are over.
\<close>

fun listen_loop ::
    "'d clib \<Rightarrow> (nat \<Rightarrow> 'd run_env) \<Rightarrow> 'x system \<Rightarrow> 'x wmi \<Rightarrow> nat \<Rightarrow> udp_event list \<Rightarrow> udp_server \<Rightarrow> 'd agent
     \<Rightarrow> ('x, udp_server \<times> 'd agent) action" where
  "listen_loop L E S W k [] srv ag = return_act (srv, ag)"
| "listen_loop L E S W k (Stop_Called # es) srv ag = listen_loop L E S W k es (snd (udp_stop srv)) ag"
| "listen_loop L E S W k (Socket_Error # es) srv ag = return_act (srv, ag)"
| "listen_loop L E S W k (Received sender mesg # es) srv ag =
     bind_act
       (if udp_auth_address srv \<noteq> INADDR_ANY \<and> udp_auth_address srv \<noteq> sender then return_act (k, ag)
        else if MAX_PACKET_SIZE \<le> length mesg then undefined_act
        else bind_act (process_command L (E k) S W mesg ag) (\<lambda>(rc, ag'). return_act (Suc k, ag')))
       (\<lambda>(k, ag). if udp_running srv then listen_loop L E S W k es srv ag else return_act (srv, ag))"

definition listen ::
    "'d clib \<Rightarrow> (nat \<Rightarrow> 'd run_env) \<Rightarrow> 'x system \<Rightarrow> 'x wmi \<Rightarrow> bool \<Rightarrow> udp_event list \<Rightarrow> udp_server \<Rightarrow> 'd agent
     \<Rightarrow> ('x, udp_server \<times> 'd agent) action" where
  "listen L E S W wsa_started es srv ag =
     (if wsa_started \<and> udp_running srv then listen_loop L E S W 0 es srv ag else return_act (srv, ag))"

section \<open>Lemmas\<close>

lemma bind_return [simp]: "bind_act (return_act x) f = f x"
  by (rule ext) (simp add: bind_act_def return_act_def)

lemma bind_assoc: "bind_act (bind_act a f) g = bind_act a (\<lambda>x. bind_act (f x) g)"
  by (rule ext) (simp add: bind_act_def split: sum.splits attempt.splits)

lemma call_Done_iff: "call f m = Inr (Done x, m') \<longleftrightarrow> f m = (x, m')"
  by (auto simp: call_def split: prod.splits)

lemma undefined_Done_iff: "undefined_act m = Inr (Done x, m') \<longleftrightarrow> False"
  by (simp add: undefined_act_def)

text \<open>What the configuration allows a command to do.\<close>

definition permitted :: "'x wmi \<Rightarrow> agent_conf \<Rightarrow> 'x machine \<Rightarrow> 'x machine \<Rightarrow> bool" where
  "permitted W conf m m' \<longleftrightarrow>
     m' = m
     \<or> (\<exists>target. atoi (getValue conf (map to_lower (''service_'' @ target))) = Inr 1
          \<and> (m' = startService W target m \<or> m' = stopService W target m))
     \<or> (\<exists>target suffix. suffix \<in> {''_start'', ''_stop''} \<and> getValue conf (map to_lower (''process_'' @ target) @ suffix) \<noteq> []
          \<and> m' = runProgram W (c_str (getValue conf (map to_lower (''process_'' @ target) @ suffix))) m)"

lemma manage_service_permitted: "manage_service W conf oper target m = Inr (Done r, m') \<Longrightarrow> permitted W conf m m'"
  by (auto simp: manage_service_def permitted_def done_iffs call_Done_iff split: if_splits)

lemma manage_process_permitted:
  assumes "manage_process W conf oper target m = Inr (Done r, m')"
  shows "permitted W conf m m'"
proof -
  obtain suffix where "suffix \<in> {''_start'', ''_stop''}" and "m' = m
      \<or> getValue conf (map to_lower (''process_'' @ target) @ suffix) \<noteq> []
        \<and> m' = runProgram W (c_str (getValue conf (map to_lower (''process_'' @ target) @ suffix))) m"
    using assms by (fastforce simp: manage_process_def Let_def done_iffs call_Done_iff split: if_splits)
  then show ?thesis unfolding permitted_def by blast
qed

lemma unless_returned_Done:
  "unless_returned a b m = Inr (Done r, m') \<longleftrightarrow>
     (\<exists>rc. a m = Inr (Done (Some rc), m') \<and> r = Some rc) \<or> (\<exists>m1. a m = Inr (Done None, m1) \<and> b m1 = Inr (Done r, m'))"
  by (force simp: unless_returned_def done_iffs split: option.splits)

text \<open>What a running server takes notice of.\<close>

definition heard :: "udp_server \<Rightarrow> udp_event \<Rightarrow> bool" where
  "heard srv e =
     (case e of
        Received sender _ \<Rightarrow> udp_auth_address srv = INADDR_ANY \<or> udp_auth_address srv = sender
      | Socket_Error \<Rightarrow> True
      | Stop_Called \<Rightarrow> False)"

lemma listen_loop_heard:
  assumes "udp_running srv"
  shows "listen_loop L E S W k es srv ag = listen_loop L E S W k (filter (heard srv) es) srv ag"
proof (induction es arbitrary: k ag)
  case (Cons e es)
  then show ?case using assms
    by (cases e) (simp_all add: heard_def udp_stop_def cong: if_cong)
qed simp

lemma tokens_length: "w \<in> set (tokens P s) \<Longrightarrow> length w \<le> length s"
proof (induction P s rule: tokens.induct)
  case (1 P s)
  let ?t = "dropWhile P s"
  show ?case
  proof (cases "?t = []")
    case True
    then show ?thesis using 1(2) by (subst (asm) tokens.simps) simp
  next
    case False
    have "length ?t \<le> length s" by (rule length_dropWhile_le)
    moreover have "length (takeWhile (\<lambda>c. \<not> P c) ?t) \<le> length ?t" by (rule length_takeWhile_le)
    moreover have "length (dropWhile (\<lambda>c. \<not> P c) ?t) \<le> length ?t" by (rule length_dropWhile_le)
    moreover have "w = takeWhile (\<lambda>c. \<not> P c) ?t \<or> w \<in> set (tokens P (dropWhile (\<lambda>c. \<not> P c) ?t))"
      using 1(2) False tokens.simps[of P s] by (simp add: Let_def split: if_splits)
    ultimately show ?thesis using 1(1)[OF refl False] by fastforce
  qed
qed

lemma words_fit: "length mesg < MAX_PACKET_SIZE \<Longrightarrow> \<not> list_ex (\<lambda>w. MAX_PACKET_SIZE \<le> length w) (take 3 (tokens is_space (c_str mesg)))"
  using tokens_length[of _ is_space "c_str mesg"] length_takeWhile_le[of "\<lambda>c. c \<noteq> NUL" mesg]
  by (fastforce simp: list_ex_iff c_str_def dest: in_set_takeD)

text \<open>A word of a command.\<close>

definition plain_word :: "string \<Rightarrow> bool" where
  "plain_word w \<longleftrightarrow> w \<noteq> [] \<and> (\<forall>c\<in>set w. \<not> is_space c \<and> c \<noteq> NUL)"

lemma tokens_single_word: "w \<noteq> [] \<Longrightarrow> \<forall>c\<in>set w. \<not> P c \<Longrightarrow> P s \<Longrightarrow> tokens P (w @ s # r) = w # tokens P r"
proof -
  assume w: "w \<noteq> []" "\<forall>c\<in>set w. \<not> P c" and s: "P s"
  have "dropWhile P (w @ s # r) = w @ s # r" using w by (cases w) simp_all
  moreover have "tokens P (s # r) = tokens P r" using s tokens.simps[of P "s # r"] tokens.simps[of P r] by simp
  ultimately show ?thesis using w s tokens.simps[of P "w @ s # r"] by (simp add: takeWhile_append2 dropWhile_append2)
qed

lemma tokens_last_word: "w \<noteq> [] \<Longrightarrow> \<forall>c\<in>set w. \<not> P c \<Longrightarrow> tokens P w = [w]"
proof -
  assume w: "w \<noteq> []" "\<forall>c\<in>set w. \<not> P c"
  then have "dropWhile P w = w" by (cases w) simp_all
  moreover have "dropWhile (\<lambda>c. \<not> P c) w = []" "takeWhile (\<lambda>c. \<not> P c) w = w"
    using w by (simp_all add: dropWhile_eq_Nil_conv takeWhile_eq_all_conv)
  ultimately show ?thesis using w tokens.simps[of P w] tokens.simps[of P "[]"] by simp
qed

lemma plain_words:
  assumes "plain_word a" and "plain_word b" and "plain_word c"
  shows "tokens is_space (c_str (a @ SPC # b @ SPC # c)) = [a, b, c]"
proof -
  have "c_str (a @ SPC # b @ SPC # c) = a @ SPC # b @ SPC # c"
    using assms by (auto simp: c_str_def plain_word_def takeWhile_eq_all_conv)
  moreover have "is_space SPC" by (simp add: is_space_def)
  ultimately show ?thesis using assms by (simp add: tokens_single_word tokens_last_word plain_word_def)
qed

section \<open>Properties\<close>

text \<open>(C5)
  A command does nothing the configuration does not allow: it is a request to run the agent at once, or it changes
  nothing, or it starts or stops a service whose key \<^verbatim>\<open>service_\<close> is 1, or it runs a program that the configuration
  names for the process, never text of the datagram itself.
\<close>

theorem udp_command_permitted:
  assumes "process_command L E S W cmd ag m = Inr (Done (rc, ag'), m')"
  shows "pandora_run L E S True ag m = Inr (Done ag', m') \<or> ag' = ag \<and> permitted W (ag_conf ag) m m'"
proof -
  have same: "permitted W conf m m" for W :: "'b wmi" and conf m by (simp add: permitted_def)
  show ?thesis using assms
    by (auto simp: process_command_def Let_def done_iffs undefined_Done_iff unless_returned_Done same split: if_splits
      dest: manage_service_permitted manage_process_permitted)
qed



text \<open>A datagram that fills the buffer leaves no room for the NUL: if it comes from the authorised address, or no address
  is set, the server writes beyond its buffer.  A shorter datagram is safe, its words too fit their buffers.
\<close>

theorem full_datagram_overflows:
  assumes "udp_running srv" and "heard srv (Received sender mesg)"
  shows "listen L E S W True (Received sender mesg # es) srv ag m =
    (if length mesg < MAX_PACKET_SIZE
     then bind_act (process_command L (E 0) S W mesg ag) (\<lambda>(rc, ag'). listen_loop L E S W 1 es srv ag') m
     else Inl (Cxx Undefined_Behaviour))
   \<and> (length mesg < MAX_PACKET_SIZE \<longrightarrow> \<not> list_ex (\<lambda>w. MAX_PACKET_SIZE \<le> length w) (take 3 (tokens is_space (c_str mesg))))"
  using assms words_fit[of mesg]
  by (auto simp: listen_def heard_def bind_assoc case_prod_unfold undefined_act_def bind_act_def[of undefined_act])

text \<open>The authorised machine can start and stop the processes of the configuration: the program named for the process and
  the operation is run, with the process's name in lower case, and nothing else happens.
\<close>

theorem udp_process_run:
  assumes "udp_running srv" and "heard srv (Received sender mesg)"
    and "mesg = oper @ SPC # ''PROCESS'' @ SPC # target" and "plain_word target" and "length mesg < MAX_PACKET_SIZE"
    and "(oper, ending) \<in> {(''START'', ''_start''), (''STOP'', ''_stop'')}"
    and "getValue (ag_conf ag) (map to_lower (''process_'' @ target) @ ending) = value" and "value \<noteq> []"
  shows "listen L E S W True [Received sender mesg] srv ag m = Inr (Done (srv, ag), runProgram W (c_str value) m)"
proof -
  have "plain_word oper" "oper \<noteq> ''REFRESH''" "plain_word ''PROCESS''" using assms(6) by (auto simp: plain_word_def is_space_def)
  then have "tokens is_space (c_str mesg) = [oper, ''PROCESS'', target]" using plain_words assms(3,4) by blast
  then have "process_command L (E 0) S W mesg ag m = Inr (Done (0, ag), runProgram W (c_str value) m)"
    using assms(6-8) words_fit[OF assms(5)] \<open>oper \<noteq> ''REFRESH''\<close>
    by (auto simp: process_command_def Let_def unless_returned_def manage_process_def bind_act_def call_def return_act_def)
  then show ?thesis using assms(1,2,5) by (auto simp: listen_def heard_def bind_act_def return_act_def)
qed


section \<open>Witnesses\<close>

text \<open>A machine that remembers the last program run, a configuration with one process, and a server that runs.\<close>

definition noting_wmi :: "unit wmi" where
  "noting_wmi = \<lparr>startService = (\<lambda>t m. m\<lparr>mc_cwd := t\<rparr>), stopService = (\<lambda>t m. m\<lparr>mc_cwd := []\<rparr>),
     runProgram = (\<lambda>p m. m\<lparr>mc_cwd := p\<rparr>)\<rparr>"

definition udp_agent :: "int agent" where
  "udp_agent = new_agent\<lparr>ag_conf := new_conf\<lparr>key_values :=
     [\<lparr>kv_key = ''process_db_start'', kv_value = ''db.exe''\<rparr>, \<lparr>kv_key = ''service_web'', kv_value = ''1''\<rparr>]\<rparr>\<rparr>"

definition example_udp :: udp_server where
  "example_udp = snd (udp_start True (new_UDP_Server (\<lambda>_. 0x0100007F) [] ''127.0.0.1'' 41122))"

lemma example_udp_simps: "udp_running example_udp" "heard example_udp (Received 0x0100007F msg)" "\<not> heard example_udp (Received 5 msg)"
  by (simp_all add: example_udp_def udp_start_def new_UDP_Server_def heard_def)

theorem udp_command_permitted_witness:
  "\<exists>m'. process_command int_lib example_run quiet_system noting_wmi ''START SERVICE Web'' udp_agent example_machine = Inr (Done (0, udp_agent), m')
     \<and> (pandora_run int_lib example_run quiet_system True udp_agent example_machine = Inr (Done udp_agent, m')
        \<or> permitted noting_wmi (ag_conf udp_agent) example_machine m')"
proof -
  have "case process_command int_lib example_run quiet_system noting_wmi ''START SERVICE Web'' udp_agent example_machine of
      Inr (Done (rc, ag), m) \<Rightarrow> rc = 0 | _ \<Rightarrow> False" by code_simp
  then obtain ag m' where p: "process_command int_lib example_run quiet_system noting_wmi ''START SERVICE Web'' udp_agent example_machine = Inr (Done (0, ag), m')"
    by (auto split: sum.splits attempt.splits)
  moreover have "ag = udp_agent"
    using p by (auto simp: process_command_def Let_def done_iffs undefined_Done_iff tokens.simps c_str_def is_space_def split: if_splits)
  ultimately show ?thesis using udp_command_permitted[OF p] by blast
qed


theorem full_datagram_overflows_witness:
  "listen int_lib (\<lambda>_. example_run) quiet_system noting_wmi True [Received 0x0100007F (replicate 1024 CHR ''A'')] example_udp udp_agent example_machine
   = Inl (Cxx Undefined_Behaviour)"
  using full_datagram_overflows[OF example_udp_simps(1,2), of int_lib "\<lambda>_. example_run" quiet_system noting_wmi "replicate 1024 CHR ''A''" "[]" udp_agent example_machine]
  by simp

theorem udp_process_run_witness:
  "listen int_lib (\<lambda>_. example_run) quiet_system noting_wmi True [Received 0x0100007F ''START PROCESS DB''] example_udp udp_agent example_machine
   = Inr (Done (example_udp, udp_agent), example_machine\<lparr>mc_cwd := ''db.exe''\<rparr>)"
proof -
  have v: "getValue (ag_conf udp_agent) (map to_lower (''process_'' @ ''DB'') @ ''_start'') = ''db.exe''" by code_simp
  have "plain_word ''DB''" by (simp add: plain_word_def is_space_def)
  from udp_process_run[OF example_udp_simps(1,2) _ this _ _ v, of "''START PROCESS DB''" "''START''"
      int_lib "\<lambda>_. example_run" quiet_system noting_wmi example_machine]
  show ?thesis by (simp add: noting_wmi_def c_str_def)
qed

end
