(* ===== verification/SSH_Wire.thy ===== *)
theory SSH_Wire
  imports Pandora_Prelude
begin

text \<open>
  The byte-level helpers of the bundled libssh2, \<^verbatim>\<open>src/ssh/libssh2/misc.c\<close>: integers in network
  byte order and base64.  An \<^verbatim>\<open>unsigned long\<close> of the 32-bit Windows build has 32 bits, a
  \<^verbatim>\<open>libssh2_uint64_t\<close> has 64.  A decoder takes the bytes from the pointer it is given on.
\<close>

unbundle bit_operations_syntax

section \<open>Integers in network byte order\<close>

definition libssh2_ntohu32 :: "bytes \<Rightarrow> u32" where
  "libssh2_ntohu32 buf =
     push_bit 24 (ucast (buf ! 0)) OR push_bit 16 (ucast (buf ! 1)) OR push_bit 8 (ucast (buf ! 2))
     OR ucast (buf ! 3)"

definition libssh2_ntohu64 :: "bytes \<Rightarrow> u64" where
  "libssh2_ntohu64 buf =
     (let msl = push_bit 24 (ucast (buf ! 0)) OR push_bit 16 (ucast (buf ! 1)) OR push_bit 8 (ucast (buf ! 2))
                OR ucast (buf ! 3) :: u32;
          lsl = push_bit 24 (ucast (buf ! 4)) OR push_bit 16 (ucast (buf ! 5)) OR push_bit 8 (ucast (buf ! 6))
                OR ucast (buf ! 7) :: u32
      in ucast ((msl * 65536) * 65536 + lsl))"

definition libssh2_htonu32 :: "u32 \<Rightarrow> bytes" where
  "libssh2_htonu32 value =
     [ucast (drop_bit 24 value AND 0xFF), ucast (drop_bit 16 value AND 0xFF),
      ucast (drop_bit 8 value AND 0xFF), ucast (value AND 0xFF)]"

definition libssh2_htonu64 :: "u64 \<Rightarrow> bytes" where
  "libssh2_htonu64 value =
     (let msl = ucast ((value div 65536) div 65536) :: u32
      in [ucast (drop_bit 24 msl AND 0xFF), ucast (drop_bit 16 msl AND 0xFF),
          ucast (drop_bit 8 msl AND 0xFF), ucast (msl AND 0xFF),
          ucast (drop_bit 24 value AND 0xFF), ucast (drop_bit 16 value AND 0xFF),
          ucast (drop_bit 8 value AND 0xFF), ucast (value AND 0xFF)])"

section \<open>Base64\<close>

definition libssh2_base64_table :: string where
  "libssh2_base64_table = ''ABCDEFGHIJKLMNOPQRSTUVWXYZabcdefghijklmnopqrstuvwxyz0123456789+/''"

definition libssh2_base64_reverse_table :: "int list" where
  "libssh2_base64_reverse_table =
    [-1, -1, -1, -1, -1, -1, -1, -1, -1, -1, -1, -1, -1, -1, -1, -1,
     -1, -1, -1, -1, -1, -1, -1, -1, -1, -1, -1, -1, -1, -1, -1, -1,
     -1, -1, -1, -1, -1, -1, -1, -1, -1, -1, -1, 62, -1, -1, -1, 63,
     52, 53, 54, 55, 56, 57, 58, 59, 60, 61, -1, -1, -1, -1, -1, -1,
     -1,  0,  1,  2,  3,  4,  5,  6,  7,  8,  9, 10, 11, 12, 13, 14,
     15, 16, 17, 18, 19, 20, 21, 22, 23, 24, 25, -1, -1, -1, -1, -1,
     -1, 26, 27, 28, 29, 30, 31, 32, 33, 34, 35, 36, 37, 38, 39, 40,
     41, 42, 43, 44, 45, 46, 47, 48, 49, 50, 51, -1, -1, -1, -1, -1]
     @ replicate 128 (-1)"

text \<open>
  The decoding loop: \<open>i\<close> counts the characters of the alphabet, \<open>len\<close> is the write position in
  the output buffer \<open>d\<close>.  A write outside the buffer is undefined behaviour.
\<close>

definition b64_put :: "bytes \<Rightarrow> nat \<Rightarrow> u8 \<Rightarrow> bytes result" where
  "b64_put d len v = (if len < length d then Inr (d[len := v]) else Inl Undefined_Behaviour)"

definition b64_char :: "nat \<Rightarrow> int \<Rightarrow> nat \<Rightarrow> bytes \<Rightarrow> (nat \<times> bytes) result" where
  "b64_char i v len d =
     (let w = word_of_int v :: u32
      in if i mod 4 = 0 then map_sum id (\<lambda>d. (len, d)) (b64_put d len (ucast (push_bit 2 w)))
         else if i mod 4 = 1 then
           (case b64_put d len (d ! len OR ucast (drop_bit 4 w)) of
              Inl e \<Rightarrow> Inl e
            | Inr d \<Rightarrow> map_sum id (\<lambda>d. (len + 1, d)) (b64_put d (len + 1) (ucast (push_bit 4 w))))
         else if i mod 4 = 2 then
           (case b64_put d len (d ! len OR ucast (drop_bit 2 w)) of
              Inl e \<Rightarrow> Inl e
            | Inr d \<Rightarrow> map_sum id (\<lambda>d. (len + 1, d)) (b64_put d (len + 1) (ucast (push_bit 6 w))))
         else map_sum id (\<lambda>d. (len + 1, d)) (b64_put d len (d ! len OR ucast w)))"

fun b64_loop :: "bytes \<Rightarrow> nat \<Rightarrow> nat \<Rightarrow> bytes \<Rightarrow> (nat \<times> nat \<times> bytes) result" where
  "b64_loop [] i len d = Inr (i, len, d)"
| "b64_loop (c # src) i len d =
     (let v = libssh2_base64_reverse_table ! unat c
      in if v < 0 then b64_loop src i len d
         else case b64_char i v len d of
                Inl e \<Rightarrow> Inl e
              | Inr (len, d) \<Rightarrow> b64_loop src (i + 1) len d)"

text \<open>
  \<^verbatim>\<open>libssh2_base64_decode\<close>: \<open>None\<close> for the return value -1.  The new buffer holds whatever the
  allocator left in it.
\<close>

definition libssh2_base64_decode :: "bool \<Rightarrow> (nat \<Rightarrow> u8) \<Rightarrow> bytes \<Rightarrow> bytes option result" where
  "libssh2_base64_decode alloc_ok junk src =
     (if \<not> alloc_ok then Inr None
      else case b64_loop src 0 0 (map junk [0..<3 * length src div 4 + 1]) of
             Inl e \<Rightarrow> Inl e
           | Inr (i, len, d) \<Rightarrow> if i mod 4 = 1 then Inr None else Inr (Some (take len d)))"

section \<open>The interface of a codec\<close>

locale wire_codec =
  fixes enc :: "'a \<Rightarrow> bytes" and dec :: "bytes \<Rightarrow> 'a" and width :: nat
  assumes enc_length: "length (enc x) = width"
    and dec_enc: "dec (enc x @ rest) = x"
    and dec_prefix: "width \<le> length b \<Longrightarrow> dec b = dec (take width b)"
begin

lemma enc_inject: "enc x = enc y \<Longrightarrow> x = y"
  by (metis dec_enc)

lemma dec_at: "take width (drop n b) = enc x \<Longrightarrow> n + width \<le> length b \<Longrightarrow> dec (drop n b) = x"
  using dec_enc[of x "[]"] dec_prefix[of "drop n b"] by simp

lemma enc_stream: "dec (drop (length a) (a @ enc x @ rest)) = x"
  by (simp add: dec_enc)

end

lemma htonu32_length [simp]: "length (libssh2_htonu32 x) = 4"
  by (simp add: libssh2_htonu32_def)

lemma ucast_and_ff: "ucast (x AND 0xFF :: 'a::len word) = (ucast x :: u8)"
proof -
  have "(0xFF :: 'a word) = mask 8" by (simp add: mask_eq_exp_minus_1)
  then have e: "x AND 0xFF = x AND mask 8" by simp
  show ?thesis unfolding e
    by (rule bit_word_eqI) (auto simp: bit_simps dest: bit_imp_le_length)
qed

lemma u32_of_bytes:
  fixes x :: u32
  shows "push_bit 24 (ucast (ucast (drop_bit 24 x) :: u8)) OR push_bit 16 (ucast (ucast (drop_bit 16 x) :: u8))
     OR push_bit 8 (ucast (ucast (drop_bit 8 x) :: u8)) OR ucast (ucast x :: u8) = x" (is "?l = x")
proof (rule bit_word_eqI)
  fix n assume n: "n < LENGTH(32)"
  then consider "n < 8" | "8 \<le> n" "n < 16" | "16 \<le> n" "n < 24" | "24 \<le> n" "n < 32" by fastforce
  then show "bit ?l n = bit x n"
    by cases (auto simp: bit_simps)
qed

interpretation u32_codec: wire_codec libssh2_htonu32 libssh2_ntohu32 4
proof unfold_locales
  show "libssh2_ntohu32 (libssh2_htonu32 x @ rest) = x" for x rest
    unfolding libssh2_htonu32_def libssh2_ntohu32_def by (simp add: ucast_and_ff u32_of_bytes)
  show "libssh2_ntohu32 b = libssh2_ntohu32 (take 4 b)" if "4 \<le> length b" for b
    using that by (simp add: libssh2_ntohu32_def)
qed simp

section \<open>Base64: what the decoder computes\<close>

text \<open>The values of the characters of the alphabet, in order; all other characters are skipped.\<close>

definition sextets :: "bytes \<Rightarrow> u32 list" where
  "sextets src = map word_of_int (filter (\<lambda>v. 0 \<le> v) (map (\<lambda>c. libssh2_base64_reverse_table ! unat c) src))"

fun join_sextets :: "u32 list \<Rightarrow> bytes" where
  "join_sextets (v0 # v1 # v2 # v3 # vs) =
     ucast (push_bit 2 v0 OR drop_bit 4 v1) # ucast (push_bit 4 v1 OR drop_bit 2 v2)
     # ucast (push_bit 6 v2 OR v3) # join_sextets vs"
| "join_sextets [v0, v1, v2] =
     [ucast (push_bit 2 v0 OR drop_bit 4 v1), ucast (push_bit 4 v1 OR drop_bit 2 v2)]"
| "join_sextets [v0, v1] = [ucast (push_bit 2 v0 OR drop_bit 4 v1)]"
| "join_sextets _ = []"

text \<open>The loop on the values instead of the characters.\<close>

fun sextet_loop :: "u32 list \<Rightarrow> nat \<Rightarrow> nat \<Rightarrow> bytes \<Rightarrow> (nat \<times> nat \<times> bytes) result" where
  "sextet_loop [] i len d = Inr (i, len, d)"
| "sextet_loop (w # ws) i len d =
     (case b64_char i (uint w) len d of
        Inl e \<Rightarrow> Inl e
      | Inr (len, d) \<Rightarrow> sextet_loop ws (i + 1) len d)"

lemma reverse_table_range: "list_all (\<lambda>v. v < 64) libssh2_base64_reverse_table"
  by (simp add: libssh2_base64_reverse_table_def list_all_iff)

lemma reverse_table_bound: "libssh2_base64_reverse_table ! unat (c :: u8) < 64"
proof -
  have "length libssh2_base64_reverse_table = 256" by (simp add: libssh2_base64_reverse_table_def)
  moreover have "unat c < 256" using unsigned_less[of c] by simp
  ultimately show ?thesis using reverse_table_range by (simp add: list_all_length)
qed

lemma b64_loop_sextets: "b64_loop src i len d = sextet_loop (sextets src) i len d"
proof (induction src arbitrary: i len d)
  case Nil
  then show ?case by (simp add: sextets_def)
next
  case (Cons c src)
  let ?v = "libssh2_base64_reverse_table ! unat c"
  show ?case
  proof (cases "0 \<le> ?v")
    case True
    have "uint (word_of_int ?v :: u32) = ?v"
      using True reverse_table_bound[of c] by (simp add: uint_word_of_int)
    with True Cons show ?thesis by (simp add: sextets_def split: sum.splits prod.splits)
  next
    case False
    with Cons show ?thesis by (simp add: sextets_def)
  qed
qed

lemma b64_char_step:
  "i mod 4 = 0 \<Longrightarrow> b64_char i (uint v) (length a) (a @ x # e) = Inr (length a, a @ ucast (push_bit 2 v) # e)"
  "i mod 4 = 1 \<Longrightarrow> b64_char i (uint v) (length a) (a @ x # y # e)
     = Inr (length (a @ [x]), (a @ [x OR ucast (drop_bit 4 v)]) @ ucast (push_bit 4 v) # e)"
  "i mod 4 = 2 \<Longrightarrow> b64_char i (uint v) (length a) (a @ x # y # e)
     = Inr (length (a @ [x]), (a @ [x OR ucast (drop_bit 2 v)]) @ ucast (push_bit 6 v) # e)"
  "i mod 4 = 3 \<Longrightarrow> b64_char i (uint v) (length a) (a @ x # e) = Inr (length (a @ [x]), (a @ [x OR ucast v]) @ e)"
  for v :: u32
  by (simp_all add: b64_char_def b64_put_def Let_def nth_append list_update_append)

lemma b64_len_snoc: "length (a @ [x]) = length (a @ [y])"
  by simp

lemma sextet_loop_2:
  assumes "i mod 4 = 0"
  shows "sextet_loop (v0 # v1 # vs) i (length a) (a @ x # y # e) =
    sextet_loop vs (i + 2) (length (a @ [x]))
      ((a @ [ucast (push_bit 2 v0 OR drop_bit 4 v1)]) @ ucast (push_bit 4 v1) # e)"
proof -
  have m: "(i + 1) mod 4 = 1" using assms by presburger
  show ?thesis
    unfolding sextet_loop.simps b64_char_step(1)[OF assms] sum.case prod.case b64_char_step(2)[OF m]
    by (simp add: unsigned_or_eq)
qed

lemma sextet_loop_3:
  assumes "i mod 4 = 0"
  shows "sextet_loop (v0 # v1 # v2 # vs) i (length a) (a @ x # y # z # e) =
    sextet_loop vs (i + 3) (length (a @ [x, y]))
      ((a @ [ucast (push_bit 2 v0 OR drop_bit 4 v1), ucast (push_bit 4 v1 OR drop_bit 2 v2)])
       @ ucast (push_bit 6 v2) # e)"
proof -
  let ?a = "a @ [ucast (push_bit 2 v0 OR drop_bit 4 v1)]"
  have m: "(i + 2) mod 4 = 2" using assms by presburger
  have l: "length (a @ [x]) = length ?a" by simp
  show ?thesis
    by (subst sextet_loop_2[OF assms],
        simp only: l sextet_loop.simps b64_char_step(3)[OF m] sum.case prod.case)
      (simp add: unsigned_or_eq eval_nat_numeral)
qed

lemma sextet_loop_4:
  assumes "i mod 4 = 0"
  shows "sextet_loop (v0 # v1 # v2 # v3 # vs) i (length a) (a @ x # y # z # e) =
    sextet_loop vs (i + 4) (length (a @ [x, y, z]))
      (a @ [ucast (push_bit 2 v0 OR drop_bit 4 v1), ucast (push_bit 4 v1 OR drop_bit 2 v2),
            ucast (push_bit 6 v2 OR v3)] @ e)"
proof -
  let ?a = "a @ [ucast (push_bit 2 v0 OR drop_bit 4 v1), ucast (push_bit 4 v1 OR drop_bit 2 v2)]"
  have m: "(i + 3) mod 4 = 3" using assms by presburger
  have l: "length (a @ [x, y]) = length ?a" by simp
  show ?thesis
    by (subst sextet_loop_3[OF assms],
        simp only: l sextet_loop.simps b64_char_step(4)[OF m] sum.case prod.case)
      (simp add: unsigned_or_eq add.commute)
qed

lemma split_at:
  assumes "length a + n < length d" and "take (length a) d = a"
  shows "n = 3 \<Longrightarrow> \<exists>x y z e. d = a @ x # y # z # e" and "n = 2 \<Longrightarrow> \<exists>x y z e. d = a @ x # y # z # e"
    and "n = 1 \<Longrightarrow> \<exists>x y e. d = a @ x # y # e" and "n = 0 \<Longrightarrow> \<exists>x e. d = a @ x # e"
proof -
  obtain f where d: "d = a @ f" using assms(2) by (metis append_take_drop_id)
  with assms(1) have f: "n < length f" by simp
  show "n = 3 \<Longrightarrow> \<exists>x y z e. d = a @ x # y # z # e" "n = 2 \<Longrightarrow> \<exists>x y z e. d = a @ x # y # z # e"
    "n = 1 \<Longrightarrow> \<exists>x y e. d = a @ x # y # e" "n = 0 \<Longrightarrow> \<exists>x e. d = a @ x # e"
    using f by (auto simp: d neq_Nil_conv Suc_le_length_iff less_eq_Suc_le eval_nat_numeral)
qed

lemma sextet_loop_join:
  assumes "i mod 4 = 0" and "length a + 3 * length ws div 4 < length d" and "take (length a) d = a"
  shows "\<exists>len' d'. sextet_loop ws i (length a) d = Inr (i + length ws, len', d') \<and>
    (length ws mod 4 \<noteq> 1 \<longrightarrow> take len' d' = a @ join_sextets ws)"
  using assms
proof (induction ws arbitrary: i a d rule: join_sextets.induct)
  case (1 v0 v1 v2 v3 vs)
  let ?b = "a @ [ucast (push_bit 2 v0 OR drop_bit 4 v1), ucast (push_bit 4 v1 OR drop_bit 2 v2),
      ucast (push_bit 6 v2 OR v3)]"
  from "1.prems"(2) have "length a + 3 < length d" by simp
  from split_at(1)[OF this "1.prems"(3)] obtain x y z e where d: "d = a @ x # y # z # e" by blast
  have l: "length (a @ [x, y, z]) = length ?b" by simp
  have "(i + 4) mod 4 = 0" using "1.prems"(1) by simp
  moreover have "length ?b + 3 * length vs div 4 < length (?b @ e)" using "1.prems"(2) by (simp add: d)
  moreover have "take (length ?b) (?b @ e) = ?b" by simp
  ultimately have "\<exists>len' d'. sextet_loop vs (i + 4) (length ?b) (?b @ e) = Inr (i + 4 + length vs, len', d') \<and>
      (length vs mod 4 \<noteq> 1 \<longrightarrow> take len' d' = ?b @ join_sextets vs)"
    by (rule "1.IH")
  moreover have "length (v0 # v1 # v2 # v3 # vs) mod 4 = length vs mod 4"
    "i + length (v0 # v1 # v2 # v3 # vs) = i + 4 + length vs" by simp_all
  ultimately show ?case
    unfolding d sextet_loop_4[OF "1.prems"(1)] l join_sextets.simps by (simp only: append.assoc append.simps)
next
  case (2 v0 v1 v2)
  from "2.prems"(2) have "length a + 2 < length d" by simp
  from split_at(2)[OF this "2.prems"(3)] obtain x y z e where d: "d = a @ x # y # z # e" by blast
  show ?case unfolding d sextet_loop_3[OF "2.prems"(1)] by simp
next
  case (3 v0 v1)
  from "3.prems"(2) have "length a + 1 < length d" by simp
  from split_at(3)[OF this "3.prems"(3)] obtain x y e where d: "d = a @ x # y # e" by blast
  show ?case unfolding d sextet_loop_2[OF "3.prems"(1)] by simp
next
  case "4_1"
  then show ?case by simp
next
  case "4_2"
  from "4_2.prems"(2) have "length a + 0 < length d" by simp
  from split_at(4)[OF this "4_2.prems"(3)] obtain x e where d: "d = a @ x # e" by blast
  show ?case unfolding d sextet_loop.simps b64_char_step(1)[OF "4_2.prems"(1)] by simp
qed

lemma length_sextets: "length (sextets src) \<le> length src"
  unfolding sextets_def by (metis length_filter_le length_map)

lemma base64_decode_sextets:
  "libssh2_base64_decode True junk src =
     Inr (if length (sextets src) mod 4 = 1 then None else Some (join_sextets (sextets src)))"
proof -
  let ?d = "map junk [0..<3 * length src div 4 + 1]"
  have "3 * length (sextets src) div 4 \<le> 3 * length src div 4"
    using length_sextets[of src] by (simp add: div_le_mono)
  then have "length [] + 3 * length (sextets src) div 4 < length ?d" by simp
  from sextet_loop_join[OF _ this, of 0] show ?thesis
    by (auto simp: libssh2_base64_decode_def b64_loop_sextets)
qed

subsection \<open>The reference encoder\<close>

fun split_sextets :: "bytes \<Rightarrow> u32 list" where
  "split_sextets (a # b # c # m) =
     drop_bit 2 (ucast a) # (push_bit 4 (ucast a AND 3) OR drop_bit 4 (ucast b))
     # (push_bit 2 (ucast b AND 15) OR drop_bit 6 (ucast c)) # (ucast c AND 63) # split_sextets m"
| "split_sextets [a, b] =
     [drop_bit 2 (ucast a), push_bit 4 (ucast a AND 3) OR drop_bit 4 (ucast b), push_bit 2 (ucast b AND 15)]"
| "split_sextets [a] = [drop_bit 2 (ucast a), push_bit 4 (ucast a AND 3)]"
| "split_sextets [] = []"

definition base64_encode :: "bytes \<Rightarrow> bytes" where
  "base64_encode m =
     map (\<lambda>v. of_char (libssh2_base64_table ! unat v)) (split_sextets m)
     @ replicate ((3 - length m mod 3) mod 3) (of_char (CHR ''=''))"

lemma Suc_Suc_diff_2: "2 \<le> n \<Longrightarrow> Suc (Suc (n - 2)) = n"
  by simp

lemma join_split_1:
  fixes a b :: u8
  shows "ucast (push_bit 2 (drop_bit 2 (ucast a :: u32)) OR drop_bit 4 (push_bit 4 (ucast a AND 3) OR drop_bit 4 (ucast b))) = a"
    and "ucast (push_bit 2 (drop_bit 2 (ucast a :: u32)) OR drop_bit 4 (push_bit 4 (ucast a AND 3))) = a"
proof -
  have m: "(3 :: u32) = mask 2" by (simp add: mask_eq_exp_minus_1)
  show "ucast (push_bit 2 (drop_bit 2 (ucast a :: u32)) OR drop_bit 4 (push_bit 4 (ucast a AND 3) OR drop_bit 4 (ucast b))) = a"
    unfolding m by (rule bit_word_eqI) (auto simp: bit_simps Suc_Suc_diff_2 not_less dest: bit_imp_le_length)
  show "ucast (push_bit 2 (drop_bit 2 (ucast a :: u32)) OR drop_bit 4 (push_bit 4 (ucast a AND 3))) = a"
    unfolding m by (rule bit_word_eqI) (auto simp: bit_simps Suc_Suc_diff_2 not_less dest: bit_imp_le_length)
qed

lemma join_split_2:
  fixes a b c :: u8
  shows "ucast (push_bit 4 (push_bit 4 (ucast a AND 3) OR drop_bit 4 (ucast b :: u32)) OR drop_bit 2 (push_bit 2 (ucast b AND 15) OR drop_bit 6 (ucast c))) = b"
    and "ucast (push_bit 4 (push_bit 4 (ucast a AND 3) OR drop_bit 4 (ucast b :: u32)) OR drop_bit 2 (push_bit 2 (ucast b AND 15))) = b"
proof -
  have m: "(15 :: u32) = mask 4" "(3 :: u32) = mask 2" by (simp_all add: mask_eq_exp_minus_1)
  show "ucast (push_bit 4 (push_bit 4 (ucast a AND 3) OR drop_bit 4 (ucast b :: u32)) OR drop_bit 2 (push_bit 2 (ucast b AND 15) OR drop_bit 6 (ucast c))) = b"
    unfolding m by (rule bit_word_eqI) (auto simp: bit_simps Suc_Suc_diff_2 not_less dest: bit_imp_le_length)
  show "ucast (push_bit 4 (push_bit 4 (ucast a AND 3) OR drop_bit 4 (ucast b :: u32)) OR drop_bit 2 (push_bit 2 (ucast b AND 15))) = b"
    unfolding m by (rule bit_word_eqI) (auto simp: bit_simps Suc_Suc_diff_2 not_less dest: bit_imp_le_length)
qed

lemma join_split_3:
  fixes b c :: u8
  shows "ucast (push_bit 6 (push_bit 2 (ucast b AND 15) OR drop_bit 6 (ucast c :: u32)) OR (ucast c AND 63)) = c"
proof -
  have m: "(63 :: u32) = mask 6" "(15 :: u32) = mask 4" by (simp_all add: mask_eq_exp_minus_1)
  show ?thesis unfolding m by (rule bit_word_eqI) (auto simp: bit_simps Suc_Suc_diff_2 not_less dest: bit_imp_le_length)
qed

lemma join_split: "join_sextets (split_sextets m) = m"
  by (induction m rule: split_sextets.induct)
    (simp_all only: split_sextets.simps join_sextets.simps join_split_1 join_split_2 join_split_3)

lemma split_length_mod: "length (split_sextets m) mod 4 \<noteq> 1"
proof (induction m rule: split_sextets.induct)
  case (1 a b c m)
  then show ?case by simp
qed simp_all

lemma split_sextets_range: "list_all (\<lambda>v. unat v < 64) (split_sextets m)"
proof -
  have l: "unat (v :: u32) < 64" if "\<And>n. 6 \<le> n \<Longrightarrow> \<not> bit v n" for v
  proof -
    have "take_bit 6 v = v" using that by (intro bit_word_eqI) (auto simp: bit_simps not_le[symmetric])
    then have "unat v = take_bit 6 (unat v)" by (metis unsigned_take_bit_eq)
    then have "unat v = unat v mod 64" by (simp add: take_bit_eq_mod)
    then show ?thesis by (metis mod_less_divisor zero_less_numeral)
  qed
  have m: "(63 :: u32) = mask 6" "(15 :: u32) = mask 4" "(3 :: u32) = mask 2"
    by (simp_all add: mask_eq_exp_minus_1)
  have u: "bit a n \<Longrightarrow> n < 8" for a :: u8 and n by (drule bit_imp_le_length) simp
  show ?thesis
    by (induction m rule: split_sextets.induct)
      (auto simp: m bit_simps less_diff_conv2 intro!: l dest!: u)
qed

lemma table_inverse:
  "list_all (\<lambda>n. libssh2_base64_reverse_table ! unat (of_char (libssh2_base64_table ! n) :: u8) = int n) [0..<64]"
  by code_simp

lemma table_pad: "libssh2_base64_reverse_table ! unat (of_char (CHR ''='') :: u8) = - 1"
  by code_simp

lemma sextets_encode: "sextets (base64_encode m) = split_sextets m"
proof -
  have "sextets (map (\<lambda>v. of_char (libssh2_base64_table ! unat v)) vs) = vs"
    if "list_all (\<lambda>v. unat v < 64) vs" for vs :: "u32 list"
    using that
  proof (induction vs)
    case (Cons v vs)
    then have "libssh2_base64_reverse_table ! unat (of_char (libssh2_base64_table ! unat v) :: u8) = int (unat v)"
      using table_inverse by (simp add: list_all_iff del: upt_Suc)
    with Cons show ?case by (simp add: sextets_def)
  qed (simp add: sextets_def)
  moreover have "sextets (replicate k (of_char (CHR ''=''))) = []" for k
    using table_pad by (induction k) (simp_all only: sextets_def list.map replicate.simps filter.simps, simp)
  moreover have "sextets (a @ b) = sextets a @ sextets b" for a b by (simp add: sextets_def)
  ultimately show ?thesis using split_sextets_range by (simp add: base64_encode_def)
qed

section \<open>Properties\<close>

text \<open>\<^verbatim>\<open>libssh2_ntohu32\<close> reads back every value that \<^verbatim>\<open>libssh2_htonu32\<close> writes, whatever
  follows it in the buffer.\<close>

theorem ntohu32_htonu32: "libssh2_ntohu32 (libssh2_htonu32 value @ rest) = value"
  by (rule u32_codec.dec_enc)

text \<open>\<^verbatim>\<open>libssh2_ntohu64\<close> adds up its two halves in a 32-bit \<^verbatim>\<open>unsigned long\<close>: of a value that
  \<^verbatim>\<open>libssh2_htonu64\<close> wrote it returns the low 32 bits only.\<close>

theorem ntohu64_loses_high_word: "libssh2_ntohu64 (libssh2_htonu64 value) = take_bit 32 value"
proof -
  have "(m * 65536) * 65536 = (0 :: u32)" for m
  proof -
    have "(65536 :: u32) * 65536 = 0" by code_simp
    then show ?thesis by (simp only: mult.assoc mult_zero_right)
  qed
  then have "libssh2_ntohu64 (libssh2_htonu64 value) =
      ucast (push_bit 24 (ucast (ucast (drop_bit 24 value) :: u8)) OR push_bit 16 (ucast (ucast (drop_bit 16 value) :: u8))
        OR push_bit 8 (ucast (ucast (drop_bit 8 value) :: u8)) OR ucast (ucast value :: u8) :: u32)"
    by (simp add: libssh2_ntohu64_def libssh2_htonu64_def Let_def ucast_and_ff)
  also have "\<dots> = ucast (ucast value :: u32)"
  proof -
    have "ucast (drop_bit k value) = (ucast (drop_bit k (ucast value :: u32)) :: u8)" if "k \<le> 24" for k
      using that by (intro bit_word_eqI) (auto simp: bit_simps)
    from this[of 24] this[of 16] this[of 8] this[of 0] show ?thesis
      using u32_of_bytes[of "ucast value"] by simp
  qed
  also have "\<dots> = take_bit 32 value"
    by (intro bit_word_eqI) (auto simp: bit_simps)
  finally show ?thesis .
qed

text \<open>Decoding what the reference base64 encoder writes gives the message back.\<close>

theorem base64_decode_encode: "libssh2_base64_decode True junk (base64_encode m) = Inr (Some m)"
  by (simp add: base64_decode_sextets sextets_encode split_length_mod[simplified] join_split)

text \<open>On every input, whatever characters it holds, the decoder stays inside the buffer of
  \<open>3 * src_len / 4 + 1\<close> bytes that it allocates.\<close>

theorem base64_decode_in_bounds: "libssh2_base64_decode alloc_ok junk src \<noteq> Inl Undefined_Behaviour"
  by (cases alloc_ok) (simp_all add: base64_decode_sextets, simp add: libssh2_base64_decode_def)

end
