(* ===== verification/SSH_Session.thy ===== *)
theory SSH_Session
  imports SSH_Wire
begin

text \<open>
  The session of the bundled libssh2: the structures of \<^verbatim>\<open>src/ssh/libssh2/libssh2_priv.h\<close>, the
  sending half of the packet layer (\<^verbatim>\<open>libssh2_packet_write\<close> of \<^verbatim>\<open>packet.c\<close>) and the parts of
  \<^verbatim>\<open>channel.c\<close> that the packet layer calls (\<^verbatim>\<open>nextid\<close>, \<^verbatim>\<open>locate\<close>, \<^verbatim>\<open>receive_window_adjust\<close>).

  The session is a record.  Channels live in a store that maps references to channels, and the
  linked lists of the C code are lists of references.  The world outside the session is part of
  the record: what the socket will deliver (\<open>input\<close>), whether a call of the socket's send
  function will take all bytes (\<open>send_ok\<close>; an empty list means that all further calls succeed),
  what was sent, and whether an allocation will succeed (\<open>alloc_ok\<close>, in the same way).  Cipher,
  MAC and compression are tables of functions here as in C; the functions themselves belong to
  OpenSSL and zlib and their contexts are of an unspecified type \<open>'x\<close>.
\<close>

section \<open>Results\<close>

text \<open>
  A call that never comes back, because it waits for input that does not arrive, and a call that
  reads or writes outside an object.  \<open>Broken_List\<close>: the code links a channel of a listener's queue into the list of
  the session, so that the two lists are no longer lists; what happens then is not modelled.
\<close>

datatype ssh_stop = Never_Returns | Undefined | Broken_List

type_synonym 'a run = "ssh_stop + 'a"

definition sbind :: "'a run \<Rightarrow> ('a \<Rightarrow> 'b run) \<Rightarrow> 'b run" where
  "sbind m f = (case m of Inl e \<Rightarrow> Inl e | Inr x \<Rightarrow> f x)"

lemma sbind_simps [simp]: "sbind (Inl e) f = Inl e" "sbind (Inr x) f = f x"
  by (simp_all add: sbind_def)

lemma sbind_eq_Inr: "sbind m f = Inr y \<longleftrightarrow> (\<exists>x. m = Inr x \<and> f x = Inr y)"
  by (cases m) simp_all

lemma sbind_cong [fundef_cong]: "m = m' \<Longrightarrow> (\<And>x. m' = Inr x \<Longrightarrow> f x = f' x) \<Longrightarrow> sbind m f = sbind m' f'"
  by (cases m') simp_all

section \<open>Constants\<close>

abbreviation (input) SSH_MSG_DISCONNECT :: u8 where "SSH_MSG_DISCONNECT \<equiv> 1"
abbreviation (input) SSH_MSG_IGNORE :: u8 where "SSH_MSG_IGNORE \<equiv> 2"
abbreviation (input) SSH_MSG_DEBUG :: u8 where "SSH_MSG_DEBUG \<equiv> 4"
abbreviation (input) SSH_MSG_KEXINIT :: u8 where "SSH_MSG_KEXINIT \<equiv> 20"
abbreviation (input) SSH_MSG_GLOBAL_REQUEST :: u8 where "SSH_MSG_GLOBAL_REQUEST \<equiv> 80"
abbreviation (input) SSH_MSG_REQUEST_SUCCESS :: u8 where "SSH_MSG_REQUEST_SUCCESS \<equiv> 81"
abbreviation (input) SSH_MSG_REQUEST_FAILURE :: u8 where "SSH_MSG_REQUEST_FAILURE \<equiv> 82"
abbreviation (input) SSH_MSG_CHANNEL_OPEN :: u8 where "SSH_MSG_CHANNEL_OPEN \<equiv> 90"
abbreviation (input) SSH_MSG_CHANNEL_OPEN_CONFIRMATION :: u8 where "SSH_MSG_CHANNEL_OPEN_CONFIRMATION \<equiv> 91"
abbreviation (input) SSH_MSG_CHANNEL_OPEN_FAILURE :: u8 where "SSH_MSG_CHANNEL_OPEN_FAILURE \<equiv> 92"
abbreviation (input) SSH_MSG_CHANNEL_WINDOW_ADJUST :: u8 where "SSH_MSG_CHANNEL_WINDOW_ADJUST \<equiv> 93"
abbreviation (input) SSH_MSG_CHANNEL_DATA :: u8 where "SSH_MSG_CHANNEL_DATA \<equiv> 94"
abbreviation (input) SSH_MSG_CHANNEL_EXTENDED_DATA :: u8 where "SSH_MSG_CHANNEL_EXTENDED_DATA \<equiv> 95"
abbreviation (input) SSH_MSG_CHANNEL_EOF :: u8 where "SSH_MSG_CHANNEL_EOF \<equiv> 96"
abbreviation (input) SSH_MSG_CHANNEL_CLOSE :: u8 where "SSH_MSG_CHANNEL_CLOSE \<equiv> 97"
abbreviation (input) SSH_MSG_CHANNEL_REQUEST :: u8 where "SSH_MSG_CHANNEL_REQUEST \<equiv> 98"
abbreviation (input) SSH_MSG_CHANNEL_SUCCESS :: u8 where "SSH_MSG_CHANNEL_SUCCESS \<equiv> 99"
abbreviation (input) SSH_MSG_CHANNEL_FAILURE :: u8 where "SSH_MSG_CHANNEL_FAILURE \<equiv> 100"

abbreviation (input) LIBSSH2_STATE_EXCHANGING_KEYS :: u32 where "LIBSSH2_STATE_EXCHANGING_KEYS \<equiv> 1"
abbreviation (input) LIBSSH2_STATE_NEWKEYS :: u32 where "LIBSSH2_STATE_NEWKEYS \<equiv> 2"

abbreviation (input) LIBSSH2_CHANNEL_WINDOW_DEFAULT :: u32 where "LIBSSH2_CHANNEL_WINDOW_DEFAULT \<equiv> 65536"
abbreviation (input) LIBSSH2_CHANNEL_PACKET_DEFAULT :: u32 where "LIBSSH2_CHANNEL_PACKET_DEFAULT \<equiv> 16384"
abbreviation (input) LIBSSH2_CHANNEL_MINADJUST :: u32 where "LIBSSH2_CHANNEL_MINADJUST \<equiv> 1024"

datatype ext_mode = EXTENDED_DATA_NORMAL | EXTENDED_DATA_IGNORE | EXTENDED_DATA_MERGE

datatype ssh_error =
    ERROR_NONE | ERROR_SOCKET_NONE | ERROR_BANNER_NONE | ERROR_BANNER_SEND | ERROR_INVALID_MAC
  | ERROR_KEX_FAILURE | ERROR_ALLOC | ERROR_SOCKET_SEND | ERROR_KEY_EXCHANGE_FAILURE | ERROR_TIMEOUT
  | ERROR_HOSTKEY_INIT | ERROR_HOSTKEY_SIGN | ERROR_DECRYPT | ERROR_SOCKET_DISCONNECT | ERROR_PROTO
  | ERROR_PASSWORD_EXPIRED | ERROR_FILE | ERROR_METHOD_NONE | ERROR_PUBLICKEY_UNRECOGNIZED
  | ERROR_PUBLICKEY_UNVERIFIED | ERROR_CHANNEL_OUTOFORDER | ERROR_CHANNEL_FAILURE
  | ERROR_CHANNEL_REQUEST_DENIED | ERROR_CHANNEL_UNKNOWN | ERROR_CHANNEL_WINDOW_EXCEEDED
  | ERROR_CHANNEL_PACKET_EXCEEDED | ERROR_CHANNEL_CLOSED | ERROR_CHANNEL_EOF_SENT | ERROR_SCP_PROTOCOL
  | ERROR_ZLIB | ERROR_SOCKET_TIMEOUT | ERROR_SFTP_PROTOCOL | ERROR_REQUEST_DENIED
  | ERROR_METHOD_NOT_SUPPORTED | ERROR_INVAL | ERROR_INVALID_POLL_TYPE | ERROR_PUBLICKEY_PROTOCOL

section \<open>Structures\<close>

datatype socket_state = SOCKET_UNKNOWN | SOCKET_CONNECTED | SOCKET_DISCONNECTED

datatype mac_state = MAC_UNCONFIRMED | MAC_CONFIRMED | MAC_INVALID

record packet =
  pk_data :: bytes
  pk_len :: u32
  pk_head :: u32
  pk_mac :: mac_state

record channel_data =
  cd_id :: u32
  window_size_initial :: u32
  window_size :: u32
  packet_size :: u32
  cd_close :: bool
  cd_eof :: bool
  ext_data_mode :: ext_mode

record channel =
  channel_type :: bytes
  blocking :: bool
  exit_status :: u32
  ch_local :: channel_data
  ch_remote :: channel_data
  adjust_queue :: u32
  close_cb :: bool

record listener =
  l_ref :: nat
  l_host :: bytes
  l_port :: u32
  l_queue :: "nat list"
  queue_size :: int
  queue_maxsize :: int

text \<open>The method tables; a Boolean result of \<^verbatim>\<open>crypt\<close> is a return value other than 0.\<close>

record 'x crypt_method =
  blocksize :: nat
  flag_evp :: bool
  crypt_fn :: "'x \<Rightarrow> bytes \<Rightarrow> bool \<times> bytes \<times> 'x"

record 'x mac_method =
  mac_len :: nat
  mac_hash :: "'x \<Rightarrow> u32 \<Rightarrow> bytes \<Rightarrow> bytes \<Rightarrow> bytes \<times> 'x"

record 'x comp_method =
  comp_none :: bool
  comp_fn :: "'x \<Rightarrow> bool \<Rightarrow> bytes \<Rightarrow> bytes option \<times> 'x"

record 'x endpoint =
  ep_crypt :: "'x crypt_method"
  crypt_abstract :: 'x
  ep_mac :: "'x mac_method"
  seqno :: u32
  mac_abstract :: 'x
  ep_comp :: "'x comp_method option"
  comp_abstract :: 'x

datatype recv_errno = EAGAIN | EINTR | EBADF | EIO | ENOTCONN | E_OTHER

datatype recv_event = Recv_Data bytes | Recv_Error recv_errno

record 'x session =
  state :: u32
  sock_state :: socket_state
  packets :: "packet list"
  chan :: "nat \<Rightarrow> channel"
  channels :: "nat list"
  next_ref :: nat
  next_channel :: u32
  listeners :: "listener list"
  ep_remote :: "'x endpoint"
  ep_local :: "'x endpoint"
  err_code :: ssh_error
  err_msg :: string
  input :: "recv_event list"
  sent :: "bytes list"
  send_ok :: "bool list"
  alloc_ok :: "bool list"

text \<open>
  The callbacks of the session, the key exchange of \<^verbatim>\<open>kex.c\<close> that a received \<^verbatim>\<open>KEXINIT\<close> starts,
  the random bytes of OpenSSL and the contents of uninitialised memory.
\<close>

record 'x env =
  e_disconnect :: "('x session \<Rightarrow> u32 \<Rightarrow> bytes \<Rightarrow> bytes \<Rightarrow> 'x session) option"
  e_ignore :: "('x session \<Rightarrow> bytes \<Rightarrow> 'x session) option"
  e_debug :: bool
  e_macerror :: "('x session \<Rightarrow> bytes \<Rightarrow> bool \<times> 'x session) option"
  e_x11 :: "('x session \<Rightarrow> nat \<Rightarrow> bytes \<Rightarrow> u32 \<Rightarrow> 'x session) option"
  e_close :: "'x session \<Rightarrow> nat \<Rightarrow> 'x session"
  e_kex :: "'x session \<Rightarrow> 'x session"
  e_rand :: "u32 \<Rightarrow> nat \<Rightarrow> u8"
  e_junk :: "nat \<Rightarrow> u8"

section \<open>Helpers\<close>

definition libssh2_error :: "ssh_error \<Rightarrow> string \<Rightarrow> 'x session \<Rightarrow> 'x session" where
  "libssh2_error code msg s = s\<lparr>err_code := code, err_msg := msg\<rparr>"

definition libssh2_alloc :: "'x session \<Rightarrow> bool \<times> 'x session" where
  "libssh2_alloc s =
     (case alloc_ok s of [] \<Rightarrow> (True, s) | b # bs \<Rightarrow> (b, s\<lparr>alloc_ok := bs\<rparr>))"

definition sock_send :: "bytes \<Rightarrow> 'x session \<Rightarrow> bool \<times> 'x session" where
  "sock_send b s =
     (case send_ok s of
        [] \<Rightarrow> (True, s\<lparr>sent := sent s @ [b]\<rparr>)
      | ok # oks \<Rightarrow> (ok, s\<lparr>send_ok := oks, sent := (if ok then sent s @ [b] else sent s)\<rparr>))"

definition upd_chan :: "nat \<Rightarrow> (channel \<Rightarrow> channel) \<Rightarrow> 'x session \<Rightarrow> 'x session" where
  "upd_chan r f s = s\<lparr>chan := (chan s)(r := f (chan s r))\<rparr>"

definition upd_local :: "nat \<Rightarrow> (channel_data \<Rightarrow> channel_data) \<Rightarrow> 'x session \<Rightarrow> 'x session" where
  "upd_local r f s = upd_chan r (\<lambda>c. c\<lparr>ch_local := f (ch_local c)\<rparr>) s"

definition upd_remote :: "nat \<Rightarrow> (channel_data \<Rightarrow> channel_data) \<Rightarrow> 'x session \<Rightarrow> 'x session" where
  "upd_remote r f s = upd_chan r (\<lambda>c. c\<lparr>ch_remote := f (ch_remote c)\<rparr>) s"

definition newkeys :: "'x session \<Rightarrow> bool" where
  "newkeys s \<longleftrightarrow> state s AND LIBSSH2_STATE_NEWKEYS \<noteq> 0"

section \<open>Channels: identifiers and lookup\<close>

definition libssh2_channel_nextid :: "'x session \<Rightarrow> u32 \<times> 'x session" where
  "libssh2_channel_nextid s =
     (let id = foldl (\<lambda>id r. if cd_id (ch_local (chan s r)) > id then cd_id (ch_local (chan s r)) else id)
                 (next_channel s) (channels s)
      in (id, s\<lparr>next_channel := id + 1\<rparr>))"

definition libssh2_channel_locate :: "'x session \<Rightarrow> u32 \<Rightarrow> nat option" where
  "libssh2_channel_locate s channel_id =
     find (\<lambda>r. cd_id (ch_local (chan s r)) = channel_id) (channels s)"

section \<open>Sending a packet\<close>

text \<open>
  Encryption in place, one block after the other; the return value of the cipher is not looked
  at.  The packet has been padded to a multiple of the block size.
\<close>

function crypt_blocks :: "('x \<Rightarrow> bytes \<Rightarrow> bool \<times> bytes \<times> 'x) \<Rightarrow> nat \<Rightarrow> 'x \<Rightarrow> bytes \<Rightarrow> bytes \<times> 'x" where
  "crypt_blocks f bs x b =
     (if bs = 0 \<or> b = [] then ([], x)
      else let (_, c, x) = f x (take bs b);
               (cs, x) = crypt_blocks f bs x (drop bs b)
           in (c @ cs, x))"
  by pat_completeness auto
termination
  by (relation "measure (\<lambda>(f, bs, x, b). length b)") auto

declare crypt_blocks.simps [simp del]

definition padding_for :: "u32 \<Rightarrow> u32 \<Rightarrow> u32" where
  "padding_for block_size packet_length =
     (let padding_length = block_size - ((packet_length + 4) mod block_size)
      in if padding_length < 4 then padding_length + block_size else padding_length)"

text \<open>The part of \<^verbatim>\<open>libssh2_packet_write\<close> after compression.\<close>

definition packet_send :: "'x env \<Rightarrow> bytes \<Rightarrow> 'x session \<Rightarrow> int \<times> 'x session" where
  "packet_send env data s =
     (let block_size = (if newkeys s then of_nat (blocksize (ep_crypt (ep_local s))) else 8) :: u32;
          packet_length = of_nat (length data) + 1;
          padding_length = padding_for block_size packet_length;
          packet_length = packet_length + padding_length;
          header = libssh2_htonu32 packet_length @ [ucast padding_length]
      in if newkeys s then
           let (ok, s) = libssh2_alloc s;
               lo = ep_local s
           in if \<not> ok then (-1, libssh2_error ERROR_ALLOC ''Unable to allocate encryption buffer'' s)
              else
                let plain = header @ data @ map (e_rand env (seqno lo)) [0..<unat padding_length];
                    (mac, mx) = mac_hash (ep_mac lo) (mac_abstract lo) (seqno lo) plain [];
                    (enc, cx) = crypt_blocks (crypt_fn (ep_crypt lo)) (blocksize (ep_crypt lo)) (crypt_abstract lo) plain;
                    lo = lo\<lparr>mac_abstract := mx, crypt_abstract := cx, seqno := seqno lo + 1\<rparr>;
                    (ok, s) = sock_send (enc @ mac) (s\<lparr>ep_local := lo\<rparr>)
                in (if ok then 0 else -1, s)
         else
           let s = s\<lparr>ep_local := (ep_local s)\<lparr>seqno := seqno (ep_local s) + 1\<rparr>\<rparr>;
               (ok, s) = sock_send (header @ data @ map (e_junk env) [0..<unat padding_length]) s
           in (if ok then 0 else 1, s))"

definition libssh2_packet_write :: "'x env \<Rightarrow> bytes \<Rightarrow> 'x session \<Rightarrow> (int \<times> 'x session) run" where
  "libssh2_packet_write env data s =
     (if newkeys s then
        case ep_comp (ep_local s) of
          None \<Rightarrow> Inl Undefined
        | Some cm \<Rightarrow>
            if comp_none cm then Inr (packet_send env data s)
            else
              let (out, x) = comp_fn cm (comp_abstract (ep_local s)) True data;
                  s = s\<lparr>ep_local := (ep_local s)\<lparr>comp_abstract := x\<rparr>\<rparr>
              in (case out of
                    None \<Rightarrow> Inr (-1, s)
                  | Some data \<Rightarrow> Inr (packet_send env data s))
      else Inr (packet_send env data s))"

section \<open>The receive window\<close>

definition window_adjust_sent :: "nat \<Rightarrow> u32 \<Rightarrow> int \<Rightarrow> 'x session \<Rightarrow> u32 \<times> 'x session" where
  "window_adjust_sent r adjustment rc s =
     (let s = (if rc \<noteq> 0 then
                 upd_chan r (\<lambda>c. c\<lparr>adjust_queue := adjustment\<rparr>)
                   (libssh2_error ERROR_SOCKET_SEND
                      ''Unable to send transfer-window adjustment packet, deferring'' s)
               else upd_remote r (\<lambda>d. d\<lparr>window_size := window_size d + adjustment\<rparr>) s)
      in (window_size (ch_remote (chan s r)), s))"

definition libssh2_channel_receive_window_adjust ::
  "'x env \<Rightarrow> nat \<Rightarrow> u32 \<Rightarrow> bool \<Rightarrow> 'x session \<Rightarrow> (u32 \<times> 'x session) run" where
  "libssh2_channel_receive_window_adjust env r adjustment force s =
     (let c = chan s r
      in if \<not> force \<and> adjustment + adjust_queue c < LIBSSH2_CHANNEL_MINADJUST then
           Inr (window_size (ch_remote c), upd_chan r (\<lambda>c. c\<lparr>adjust_queue := adjust_queue c + adjustment\<rparr>) s)
         else if adjustment = 0 \<and> adjust_queue c = 0 then Inr (window_size (ch_remote c), s)
         else
           let adjustment = adjustment + adjust_queue c;
               s = upd_chan r (\<lambda>c. c\<lparr>adjust_queue := 0\<rparr>) s
           in sbind (libssh2_packet_write env
                 (SSH_MSG_CHANNEL_WINDOW_ADJUST # libssh2_htonu32 (cd_id (ch_remote c)) @ libssh2_htonu32 adjustment) s)
               (\<lambda>(rc, s). Inr (window_adjust_sent r adjustment rc s)))"

section \<open>Frame facts\<close>

text \<open>What sending a packet leaves alone.\<close>

definition conn_view :: "'x session \<Rightarrow> u32 \<times> socket_state \<times> packet list \<times> (nat \<Rightarrow> channel) \<times> nat list \<times> nat \<times> u32 \<times> listener list \<times> 'x endpoint \<times> recv_event list" where
  "conn_view s = (state s, sock_state s, packets s, chan s, channels s, next_ref s, next_channel s,
     listeners s, ep_remote s, input s)"

lemma conn_viewD:
  assumes "conn_view s' = conn_view s"
  shows "state s' = state s" "sock_state s' = sock_state s" "packets s' = packets s" "chan s' = chan s"
    "channels s' = channels s" "next_ref s' = next_ref s" "next_channel s' = next_channel s"
    "listeners s' = listeners s" "ep_remote s' = ep_remote s" "input s' = input s"
  using assms by (simp_all add: conn_view_def)

lemma alloc_view: "conn_view (snd (libssh2_alloc s)) = conn_view s"
  by (simp add: libssh2_alloc_def conn_view_def split: list.splits)

lemma alloc_frame: "libssh2_alloc s = (b, s') \<Longrightarrow> conn_view s' = conn_view s \<and> ep_local s' = ep_local s \<and> sent s' = sent s
    \<and> send_ok s' = send_ok s \<and> err_code s' = err_code s"
  by (auto simp: libssh2_alloc_def conn_view_def split: list.splits)

lemma error_view [simp]: "conn_view (libssh2_error c m s) = conn_view s"
  by (simp add: libssh2_error_def conn_view_def)

lemma sock_send_frame: "sock_send b s = (ok, s') \<Longrightarrow> conn_view s' = conn_view s \<and> ep_local s' = ep_local s"
  by (auto simp: sock_send_def conn_view_def split: list.splits)

lemma ep_local_view [simp]: "conn_view (s\<lparr>ep_local := e\<rparr>) = conn_view s"
  by (simp add: conn_view_def)

lemma packet_send_view: "packet_send env d s = (rc, s') \<Longrightarrow> conn_view s' = conn_view s"
  unfolding packet_send_def Let_def
  by (auto split: prod.splits if_splits dest!: alloc_frame sock_send_frame)

lemma packet_write_view:
  assumes "libssh2_packet_write env d s = Inr (rc, s')"
  shows "conn_view s' = conn_view s"
  using assms
  by (auto simp: libssh2_packet_write_def Let_def split: if_splits option.splits prod.splits
      dest!: packet_send_view)

lemma upd_chan_simps [simp, sess_simps]:
  "chan (upd_chan r f s) = (chan s)(r := f (chan s r))" "state (upd_chan r f s) = state s"
  "sock_state (upd_chan r f s) = sock_state s" "packets (upd_chan r f s) = packets s"
  "channels (upd_chan r f s) = channels s" "next_ref (upd_chan r f s) = next_ref s"
  "next_channel (upd_chan r f s) = next_channel s" "listeners (upd_chan r f s) = listeners s"
  "ep_remote (upd_chan r f s) = ep_remote s" "ep_local (upd_chan r f s) = ep_local s"
  "input (upd_chan r f s) = input s" "sent (upd_chan r f s) = sent s"
  "send_ok (upd_chan r f s) = send_ok s" "alloc_ok (upd_chan r f s) = alloc_ok s"
  by (simp_all add: upd_chan_def)

section \<open>Effect of an adjustment\<close>

text \<open>On every path, two numbers of one channel change and together they grow by the adjustment.\<close>

lemma window_adjust_effect:
  assumes "libssh2_channel_receive_window_adjust env r n force s = Inr (w, s')"
  shows "\<exists>q. chan s' = (chan s)(r := (chan s r)\<lparr>adjust_queue := q, ch_remote := (ch_remote (chan s r))\<lparr>window_size := w\<rparr>\<rparr>)
    \<and> w + q = window_size (ch_remote (chan s r)) + adjust_queue (chan s r) + n
    \<and> conn_view s' = conn_view (s\<lparr>chan := chan s'\<rparr>)"
proof -
  let ?Q = "adjust_queue (chan s r)"
  consider (later) "\<not> force \<and> n + ?Q < LIBSSH2_CHANNEL_MINADJUST"
    | (idle) "\<not> (\<not> force \<and> n + ?Q < LIBSSH2_CHANNEL_MINADJUST)" "n = 0 \<and> ?Q = 0"
    | (send) "\<not> (\<not> force \<and> n + ?Q < LIBSSH2_CHANNEL_MINADJUST)" "\<not> (n = 0 \<and> ?Q = 0)"
    by blast
  then show ?thesis
  proof cases
    case later
    with assms have "w = window_size (ch_remote (chan s r))" "s' = upd_chan r (\<lambda>c. c\<lparr>adjust_queue := ?Q + n\<rparr>) s"
      by (auto simp: libssh2_channel_receive_window_adjust_def Let_def upd_chan_def)
    then show ?thesis by (intro exI[of _ "?Q + n"]) (auto simp: conn_view_def intro!: ext)
  next
    case idle
    with assms have "w = window_size (ch_remote (chan s r))" "s' = s"
      by (auto simp: libssh2_channel_receive_window_adjust_def)
    with idle(2) show ?thesis by (intro exI[of _ 0]) (auto simp: conn_view_def intro!: ext)
  next
    case send
    let ?n = "n + ?Q"
    let ?d = "SSH_MSG_CHANNEL_WINDOW_ADJUST # libssh2_htonu32 (cd_id (ch_remote (chan s r))) @ libssh2_htonu32 ?n"
    let ?s0 = "upd_chan r (\<lambda>c. c\<lparr>adjust_queue := 0\<rparr>) s"
    have "sbind (libssh2_packet_write env ?d ?s0) (\<lambda>(rc, s). Inr (window_adjust_sent r ?n rc s)) = Inr (w, s')"
      using assms send unfolding libssh2_channel_receive_window_adjust_def Let_def
      by (simp only: if_False simp_thms)
    then obtain rc s1 where pw: "libssh2_packet_write env ?d ?s0 = Inr (rc, s1)"
      and ws: "window_adjust_sent r ?n rc s1 = (w, s')"
      unfolding sbind_eq_Inr by fastforce
    note v = packet_write_view[OF pw]
    have c: "chan s1 = (chan s)(r := (chan s r)\<lparr>adjust_queue := 0\<rparr>)" using conn_viewD(4)[OF v] by simp
    have v1: "conn_view s1 = conn_view (s\<lparr>chan := chan s1\<rparr>)" using v c by (simp add: conn_view_def upd_chan_def)
    show ?thesis
    proof (cases "rc = 0")
      case True
      with ws c v1 show ?thesis
        by (intro exI[of _ 0]) (auto simp: window_adjust_sent_def Let_def upd_remote_def conn_view_def algebra_simps)
    next
      case False
      with ws c v1 show ?thesis
        by (intro exI[of _ ?n]) (auto simp: window_adjust_sent_def Let_def libssh2_error_def conn_view_def algebra_simps)
    qed
  qed
qed

section \<open>Padding\<close>

lemma padding_for_nat:
  fixes bs len :: u32
  assumes "8 \<le> unat bs" and "unat len + 4 + 2 * unat bs < 2 ^ 32"
  shows "4 \<le> unat (padding_for bs len)" and "unat (padding_for bs len) < unat bs + 4"
    and "(unat len + 4 + unat (padding_for bs len)) mod unat bs = 0"
proof -
  let ?b = "unat bs" and ?n = "unat len + 4"
  have n: "unat (len + 4) = ?n" using assms by (subst unat_add_lem[THEN iffD1]) simp_all
  have m: "unat ((len + 4) mod bs) = ?n mod ?b" by (simp only: unat_mod n)
  have lt: "?n mod ?b < ?b" using assms(1) by simp
  define p where "p = bs - ((len + 4) mod bs)"
  have p: "unat p = ?b - ?n mod ?b"
    unfolding p_def using lt m by (subst unat_sub) (simp_all add: word_le_nat_alt)
  have p4: "p < 4 \<longleftrightarrow> unat p < 4" by (simp add: word_less_nat_alt)
  have pb: "unat (p + bs) = unat p + ?b"
    using p assms by (subst unat_add_lem[THEN iffD1]) simp_all
  have u: "unat (padding_for bs len) = (if unat p < 4 then unat p + ?b else unat p)"
    by (simp add: padding_for_def Let_def p4 pb flip: p_def)
  show "4 \<le> unat (padding_for bs len)" using u assms(1) by simp
  show "unat (padding_for bs len) < ?b + 4" using u p lt assms(1) by auto
  have "(?n + unat p) mod ?b = 0"
  proof -
    have "?n + unat p = ?n div ?b * ?b + ?b"
      using p lt div_mult_mod_eq[of ?n ?b] by linarith
    then show ?thesis by simp
  qed
  then show "(?n + unat (padding_for bs len)) mod ?b = 0"
    by (simp add: u add.assoc[symmetric])
qed

definition frame :: "bytes \<Rightarrow> bytes \<Rightarrow> bytes" where
  "frame data pad = libssh2_htonu32 (of_nat (length data + length pad + 1)) @ [of_nat (length pad)] @ data @ pad"

lemma packet_send_frame:
  assumes "8 \<le> bs" and "bs < 2 ^ 8 - 4" and "length data + 2 * bs + 5 < 2 ^ 32"
  defines "p \<equiv> padding_for (of_nat bs) (of_nat (length data) + 1)"
  shows "libssh2_htonu32 (of_nat (length data) + 1 + p) @ [ucast p] @ data @ map f [0..<unat p]
      = frame data (map f [0..<unat p])"
    and "4 \<le> unat p" and "unat p < bs + 4" and "(length data + unat p + 5) mod bs = 0"
proof -
  have b: "unat (of_nat bs :: u32) = bs" using assms(2) by (simp add: unat_of_nat)
  have "unat (of_nat (length data) + 1 :: u32) = length data + 1"
  proof -
    have "unat (of_nat (length data + 1) :: u32) = length data + 1"
      using assms(3) unfolding unat_of_nat by simp
    then show ?thesis by (simp add: add.commute)
  qed
  note pad = padding_for_nat[of "of_nat bs" "of_nat (length data) + 1", unfolded this b, folded p_def]
  show l: "4 \<le> unat p" "unat p < bs + 4" using pad assms by simp_all
  show "(length data + unat p + 5) mod bs = 0" using pad(3) assms by (simp add: ac_simps)
  have "ucast p = (of_nat (unat p) :: u8)" by (metis of_nat_unat)
  moreover have "of_nat (length data) + 1 + p = of_nat (length data + unat p + 1)"
    by (simp add: ac_simps)
  ultimately show "libssh2_htonu32 (of_nat (length data) + 1 + p) @ [ucast p] @ data @ map f [0..<unat p]
      = frame data (map f [0..<unat p])"
    unfolding frame_def by (simp only: length_map length_upt diff_zero)
qed

lemma packet_write_plain:
  assumes "\<not> newkeys s" and "send_ok s = []" and "length data < 2 ^ 31"
  obtains pad where "4 \<le> length pad" and "length pad < 12" and "length (frame data pad) mod 8 = 0"
    and "libssh2_packet_write env data s = Inr (0, s\<lparr>ep_local := (ep_local s)\<lparr>seqno := seqno (ep_local s) + 1\<rparr>,
      sent := sent s @ [frame data pad]\<rparr>)"
proof -
  define p where "p = padding_for (of_nat 8) (of_nat (length data) + 1)"
  let ?pad = "map (e_junk env) [0..<unat p]"
  have b: "length data + 2 * 8 + 5 < 2 ^ 32" using assms(3) by simp
  note fr = packet_send_frame(1)[OF _ _ b, folded p_def, where f = "e_junk env", simplified]
    packet_send_frame(2-)[OF _ _ b, folded p_def, simplified]
  have "libssh2_packet_write env data s = Inr (0, s\<lparr>ep_local := (ep_local s)\<lparr>seqno := seqno (ep_local s) + 1\<rparr>,
      sent := sent s @ [frame data ?pad]\<rparr>)"
    using assms(1,2) fr(1) by (simp add: libssh2_packet_write_def packet_send_def Let_def sock_send_def p_def)
  moreover have "length (frame data ?pad) mod 8 = 0" using fr(4) by (simp add: frame_def ac_simps)
  ultimately show ?thesis using that[of ?pad] fr(2,3) by simp
qed

section \<open>Identifiers\<close>

definition ids_below :: "'x session \<Rightarrow> bool" where
  "ids_below s \<longleftrightarrow> list_all (\<lambda>r. cd_id (ch_local (chan s r)) < next_channel s) (channels s)"

lemma nextid_eq:
  assumes "ids_below s"
  shows "libssh2_channel_nextid s = (next_channel s, s\<lparr>next_channel := next_channel s + 1\<rparr>)"
proof -
  have "foldl (\<lambda>id r. if id < cd_id (ch_local (chan s r)) then cd_id (ch_local (chan s r)) else id) n rs = n"
    if "list_all (\<lambda>r. cd_id (ch_local (chan s r)) < n) rs" for n rs
    using that by (induction rs) auto
  with assms show ?thesis by (simp add: libssh2_channel_nextid_def ids_below_def Let_def)
qed

lemma locate_SomeD:
  "libssh2_channel_locate s i = Some r \<Longrightarrow> r \<in> set (channels s) \<and> cd_id (ch_local (chan s r)) = i"
  by (auto simp: libssh2_channel_locate_def find_Some_iff)

lemma locate_None: "libssh2_channel_locate s i = None \<longleftrightarrow> i \<notin> (\<lambda>r. cd_id (ch_local (chan s r))) ` set (channels s)"
  by (auto simp: libssh2_channel_locate_def find_None_iff)

section \<open>An example session\<close>

text \<open>A session for the examples: no keys, an open socket and nothing else.\<close>

definition example_endpoint :: "unit endpoint" where
  "example_endpoint = \<lparr>ep_crypt = \<lparr>blocksize = 8, flag_evp = False, crypt_fn = \<lambda>x b. (False, b, x)\<rparr>,
     crypt_abstract = (), ep_mac = \<lparr>mac_len = 0, mac_hash = \<lambda>x n a b. ([], x)\<rparr>, seqno = 0,
     mac_abstract = (), ep_comp = None, comp_abstract = ()\<rparr>"

definition example_cd :: "u32 \<Rightarrow> channel_data" where
  "example_cd i = \<lparr>cd_id = i, window_size_initial = 65536, window_size = 65536, packet_size = 16384,
     cd_close = False, cd_eof = False, ext_data_mode = EXTENDED_DATA_NORMAL\<rparr>"

definition example_channel :: channel where
  "example_channel = \<lparr>channel_type = [], blocking = True, exit_status = 0, ch_local = example_cd 0,
     ch_remote = example_cd 7, adjust_queue = 0, close_cb = False\<rparr>"

definition example_session :: "recv_event list \<Rightarrow> unit session" where
  "example_session ins = \<lparr>state = 0, sock_state = SOCKET_CONNECTED, packets = [], chan = \<lambda>_. example_channel,
     channels = [0], next_ref = 1, next_channel = 1, listeners = [], ep_remote = example_endpoint,
     ep_local = example_endpoint, err_code = ERROR_NONE, err_msg = [], input = ins, sent = [],
     send_ok = [], alloc_ok = []\<rparr>"

definition example_env :: "unit env" where
  "example_env = \<lparr>e_disconnect = None, e_ignore = None, e_debug = False, e_macerror = None, e_x11 = None,
     e_close = \<lambda>s _. s, e_kex = \<lambda>s. s, e_rand = \<lambda>_ _. 0, e_junk = \<lambda>_. 0\<rparr>"

lemmas example_defs = example_endpoint_def example_cd_def example_channel_def example_session_def
  example_env_def

lemma example_simps [simp]:
  "state (example_session ins) = 0" "sock_state (example_session ins) = SOCKET_CONNECTED"
  "packets (example_session ins) = []" "chan (example_session ins) = (\<lambda>_. example_channel)"
  "channels (example_session ins) = [0]" "next_channel (example_session ins) = 1"
  "listeners (example_session ins) = []" "input (example_session ins) = ins"
  "ep_remote (example_session ins) = example_endpoint" "ep_local (example_session ins) = example_endpoint"
  "sent (example_session ins) = []" "send_ok (example_session ins) = []" "alloc_ok (example_session ins) = []"
  "ch_local example_channel = example_cd 0" "ch_remote example_channel = example_cd 7"
  "adjust_queue example_channel = 0" "blocking example_channel" "cd_id (example_cd i) = i"
  "window_size (example_cd i) = 65536" "packet_size (example_cd i) = 16384" "\<not> cd_close (example_cd i)"
  "\<not> cd_eof (example_cd i)" "ext_data_mode (example_cd i) = EXTENDED_DATA_NORMAL"
  "e_disconnect example_env = None" "e_ignore example_env = None" "e_macerror example_env = None"
  "e_x11 example_env = None" "e_kex example_env = (\<lambda>s. s)"
  by (simp_all add: example_defs)

lemma example_no_keys: "\<not> newkeys (example_session ins)"
  by (simp add: newkeys_def example_session_def)

section \<open>Properties\<close>

text \<open>Before keys are in use a packet goes out as one frame: length, padding length, payload
  and padding, at least four bytes of padding, the whole a multiple of eight bytes; the sequence
  number goes up by one and nothing but the sending side of the session changes.\<close>

theorem packet_write_plain_frame:
  assumes "\<not> newkeys s" and "send_ok s = []" and "length data < 2 ^ 31"
  shows "\<exists>pad s'. libssh2_packet_write env data s = Inr (0, s') \<and> sent s' = sent s @ [frame data pad]
    \<and> 4 \<le> length pad \<and> length pad < 12 \<and> length (frame data pad) mod 8 = 0
    \<and> seqno (ep_local s') = seqno (ep_local s) + 1 \<and> conn_view s' = conn_view s"
proof -
  obtain pad where "4 \<le> length pad" "length pad < 12" "length (frame data pad) mod 8 = 0"
    and w: "libssh2_packet_write env data s = Inr (0, s\<lparr>ep_local := (ep_local s)\<lparr>seqno := seqno (ep_local s) + 1\<rparr>,
      sent := sent s @ [frame data pad]\<rparr>)" by (rule packet_write_plain[OF assms])
  then show ?thesis by (intro exI[of _ pad] exI) (auto simp: conn_view_def)
qed

text \<open>(C30) Adjusting the receive window never loses or invents bytes: on every path (queued for
  later, nothing to do, sent, not sent) the window together with the queued bytes grows by exactly
  the adjustment, modulo \<open>2 ^ 32\<close>, no other channel changes, and the new window is returned.\<close>

theorem window_adjust_conserves:
  assumes "libssh2_channel_receive_window_adjust env r n force s = Inr (w, s')"
  shows "window_size (ch_remote (chan s' r)) + adjust_queue (chan s' r)
           = window_size (ch_remote (chan s r)) + adjust_queue (chan s r) + n
    \<and> w = window_size (ch_remote (chan s' r)) \<and> chan s' = (chan s)(r := chan s' r)"
  using window_adjust_effect[OF assms] by (elim exE conjE) (simp add: algebra_simps)

text \<open>As long as every channel's identifier is below \<^verbatim>\<open>next_channel\<close>, a new identifier is one
  that no channel has, and the new counter is again above all of them and above the new one,
  unless it wraps around.\<close>

theorem nextid_fresh:
  assumes "ids_below s" and "next_channel s \<noteq> - 1"
  shows "case libssh2_channel_nextid s of (i, s') \<Rightarrow>
    libssh2_channel_locate s i = None \<and> ids_below s' \<and> i < next_channel s' \<and> channels s' = channels s"
proof -
  have i: "next_channel s < next_channel s + 1" 
  proof -
    have "1 + next_channel s \<noteq> 0" using assms(2) by (simp add: add_eq_0_iff)
    from unatSuc[OF this] show ?thesis by (simp add: word_less_nat_alt add.commute)
  qed
  then have "ids_below (s\<lparr>next_channel := next_channel s + 1\<rparr>)"
    using assms(1) by (auto simp: ids_below_def list_all_iff)
  moreover have "libssh2_channel_locate s (next_channel s) = None"
    using assms(1) by (auto simp: locate_None ids_below_def list_all_iff)
  ultimately show ?thesis using i by (simp add: nextid_eq[OF assms(1)])
qed

theorem packet_write_plain_frame_witness:
  "\<exists>pad s'. libssh2_packet_write example_env [5] (example_session []) = Inr (0, s')
     \<and> sent s' = [frame [5] pad] \<and> 4 \<le> length pad"
proof -
  have "send_ok (example_session []) = []" "length [5 :: u8] < 2 ^ 31"
    by (simp_all add: example_session_def)
  from packet_write_plain_frame[OF example_no_keys this, of example_env] show ?thesis
    by (auto simp: example_session_def)
qed

theorem window_adjust_conserves_witness:
  "\<exists>s'. libssh2_channel_receive_window_adjust example_env 0 100 False (example_session []) = Inr (65536, s')
     \<and> window_size (ch_remote (chan s' 0)) + adjust_queue (chan s' 0) = 65636"
proof -
  let ?s' = "upd_chan 0 (\<lambda>c. c\<lparr>adjust_queue := 100\<rparr>) (example_session [])"
  have e: "libssh2_channel_receive_window_adjust example_env 0 100 False (example_session []) = Inr (65536, ?s')"
    by (simp add: libssh2_channel_receive_window_adjust_def Let_def upd_chan_def example_defs)
  from window_adjust_conserves[OF e] e show ?thesis
    by (intro exI[of _ ?s']) (simp add: example_defs)
qed

theorem nextid_fresh_witness:
  "ids_below (example_session []) \<and> next_channel (example_session []) \<noteq> - 1
   \<and> fst (libssh2_channel_nextid (example_session [])) = 1
   \<and> libssh2_channel_locate (example_session []) 1 = None"
proof -
  have h: "ids_below (example_session [])" "next_channel (example_session []) \<noteq> - 1"
    by (simp_all add: ids_below_def example_defs)
  have "next_channel (example_session []) = 1" by (simp add: example_session_def)
  with nextid_fresh[OF h] h show ?thesis by (simp add: nextid_eq[OF h(1)])
qed

end
