(* ===== verification/SSH_Packet.thy ===== *)
theory SSH_Packet
  imports SSH_Session
begin

text \<open>
  The receiving half of the packet layer, \<^verbatim>\<open>src/ssh/libssh2/packet.c\<close>: the dispatch of a received
  packet (\<^verbatim>\<open>libssh2_packet_add\<close> with the handlers for forwarded connections), reading packets from
  the socket in both modes (\<^verbatim>\<open>libssh2_packet_read\<close>), and the functions that take packets out of
  the queue or wait for them.

  A received payload is the byte list of its allocated buffer together with the length the code
  works with, an \<^verbatim>\<open>unsigned long\<close>; a read or write outside the buffer is \<open>Undefined\<close>.  Comparisons
  between signed and unsigned operands are written out as C evaluates them, in 32-bit unsigned
  arithmetic.  Allocation failures that the code does not check are \<open>Undefined\<close>.
\<close>

section \<open>Access to a buffer\<close>

definition rd8 :: "bytes \<Rightarrow> int \<Rightarrow> u8 run" where
  "rd8 d off = (if 0 \<le> off \<and> off < int (length d) then Inr (d ! nat off) else Inl Undefined)"

definition rd32 :: "bytes \<Rightarrow> int \<Rightarrow> u32 run" where
  "rd32 d off = (if 0 \<le> off \<and> off + 4 \<le> int (length d) then Inr (libssh2_ntohu32 (drop (nat off) d)) else Inl Undefined)"

definition rdn :: "bytes \<Rightarrow> int \<Rightarrow> nat \<Rightarrow> bytes run" where
  "rdn d off n = (if 0 \<le> off \<and> off + int n \<le> int (length d) then Inr (take n (drop (nat off) d)) else Inl Undefined)"

definition wrn :: "bytes \<Rightarrow> int \<Rightarrow> bytes \<Rightarrow> bytes run" where
  "wrn d off b =
     (if 0 \<le> off \<and> off + int (length b) \<le> int (length d)
      then Inr (take (nat off) d @ b @ drop (nat off + length b) d) else Inl Undefined)"

text \<open>\<^verbatim>\<open>memcpy (d + dst, d + src, n)\<close> inside one buffer.\<close>

definition mvn :: "bytes \<Rightarrow> int \<Rightarrow> int \<Rightarrow> nat \<Rightarrow> bytes run" where
  "mvn d dst src n = sbind (rdn d src n) (wrn d dst)"

definition ascii :: "string \<Rightarrow> bytes" where
  "ascii s = map of_char s"

section \<open>Forwarded connections\<close>

definition zero_cd :: channel_data where
  "zero_cd = \<lparr>cd_id = 0, window_size_initial = 0, window_size = 0, packet_size = 0, cd_close = False,
     cd_eof = False, ext_data_mode = EXTENDED_DATA_NORMAL\<rparr>"

definition zero_channel :: channel where
  "zero_channel = \<lparr>channel_type = [], blocking = False, exit_status = 0, ch_local = zero_cd,
     ch_remote = zero_cd, adjust_queue = 0, close_cb = False\<rparr>"

text \<open>The channel that both handlers set up for a connection the remote end opens.\<close>

definition forwarded_channel :: "bytes \<Rightarrow> u32 \<Rightarrow> u32 \<Rightarrow> u32 \<Rightarrow> u32 \<Rightarrow> channel" where
  "forwarded_channel ctype sender_channel local_id initial_window_size psize =
     zero_channel\<lparr>channel_type := ctype,
       ch_remote := zero_cd\<lparr>cd_id := sender_channel,
         window_size_initial := LIBSSH2_CHANNEL_WINDOW_DEFAULT, window_size := LIBSSH2_CHANNEL_WINDOW_DEFAULT,
         packet_size := LIBSSH2_CHANNEL_PACKET_DEFAULT\<rparr>,
       ch_local := zero_cd\<lparr>cd_id := local_id, window_size_initial := initial_window_size,
         window_size := initial_window_size, packet_size := psize\<rparr>\<rparr>"

definition open_confirmation :: "channel \<Rightarrow> bytes" where
  "open_confirmation c =
     SSH_MSG_CHANNEL_OPEN_CONFIRMATION # libssh2_htonu32 (cd_id (ch_remote c))
       @ libssh2_htonu32 (cd_id (ch_local c)) @ libssh2_htonu32 (window_size_initial (ch_remote c))
       @ libssh2_htonu32 (packet_size (ch_remote c))"

text \<open>
  The refusal of a connection: the description is copied to \<^verbatim>\<open>s\<close>, the end of the parsed data,
  instead of \<^verbatim>\<open>p\<close>, so the packet that is sent holds uninitialised bytes in its place.
\<close>

definition open_failure :: "'x env \<Rightarrow> bytes \<Rightarrow> int \<Rightarrow> u32 \<Rightarrow> u32 \<Rightarrow> string \<Rightarrow> 'x session \<Rightarrow> (int \<times> 'x session) run" where
  "open_failure env data s_off sender_channel failure_code descr s =
     sbind (wrn data s_off (ascii descr)) (\<lambda>_.
     sbind (libssh2_packet_write env
        (SSH_MSG_CHANNEL_OPEN_FAILURE # libssh2_htonu32 sender_channel @ libssh2_htonu32 failure_code
         @ libssh2_htonu32 (of_nat (length descr)) @ map (e_junk env) [0..<length descr] @ libssh2_htonu32 0) s)
       (\<lambda>(rc, s). if rc \<noteq> 0 then Inr (-1, libssh2_error ERROR_SOCKET_SEND ''Unable to send open failure'' s)
                  else Inr (0, s)))"

text \<open>The two allocations for a new channel and its type.\<close>

definition alloc_channel :: "'x session \<Rightarrow> bool \<times> 'x session" where
  "alloc_channel s =
     (let (ok, s) = libssh2_alloc s
      in if \<not> ok then (False, libssh2_error ERROR_ALLOC ''Unable to allocate a channel for new connection'' s)
         else let (ok, s) = libssh2_alloc s
              in if \<not> ok then (False, libssh2_error ERROR_ALLOC ''Unable to allocate a channel for new connection'' s)
                 else (True, s))"

text \<open>A new channel in the store, and its confirmation.\<close>

definition confirm_channel :: "'x env \<Rightarrow> bytes \<Rightarrow> u32 \<Rightarrow> u32 \<Rightarrow> u32 \<Rightarrow> 'x session \<Rightarrow> (int \<times> nat \<times> 'x session) run" where
  "confirm_channel env ctype sender_channel initial_window_size psize s =
     (let (i, s) = libssh2_channel_nextid s;
          c = forwarded_channel ctype sender_channel i initial_window_size psize;
          r = next_ref s;
          s = s\<lparr>next_ref := r + 1, chan := (chan s)(r := c)\<rparr>
      in sbind (libssh2_packet_write env (open_confirmation c) s)
           (\<lambda>(rc, s). if rc \<noteq> 0
              then Inr (-1, r, libssh2_error ERROR_SOCKET_SEND ''Unable to send channel open confirmation'' s)
              else Inr (0, r, s)))"

definition match_listener :: "u32 \<Rightarrow> bytes \<Rightarrow> listener \<Rightarrow> bool" where
  "match_listener port host l \<longleftrightarrow> l_port l = port \<and> length (l_host l) = length host \<and> l_host l = host"

definition queue_channel :: "nat \<Rightarrow> listener \<Rightarrow> listener" where
  "queue_channel r l =
     (if l_queue l = [] then l\<lparr>l_queue := [r]\<rparr>
      else l\<lparr>l_queue := l_queue l @ [r], queue_size := queue_size l + 1\<rparr>)"

text \<open>A connection for a listener whose queue is not full.\<close>

definition listener_accept ::
  "'x env \<Rightarrow> nat \<Rightarrow> u32 \<Rightarrow> u32 \<Rightarrow> u32 \<Rightarrow> ('x session \<Rightarrow> (int \<times> 'x session) run) \<Rightarrow> 'x session \<Rightarrow> (int \<times> 'x session) run" where
  "listener_accept env k sender_channel initial_window_size psize refuse s =
     (let (ok, s) = alloc_channel s
      in if \<not> ok then refuse s
         else sbind (confirm_channel env (ascii ''forwarded-tcpip'') sender_channel initial_window_size psize s)
                (\<lambda>(rc, r, s). if rc \<noteq> 0 then Inr (-1, s)
                   else Inr (0, s\<lparr>listeners := (listeners s)[k := queue_channel r (listeners s ! k)]\<rparr>)))"

definition libssh2_packet_queue_listener :: "'x env \<Rightarrow> bytes \<Rightarrow> 'x session \<Rightarrow> (int \<times> 'x session) run" where
  "libssh2_packet_queue_listener env data s =
     sbind (rd32 data 20) (\<lambda>sender_channel.
     sbind (rd32 data 24) (\<lambda>initial_window_size.
     sbind (rd32 data 28) (\<lambda>psize.
     sbind (rd32 data 32) (\<lambda>host_len.
     let hl = uint host_len in
     sbind (rd32 data (36 + hl)) (\<lambda>port.
     sbind (rd32 data (40 + hl)) (\<lambda>shost_len.
     let s_off = 48 + hl + uint shost_len in
     sbind (rd32 data (s_off - 4)) (\<lambda>sport.
     let host = take (nat hl) (drop 36 data);
         refuse = (\<lambda>code. open_failure env data s_off sender_channel code ''Forward not requested'')
     in case find_index (match_listener port host) (listeners s) of
          None \<Rightarrow> refuse 1 s
        | Some k \<Rightarrow>
            let l = listeners s ! k
            in if queue_maxsize l \<noteq> 0 \<and> queue_maxsize l \<le> queue_size l then refuse 4 s
               else listener_accept env k sender_channel initial_window_size psize (refuse 4) s)))))))"

text \<open>The same for a forwarded X11 connection, which goes to the channels of the session and to the
  callback at once.\<close>

definition x11_accept ::
  "'x env \<Rightarrow> ('x session \<Rightarrow> nat \<Rightarrow> 'x session) \<Rightarrow> u32 \<Rightarrow> u32 \<Rightarrow> u32 \<Rightarrow> ('x session \<Rightarrow> (int \<times> 'x session) run) \<Rightarrow> 'x session \<Rightarrow> (int \<times> 'x session) run" where
  "x11_accept env cb sender_channel initial_window_size psize refuse s =
     (let (ok, s) = alloc_channel s
      in if \<not> ok then refuse s
         else sbind (confirm_channel env (ascii ''x11'') sender_channel initial_window_size psize s)
                (\<lambda>(rc, r, s). if rc \<noteq> 0 then Inr (-1, s) else Inr (0, cb (s\<lparr>channels := channels s @ [r]\<rparr>) r)))"

definition libssh2_packet_x11_open :: "'x env \<Rightarrow> bytes \<Rightarrow> 'x session \<Rightarrow> (int \<times> 'x session) run" where
  "libssh2_packet_x11_open env data s =
     sbind (rd32 data 8) (\<lambda>sender_channel.
     sbind (rd32 data 12) (\<lambda>initial_window_size.
     sbind (rd32 data 16) (\<lambda>psize.
     sbind (rd32 data 20) (\<lambda>shost_len.
     let s_off = 28 + uint shost_len in
     sbind (rd32 data (s_off - 4)) (\<lambda>sport.
     let refuse = (\<lambda>code. open_failure env data s_off sender_channel code ''X11 Forward Unavailable'')
     in case e_x11 env of
          None \<Rightarrow> refuse 4 s
        | Some cb \<Rightarrow>
            x11_accept env (\<lambda>s r. cb s r (take (nat (uint shost_len)) (drop 24 data)) sport)
              sender_channel initial_window_size psize (refuse 4) s)))))"

section \<open>Dispatch of a received packet\<close>

text \<open>
  The result of a case of the switch: the packet is dealt with and the function returns a value,
  or it is queued with this length and this position of its data.
\<close>

datatype add_result = Handled int | Enqueue u32 u32

text \<open>
  The message and the language tag of \<^verbatim>\<open>DISCONNECT\<close> and \<^verbatim>\<open>DEBUG\<close>, whose text starts at \<open>base\<close>,
  after the code wrote a NUL behind the message, moved the language tag one byte down and wrote a
  NUL behind it.
\<close>

definition text_fields :: "bytes \<Rightarrow> int \<Rightarrow> (bytes \<times> bytes) run" where
  "text_fields data base =
     sbind (rd32 data (base - 4)) (\<lambda>ml.
     let message_len = sint ml in
     sbind (rd32 data (base + message_len)) (\<lambda>ll.
     let language_len = sint ll; language = base + message_len + 3 in
     sbind (wrn data (base + message_len) [0]) (\<lambda>data.
     sbind (if ll \<noteq> 0 then mvn data language (language + 1) (unat ll) else Inr data) (\<lambda>data.
     sbind (wrn data (language + language_len) [0]) (\<lambda>data.
     Inr (take (nat message_len) (drop (nat base) data), take (nat language_len) (drop (nat language) data)))))))"

definition add_disconnect :: "'x env \<Rightarrow> bytes \<Rightarrow> 'x session \<Rightarrow> (add_result \<times> 'x session) run" where
  "add_disconnect env data s =
     sbind (rd32 data 1) (\<lambda>reason.
     sbind (text_fields data 9) (\<lambda>(message, language).
     let s = (case e_disconnect env of Some cb \<Rightarrow> cb s reason message language | None \<Rightarrow> s)
     in Inr (Handled (-1), s\<lparr>sock_state := SOCKET_DISCONNECTED\<rparr>)))"

definition add_ignore :: "'x env \<Rightarrow> bytes \<Rightarrow> u32 \<Rightarrow> 'x session \<Rightarrow> (add_result \<times> 'x session) run" where
  "add_ignore env data datalen s =
     sbind (mvn data 4 5 (unat (datalen - 5))) (\<lambda>data.
     sbind (wrn data (uint datalen) [0]) (\<lambda>data.
     let s = (case e_ignore env of Some cb \<Rightarrow> cb s (take (unat (datalen - 5)) (drop 4 data)) | None \<Rightarrow> s)
     in Inr (Handled 0, s)))"

text \<open>
  The macro \<^verbatim>\<open>LIBSSH2_DEBUG\<close> calls the disconnect callback, with the first byte of the packet
  as its argument.
\<close>

definition add_debug :: "'x env \<Rightarrow> bytes \<Rightarrow> 'x session \<Rightarrow> (add_result \<times> 'x session) run" where
  "add_debug env data s =
     sbind (text_fields data 6) (\<lambda>(message, language).
     if e_debug env then
       (case e_disconnect env of
          None \<Rightarrow> Inl Undefined
        | Some cb \<Rightarrow> Inr (Handled 0, cb s (ucast (data ! 0)) message language))
     else Inr (Handled 0, s))"

text \<open>The part of the data case after the unknown channel and the ignored stream are dealt with.\<close>

definition accept_data :: "nat \<Rightarrow> u32 \<Rightarrow> u32 \<Rightarrow> 'x session \<Rightarrow> add_result \<times> 'x session" where
  "accept_data r data_head datalen s =
     (let rem = ch_remote (chan s r);
          (datalen, s) =
            (if packet_size rem < datalen - data_head
             then (packet_size rem + data_head,
                   libssh2_error ERROR_CHANNEL_PACKET_EXCEEDED
                     ''Packet contains more data than we offered to receive, truncating'' s)
             else (datalen, s))
      in if window_size rem = 0 then
           (Handled 0, libssh2_error ERROR_CHANNEL_WINDOW_EXCEEDED
              ''The current receive window is full, data ignored'' s)
         else
           let s = upd_remote r (\<lambda>d. d\<lparr>cd_eof := False\<rparr>) s
           in if datalen - data_head > window_size rem
              then (Enqueue (window_size rem + data_head) data_head,
                    libssh2_error ERROR_CHANNEL_WINDOW_EXCEEDED
                      ''Remote sent more data than current window allows, truncating'' s)
              else (Enqueue datalen data_head,
                    upd_remote r (\<lambda>d. d\<lparr>window_size := window_size d - (datalen - data_head)\<rparr>) s))"

definition add_channel_data :: "'x env \<Rightarrow> bytes \<Rightarrow> u32 \<Rightarrow> 'x session \<Rightarrow> (add_result \<times> 'x session) run" where
  "add_channel_data env data datalen s =
     (let data_head = (if data ! 0 = SSH_MSG_CHANNEL_EXTENDED_DATA then 13 else 9)
      in sbind (rd32 data 1) (\<lambda>cid.
         case libssh2_channel_locate s cid of
           None \<Rightarrow> Inr (Handled 0, libssh2_error ERROR_CHANNEL_UNKNOWN
                     ''Packet received for unknown channel, ignoring'' s)
         | Some r \<Rightarrow>
             if ext_data_mode (ch_remote (chan s r)) = EXTENDED_DATA_IGNORE \<and> data ! 0 = SSH_MSG_CHANNEL_EXTENDED_DATA
             then sbind (libssh2_channel_receive_window_adjust env r (datalen - 13) False s)
                    (\<lambda>(w, s). Inr (Handled 0, s))
             else Inr (accept_data r data_head datalen s)))"

definition add_channel_eof :: "bytes \<Rightarrow> 'x session \<Rightarrow> (add_result \<times> 'x session) run" where
  "add_channel_eof data s =
     sbind (rd32 data 1) (\<lambda>cid.
     case libssh2_channel_locate s cid of
       None \<Rightarrow> Inr (Handled 0, s)
     | Some r \<Rightarrow> Inr (Handled 0, upd_remote r (\<lambda>d. d\<lparr>cd_eof := True\<rparr>) s))"

definition add_channel_request :: "bytes \<Rightarrow> u32 \<Rightarrow> 'x session \<Rightarrow> (add_result \<times> 'x session) run" where
  "add_channel_request data datalen s =
     sbind (rd32 data 5) (\<lambda>n.
     if n \<noteq> 11 then Inr (Enqueue datalen 0, s)
     else sbind (rdn data 9 11) (\<lambda>name.
       if name \<noteq> ascii ''exit-status'' then Inr (Enqueue datalen 0, s)
       else sbind (rd32 data 1) (\<lambda>cid.
         case libssh2_channel_locate s cid of
           None \<Rightarrow> Inr (Handled 0, s)
         | Some r \<Rightarrow> sbind (rd32 data 21) (\<lambda>st.
             Inr (Handled 0, upd_chan r (\<lambda>c. c\<lparr>exit_status := st\<rparr>) s)))))"

definition add_channel_close :: "bytes \<Rightarrow> 'x session \<Rightarrow> (add_result \<times> 'x session) run" where
  "add_channel_close data s =
     sbind (rd32 data 1) (\<lambda>cid.
     case libssh2_channel_locate s cid of
       None \<Rightarrow> Inr (Handled 0, s)
     | Some r \<Rightarrow> Inr (Handled 0, upd_remote r (\<lambda>d. d\<lparr>cd_close := True\<rparr>) s))"

text \<open>Does the packet name this channel type?  The three conditions are tested in this order.\<close>

definition names_type :: "bytes \<Rightarrow> u32 \<Rightarrow> string \<Rightarrow> bool run" where
  "names_type data datalen ctype =
     (if datalen < of_nat (length ctype) + 5 then Inr False
      else sbind (rd32 data 1) (\<lambda>n.
        if n \<noteq> of_nat (length ctype) then Inr False
        else sbind (rdn data 5 (length ctype)) (\<lambda>b. Inr (b = ascii ctype))))"

definition add_channel_open :: "'x env \<Rightarrow> bytes \<Rightarrow> u32 \<Rightarrow> 'x session \<Rightarrow> (add_result \<times> 'x session) run" where
  "add_channel_open env data datalen s =
     sbind (names_type data datalen ''forwarded-tcpip'') (\<lambda>fwd.
     if fwd then sbind (libssh2_packet_queue_listener env data s) (\<lambda>(rc, s). Inr (Handled rc, s))
     else sbind (names_type data datalen ''x11'') (\<lambda>x11.
       if x11 then sbind (libssh2_packet_x11_open env data s) (\<lambda>(rc, s). Inr (Handled rc, s))
       else Inr (Enqueue datalen 0, s)))"

definition add_window_adjust :: "bytes \<Rightarrow> 'x session \<Rightarrow> (add_result \<times> 'x session) run" where
  "add_window_adjust data s =
     sbind (rd32 data 1) (\<lambda>cid.
     sbind (rd32 data 5) (\<lambda>bytestoadd.
     case libssh2_channel_locate s cid of
       None \<Rightarrow> Inr (Handled 0, s)
     | Some r \<Rightarrow>
         Inr (Handled 0, if bytestoadd \<noteq> 0
                then upd_local r (\<lambda>d. d\<lparr>window_size := window_size d + bytestoadd\<rparr>) s else s)))"

definition add_switch :: "'x env \<Rightarrow> bytes \<Rightarrow> u32 \<Rightarrow> 'x session \<Rightarrow> (add_result \<times> 'x session) run" where
  "add_switch env data datalen s =
     sbind (rd8 data 0) (\<lambda>ptype.
     if ptype = SSH_MSG_DISCONNECT then add_disconnect env data s
     else if ptype = SSH_MSG_IGNORE then add_ignore env data datalen s
     else if ptype = SSH_MSG_DEBUG then add_debug env data s
     else if ptype = SSH_MSG_CHANNEL_EXTENDED_DATA \<or> ptype = SSH_MSG_CHANNEL_DATA then add_channel_data env data datalen s
     else if ptype = SSH_MSG_CHANNEL_EOF then add_channel_eof data s
     else if ptype = SSH_MSG_CHANNEL_REQUEST then add_channel_request data datalen s
     else if ptype = SSH_MSG_CHANNEL_CLOSE then add_channel_close data s
     else if ptype = SSH_MSG_CHANNEL_OPEN then add_channel_open env data datalen s
     else if ptype = SSH_MSG_CHANNEL_WINDOW_ADJUST then add_window_adjust data s
     else Inr (Enqueue datalen 0, s))"

text \<open>The check of the MAC: a state to go on with, or \<open>None\<close> for the return value -1.\<close>

definition add_mac :: "'x env \<Rightarrow> bytes \<Rightarrow> u32 \<Rightarrow> mac_state \<Rightarrow> 'x session \<Rightarrow> mac_state option \<times> 'x session" where
  "add_mac env data datalen macstate s =
     (if macstate \<noteq> MAC_INVALID then (Some macstate, s)
      else
        let reject = (\<lambda>s. let s = libssh2_error ERROR_INVALID_MAC ''Invalid Message Authentication Code received'' s
               in (None, case e_disconnect env of Some cb \<Rightarrow> cb s 5 (ascii ''Invalid MAC received'') [] | None \<Rightarrow> s))
        in case e_macerror env of
             None \<Rightarrow> reject s
           | Some cb \<Rightarrow>
               let (bad, s) = cb s (take (unat datalen) data)
               in if \<not> bad then (Some MAC_CONFIRMED, s) else reject s)"

definition add_enqueue :: "'x env \<Rightarrow> bytes \<Rightarrow> u32 \<Rightarrow> u32 \<Rightarrow> mac_state \<Rightarrow> 'x session \<Rightarrow> (int \<times> 'x session) run" where
  "add_enqueue env data datalen data_head macstate s =
     (let (ok, s) = libssh2_alloc s
      in if \<not> ok then Inl Undefined
         else
           let s = s\<lparr>packets := packets s @ [\<lparr>pk_data = data, pk_len = datalen, pk_head = data_head, pk_mac = macstate\<rparr>]\<rparr>
           in Inr (0, if data ! 0 = SSH_MSG_KEXINIT \<and> state s AND LIBSSH2_STATE_EXCHANGING_KEYS = 0
                      then e_kex env s else s))"

definition libssh2_packet_add :: "'x env \<Rightarrow> bytes \<Rightarrow> u32 \<Rightarrow> mac_state \<Rightarrow> 'x session \<Rightarrow> (int \<times> 'x session) run" where
  "libssh2_packet_add env data datalen macstate s =
     (case add_mac env data datalen macstate s of
        (None, s) \<Rightarrow> Inr (-1, s)
      | (Some macstate, s) \<Rightarrow>
          sbind (add_switch env data datalen s) (\<lambda>(res, s).
          case res of
            Handled rc \<Rightarrow> Inr (rc, s)
          | Enqueue datalen data_head \<Rightarrow> add_enqueue env data datalen data_head macstate s))"

section \<open>What the handlers keep\<close>

text \<open>Callbacks of the application that leave the connection state of the session alone.\<close>

definition quiet_env :: "'x env \<Rightarrow> bool" where
  "quiet_env env \<longleftrightarrow>
     (\<forall>cb s r m l. e_disconnect env = Some cb \<longrightarrow> conn_view (cb s r m l) = conn_view s)
     \<and> (\<forall>cb s b. e_ignore env = Some cb \<longrightarrow> conn_view (cb s b) = conn_view s)
     \<and> (\<forall>cb s b x s'. e_macerror env = Some cb \<longrightarrow> cb s b = (x, s') \<longrightarrow> conn_view s' = conn_view s)
     \<and> (\<forall>cb s r b p. e_x11 env = Some cb \<longrightarrow> conn_view (cb s r b p) = conn_view s)"

text \<open>
  What the packets of the remote end may not change: the queue of packets already received, the
  input and the receiving side.
\<close>

definition queue_view :: "'x session \<Rightarrow> packet list \<times> recv_event list \<times> 'x endpoint \<times> u32" where
  "queue_view s = (packets s, input s, ep_remote s, state s)"

lemma queue_view_conn: "conn_view s' = conn_view s \<Longrightarrow> queue_view s' = queue_view s"
  by (simp add: conn_view_def queue_view_def)

lemma queue_view_simps [simp, sess_simps]:
  "queue_view (upd_chan r f s) = queue_view s" "queue_view (upd_remote r g s) = queue_view s"
  "queue_view (upd_local r g s) = queue_view s" "queue_view (libssh2_error c m s) = queue_view s"
  "queue_view (s\<lparr>sock_state := x\<rparr>) = queue_view s" "queue_view (s\<lparr>channels := cs\<rparr>) = queue_view s"
  "queue_view (s\<lparr>listeners := ls\<rparr>) = queue_view s" "queue_view (s\<lparr>next_channel := n\<rparr>) = queue_view s"
  "queue_view (s\<lparr>chan := h\<rparr>) = queue_view s" "queue_view (s\<lparr>next_ref := k, chan := h\<rparr>) = queue_view s"
  "queue_view (s\<lparr>next_ref := k\<rparr>) = queue_view s"
  by (simp_all add: queue_view_def upd_remote_def upd_local_def libssh2_error_def)

lemma packet_write_queue: "libssh2_packet_write env d s = Inr (rc, s') \<Longrightarrow> queue_view s' = queue_view s"
  by (rule queue_view_conn) (rule packet_write_view)

lemma window_adjust_sent_queue: "window_adjust_sent r n rc s = (w, s') \<Longrightarrow> queue_view s' = queue_view s"
  by (auto simp: window_adjust_sent_def Let_def)

lemma window_adjust_queue:
  assumes "libssh2_channel_receive_window_adjust env r n force s = Inr (w, s')"
  shows "queue_view s' = queue_view s"
  using assms unfolding libssh2_channel_receive_window_adjust_def Let_def
  by (auto simp: sbind_eq_Inr split: if_splits dest!: packet_write_queue window_adjust_sent_queue)

lemma open_failure_queue: "open_failure env d k i c t s = Inr (rc, s') \<Longrightarrow> queue_view s' = queue_view s"
  unfolding open_failure_def
  by (auto simp: sbind_eq_Inr split: if_splits dest!: packet_write_queue)

lemma alloc_channel_queue: "alloc_channel s = (ok, s') \<Longrightarrow> queue_view s' = queue_view s"
  unfolding alloc_channel_def Let_def
  by (auto split: prod.splits if_splits dest!: alloc_frame queue_view_conn)

lemma nextid_queue: "libssh2_channel_nextid s = (i, s') \<Longrightarrow> queue_view s' = queue_view s"
  by (auto simp: libssh2_channel_nextid_def Let_def)

lemma confirm_channel_queue: "confirm_channel env t i w p s = Inr (rc, r, s') \<Longrightarrow> queue_view s' = queue_view s"
  unfolding confirm_channel_def Let_def
  by (auto simp: sbind_eq_Inr split: prod.splits if_splits dest!: packet_write_queue nextid_queue)

lemma listener_accept_queue:
  assumes "listener_accept env k i w p refuse s = Inr (rc, s')"
    and "\<And>t rc t'. refuse t = Inr (rc, t') \<Longrightarrow> queue_view t' = queue_view t"
  shows "queue_view s' = queue_view s"
proof -
  obtain ok s1 where al: "alloc_channel s = (ok, s1)" by (cases "alloc_channel s")
  with assms(1) show ?thesis unfolding listener_accept_def al Let_def
    by (auto simp: sbind_eq_Inr alloc_channel_queue[OF al] split: if_splits
        dest!: assms(2) confirm_channel_queue)
qed

lemma x11_accept_queue:
  assumes "x11_accept env cb i w p refuse s = Inr (rc, s')"
    and "\<And>t rc t'. refuse t = Inr (rc, t') \<Longrightarrow> queue_view t' = queue_view t"
    and "\<And>t r. queue_view (cb t r) = queue_view t"
  shows "queue_view s' = queue_view s"
proof -
  obtain ok s1 where al: "alloc_channel s = (ok, s1)" by (cases "alloc_channel s")
  with assms(1) show ?thesis unfolding x11_accept_def al Let_def
    by (auto simp: sbind_eq_Inr alloc_channel_queue[OF al] assms(3) split: if_splits
        dest!: assms(2) confirm_channel_queue)
qed

lemma queue_listener_queue:
  assumes "libssh2_packet_queue_listener env d s = Inr (rc, s')"
  shows "queue_view s' = queue_view s"
  using assms unfolding libssh2_packet_queue_listener_def Let_def
  by (auto simp: sbind_eq_Inr simp del: find_index_None_iff split: option.split_asm if_split_asm
      dest!: open_failure_queue elim!: listener_accept_queue)

lemma x11_open_queue:
  assumes "libssh2_packet_x11_open env d s = Inr (rc, s')" and "quiet_env env"
  shows "queue_view s' = queue_view s"
proof -
  have q: "queue_view (cb t r b p) = queue_view t" if "e_x11 env = Some cb" for cb t r b p
    using that assms(2) by (intro queue_view_conn) (simp add: quiet_env_def)
  show ?thesis
    using assms(1) unfolding libssh2_packet_x11_open_def Let_def
    by (auto simp: sbind_eq_Inr q split: option.splits if_splits
        dest!: open_failure_queue elim!: x11_accept_queue)
qed

lemma accept_data_queue: "accept_data r h n s = (res, s') \<Longrightarrow> queue_view s' = queue_view s"
  unfolding accept_data_def Let_def by (auto split: if_splits)

lemma add_switch_queue:
  assumes "add_switch env d n s = Inr (res, s')" and "quiet_env env"
  shows "queue_view s' = queue_view s"
proof -
  have q: "queue_view (cb t r m l) = queue_view t" if "e_disconnect env = Some cb" for cb t r m l
    using that assms(2) by (intro queue_view_conn) (simp add: quiet_env_def)
  have q': "queue_view (cb t b) = queue_view t" if "e_ignore env = Some cb" for cb t b
    using that assms(2) by (intro queue_view_conn) (simp add: quiet_env_def)
  have "add_disconnect env d s = Inr (res, s') \<Longrightarrow> ?thesis"
    by (auto simp: add_disconnect_def sbind_eq_Inr Let_def q split: option.splits)
  moreover have "add_ignore env d n s = Inr (res, s') \<Longrightarrow> ?thesis"
    by (auto simp: add_ignore_def sbind_eq_Inr Let_def q' split: option.splits)
  moreover have "add_debug env d s = Inr (res, s') \<Longrightarrow> ?thesis"
    by (auto simp: add_debug_def sbind_eq_Inr q split: option.splits if_splits)
  moreover have "add_channel_data env d n s = Inr (res, s') \<Longrightarrow> ?thesis"
    unfolding add_channel_data_def Let_def
    by (auto simp: sbind_eq_Inr split: option.splits if_splits dest!: window_adjust_queue accept_data_queue)
  moreover have "add_channel_eof d s = Inr (res, s') \<Longrightarrow> ?thesis"
    by (auto simp: add_channel_eof_def sbind_eq_Inr split: option.splits)
  moreover have "add_channel_request d n s = Inr (res, s') \<Longrightarrow> ?thesis"
    by (auto simp: add_channel_request_def sbind_eq_Inr split: option.splits if_splits)
  moreover have "add_channel_close d s = Inr (res, s') \<Longrightarrow> ?thesis"
    by (auto simp: add_channel_close_def sbind_eq_Inr split: option.splits)
  moreover have "add_channel_open env d n s = Inr (res, s') \<Longrightarrow> ?thesis"
    using assms(2) by (auto simp: add_channel_open_def sbind_eq_Inr split: if_splits
        dest!: queue_listener_queue x11_open_queue)
  moreover have "add_window_adjust d s = Inr (res, s') \<Longrightarrow> ?thesis"
    by (auto simp: add_window_adjust_def sbind_eq_Inr split: option.splits)
  ultimately show ?thesis
    using assms(1) by (auto simp: add_switch_def sbind_eq_Inr split: if_splits)
qed

lemma add_mac_queue:
  assumes "add_mac env d n m s = (res, s')" and "quiet_env env"
  shows "conn_view s' = conn_view s"
  using assms unfolding add_mac_def Let_def quiet_env_def
  by (auto split: if_split_asm option.splits prod.split_asm)

section \<open>Requests of the remote end\<close>

text \<open>The bytes of a request for a forwarded connection, as the remote end sends it.\<close>

definition forward_request :: "u32 \<Rightarrow> u32 \<Rightarrow> u32 \<Rightarrow> bytes \<Rightarrow> u32 \<Rightarrow> bytes \<Rightarrow> u32 \<Rightarrow> bytes" where
  "forward_request sender win psize host port shost sport =
     SSH_MSG_CHANNEL_OPEN # libssh2_htonu32 15 @ ascii ''forwarded-tcpip'' @ libssh2_htonu32 sender
       @ libssh2_htonu32 win @ libssh2_htonu32 psize @ libssh2_htonu32 (of_nat (length host)) @ host
       @ libssh2_htonu32 port @ libssh2_htonu32 (of_nat (length shost)) @ shost @ libssh2_htonu32 sport"

lemma rd32_at: "off = int (length a) \<Longrightarrow> rd32 (a @ libssh2_htonu32 v @ b) off = Inr v"
  using u32_codec.enc_stream[of a v b] by (simp add: rd32_def)

section \<open>Data inside the limits\<close>

lemma add_data_in_limits:
  assumes "length data = n" and "9 < n" and "n < 2 ^ 32" and "data ! 0 = SSH_MSG_CHANNEL_DATA"
    and "libssh2_channel_locate s (libssh2_ntohu32 (drop 1 data)) = Some r"
    and "of_nat (n - 9) \<le> packet_size (ch_remote (chan s r))"
    and "of_nat (n - 9) \<le> window_size (ch_remote (chan s r))" and "alloc_ok s = []"
  shows "libssh2_packet_add env data (of_nat n) MAC_CONFIRMED s
    = Inr (0, (upd_remote r (\<lambda>d. d\<lparr>cd_eof := False, window_size := window_size d - of_nat (n - 9)\<rparr>) s)
        \<lparr>packets := packets s @ [\<lparr>pk_data = data, pk_len = of_nat n, pk_head = 9, pk_mac = MAC_CONFIRMED\<rparr>]\<rparr>)"
proof -
  let ?s' = "upd_remote r (\<lambda>d. d\<lparr>window_size := window_size d - of_nat (n - 9)\<rparr>)
      (upd_remote r (\<lambda>d. d\<lparr>cd_eof := False\<rparr>) s)"
  have w: "(of_nat n - 9 :: u32) = of_nat (n - 9)" using assms(2) by (simp add: of_nat_diff)
  have "unat (of_nat (n - 9) :: u32) = n - 9" using assms(3) unfolding unat_of_nat by simp
  then have nz: "window_size (ch_remote (chan s r)) \<noteq> 0" using assms(2,7) by (auto simp: word_le_nat_alt)
  have rd: "rd8 data 0 = Inr SSH_MSG_CHANNEL_DATA" "rd32 data 1 = Inr (libssh2_ntohu32 (drop 1 data))"
    using assms(1,2,4) by (simp_all add: rd8_def rd32_def)
  have "accept_data r 9 (of_nat n) s = (Enqueue (of_nat n) 9, ?s')"
    using leD[OF assms(6)] leD[OF assms(7)] nz unfolding accept_data_def Let_def by (simp add: w)
  then have "add_switch env data (of_nat n) s = Inr (Enqueue (of_nat n) 9, ?s')"
    using assms(4,5) by (simp add: add_switch_def rd add_channel_data_def)
  then show ?thesis
    using assms(4,8) by (simp add: libssh2_packet_add_def add_mac_def add_enqueue_def libssh2_alloc_def
        upd_remote_def upd_chan_def)
qed

section \<open>Properties\<close>


text \<open>Packets are queued in the order they arrive: apart from a key exchange, whatever a
  received packet does, the packets already in the queue stay as they are, and at most this packet
  is added behind them.\<close>

theorem packet_add_fifo:
  assumes "libssh2_packet_add env data datalen macstate s = Inr (rc, s')" and "quiet_env env"
    and "data ! 0 \<noteq> SSH_MSG_KEXINIT"
  shows "packets s' = packets s \<or> (\<exists>p. packets s' = packets s @ [p] \<and> pk_data p = data \<and> pk_mac p \<noteq> MAC_INVALID)"
proof -
  obtain m s1 where m: "add_mac env data datalen macstate s = (m, s1)" by (cases "add_mac env data datalen macstate s")
  have p1: "packets s1 = packets s" using conn_viewD(3)[OF add_mac_queue[OF m assms(2)]] .
  show ?thesis
  proof (cases m)
    case None
    with assms(1) m p1 show ?thesis by (simp add: libssh2_packet_add_def)
  next
    case (Some mac)
    then have "mac \<noteq> MAC_INVALID" using m by (auto simp: add_mac_def Let_def split: if_splits option.splits prod.splits)
    from assms(1) m Some obtain res s2 where sw: "add_switch env data datalen s1 = Inr (res, s2)"
      and fin: "(case res of Handled rc \<Rightarrow> Inr (rc, s2)
          | Enqueue datalen h \<Rightarrow> add_enqueue env data datalen h mac s2) = Inr (rc, s')"
      by (auto simp: libssh2_packet_add_def sbind_eq_Inr)
    have p2: "packets s2 = packets s" using add_switch_queue[OF sw assms(2)] p1 by (simp add: queue_view_def)
    show ?thesis
    proof (cases res)
      case (Handled x)
      with fin p2 show ?thesis by simp
    next
      case (Enqueue n h)
      obtain ok s3 where al: "libssh2_alloc s2 = (ok, s3)" by (cases "libssh2_alloc s2")
      then have "packets s3 = packets s2" using alloc_frame[OF al] conn_viewD(3)[of s3 s2] by simp
      with fin Enqueue al p2 assms(3) \<open>mac \<noteq> MAC_INVALID\<close> show ?thesis
        by (auto simp: add_enqueue_def split: if_splits)
    qed
  qed
qed

text \<open>The bytes of channel data that are queued never exceed the window or the packet size
  that this end offered: longer packets are truncated to both.\<close>

theorem accept_data_within_limits:
  assumes "accept_data r data_head datalen s = (Enqueue n h, s')"
  shows "h = data_head \<and> n - h \<le> window_size (ch_remote (chan s r)) \<and> n - h \<le> packet_size (ch_remote (chan s r))"
  using assms unfolding accept_data_def Let_def by (auto split: if_splits simp: not_less)

text \<open>Channel data inside the limits is queued whole, behind the packets already there, and the
  window of its channel shrinks by its length; no other channel changes.\<close>

theorem channel_data_received:
  assumes "length data = n" and "9 < n" and "n < 2 ^ 32" and "data ! 0 = SSH_MSG_CHANNEL_DATA"
    and "libssh2_channel_locate s (libssh2_ntohu32 (drop 1 data)) = Some r"
    and "of_nat (n - 9) \<le> packet_size (ch_remote (chan s r))"
    and "of_nat (n - 9) \<le> window_size (ch_remote (chan s r))" and "alloc_ok s = []"
  shows "\<exists>s'. libssh2_packet_add env data (of_nat n) MAC_CONFIRMED s = Inr (0, s')
    \<and> packets s' = packets s @ [\<lparr>pk_data = data, pk_len = of_nat n, pk_head = 9, pk_mac = MAC_CONFIRMED\<rparr>]
    \<and> window_size (ch_remote (chan s' r)) = window_size (ch_remote (chan s r)) - of_nat (n - 9)
    \<and> \<not> cd_eof (ch_remote (chan s' r)) \<and> chan s' = (chan s)(r := chan s' r)"
  using add_data_in_limits[OF assms, of env] by (simp add: upd_remote_def upd_chan_def)

text \<open>When the data is longer than the window, it is truncated to the window but the window is
  not reduced: the remote end may send the same amount again.\<close>

theorem window_exceeded_not_charged:
  assumes "window_size (ch_remote (chan s r)) \<noteq> 0" and "datalen - data_head > window_size (ch_remote (chan s r))"
    and "datalen - data_head \<le> packet_size (ch_remote (chan s r))"
  shows "\<exists>s'. accept_data r data_head datalen s = (Enqueue (window_size (ch_remote (chan s r)) + data_head) data_head, s')
    \<and> window_size (ch_remote (chan s' r)) = window_size (ch_remote (chan s r))"
  using assms(1,2) leD[OF assms(3)]
  by (simp add: accept_data_def Let_def upd_remote_def upd_chan_def libssh2_error_def)

text \<open>Refusing a well-formed request for a forwarded connection, in a buffer of exactly its size,
  writes the description behind the end of the received buffer.\<close>

theorem forward_refusal_overflows:
  assumes "listeners s = []" and "length host < 2 ^ 16" and "length shost < 2 ^ 16"
  shows "libssh2_packet_queue_listener env (forward_request sender win psize host port shost sport) s = Inl Undefined"
proof -
  let ?d = "forward_request sender win psize host port shost sport"
  let ?a = "SSH_MSG_CHANNEL_OPEN # libssh2_htonu32 15 @ ascii ''forwarded-tcpip''"
  let ?hl = "libssh2_htonu32 (of_nat (length host))" and ?sl = "libssh2_htonu32 (of_nat (length shost))"
  let ?h = "libssh2_htonu32"
  have u: "uint (of_nat (length host) :: u32) = int (length host)" "uint (of_nat (length shost) :: u32) = int (length shost)"
    using assms(2,3) by (simp_all add: uint_nat unat_of_nat)
  let ?b = "?a @ ?h sender @ ?h win @ ?h psize @ ?hl @ host"
  have d: "?d = ?a @ ?h sender @ ?h win @ ?h psize @ ?hl @ host @ ?h port @ ?sl @ shost @ ?h sport"
    "?d = (?a @ ?h sender) @ ?h win @ ?h psize @ ?hl @ host @ ?h port @ ?sl @ shost @ ?h sport"
    "?d = (?a @ ?h sender @ ?h win) @ ?h psize @ ?hl @ host @ ?h port @ ?sl @ shost @ ?h sport"
    "?d = (?a @ ?h sender @ ?h win @ ?h psize) @ ?hl @ host @ ?h port @ ?sl @ shost @ ?h sport"
    "?d = ?b @ ?h port @ ?sl @ shost @ ?h sport"
    "?d = (?b @ ?h port) @ ?sl @ shost @ ?h sport"
    "?d = (?b @ ?h port @ ?sl @ shost) @ ?h sport @ []"
    by (simp_all add: forward_request_def)
  have r1: "rd32 ?d 20 = Inr sender" by (subst d(1), rule rd32_at) (simp add: ascii_def)
  have r2: "rd32 ?d 24 = Inr win" by (subst d(2), rule rd32_at) (simp add: ascii_def)
  have r3: "rd32 ?d 28 = Inr psize" by (subst d(3), rule rd32_at) (simp add: ascii_def)
  have r4: "rd32 ?d 32 = Inr (of_nat (length host))" by (subst d(4), rule rd32_at) (simp add: ascii_def)
  have r5: "rd32 ?d (36 + int (length host)) = Inr port" by (subst d(5), rule rd32_at) (simp add: ascii_def)
  have r6: "rd32 ?d (40 + int (length host)) = Inr (of_nat (length shost))"
    by (subst d(6), rule rd32_at) (simp add: ascii_def)
  have r7: "rd32 ?d (48 + int (length host) + int (length shost) - 4) = Inr sport"
    by (subst d(7), rule rd32_at) (simp add: ascii_def)
  have "wrn ?d (48 + int (length host) + int (length shost)) (ascii ''Forward not requested'') = Inl Undefined"
    by (simp add: wrn_def forward_request_def ascii_def)
  then show ?thesis
    unfolding libssh2_packet_queue_listener_def Let_def r1 r2 r3 r4 r5 r6 sbind_simps u r7
    by (simp add: assms(1) open_failure_def)
qed

section \<open>Witnesses\<close>

lemma example_quiet: "quiet_env example_env"
  by (simp add: quiet_env_def example_env_def)


definition example_data :: bytes where
  "example_data = [94, 0, 0, 0, 0, 0, 0, 0, 1, 42]"

lemma example_locate: "libssh2_channel_locate (example_session ins) 0 = Some 0"
  by (simp add: libssh2_channel_locate_def example_defs)

lemma example_data_id: "libssh2_ntohu32 (drop 1 example_data) = 0"
  by (simp add: libssh2_ntohu32_def example_data_def)

theorem channel_data_received_witness:
  "\<exists>s'. libssh2_packet_add example_env example_data 10 MAC_CONFIRMED (example_session []) = Inr (0, s')
     \<and> packets s' = [\<lparr>pk_data = example_data, pk_len = 10, pk_head = 9, pk_mac = MAC_CONFIRMED\<rparr>]
     \<and> window_size (ch_remote (chan s' 0)) = 65535"
proof -
  let ?s = "example_session []"
  have h: "length example_data = 10" "9 < (10 :: nat)" "10 < (2 :: nat) ^ 32" "example_data ! 0 = SSH_MSG_CHANNEL_DATA"
    "libssh2_channel_locate ?s (libssh2_ntohu32 (drop 1 example_data)) = Some 0"
    unfolding example_data_id by (simp_all add: example_locate example_data_def)
  have l: "of_nat (10 - 9) \<le> packet_size (ch_remote (chan ?s 0))" "of_nat (10 - 9) \<le> window_size (ch_remote (chan ?s 0))"
    "alloc_ok ?s = []"
    by simp_all
  from channel_data_received[OF h l, of example_env] show ?thesis by auto
qed

theorem packet_add_fifo_witness:
  "\<exists>rc s'. libssh2_packet_add example_env [5] 1 MAC_CONFIRMED (example_session []) = Inr (rc, s')
     \<and> (packets s' = [] \<or> (\<exists>p. packets s' = [p] \<and> pk_data p = [5]))"
proof -
  let ?s' = "(example_session [])\<lparr>packets := [\<lparr>pk_data = [5], pk_len = 1, pk_head = 0, pk_mac = MAC_CONFIRMED\<rparr>]\<rparr>"
  have e: "libssh2_packet_add example_env [5] 1 MAC_CONFIRMED (example_session []) = Inr (0, ?s')"
    by (simp add: libssh2_packet_add_def add_mac_def add_switch_def rd8_def add_enqueue_def libssh2_alloc_def
        example_session_def)
  have k: "[5 :: u8] ! 0 \<noteq> SSH_MSG_KEXINIT" by simp
  from packet_add_fifo[OF e example_quiet k] e show ?thesis
    by (intro exI[of _ 0] exI[of _ ?s']) (simp add: example_session_def)
qed

theorem accept_data_within_limits_witness:
  "\<exists>n h s'. accept_data 0 9 30000 (example_session []) = (Enqueue n h, s') \<and> n - h \<le> 16384"
proof -
  obtain n h s' where e: "accept_data 0 9 30000 (example_session []) = (Enqueue n h, s')"
    by (simp add: accept_data_def Let_def example_defs upd_remote_def upd_chan_def libssh2_error_def)
  from accept_data_within_limits[OF e] e show ?thesis by (auto simp: example_defs)
qed

theorem window_exceeded_not_charged_witness:
  "\<exists>s s'. accept_data 0 9 100 (s :: unit session) = (Enqueue 14 9, s') \<and> window_size (ch_remote (chan s' 0)) = 5"
proof -
  let ?s = "upd_remote 0 (\<lambda>d. d\<lparr>window_size := 5\<rparr>) (example_session [])"
  have h: "window_size (ch_remote (chan ?s 0)) = 5" "packet_size (ch_remote (chan ?s 0)) = 16384"
    by (simp_all add: upd_remote_def example_defs)
  from window_exceeded_not_charged[of ?s 0 100 9] have
    "\<exists>s'. accept_data 0 9 100 ?s = (Enqueue 14 9, s') \<and> window_size (ch_remote (chan s' 0)) = 5"
    unfolding h by simp
  then show ?thesis by (rule exI)
qed

theorem forward_refusal_overflows_witness:
  "libssh2_packet_queue_listener example_env (forward_request 1 2 3 [104] 80 [105] 81) (example_session []) = Inl Undefined"
  by (rule forward_refusal_overflows) (simp_all add: example_session_def)

end
