(* ===== verification/SSH_Transport.thy ===== *)
theory SSH_Transport
  imports SSH_Packet
begin

text \<open>
  Reading from the socket and taking packets from the queue, the second half of
  \<^verbatim>\<open>src/ssh/libssh2/packet.c\<close>.  The build for Windows has neither \<^verbatim>\<open>poll\<close> nor \<^verbatim>\<open>select\<close>, so
  \<^verbatim>\<open>libssh2_blocking_read\<close> gives up after 122 results \<^verbatim>\<open>EAGAIN\<close>.  A connection that the peer has closed
  makes \<^verbatim>\<open>recv\<close> return 0 for ever and the function try again for ever: that is the end of the
  list of events.  Loops that wait for packets have a bound on the number of packets read; that
  the bound is reached is \<open>Never_Returns\<close>.
\<close>

section \<open>The socket\<close>

text \<open>
  Events are taken from the list until \<open>need\<close> bytes are there.  The result has the return value,
  the bytes that were stored, whether the socket is dead, and the events left.
\<close>

fun recv_loop :: "nat \<Rightarrow> nat \<Rightarrow> bytes \<Rightarrow> recv_event list \<Rightarrow> (int \<times> bytes \<times> bool \<times> recv_event list) run" where
  "recv_loop polls need got [] = (if need = 0 then Inr (int (length got), got, False, []) else Inl Never_Returns)"
| "recv_loop polls need got (ev # evs) =
     (if need = 0 then Inr (int (length got), got, False, ev # evs)
      else case ev of
             Recv_Data b \<Rightarrow>
               if length b \<le> need then recv_loop polls (need - length b) (got @ b) evs
               else Inr (int (length got + need), got @ take need b, False, Recv_Data (drop need b) # evs)
           | Recv_Error EAGAIN \<Rightarrow>
               if polls > 120 then Inr (-1, got, False, evs) else recv_loop (polls + 1) need got evs
           | Recv_Error EINTR \<Rightarrow> recv_loop polls need got evs
           | Recv_Error e \<Rightarrow> Inr (-1, got, e \<in> {EBADF, EIO, ENOTCONN}, evs))"

definition libssh2_blocking_read :: "nat \<Rightarrow> 'x session \<Rightarrow> (int \<times> bytes \<times> 'x session) run" where
  "libssh2_blocking_read count s =
     sbind (recv_loop 0 count [] (input s)) (\<lambda>(ret, got, dead, evs).
     Inr (ret, got, s\<lparr>input := evs, sock_state := (if dead then SOCKET_DISCONNECTED else sock_state s)\<rparr>))"

text \<open>One call of \<^verbatim>\<open>recv\<close> for a single byte on the socket in its non-blocking mode.\<close>

definition recv_one :: "'x session \<Rightarrow> int \<times> bytes \<times> 'x session" where
  "recv_one s =
     (case input s of
        [] \<Rightarrow> (-1, [], s)
      | Recv_Error e # evs \<Rightarrow> (-1, [], s\<lparr>input := evs\<rparr>)
      | Recv_Data [] # evs \<Rightarrow> (0, [], s\<lparr>input := evs\<rparr>)
      | Recv_Data (b # bs) # evs \<Rightarrow> (1, [b], s\<lparr>input := (if bs = [] then evs else Recv_Data bs # evs)\<rparr>))"

text \<open>Bytes that overwrite the start of an array.\<close>

definition overlay :: "bytes \<Rightarrow> bytes \<Rightarrow> bytes" where
  "overlay got old = got @ drop (length got) old"

definition dead_or_error :: "'x session \<Rightarrow> int" where
  "dead_or_error s = (if sock_state s = SOCKET_DISCONNECTED then 0 else -1)"

section \<open>Reading a packet without encryption\<close>

text \<open>
  The first five bytes.  Without blocking, one byte is read and the rest is read to the start of
  the buffer again; an error result -1 of \<^verbatim>\<open>recv\<close> is not less than 0 as an unsigned long.
  \<open>None\<close> is the return value 0.
\<close>

definition read_plain_header :: "'x env \<Rightarrow> bool \<Rightarrow> 'x session \<Rightarrow> ((u32 \<times> bytes) option \<times> 'x session) run" where
  "read_plain_header env should_block s =
     (let buf = map (e_junk env) [0..<24]
      in if should_block then
           sbind (libssh2_blocking_read 5 s) (\<lambda>(ret, got, s).
           Inr (Some (word_of_int ret, overlay got buf), s))
         else
           let (ret, got, s) = recv_one s;
               buf = overlay got buf;
               buf_len = word_of_int ret :: u32
           in if buf_len = 0 then Inr (None, s)
              else sbind (libssh2_blocking_read (unat (5 - buf_len)) s) (\<lambda>(ret, got, s).
                   Inr (Some (buf_len + word_of_int ret, overlay got buf), s)))"

text \<open>
  The loop that discards the padding: \<^verbatim>\<open>libssh2_blocking_read\<close> returns the full count or -1, so
  one call is enough; it writes the padding over the 24-byte buffer.
\<close>

definition skip_padding :: "u32 \<Rightarrow> 'x session \<Rightarrow> 'x session run" where
  "skip_padding padding_length s =
     (if padding_length = 0 then Inr s
      else sbind (libssh2_blocking_read (unat padding_length) s) (\<lambda>(ret, got, s).
           if 24 < length got then Inl Undefined else Inr s))"

definition read_plain :: "'x env \<Rightarrow> bool \<Rightarrow> 'x session \<Rightarrow> (int \<times> 'x session) run" where
  "read_plain env should_block s =
     sbind (read_plain_header env should_block s) (\<lambda>(hdr, s).
     case hdr of
       None \<Rightarrow> Inr (0, s)
     | Some (buf_len, buf) \<Rightarrow>
         if buf_len < 5 then Inr (-1, s)
         else
           let packet_length = libssh2_ntohu32 buf;
               padding_length = ucast (buf ! 4) :: u32;
               payload_len = packet_length - padding_length - 1;
               (ok, s) = libssh2_alloc s
           in if \<not> ok then Inr (-1, libssh2_error ERROR_ALLOC ''Unable to allocate memory for copy of plaintext data'' s)
              else sbind (libssh2_blocking_read (unat payload_len) s) (\<lambda>(ret, got, s).
                if word_of_int ret < payload_len then Inr (dead_or_error s, s)
                else sbind (skip_padding padding_length s) (\<lambda>s.
                  let payload = overlay got (map (e_junk env) [0..<unat payload_len])
                  in sbind (rd8 payload 0) (\<lambda>ptype.
                     sbind (libssh2_packet_add env payload payload_len MAC_CONFIRMED s) (\<lambda>(rc, s).
                     Inr (uint ptype, s\<lparr>ep_remote := (ep_remote s)\<lparr>seqno := seqno (ep_remote s) + 1\<rparr>\<rparr>))))))"

section \<open>Reading an encrypted packet\<close>

abbreviation (input) LIBSSH2_PACKET_MAXPAYLOAD :: u32 where "LIBSSH2_PACKET_MAXPAYLOAD \<equiv> 40000"

text \<open>
  Decryption of the block in the array: \<open>None\<close> for an error of a custom cipher; the result has the
  plain text and what the first half of the array holds afterwards.
\<close>

definition decrypt_block :: "bytes \<Rightarrow> 'x session \<Rightarrow> bytes option \<times> 'x session" where
  "decrypt_block block s =
     (let ep = ep_remote s;
          (bad, out, x) = crypt_fn (ep_crypt ep) (crypt_abstract ep) block;
          s = s\<lparr>ep_remote := ep\<lparr>crypt_abstract := x\<rparr>\<rparr>
      in if \<not> flag_evp (ep_crypt ep) \<and> bad
         then (None, libssh2_error ERROR_DECRYPT ''Error decrypting packet preamble'' s)
         else (Some out, s))"

text \<open>
  The first block; \<open>Inl\<close> is a value to return.  The test \<^verbatim>\<open>read_len < blocksize\<close> compares as
  unsigned.
\<close>

definition read_first_block :: "'x env \<Rightarrow> bool \<Rightarrow> 'x session \<Rightarrow> ((int + bytes) \<times> 'x session) run" where
  "read_first_block env should_block s =
     (let bs = blocksize (ep_crypt (ep_remote s));
          junk = map (e_junk env) [0..<bs];
          go = (\<lambda>read_len block s.
             if word_of_int read_len < (of_nat bs :: u32) then Inr (Inl (dead_or_error s), s)
             else case decrypt_block block s of
                    (None, s) \<Rightarrow> Inr (Inl (-1), s)
                  | (Some b, s) \<Rightarrow> Inr (Inr b, s))
      in if should_block then
           sbind (libssh2_blocking_read bs s) (\<lambda>(ret, got, s). go ret (overlay got junk) s)
         else
           let (ret, first, s) = recv_one s
           in if ret \<le> 0 then Inr (Inl 0, s)
              else sbind (libssh2_blocking_read (bs - 1) s) (\<lambda>(ret', got, s).
                   go (ret + ret') (overlay (first @ got) junk) s))"

text \<open>
  The rest of the payload, block by block; \<open>block\<close> is the array, which a failed read leaves partly
  as it was.
\<close>

function read_blocks :: "nat \<Rightarrow> bytes \<Rightarrow> bytes \<Rightarrow> 'x session \<Rightarrow> (bytes option \<times> 'x session) run" where
  "read_blocks payload_len payload block s =
     (let bs = blocksize (ep_crypt (ep_remote s))
      in if bs = 0 \<or> payload_len \<le> length payload then Inr (Some payload, s)
         else sbind (libssh2_blocking_read bs s) (\<lambda>(ret, got, s1).
           let block = overlay got block
           in if word_of_int ret < (of_nat bs :: u32) then Inr (None, s1)
              else case decrypt_block block s1 of
                     (None, s2) \<Rightarrow> Inr (None, s2)
                   | (Some out, s2) \<Rightarrow>
                       if length out < bs then Inl Undefined
                       else read_blocks payload_len (payload @ take bs out)
                              (if flag_evp (ep_crypt (ep_remote s)) then block else take bs out) s2))"
  by pat_completeness auto
termination
  by (relation "measure (\<lambda>(n, p, b, s). n - length p)") auto

declare read_blocks.simps [simp del]

text \<open>\<^verbatim>\<open>strncmp (a, b, n) == 0\<close>: the comparison ends at a NUL that both strings have.\<close>

fun strncmp_eq :: "bytes \<Rightarrow> bytes \<Rightarrow> nat \<Rightarrow> bool" where
  "strncmp_eq (a # as) (b # bs) (Suc n) = (a = b \<and> (a = 0 \<or> strncmp_eq as bs n))"
| "strncmp_eq _ _ _ = True"

text \<open>MAC, sequence number, padding and decompression of a received payload.\<close>

definition finish_payload :: "'x env \<Rightarrow> bytes \<Rightarrow> bytes \<Rightarrow> u8 \<Rightarrow> u32 \<Rightarrow> 'x session \<Rightarrow> (int \<times> 'x session) run" where
  "finish_payload env tmp payload padding_len payload_len s =
     (let ml = mac_len (ep_mac (ep_remote s))
      in sbind (libssh2_blocking_read ml s) (\<lambda>(ret, got, s).
         if ret < int ml then Inr (-1, s)
         else
           let ep = ep_remote s;
               (mac, mx) = mac_hash (ep_mac ep) (mac_abstract ep) (seqno ep) tmp payload;
               macstate = (if strncmp_eq got mac ml then MAC_CONFIRMED else MAC_INVALID);
               ep = ep\<lparr>mac_abstract := mx, seqno := seqno ep + 1\<rparr>;
               s = s\<lparr>ep_remote := ep\<rparr>;
               payload_len = payload_len - ucast padding_len;
               add = (\<lambda>payload payload_len s.
                  sbind (rd8 payload 0) (\<lambda>ptype.
                  sbind (libssh2_packet_add env payload payload_len macstate s) (\<lambda>(rc, s). Inr (uint ptype, s))))
           in case ep_comp ep of
                None \<Rightarrow> add payload payload_len s
              | Some cm \<Rightarrow>
                  if comp_none cm then add payload payload_len s
                  else if length payload < unat payload_len then Inl Undefined
                  else
                    let (out, x) = comp_fn cm (comp_abstract ep) False (take (unat payload_len) payload);
                        s = s\<lparr>ep_remote := ep\<lparr>comp_abstract := x\<rparr>\<rparr>
                    in (case out of None \<Rightarrow> Inr (-1, s) | Some data \<Rightarrow> add data (of_nat (length data)) s)))"

definition read_encrypted :: "'x env \<Rightarrow> bool \<Rightarrow> 'x session \<Rightarrow> (int \<times> 'x session) run" where
  "read_encrypted env should_block s =
     (let bs = blocksize (ep_crypt (ep_remote s))
      in sbind (read_first_block env should_block s) (\<lambda>(first, s).
         case first of
           Inl rc \<Rightarrow> Inr (rc, s)
         | Inr block \<Rightarrow>
             if length block < bs \<or> bs < 5 then Inl Undefined
             else
             let packet_len = libssh2_ntohu32 block;
                 padding_len = block ! 4;
                 tmp = take 5 block;
                 payload_len = packet_len - 1
             in if payload_len > LIBSSH2_PACKET_MAXPAYLOAD \<or> (packet_len + 4) mod of_nat bs \<noteq> 0 then
                  Inr (-1, libssh2_error ERROR_PROTO ''Fatal protocol error, invalid payload size''
                             (s\<lparr>sock_state := SOCKET_DISCONNECTED\<rparr>))
                else
                  let (ok, s) = libssh2_alloc s
                  in if \<not> ok then Inl Undefined
                     else sbind (read_blocks (unat payload_len) (take (bs - 5) (drop 5 block)) (take bs block) s)
                       (\<lambda>(payload, s). case payload of
                          None \<Rightarrow> Inr (-1, s)
                        | Some payload \<Rightarrow>
                            if unat payload_len < length payload then Inl Undefined
                            else finish_payload env tmp payload padding_len payload_len s)))"

definition libssh2_packet_read :: "'x env \<Rightarrow> bool \<Rightarrow> 'x session \<Rightarrow> (int \<times> 'x session) run" where
  "libssh2_packet_read env should_block s =
     (if sock_state s = SOCKET_DISCONNECTED then Inr (0, s)
      else if newkeys s then read_encrypted env should_block s
      else read_plain env should_block s)"

section \<open>Taking packets from the queue\<close>

text \<open>Does a packet match?  The comparison needs the bytes it compares.\<close>

definition packet_matches :: "u8 \<Rightarrow> u32 \<Rightarrow> bytes option \<Rightarrow> u32 \<Rightarrow> packet \<Rightarrow> bool run" where
  "packet_matches ptype match_ofs match_buf match_len p =
     sbind (rd8 (pk_data p) 0) (\<lambda>t.
     if t \<noteq> ptype \<or> pk_len p < match_ofs + match_len then Inr False
     else case match_buf of
            None \<Rightarrow> Inr True
          | Some b \<Rightarrow> sbind (rdn (pk_data p) (uint match_ofs) (unat match_len)) (\<lambda>x. Inr (x = take (unat match_len) b)))"

fun take_packet :: "(packet \<Rightarrow> bool run) \<Rightarrow> packet list \<Rightarrow> (packet option \<times> packet list) run" where
  "take_packet P [] = Inr (None, [])"
| "take_packet P (p # ps) =
     sbind (P p) (\<lambda>b. if b then Inr (Some p, ps)
                      else sbind (take_packet P ps) (\<lambda>(r, rest). Inr (r, p # rest)))"

text \<open>
  \<^verbatim>\<open>libssh2_packet_ask_ex\<close>: \<open>None\<close> for the return value -1.  The scan starts at the head the queue had
  before the socket was polled; if there was none, what the poll brought in is not looked at.
\<close>

definition libssh2_packet_ask_ex ::
  "'x env \<Rightarrow> u8 \<Rightarrow> u32 \<Rightarrow> bytes option \<Rightarrow> u32 \<Rightarrow> bool \<Rightarrow> 'x session \<Rightarrow> ((bytes \<times> u32) option \<times> 'x session) run" where
  "libssh2_packet_ask_ex env ptype match_ofs match_buf match_len poll_socket s =
     (let had_head = packets s \<noteq> [] in
      sbind (if poll_socket then libssh2_packet_read env False s else Inr (0, s)) (\<lambda>(rc, s).
      if rc < 0 \<or> \<not> had_head then Inr (None, s)
      else sbind (take_packet (packet_matches ptype match_ofs match_buf match_len) (packets s)) (\<lambda>(r, ps).
        Inr (map_option (\<lambda>p. (pk_data p, pk_len p)) r, s\<lparr>packets := ps\<rparr>))))"

fun libssh2_packet_askv_ex ::
  "'x env \<Rightarrow> u8 list \<Rightarrow> u32 \<Rightarrow> bytes option \<Rightarrow> u32 \<Rightarrow> bool \<Rightarrow> 'x session \<Rightarrow> ((bytes \<times> u32) option \<times> 'x session) run" where
  "libssh2_packet_askv_ex env [] ofs mb ml poll_socket s = Inr (None, s)"
| "libssh2_packet_askv_ex env (t # ts) ofs mb ml poll_socket s =
     sbind (libssh2_packet_ask_ex env t ofs mb ml poll_socket s) (\<lambda>(r, s).
     case r of
       Some d \<Rightarrow> Inr (Some d, s)
     | None \<Rightarrow> libssh2_packet_askv_ex env ts ofs mb ml False s)"

fun require_loop ::
  "nat \<Rightarrow> 'x env \<Rightarrow> u8 \<Rightarrow> u32 \<Rightarrow> bytes option \<Rightarrow> u32 \<Rightarrow> 'x session \<Rightarrow> ((bytes \<times> u32) option \<times> 'x session) run" where
  "require_loop 0 env ptype ofs mb ml s = Inl Never_Returns"
| "require_loop (Suc fuel) env ptype ofs mb ml s =
     (if sock_state s \<noteq> SOCKET_CONNECTED then Inr (None, s)
      else sbind (libssh2_packet_read env True s) (\<lambda>(ret, s).
        if ret < 0 then Inr (None, s)
        else if ret = uint ptype \<and> ret \<noteq> 0 then libssh2_packet_ask_ex env ptype ofs mb ml False s
        else require_loop fuel env ptype ofs mb ml s))"

definition libssh2_packet_require_ex ::
  "nat \<Rightarrow> 'x env \<Rightarrow> u8 \<Rightarrow> u32 \<Rightarrow> bytes option \<Rightarrow> u32 \<Rightarrow> 'x session \<Rightarrow> ((bytes \<times> u32) option \<times> 'x session) run" where
  "libssh2_packet_require_ex fuel env ptype ofs mb ml s =
     sbind (libssh2_packet_ask_ex env ptype ofs mb ml False s) (\<lambda>(r, s).
     case r of Some d \<Rightarrow> Inr (Some d, s) | None \<Rightarrow> require_loop fuel env ptype ofs mb ml s)"

fun burn_loop :: "nat \<Rightarrow> 'x env \<Rightarrow> 'x session \<Rightarrow> (int \<times> 'x session) run" where
  "burn_loop 0 env s = Inl Never_Returns"
| "burn_loop (Suc fuel) env s =
     (if sock_state s \<noteq> SOCKET_CONNECTED then Inr (-1, s)
      else sbind (libssh2_packet_read env True s) (\<lambda>(ret, s).
        if ret < 0 then Inr (-1, s)
        else if ret = 0 then burn_loop fuel env s
        else sbind (libssh2_packet_ask_ex env (word_of_int ret) 0 None 0 False s) (\<lambda>(r, s).
          case r of Some d \<Rightarrow> Inr (ret, s) | None \<Rightarrow> burn_loop fuel env s)))"

text \<open>
  The array of all packet types has no terminating NUL: \<open>beyond\<close> is what follows it in memory up to
  the first NUL.
\<close>

definition libssh2_packet_burn :: "nat \<Rightarrow> 'x env \<Rightarrow> bytes \<Rightarrow> 'x session \<Rightarrow> (int \<times> 'x session) run" where
  "libssh2_packet_burn fuel env beyond s =
     sbind (libssh2_packet_askv_ex env (map of_nat [1..<256] @ beyond) 0 None 0 False s) (\<lambda>(r, s).
     case r of
       Some (data, n) \<Rightarrow> Inr (uint (data ! 0), s)
     | None \<Rightarrow> burn_loop fuel env s)"

fun requirev_loop ::
  "nat \<Rightarrow> 'x env \<Rightarrow> u8 list \<Rightarrow> u32 \<Rightarrow> bytes option \<Rightarrow> u32 \<Rightarrow> 'x session \<Rightarrow> ((bytes \<times> u32) option \<times> 'x session) run" where
  "requirev_loop 0 env ptypes ofs mb ml s = Inl Never_Returns"
| "requirev_loop (Suc fuel) env ptypes ofs mb ml s =
     (if sock_state s = SOCKET_DISCONNECTED then Inr (None, s)
      else sbind (libssh2_packet_read env True s) (\<lambda>(ret, s).
        if ret < 0 then Inr (None, s)
        else if ret \<noteq> 0 \<and> word_of_int ret \<in> set ptypes then libssh2_packet_askv_ex env ptypes ofs mb ml False s
        else requirev_loop fuel env ptypes ofs mb ml s))"

definition libssh2_packet_requirev_ex ::
  "nat \<Rightarrow> 'x env \<Rightarrow> u8 list \<Rightarrow> u32 \<Rightarrow> bytes option \<Rightarrow> u32 \<Rightarrow> 'x session \<Rightarrow> ((bytes \<times> u32) option \<times> 'x session) run" where
  "libssh2_packet_requirev_ex fuel env ptypes ofs mb ml s =
     sbind (libssh2_packet_askv_ex env ptypes ofs mb ml False s) (\<lambda>(r, s).
     case r of Some d \<Rightarrow> Inr (Some d, s) | None \<Rightarrow> requirev_loop fuel env ptypes ofs mb ml s)"

section \<open>A stream of bytes\<close>

text \<open>
  Events without an error other than an interrupted call: data in pieces of any size, empty ones
  included.
\<close>

definition data_events :: "recv_event list \<Rightarrow> bool" where
  "data_events es \<longleftrightarrow> list_all (\<lambda>e. case e of Recv_Data b \<Rightarrow> True | Recv_Error x \<Rightarrow> x = EINTR) es"

definition ev_bytes :: "recv_event list \<Rightarrow> bytes" where
  "ev_bytes es = concat (map (\<lambda>e. case e of Recv_Data b \<Rightarrow> b | Recv_Error x \<Rightarrow> []) es)"

lemma ev_bytes_simps [simp]:
  "ev_bytes [] = []" "ev_bytes (Recv_Data b # es) = b @ ev_bytes es" "ev_bytes (Recv_Error x # es) = ev_bytes es"
  by (simp_all add: ev_bytes_def)

lemma data_events_simps [simp]:
  "data_events []" "data_events (Recv_Data b # es) = data_events es"
  "data_events (Recv_Error x # es) = (x = EINTR \<and> data_events es)"
  by (simp_all add: data_events_def)

lemma recv_loop_data:
  "data_events es \<Longrightarrow> need \<le> length (ev_bytes es) \<Longrightarrow>
     \<exists>es'. recv_loop polls need got es = Inr (int (length got + need), got @ take need (ev_bytes es), False, es')
       \<and> data_events es' \<and> ev_bytes es' = drop need (ev_bytes es)"
proof (induction es arbitrary: need got)
  case Nil
  then show ?case by simp
next
  case (Cons e es)
  show ?case
  proof (cases "need = 0")
    case True
    with Cons.prems show ?thesis by simp
  next
    case False
    show ?thesis
    proof (cases e)
      case (Recv_Error x)
      with Cons.prems Cons.IH[of need got] False show ?thesis by simp
    next
      case (Recv_Data b)
      show ?thesis
      proof (cases "length b \<le> need")
        case True
        from Cons.prems Recv_Data True have "data_events es" "need - length b \<le> length (ev_bytes es)" by auto
        from Cons.IH[OF this, of "got @ b"] True False Recv_Data show ?thesis
          by (auto simp: of_nat_diff)
      next
        case small: False
        with False Cons.prems Recv_Data show ?thesis
          by (intro exI[of _ "Recv_Data (drop need b) # es"]) simp
      qed
    qed
  qed
qed

lemma blocking_read_data:
  assumes "data_events (input s)" and "ev_bytes (input s) = b @ rest" and "length b = n"
  obtains es where "libssh2_blocking_read n s = Inr (int n, b, s\<lparr>input := es\<rparr>)" and "data_events es"
    and "ev_bytes es = rest"
proof -
  obtain es where r: "recv_loop 0 n [] (input s) = Inr (int n, b, False, es)" "data_events es" "ev_bytes es = rest"
    using recv_loop_data[OF assms(1), of n 0 "[]"] assms(2,3) by auto
  have "s\<lparr>input := es, sock_state := sock_state s\<rparr> = s\<lparr>input := es\<rparr>" by (cases s) simp
  with r that show ?thesis by (simp add: libssh2_blocking_read_def)
qed

section \<open>Plain packets\<close>

text \<open>The state after a plain packet was added.\<close>

definition count_packet :: "'x session \<Rightarrow> 'x session" where
  "count_packet s = s\<lparr>ep_remote := (ep_remote s)\<lparr>seqno := seqno (ep_remote s) + 1\<rparr>\<rparr>"

text \<open>The first five bytes of a frame and the payload after them.\<close>

lemma read_plain_start:
  assumes "data_events (input s)" and "ev_bytes (input s) = frame data pad @ rest"
  obtains e1 e2 where "read_plain_header env True s
      = Inr (Some (5, overlay (libssh2_htonu32 (of_nat (length data + length pad + 1)) @ [of_nat (length pad)]) (map (e_junk env) [0..<24])), s\<lparr>input := e1\<rparr>)"
    and "libssh2_blocking_read (length data) (s\<lparr>input := e1\<rparr>) = Inr (int (length data), data, s\<lparr>input := e2\<rparr>)"
    and "data_events e2" and "ev_bytes e2 = pad @ rest"
proof -
  let ?h = "libssh2_htonu32 (of_nat (length data + length pad + 1)) @ [of_nat (length pad)]"
  have "ev_bytes (input s) = ?h @ data @ pad @ rest" using assms(2) by (simp add: frame_def)
  from blocking_read_data[OF assms(1) this, of 5] obtain e1 where
    r1: "libssh2_blocking_read 5 s = Inr (5, ?h, s\<lparr>input := e1\<rparr>)" "data_events e1" "ev_bytes e1 = data @ pad @ rest"
    by auto
  from blocking_read_data[of "s\<lparr>input := e1\<rparr>" data "pad @ rest" "length data"] r1 obtain e2 where
    r2: "libssh2_blocking_read (length data) (s\<lparr>input := e1\<rparr>) = Inr (int (length data), data, s\<lparr>input := e2\<rparr>)"
      "data_events e2" "ev_bytes e2 = pad @ rest" by auto
  show ?thesis by (rule that[OF _ r2]) (simp add: read_plain_header_def r1)
qed

lemma plain_header_fields:
  assumes "length pad < 256"
  defines "buf \<equiv> \<lambda>data env. overlay (libssh2_htonu32 (of_nat (length data + length pad + 1)) @ [of_nat (length pad)]) (map (e_junk env) [0..<24])"
  shows "libssh2_ntohu32 (buf data env) = of_nat (length data + length pad + 1)"
    and "ucast (buf data env ! 4) = (of_nat (length pad) :: u32)"
    and "(of_nat (length data + length pad + 1) - of_nat (length pad) - 1 :: u32) = of_nat (length data)"
proof -
  show "libssh2_ntohu32 (buf data env) = of_nat (length data + length pad + 1)"
    unfolding buf_def overlay_def append.assoc by (rule u32_codec.dec_enc)
  have b4: "buf data env ! 4 = of_nat (length pad)" by (simp add: buf_def overlay_def nth_append)
  have "unat (of_nat (length pad) :: u8) = length pad" using assms(1) unfolding unat_of_nat by simp
  then show "ucast (buf data env ! 4) = (of_nat (length pad) :: u32)" unfolding b4 by (metis of_nat_unat)
  show "(of_nat (length data + length pad + 1) - of_nat (length pad) - 1 :: u32) = of_nat (length data)" by simp
qed

lemma read_plain_frame:
  assumes "data_events (input s)" and "ev_bytes (input s) = frame data pad @ rest" and "data \<noteq> []"
    and "length data + 300 < 2 ^ 32" and "length pad \<le> 24" and "alloc_ok s = []"
  obtains es where "data_events es" and "ev_bytes es = rest"
    and "read_plain env True s =
      sbind (libssh2_packet_add env data (of_nat (length data)) MAC_CONFIRMED (s\<lparr>input := es\<rparr>))
        (\<lambda>(rc, s). Inr (uint (data ! 0), count_packet s))"
proof -
  obtain e1 e2 where hdr: "read_plain_header env True s
      = Inr (Some (5, overlay (libssh2_htonu32 (of_nat (length data + length pad + 1)) @ [of_nat (length pad)]) (map (e_junk env) [0..<24])), s\<lparr>input := e1\<rparr>)"
    and r2: "libssh2_blocking_read (length data) (s\<lparr>input := e1\<rparr>) = Inr (int (length data), data, s\<lparr>input := e2\<rparr>)"
    and e2: "data_events e2" "ev_bytes e2 = pad @ rest" by (rule read_plain_start[OF assms(1,2)])
  from blocking_read_data[of "s\<lparr>input := e2\<rparr>" pad rest "length pad"] e2 obtain e3 where
    r3: "libssh2_blocking_read (length pad) (s\<lparr>input := e2\<rparr>) = Inr (int (length pad), pad, s\<lparr>input := e3\<rparr>)"
      "data_events e3" "ev_bytes e3 = rest" by auto
  have "length pad < 256" using assms(5) by simp
  note hs = plain_header_fields(1,2)[OF this, of data env] plain_header_fields(3)[OF this, of data]
  have ud: "unat (of_nat (length data) :: u32) = length data" using assms(4) unfolding unat_of_nat by simp
  have up32: "unat (of_nat (length pad) :: u32) = length pad" using assms(5) unfolding unat_of_nat by simp
  have ov: "overlay data (map (e_junk env) [0..<length data]) = data" by (simp add: overlay_def)
  have al: "libssh2_alloc (s\<lparr>input := e\<rparr>) = (True, s\<lparr>input := e\<rparr>)" for e
    using assms(6) by (simp add: libssh2_alloc_def)
  obtain e4 where sk: "skip_padding (of_nat (length pad)) (s\<lparr>input := e2\<rparr>) = Inr (s\<lparr>input := e4\<rparr>)"
    "data_events e4" "ev_bytes e4 = rest"
  proof (cases "pad = []")
    case True
    with e2 that[of e2] show ?thesis by (simp add: skip_padding_def)
  next
    case False
    then have "(of_nat (length pad) :: u32) \<noteq> 0" using up32 by (metis length_0_conv unat_0)
    with r3 assms(5) that[of e3] show ?thesis by (simp add: skip_padding_def up32)
  qed
  have rd: "rd8 data 0 = Inr (data ! 0)" using assms(3) by (simp add: rd8_def)
  have "read_plain env True s =
      sbind (libssh2_packet_add env data (of_nat (length data)) MAC_CONFIRMED (s\<lparr>input := e4\<rparr>))
        (\<lambda>(rc, s). Inr (uint (data ! 0), count_packet s))"
    unfolding read_plain_def hdr sbind_simps prod.case option.case Let_def hs al ud
    by (simp add: r2 sk(1) ov rd count_packet_def del: of_nat_add)
  with sk that show ?thesis by blast
qed

lemma read_plain_long_padding:
  assumes "alloc_ok s = []" and "data_events (input s)"
    and "ev_bytes (input s) = frame data pad @ rest" and "length data + 300 < 2 ^ 32" and "24 < length pad" and "length pad < 256"
  shows "read_plain env True s = Inl Undefined"
proof -
  obtain e1 e2 where hdr: "read_plain_header env True s
      = Inr (Some (5, overlay (libssh2_htonu32 (of_nat (length data + length pad + 1)) @ [of_nat (length pad)]) (map (e_junk env) [0..<24])), s\<lparr>input := e1\<rparr>)"
    and r2: "libssh2_blocking_read (length data) (s\<lparr>input := e1\<rparr>) = Inr (int (length data), data, s\<lparr>input := e2\<rparr>)"
    and e2: "data_events e2" "ev_bytes e2 = pad @ rest" by (rule read_plain_start[OF assms(2,3)])
  note hs = plain_header_fields(1,2)[OF assms(6), of data env] plain_header_fields(3)[OF assms(6), of data]
  have al: "libssh2_alloc (s\<lparr>input := e1\<rparr>) = (True, s\<lparr>input := e1\<rparr>)"
    using assms(1) by (simp add: libssh2_alloc_def)
  have ud: "unat (of_nat (length data) :: u32) = length data" using assms(4) unfolding unat_of_nat by simp
  have up: "unat (of_nat (length pad) :: u32) = length pad" using assms(6) unfolding unat_of_nat by simp
  then have "(of_nat (length pad) :: u32) \<noteq> 0" using assms(5) by (metis less_nat_zero_code unat_0)
  then have sk: "skip_padding (of_nat (length pad)) (s\<lparr>input := e2\<rparr>) = Inl Undefined"
    by (rule_tac blocking_read_data[of "s\<lparr>input := e2\<rparr>" pad rest "length pad"])
      (use e2 assms(5) in \<open>simp_all add: skip_padding_def up\<close>)
  show ?thesis
    unfolding read_plain_def hdr sbind_simps prod.case option.case Let_def hs al ud
    by (simp add: r2 sk del: of_nat_add)
qed

text \<open>Packets that no case of the dispatch takes: they go to the queue.\<close>

definition queued_type :: "u8 \<Rightarrow> bool" where
  "queued_type t \<longleftrightarrow> t \<notin> {1, 2, 4, 20, 90, 93, 94, 95, 96, 97, 98}"

lemma packet_add_queued:
  assumes "queued_type (data ! 0)" and "data \<noteq> []" and "alloc_ok s = []"
  shows "libssh2_packet_add env data n MAC_CONFIRMED s
    = Inr (0, s\<lparr>packets := packets s @ [\<lparr>pk_data = data, pk_len = n, pk_head = 0, pk_mac = MAC_CONFIRMED\<rparr>]\<rparr>)"
  using assms by (simp add: libssh2_packet_add_def add_mac_def add_switch_def rd8_def queued_type_def
      add_enqueue_def libssh2_alloc_def)

section \<open>The queue\<close>

lemma take_packet_Some:
  "take_packet P ps = Inr (Some p, rest) \<longleftrightarrow>
     (\<exists>a b. ps = a @ p # b \<and> rest = a @ b \<and> list_all (\<lambda>q. P q = Inr False) a \<and> P p = Inr True)"
proof (induction ps arbitrary: rest)
  case (Cons q ps)
  show ?case
  proof (cases "P q")
    case (Inl e)
    then show ?thesis by (auto simp: Cons_eq_append_conv)
  next
    case (Inr b)
    show ?thesis
    proof (cases b)
      case True
      with Inr show ?thesis by (auto simp: Cons_eq_append_conv intro: exI[of _ "[]"])
    next
      case False
      with Inr have "take_packet P (q # ps) = Inr (Some p, rest) \<longleftrightarrow>
          (\<exists>r. take_packet P ps = Inr (Some p, r) \<and> rest = q # r)"
        by (auto simp: sbind_eq_Inr)
      moreover have "(\<exists>a b. q # ps = a @ p # b \<and> rest = a @ b \<and> list_all (\<lambda>q. P q = Inr False) a \<and> P p = Inr True)
          \<longleftrightarrow> (\<exists>r. rest = q # r \<and> (\<exists>a b. ps = a @ p # b \<and> r = a @ b \<and> list_all (\<lambda>q. P q = Inr False) a \<and> P p = Inr True))"
        (is "?l \<longleftrightarrow> ?r")
      proof
        assume ?l
        then obtain a b where ab: "q # ps = a @ p # b" "rest = a @ b" "list_all (\<lambda>q. P q = Inr False) a" "P p = Inr True"
          by blast
        with Inr False obtain a' where "a = q # a'" by (cases a) auto
        with ab show ?r by auto
      next
        assume ?r
        then obtain a b where "rest = q # a @ b" "ps = a @ p # b" "list_all (\<lambda>q. P q = Inr False) a" "P p = Inr True"
          by blast
        with Inr False show ?l by (intro exI[of _ "q # a"] exI[of _ b]) simp
      qed
      ultimately show ?thesis unfolding Cons.IH by blast
    qed
  qed
qed simp

lemma take_packet_None:
  "take_packet P ps = Inr (None, rest) \<longleftrightarrow> rest = ps \<and> list_all (\<lambda>q. P q = Inr False) ps"
proof (induction ps arbitrary: rest)
  case (Cons q ps)
  then show ?case by (cases "P q") (auto simp: sbind_eq_Inr)
qed auto

section \<open>Encrypted packets\<close>

text \<open>
  What the packet layer relies on: the receiver's cipher undoes the sender's block by block as long
  as their contexts are in step, and both ends compute the same MAC over the same bytes.
\<close>

definition cipher_pair ::
  "('x \<Rightarrow> bytes \<Rightarrow> bool \<times> bytes \<times> 'x) \<Rightarrow> ('y \<Rightarrow> bytes \<Rightarrow> bool \<times> bytes \<times> 'y) \<Rightarrow> nat \<Rightarrow> ('x \<Rightarrow> 'y \<Rightarrow> bool) \<Rightarrow> bool" where
  "cipher_pair f g bs sync \<longleftrightarrow>
     (\<forall>x y b e c x'. sync x y \<longrightarrow> length b = bs \<longrightarrow> f x b = (e, c, x') \<longrightarrow>
        length c = bs \<and> (\<exists>y'. g y c = (False, b, y') \<and> sync x' y'))"

definition mac_pair ::
  "('x \<Rightarrow> u32 \<Rightarrow> bytes \<Rightarrow> bytes \<Rightarrow> bytes \<times> 'x) \<Rightarrow> ('y \<Rightarrow> u32 \<Rightarrow> bytes \<Rightarrow> bytes \<Rightarrow> bytes \<times> 'y) \<Rightarrow> nat \<Rightarrow> ('x \<Rightarrow> 'y \<Rightarrow> bool) \<Rightarrow> bool" where
  "mac_pair f g ml sync \<longleftrightarrow>
     (\<forall>x y n p q m x'. sync x y \<longrightarrow> f x n (p @ q) [] = (m, x') \<longrightarrow>
        length m = ml \<and> (\<exists>y'. g y n p q = (m, y') \<and> sync x' y'))"

text \<open>A sending session and the session that receives, with keys in use and in step.\<close>

definition linked :: "('x \<Rightarrow> 'y \<Rightarrow> bool) \<Rightarrow> ('x \<Rightarrow> 'y \<Rightarrow> bool) \<Rightarrow> 'x session \<Rightarrow> 'y session \<Rightarrow> bool" where
  "linked csync msync a b \<longleftrightarrow>
     (let l = ep_local a; r = ep_remote b; bs = blocksize (ep_crypt l)
      in newkeys a \<and> newkeys b \<and> 8 \<le> bs \<and> bs \<le> 32 \<and> blocksize (ep_crypt r) = bs
         \<and> cipher_pair (crypt_fn (ep_crypt l)) (crypt_fn (ep_crypt r)) bs csync
         \<and> csync (crypt_abstract l) (crypt_abstract r)
         \<and> mac_pair (mac_hash (ep_mac l)) (mac_hash (ep_mac r)) (mac_len (ep_mac r)) msync
         \<and> msync (mac_abstract l) (mac_abstract r) \<and> seqno l = seqno r
         \<and> (\<exists>cm. ep_comp l = Some cm \<and> comp_none cm)
         \<and> (case ep_comp r of None \<Rightarrow> True | Some cm \<Rightarrow> comp_none cm))"

lemma strncmp_eq_refl [simp]: "strncmp_eq a a n"
proof (induction a arbitrary: n)
  case (Cons x a)
  then show ?case by (cases n) simp_all
qed simp

lemma crypt_blocks_step:
  assumes "length p = bs + k" and "0 < bs" and "f x (take bs p) = (e, c, x1)"
  shows "crypt_blocks f bs x p = (case crypt_blocks f bs x1 (drop bs p) of (cs, x') \<Rightarrow> (c @ cs, x'))"
  using assms by (subst crypt_blocks.simps) auto

definition set_cipher :: "'x \<Rightarrow> recv_event list \<Rightarrow> 'x session \<Rightarrow> 'x session" where
  "set_cipher y es s = s\<lparr>input := es, ep_remote := (ep_remote s)\<lparr>crypt_abstract := y\<rparr>\<rparr>"

lemma set_cipher_simps [simp]:
  "input (set_cipher y es s) = es" "ep_crypt (ep_remote (set_cipher y es s)) = ep_crypt (ep_remote s)"
  "crypt_abstract (ep_remote (set_cipher y es s)) = y" "set_cipher y' es' (set_cipher y es s) = set_cipher y' es' s"
  "ep_mac (ep_remote (set_cipher y es s)) = ep_mac (ep_remote s)"
  "mac_abstract (ep_remote (set_cipher y es s)) = mac_abstract (ep_remote s)"
  "seqno (ep_remote (set_cipher y es s)) = seqno (ep_remote s)"
  "ep_comp (ep_remote (set_cipher y es s)) = ep_comp (ep_remote s)"
  "packets (set_cipher y es s) = packets s" "alloc_ok (set_cipher y es s) = alloc_ok s"
  "sock_state (set_cipher y es s) = sock_state s" "state (set_cipher y es s) = state s"
  by (simp_all add: set_cipher_def)

lemma decrypt_block_set:
  assumes "crypt_fn (ep_crypt (ep_remote s)) (crypt_abstract (ep_remote s)) c = (False, b, y)"
  shows "decrypt_block c (s\<lparr>input := es\<rparr>) = (Some b, set_cipher y es s)"
  using assms by (simp add: decrypt_block_def set_cipher_def Let_def)

lemma cipher_step:
  assumes "cipher_pair f g bs csync" and "0 < bs" and "csync x y" and "data_events (input s)"
    and "length p = bs + j" and "crypt_blocks f bs x p = (c, x')" and "ev_bytes (input s) = c @ rest"
  obtains c1 y1 x1 cs e1 where "length c1 = bs" and "g y c1 = (False, take bs p, y1)" and "csync x1 y1"
    and "crypt_blocks f bs x1 (drop bs p) = (cs, x')"
    and "libssh2_blocking_read bs s = Inr (int bs, c1, s\<lparr>input := e1\<rparr>)" and "data_events e1"
    and "ev_bytes e1 = cs @ rest"
proof -
  obtain e c1 x1 where f1: "f x (take bs p) = (e, c1, x1)" by (cases "f x (take bs p)")
  have t: "length (take bs p) = bs" using assms(5) by simp
  from assms(1)[unfolded cipher_pair_def, rule_format, OF assms(3) t f1] obtain y1 where
    lc: "length c1 = bs" and g1: "g y c1 = (False, take bs p, y1)" and s1: "csync x1 y1" by blast
  obtain cs where cs: "crypt_blocks f bs x1 (drop bs p) = (cs, x')" and c: "c = c1 @ cs"
    using assms(6) crypt_blocks_step[where f = f and x = x, OF assms(5,2) f1] by (auto split: prod.splits)
  from blocking_read_data[OF assms(4), of c1 "cs @ rest" bs] assms(7) c lc obtain e1 where
    "libssh2_blocking_read bs s = Inr (int bs, c1, s\<lparr>input := e1\<rparr>)" "data_events e1" "ev_bytes e1 = cs @ rest"
    by auto
  with lc g1 s1 cs that show ?thesis by blast
qed

lemma read_blocks_cipher:
  fixes s :: "'y session"
  assumes "cipher_pair f (crypt_fn (ep_crypt (ep_remote s))) bs csync" and "blocksize (ep_crypt (ep_remote s)) = bs"
    and "0 < bs" and "bs \<le> 32" and "csync x (crypt_abstract (ep_remote s))" and "data_events (input s)"
    and "length p = k * bs" and "crypt_blocks f bs x p = (c, x')" and "ev_bytes (input s) = c @ rest"
    and "length blk = bs"
  shows "\<exists>y es. read_blocks (length payload + length p) payload blk s = Inr (Some (payload @ p), set_cipher y es s)
    \<and> csync x' y \<and> data_events es \<and> ev_bytes es = rest"
  using assms
proof (induction k arbitrary: p x c s payload blk)
  case 0
  then have "p = []" "c = []" "x' = x" by (simp_all add: crypt_blocks.simps)
  moreover have "set_cipher (crypt_abstract (ep_remote s)) (input s) s = s"
    by (cases s; cases "ep_remote s") (simp add: set_cipher_def)
  ultimately show ?case using "0.prems"
    by (intro exI[of _ "crypt_abstract (ep_remote s)"] exI[of _ "input s"]) (simp add: read_blocks.simps)
next
  case (Suc k)
  let ?g = "crypt_fn (ep_crypt (ep_remote s))" and ?y = "crypt_abstract (ep_remote s)"
  have t: "length (take bs p) = bs" and pl: "length p = bs + k * bs" using Suc.prems(7) by auto
  from cipher_step[OF Suc.prems(1,3,5,6) pl Suc.prems(8,9)] obtain c1 y1 x1 cs e1 where
    lc: "length c1 = bs" and g1: "?g ?y c1 = (False, take bs p, y1)" and s1: "csync x1 y1"
    and cs: "crypt_blocks f bs x1 (drop bs p) = (cs, x')"
    and rd: "libssh2_blocking_read bs s = Inr (int bs, c1, s\<lparr>input := e1\<rparr>)" "data_events e1" "ev_bytes e1 = cs @ rest"
    by blast
  have bsw: "\<not> word_of_int (int bs) < (of_nat bs :: u32)" by simp
  have ov: "overlay c1 blk = c1" using lc Suc.prems(10) by (simp add: overlay_def)
  have n: "\<not> (bs = 0 \<or> length payload + length p \<le> length payload)" using Suc.prems(3) pl by simp
  let ?blk = "if flag_evp (ep_crypt (ep_remote s)) then c1 else take bs p"
  have step: "read_blocks (length payload + length p) payload blk s
      = read_blocks (length (payload @ take bs p) + length (drop bs p)) (payload @ take bs p) ?blk (set_cipher y1 e1 s)"
    using n t pl by (subst read_blocks.simps)
      (simp add: Suc.prems(2) rd(1) Let_def ov bsw decrypt_block_set[OF g1] add.assoc)
  have "\<exists>y es. read_blocks (length (payload @ take bs p) + length (drop bs p)) (payload @ take bs p) ?blk (set_cipher y1 e1 s)
      = Inr (Some ((payload @ take bs p) @ drop bs p), set_cipher y es (set_cipher y1 e1 s))
      \<and> csync x' y \<and> data_events es \<and> ev_bytes es = rest"
    by (rule Suc.IH[OF _ _ _ _ _ _ _ cs]) (use Suc.prems s1 rd pl lc t in auto)
  then show ?case unfolding step by auto
qed


lemma read_first_cipher:
  fixes s :: "'y session"
  assumes "cipher_pair f (crypt_fn (ep_crypt (ep_remote s))) bs csync" and "blocksize (ep_crypt (ep_remote s)) = bs"
    and "0 < bs" and "csync x (crypt_abstract (ep_remote s))" and "data_events (input s)"
    and "length p = bs + j" and "crypt_blocks f bs x p = (c, x')" and "ev_bytes (input s) = c @ rest"
  obtains y1 x1 cs e1 where "read_first_block env True s = Inr (Inr (take bs p), set_cipher y1 e1 s)"
    and "csync x1 y1" and "crypt_blocks f bs x1 (drop bs p) = (cs, x')" and "data_events e1"
    and "ev_bytes e1 = cs @ rest"
proof -
  from cipher_step[OF assms(1,3,4,5,6,7,8)] obtain c1 y1 x1 cs e1 where
    lc: "length c1 = bs" and g1: "crypt_fn (ep_crypt (ep_remote s)) (crypt_abstract (ep_remote s)) c1 = (False, take bs p, y1)"
    and s1: "csync x1 y1" and cs: "crypt_blocks f bs x1 (drop bs p) = (cs, x')"
    and rd: "libssh2_blocking_read bs s = Inr (int bs, c1, s\<lparr>input := e1\<rparr>)" "data_events e1" "ev_bytes e1 = cs @ rest"
    by blast
  have "overlay c1 (map (e_junk env) [0..<bs]) = c1" using lc by (simp add: overlay_def)
  then have "read_first_block env True s = Inr (Inr (take bs p), set_cipher y1 e1 s)"
    by (simp add: read_first_block_def assms(2) rd(1) Let_def decrypt_block_set[OF g1])
  with s1 cs rd that show ?thesis by blast
qed

text \<open>The frame in the first block and the blocks after it.\<close>

lemma frame_parts:
  assumes "8 \<le> bs" and "length (frame data pad) = bs + j" and "length data + length pad + 1 < 2 ^ 32" and "length pad < 256"
  defines "p \<equiv> frame data pad"
  shows "libssh2_ntohu32 (take bs p) = of_nat (length data + length pad + 1)" and "take bs p ! 4 = of_nat (length pad)"
    and "take 5 (take bs p) = take 5 p" and "take (bs - 5) (drop 5 (take bs p)) @ drop bs p = data @ pad"
    and "length (take (bs - 5) (drop 5 (take bs p))) + length (drop bs p) = length data + length pad"
    and "drop 5 p = data @ pad"
proof -
  let ?h = "libssh2_htonu32 (of_nat (length data + length pad + 1))"
  have p: "p = ?h @ [of_nat (length pad)] @ data @ pad" by (simp add: p_def frame_def)
  have "take bs p = ?h @ take (bs - 4) ([of_nat (length pad)] @ data @ pad)" using assms(1) by (simp add: p)
  then show "libssh2_ntohu32 (take bs p) = of_nat (length data + length pad + 1)"
    by (simp only: u32_codec.dec_enc)
  show "take bs p ! 4 = of_nat (length pad)" using assms(1) by (simp add: p nth_append)
  show "take 5 (take bs p) = take 5 p" using assms(1) by (simp add: min_def)
  show d5: "drop 5 p = data @ pad" by (simp add: p)
  have "take (bs - 5) (drop 5 (take bs p)) = take (bs - 5) (drop 5 p)" by (simp add: drop_take)
  moreover have "drop bs p = drop (bs - 5) (drop 5 p)" using assms(1) by simp
  ultimately show e: "take (bs - 5) (drop 5 (take bs p)) @ drop bs p = data @ pad"
    using d5 by (metis append_take_drop_id)
  show "length (take (bs - 5) (drop 5 (take bs p))) + length (drop bs p) = length data + length pad"
    using arg_cong[OF e, of length] by simp
qed

lemma finish_payload_queued:
  fixes s :: "'y session"
  assumes "data_events (input s)" and "ev_bytes (input s) = m @ rest" and "length m = mac_len (ep_mac (ep_remote s))"
    and "mac_hash (ep_mac (ep_remote s)) (mac_abstract (ep_remote s)) (seqno (ep_remote s)) tmp payload = (m', my)" and "strncmp_eq m m' (mac_len (ep_mac (ep_remote s)))"
    and "case ep_comp (ep_remote s) of None \<Rightarrow> True | Some cm \<Rightarrow> comp_none cm"
    and "payload \<noteq> []" and "queued_type (payload ! 0)" and "alloc_ok s = []"
  obtains es where "data_events es" and "ev_bytes es = rest"
    and "finish_payload env tmp payload pl n s = Inr (uint (payload ! 0),
      s\<lparr>input := es, ep_remote := (ep_remote s)\<lparr>mac_abstract := my, seqno := seqno (ep_remote s) + 1\<rparr>,
        packets := packets s @ [\<lparr>pk_data = payload, pk_len = n - ucast pl, pk_head = 0, pk_mac = MAC_CONFIRMED\<rparr>]\<rparr>)"
proof -
  from blocking_read_data[OF assms(1,2), of "mac_len (ep_mac (ep_remote s))"] assms(3) obtain es where
    rd: "libssh2_blocking_read (mac_len (ep_mac (ep_remote s))) s = Inr (int (mac_len (ep_mac (ep_remote s))), m, s\<lparr>input := es\<rparr>)"
    and es: "data_events es" "ev_bytes es = rest" by blast
  have r8: "rd8 payload 0 = Inr (payload ! 0)" using assms(7) by (simp add: rd8_def)
  have "finish_payload env tmp payload pl n s = Inr (uint (payload ! 0),
      s\<lparr>input := es, ep_remote := (ep_remote s)\<lparr>mac_abstract := my, seqno := seqno (ep_remote s) + 1\<rparr>,
        packets := packets s @ [\<lparr>pk_data = payload, pk_len = n - ucast pl, pk_head = 0, pk_mac = MAC_CONFIRMED\<rparr>]\<rparr>)"
    using assms(6) unfolding finish_payload_def Let_def rd
    by (cases "ep_comp (ep_remote s)")
      (simp_all add: assms(4) r8 assms(5) packet_add_queued[OF assms(8,7)] assms(9))
  with es that show ?thesis by blast
qed


lemma packet_write_encrypted:
  fixes a :: "'x session"
  defines "l \<equiv> ep_local a"
  defines "bs \<equiv> blocksize (ep_crypt l)"
  assumes "newkeys a" and "ep_comp l = Some cm" and "comp_none cm" and "8 \<le> bs" and "bs \<le> 32"
    and "send_ok a = []" and "alloc_ok a = []" and "length data < 2 ^ 31"
  obtains pad c x' m mx where
    "libssh2_packet_write env data a = Inr (0, a\<lparr>ep_local := l\<lparr>mac_abstract := mx, crypt_abstract := x', seqno := seqno l + 1\<rparr>,
        sent := sent a @ [c @ m]\<rparr>)"
    and "crypt_blocks (crypt_fn (ep_crypt l)) bs (crypt_abstract l) (frame data pad) = (c, x')"
    and "mac_hash (ep_mac l) (mac_abstract l) (seqno l) (frame data pad) [] = (m, mx)"
    and "4 \<le> length pad" and "length pad < bs + 4" and "length (frame data pad) mod bs = 0"
proof -
  define p where "p = padding_for (of_nat bs) (of_nat (length data) + 1)"
  let ?pad = "map (e_rand env (seqno l)) [0..<unat p]"
  have b: "length data + 2 * bs + 5 < 2 ^ 32" and b8: "bs < 2 ^ 8 - 4" using assms(7,10) by simp_all
  note fr = packet_send_frame(1)[OF assms(6) b8 b, folded p_def, where f = "e_rand env (seqno l)"]
    packet_send_frame(2-)[OF assms(6) b8 b, folded p_def]
  obtain c x' where c: "crypt_blocks (crypt_fn (ep_crypt l)) bs (crypt_abstract l) (frame data ?pad) = (c, x')"
    by (cases "crypt_blocks (crypt_fn (ep_crypt l)) bs (crypt_abstract l) (frame data ?pad)")
  obtain m mx where m: "mac_hash (ep_mac l) (mac_abstract l) (seqno l) (frame data ?pad) [] = (m, mx)"
    by (cases "mac_hash (ep_mac l) (mac_abstract l) (seqno l) (frame data ?pad) []")
  have al: "libssh2_alloc a = (True, a)" using assms(9) by (simp add: libssh2_alloc_def)
  have "packet_send env data a = (0, a\<lparr>ep_local := l\<lparr>mac_abstract := mx, crypt_abstract := x', seqno := seqno l + 1\<rparr>,
        sent := sent a @ [c @ m]\<rparr>)"
    unfolding packet_send_def Let_def al prod.case append.assoc
    using assms(3) fr(1) c m assms(8)
    by (simp add: sock_send_def flip: l_def bs_def p_def)
  then have "libssh2_packet_write env data a = Inr (0, a\<lparr>ep_local := l\<lparr>mac_abstract := mx, crypt_abstract := x', seqno := seqno l + 1\<rparr>,
        sent := sent a @ [c @ m]\<rparr>)"
    using assms(3,4,5) by (simp add: libssh2_packet_write_def flip: l_def)
  moreover have "length (frame data ?pad) mod bs = 0" using fr(4) by (simp add: frame_def ac_simps)
  ultimately show ?thesis using that c m fr(2,3) by simp
qed

lemma read_encrypted_frame:
  fixes b :: "'y session"
  defines "r \<equiv> ep_remote b"
  defines "bs \<equiv> blocksize (ep_crypt r)"
  assumes "cipher_pair f (crypt_fn (ep_crypt r)) bs csync" and "8 \<le> bs" and "bs \<le> 32" and "csync x (crypt_abstract r)"
    and "data_events (input b)" and "crypt_blocks f bs x (frame data pad) = (c, x')" and "ev_bytes (input b) = c @ rest"
    and "length (frame data pad) mod bs = 0" and "length data + length pad \<le> 40000" and "length pad < 256"
    and "data \<noteq> []" and "alloc_ok b = []"
  obtains y es where "read_encrypted env True b
      = finish_payload env (take 5 (frame data pad)) (data @ pad) (of_nat (length pad))
          (of_nat (length data + length pad)) (set_cipher y es b)"
    and "csync x' y" and "data_events es" and "ev_bytes es = rest"
proof -
  let ?p = "frame data pad" and ?n = "length data + length pad"
  obtain k where k: "length ?p = bs + k * bs"
  proof -
    have "length ?p \<noteq> 0" by (simp add: frame_def)
    moreover from assms(10) obtain q where q: "length ?p = bs * q" by (auto simp flip: dvd_eq_mod_eq_0 elim!: dvdE)
    ultimately have "q \<noteq> 0" "length ?p = q * bs" by (auto simp: mult.commute)
    then show ?thesis using that[of "q - 1"] by (cases q) simp_all
  qed
  have lp: "length ?p = ?n + 5" by (simp add: frame_def)
  have bs0: "0 < bs" using assms(4) by simp
  have n32: "?n + 1 < 2 ^ 32" using assms(11) by simp
  note fp = frame_parts[OF assms(4) k n32 assms(12)]
  have bsr: "blocksize (ep_crypt (ep_remote b)) = bs" by (simp add: bs_def r_def)
  obtain y1 x1 cs e1 where first: "read_first_block env True b = Inr (Inr (take bs ?p), set_cipher y1 e1 b)"
    and s1: "csync x1 y1" and cs: "crypt_blocks f bs x1 (drop bs ?p) = (cs, x')" and e1: "data_events e1" "ev_bytes e1 = cs @ rest"
    by (rule read_first_cipher[OF assms(3)[unfolded r_def] bsr bs0 assms(6)[unfolded r_def] assms(7) k assms(8,9), of env])
  let ?pre = "take (bs - 5) (drop 5 (take bs ?p))"
  have "\<exists>y es. read_blocks (length ?pre + length (drop bs ?p)) ?pre (take bs (take bs ?p)) (set_cipher y1 e1 b)
      = Inr (Some (?pre @ drop bs ?p), set_cipher y es (set_cipher y1 e1 b))
      \<and> csync x' y \<and> data_events es \<and> ev_bytes es = rest"
    by (rule read_blocks_cipher[OF _ _ bs0 assms(5) _ _ _ cs, where k = k])
      (use assms(3) s1 e1 k in \<open>simp_all add: r_def bs_def\<close>)
  then obtain y es where rb: "read_blocks ?n ?pre (take bs (take bs ?p)) (set_cipher y1 e1 b) = Inr (Some (data @ pad), set_cipher y es b)"
    and y: "csync x' y" "data_events es" "ev_bytes es = rest"
    using fp(4,5) assms(11) by auto
  have un: "unat (of_nat ?n :: u32) = ?n" using assms(11) unfolding unat_of_nat by simp
  have len: "(of_nat (?n + 1) - 1 :: u32) = of_nat ?n" by simp
  have big: "\<not> (of_nat ?n :: u32) > 40000" using un assms(11) by (simp add: word_less_nat_alt del: of_nat_add)
  have md: "((of_nat (?n + 1) + 4 :: u32) mod of_nat bs) = 0"
  proof -
    have "(of_nat (?n + 1) + 4 :: u32) = of_nat (?n + 5)" by simp
    moreover have "unat (of_nat (?n + 5) :: u32) = ?n + 5" using assms(11) unfolding unat_of_nat by simp
    moreover have "unat (of_nat bs :: u32) = bs" using assms(5) unfolding unat_of_nat by simp
    ultimately have "unat ((of_nat (?n + 1) + 4 :: u32) mod of_nat bs) = 0"
      using assms(10) lp by (simp only: unat_mod)
    then show ?thesis by (simp only: unat_eq_0)
  qed
  have al: "libssh2_alloc (set_cipher y1 e1 b) = (True, set_cipher y1 e1 b)" using assms(14) by (simp add: libssh2_alloc_def)
  have lt: "\<not> (length (take bs ?p) < bs \<or> bs < 5)" using k assms(4) by simp
  have "read_encrypted env True b = finish_payload env (take 5 ?p) (data @ pad) (of_nat (length pad)) (of_nat ?n) (set_cipher y es b)"
    unfolding read_encrypted_def first sbind_simps prod.case sum.case Let_def al bsr fp(1) len
    using lt big md rb un fp(2,3) by (simp del: of_nat_add of_nat_Suc)
  with y that show ?thesis by blast
qed

section \<open>Waiting for a packet\<close>

definition queued_packet :: "bytes \<Rightarrow> packet" where
  "queued_packet d = \<lparr>pk_data = d, pk_len = of_nat (length d), pk_head = 0, pk_mac = MAC_CONFIRMED\<rparr>"

text \<open>Payload and padding as a sender may choose them.\<close>

definition fair_frame :: "bytes \<times> bytes \<Rightarrow> bool" where
  "fair_frame f \<longleftrightarrow> (case f of (d, pad) \<Rightarrow>
     d \<noteq> [] \<and> queued_type (d ! 0) \<and> length d + 300 < 2 ^ 32 \<and> length pad \<le> 24)"

lemma packet_read_plain:
  assumes "\<not> newkeys s" and "sock_state s \<noteq> SOCKET_DISCONNECTED" and "alloc_ok s = []" and "data_events (input s)"
    and "ev_bytes (input s) = frame d pad @ rest" and "fair_frame (d, pad)"
  obtains es where "data_events es" and "ev_bytes es = rest"
    and "libssh2_packet_read env True s = Inr (uint (d ! 0), count_packet (s\<lparr>input := es, packets := packets s @ [queued_packet d]\<rparr>))"
proof -
  note f = assms(6)[unfolded fair_frame_def prod.case]
  obtain es where es: "data_events es" "ev_bytes es = rest"
    and rp: "read_plain env True s =
      sbind (libssh2_packet_add env d (of_nat (length d)) MAC_CONFIRMED (s\<lparr>input := es\<rparr>))
        (\<lambda>(rc, s). Inr (uint (d ! 0), count_packet s))"
    by (rule read_plain_frame[OF assms(4,5) _ _ _ assms(3), of env]) (use f in auto)
  have "read_plain env True s = Inr (uint (d ! 0), count_packet (s\<lparr>input := es, packets := packets s @ [queued_packet d]\<rparr>))"
    using f assms(3) unfolding rp by (simp add: packet_add_queued queued_packet_def)
  with es assms(1,2) that show ?thesis by (simp add: libssh2_packet_read_def)
qed

lemma matches_type:
  "pk_data p \<noteq> [] \<Longrightarrow> packet_matches t 0 None 0 p = Inr (pk_data p ! 0 = t)"
  by (simp add: packet_matches_def rd8_def)

lemma ask_type_absent:
  assumes "list_all (\<lambda>p. pk_data p \<noteq> [] \<and> pk_data p ! 0 \<noteq> t) (packets s)"
  shows "libssh2_packet_ask_ex env t 0 None 0 False s = Inr (None, s)"
proof (cases "packets s = []")
  case False
  have "take_packet (packet_matches t 0 None 0) (packets s) = Inr (None, packets s)"
    using assms by (auto simp: take_packet_None list_all_iff matches_type)
  then show ?thesis using False by (simp add: libssh2_packet_ask_ex_def Let_def)
qed (simp add: libssh2_packet_ask_ex_def)

lemma ask_type_last:
  assumes "list_all (\<lambda>p. pk_data p \<noteq> [] \<and> pk_data p ! 0 \<noteq> t) ps" and "packets s = ps @ [p]"
    and "pk_data p \<noteq> []" and "pk_data p ! 0 = t"
  shows "libssh2_packet_ask_ex env t 0 None 0 False s = Inr (Some (pk_data p, pk_len p), s\<lparr>packets := ps\<rparr>)"
proof -
  have "take_packet (packet_matches t 0 None 0) (packets s) = Inr (Some p, ps)"
    unfolding take_packet_Some using assms
    by (intro exI[of _ ps] exI[of _ "[]"]) (auto simp: list_all_iff matches_type)
  then show ?thesis using assms(2) by (simp add: libssh2_packet_ask_ex_def Let_def)
qed

lemma count_packet_simps [simp]:
  "newkeys (count_packet s) = newkeys s" "sock_state (count_packet s) = sock_state s" "alloc_ok (count_packet s) = alloc_ok s"
  "input (count_packet s) = input s" "packets (count_packet s) = packets s"
  by (simp_all add: count_packet_def newkeys_def)

lemma newkeys_update [simp]:
  "newkeys (s\<lparr>input := es\<rparr>) = newkeys s" "newkeys (s\<lparr>packets := ps\<rparr>) = newkeys s"
  by (simp_all add: newkeys_def)

lemma require_loop_waits:
  assumes "\<not> newkeys s" and "sock_state s = SOCKET_CONNECTED" and "alloc_ok s = []" and "data_events (input s)"
    and "ev_bytes (input s) = concat (map (case_prod frame) fs) @ frame d pad @ rest"
    and "list_all (\<lambda>f. fair_frame f \<and> fst f ! 0 \<noteq> t) fs" and "fair_frame (d, pad)" and "d ! 0 = t" and "t \<noteq> 0"
    and "list_all (\<lambda>p. pk_data p \<noteq> [] \<and> pk_data p ! 0 \<noteq> t) (packets s)" and "length fs < fuel"
  shows "\<exists>s'. require_loop fuel env t 0 None 0 s = Inr (Some (d, of_nat (length d)), s')
    \<and> packets s' = packets s @ map (queued_packet \<circ> fst) fs \<and> data_events (input s') \<and> ev_bytes (input s') = rest"
  using assms
proof (induction fs arbitrary: s fuel)
  case Nil
  then obtain n where n: "fuel = Suc n" by (cases fuel) auto
  obtain es where es: "data_events es" "ev_bytes es = rest" and rd: "libssh2_packet_read env True s
      = Inr (uint (d ! 0), count_packet (s\<lparr>input := es, packets := packets s @ [queued_packet d]\<rparr>))"
    by (rule packet_read_plain[of s d pad rest env]) (use Nil in auto)
  have "d \<noteq> []" using Nil.prems(7) by (simp add: fair_frame_def)
  then have "libssh2_packet_ask_ex env t 0 None 0 False (count_packet (s\<lparr>input := es, packets := packets s @ [queued_packet d]\<rparr>))
      = Inr (Some (d, of_nat (length d)), (count_packet (s\<lparr>input := es, packets := packets s @ [queued_packet d]\<rparr>))\<lparr>packets := packets s\<rparr>)"
    by (subst ask_type_last[OF Nil.prems(10)]) (auto simp: queued_packet_def Nil.prems(8))
  then show ?case using n rd es Nil.prems(2,8,9) by (simp add: uint_0_iff)
next
  case (Cons f fs)
  obtain d1 pad1 where f: "f = (d1, pad1)" by (cases f)
  from Cons.prems obtain n where n: "fuel = Suc n" "length fs < n" by (cases fuel) auto
  let ?s = "\<lambda>es. count_packet (s\<lparr>input := es, packets := packets s @ [queued_packet d1]\<rparr>)"
  obtain es where es: "data_events es" "ev_bytes es = concat (map (case_prod frame) fs) @ frame d pad @ rest"
    and rd: "libssh2_packet_read env True s = Inr (uint (d1 ! 0), ?s es)"
    by (rule packet_read_plain[of s d1 pad1 "concat (map (case_prod frame) fs) @ frame d pad @ rest" env])
      (use Cons.prems f in auto)
  have d1: "d1 \<noteq> []" "d1 ! 0 \<noteq> t" using Cons.prems(6) f by (auto simp: fair_frame_def)
  have "\<exists>s'. require_loop n env t 0 None 0 (?s es) = Inr (Some (d, of_nat (length d)), s')
    \<and> packets s' = packets (?s es) @ map (queued_packet \<circ> fst) fs \<and> data_events (input s') \<and> ev_bytes (input s') = rest"
    by (rule Cons.IH) (use Cons.prems es n d1 in \<open>auto simp: queued_packet_def\<close>)
  moreover have "uint (d1 ! 0) \<noteq> uint t" using d1 by (simp add: word_uint_eq_iff)
  ultimately show ?case using n(1) rd Cons.prems(2) f by (simp add: comp_def)
qed

section \<open>Examples\<close>

text \<open>
  Two ends with keys in use: a cipher that complements every byte, a check byte that adds up the
  packet and its number, no compression.
\<close>

definition sum_mac :: "u32 \<Rightarrow> bytes \<Rightarrow> bytes" where
  "sum_mac n b = [sum_list b + ucast n]"

definition keyed_endpoint :: "unit endpoint" where
  "keyed_endpoint = example_endpoint\<lparr>
     ep_crypt := \<lparr>blocksize = 8, flag_evp = False, crypt_fn = \<lambda>x b. (False, map (NOT) b, x)\<rparr>,
     ep_mac := \<lparr>mac_len = 1, mac_hash = \<lambda>x n a b. (sum_mac n (a @ b), x)\<rparr>,
     ep_comp := Some \<lparr>comp_none = True, comp_fn = \<lambda>x c b. (Some b, x)\<rparr>\<rparr>"

definition keyed_session :: "recv_event list \<Rightarrow> unit session" where
  "keyed_session ins = (example_session ins)\<lparr>state := LIBSSH2_STATE_NEWKEYS, ep_remote := keyed_endpoint, ep_local := keyed_endpoint\<rparr>"

lemma keyed_linked: "linked (\<lambda>_ _. True) (\<lambda>_ _. True) (keyed_session i) (keyed_session j)"
proof -
  have "map ((NOT) \<circ> (NOT)) b = b" for b :: bytes by (induction b) simp_all
  then show ?thesis
    by (simp add: linked_def Let_def keyed_session_def newkeys_def keyed_endpoint_def example_session_def
        cipher_pair_def mac_pair_def sum_mac_def)
qed

lemma keyed_simps [simp]:
  "send_ok (keyed_session i) = []" "alloc_ok (keyed_session i) = []" "sock_state (keyed_session i) = SOCKET_CONNECTED"
  "input (keyed_session i) = i" "packets (keyed_session i) = []" "sent (keyed_session i) = []"
  by (simp_all add: keyed_session_def)

section \<open>Properties\<close>

text \<open>(C1) With keys in use, what \<^verbatim>\<open>libssh2_packet_write\<close> sends is what \<^verbatim>\<open>libssh2_packet_read\<close> delivers: the
  receiver decrypts the frame, accepts its MAC, strips the padding and queues the payload, however
  the bytes are cut up on their way, takes exactly the bytes of this packet from the socket, and the two
  ends stay in step for the next packet.\<close>

theorem encrypted_roundtrip:
  assumes "linked csync msync a b" and "send_ok a = []" and "alloc_ok a = []" and "alloc_ok b = []"
    and "sock_state b \<noteq> SOCKET_DISCONNECTED" and "data \<noteq> []" and "queued_type (data ! 0)" and "length data \<le> 39900"
    and "libssh2_packet_write env data a = Inr (rc, a')"
    and "data_events (input b)" and "ev_bytes (input b) = concat (drop (length (sent a)) (sent a')) @ rest"
  shows "rc = 0 \<and> (\<exists>b' pad. libssh2_packet_read env' True b = Inr (uint (data ! 0), b')
    \<and> packets b' = packets b @ [\<lparr>pk_data = data @ pad, pk_len = of_nat (length data), pk_head = 0, pk_mac = MAC_CONFIRMED\<rparr>]
    \<and> data_events (input b') \<and> ev_bytes (input b') = rest \<and> linked csync msync a' b')"
proof -
  let ?l = "ep_local a" and ?r = "ep_remote b"
  let ?bs = "blocksize (ep_crypt ?l)"
  have lk: "newkeys a" "newkeys b" "8 \<le> ?bs" "?bs \<le> 32" "blocksize (ep_crypt ?r) = ?bs"
    "cipher_pair (crypt_fn (ep_crypt ?l)) (crypt_fn (ep_crypt ?r)) ?bs csync" "csync (crypt_abstract ?l) (crypt_abstract ?r)"
    "mac_pair (mac_hash (ep_mac ?l)) (mac_hash (ep_mac ?r)) (mac_len (ep_mac ?r)) msync"
    "msync (mac_abstract ?l) (mac_abstract ?r)" "seqno ?l = seqno ?r" "\<exists>cm. ep_comp ?l = Some cm \<and> comp_none cm"
    "case ep_comp ?r of None \<Rightarrow> True | Some cm \<Rightarrow> comp_none cm"
    using assms(1) by (simp_all only: linked_def Let_def)
  from lk(11) obtain cm where cm: "ep_comp ?l = Some cm" "comp_none cm" by blast
  have d31: "length data < 2 ^ 31" using assms(8) by simp
  obtain pad c x' m mx where
    pw: "libssh2_packet_write env data a = Inr (0, a\<lparr>ep_local := ?l\<lparr>mac_abstract := mx, crypt_abstract := x', seqno := seqno ?l + 1\<rparr>,
        sent := sent a @ [c @ m]\<rparr>)"
    and cb: "crypt_blocks (crypt_fn (ep_crypt ?l)) ?bs (crypt_abstract ?l) (frame data pad) = (c, x')"
    and mh: "mac_hash (ep_mac ?l) (mac_abstract ?l) (seqno ?l) (frame data pad) [] = (m, mx)"
    and pad: "4 \<le> length pad" "length pad < ?bs + 4" "length (frame data pad) mod ?bs = 0"
    by (rule packet_write_encrypted[OF lk(1) cm lk(3,4) assms(2,3) d31, of env])
  from pw assms(9) have rc: "rc = 0" and a': "a' = a\<lparr>ep_local := ?l\<lparr>mac_abstract := mx, crypt_abstract := x', seqno := seqno ?l + 1\<rparr>,
        sent := sent a @ [c @ m]\<rparr>" by auto
  have ev: "ev_bytes (input b) = c @ m @ rest" using assms(11) by (simp add: a')
  have small: "length data + length pad \<le> 40000" "length pad < 256" using assms(8) pad(2) lk(4) by auto
  obtain y es where re: "read_encrypted env' True b = finish_payload env' (take 5 (frame data pad)) (data @ pad)
        (of_nat (length pad)) (of_nat (length data + length pad)) (set_cipher y es b)"
    and y: "csync x' y" and es: "data_events es" "ev_bytes es = m @ rest"
    by (rule read_encrypted_frame[of "crypt_fn (ep_crypt ?l)" b csync "crypt_abstract ?l" data pad c x' "m @ rest" env',
      unfolded lk(5), OF lk(6,3,4,7) assms(10) cb ev pad(3) small assms(6,4)])
  have "take 5 (frame data pad) @ data @ pad = frame data pad"
    using append_take_drop_id[of 5 "frame data pad"] by (simp add: frame_def)
  with mh lk(8)[unfolded mac_pair_def, rule_format, OF lk(9), of "seqno ?l" "take 5 (frame data pad)" "data @ pad" m mx]
  obtain my where lm: "length m = mac_len (ep_mac ?r)"
    and mr: "mac_hash (ep_mac ?r) (mac_abstract ?r) (seqno ?r) (take 5 (frame data pad)) (data @ pad) = (m, my)"
    and ms: "msync mx my" using lk(10) by auto
  have d0: "(data @ pad) ! 0 = data ! 0" using assms(6) by (simp add: nth_append)
  let ?r' = "?r\<lparr>crypt_abstract := y, mac_abstract := my, seqno := seqno ?r + 1\<rparr>"
  from finish_payload_queued[of "set_cipher y es b" m rest "take 5 (frame data pad)" "data @ pad" m my env'
      "of_nat (length pad)" "of_nat (length data + length pad)"] es lm mr lk(12) assms(4,6,7) d0
  obtain es' where es': "data_events es'" "ev_bytes es' = rest"
    and fin: "finish_payload env' (take 5 (frame data pad)) (data @ pad) (of_nat (length pad)) (of_nat (length data + length pad)) (set_cipher y es b)
      = Inr (uint (data ! 0), b\<lparr>input := es', ep_remote := ?r',
        packets := packets b @ [\<lparr>pk_data = data @ pad, pk_len = of_nat (length data + length pad) - ucast (of_nat (length pad) :: u8),
          pk_head = 0, pk_mac = MAC_CONFIRMED\<rparr>]\<rparr>)"
    by (auto simp: set_cipher_def)
  have "unat (of_nat (length pad) :: u8) = length pad" using small(2) unfolding unat_of_nat by simp
  then have pl: "of_nat (length data + length pad) - ucast (of_nat (length pad) :: u8) = (of_nat (length data) :: u32)"
    by (metis add_diff_cancel_right' of_nat_add of_nat_unat)
  let ?b' = "b\<lparr>input := es', ep_remote := ?r',
        packets := packets b @ [\<lparr>pk_data = data @ pad, pk_len = of_nat (length data), pk_head = 0, pk_mac = MAC_CONFIRMED\<rparr>]\<rparr>"
  have "libssh2_packet_read env' True b = Inr (uint (data ! 0), ?b')"
    using assms(5) lk(2) re fin pl by (simp add: libssh2_packet_read_def)
  moreover have "linked csync msync a' ?b'"
    using lk y ms unfolding linked_def Let_def a' newkeys_def by simp
  ultimately show ?thesis using rc es' by (intro conjI exI[of _ ?b'] exI[of _ pad]) simp_all
qed

text \<open>Before keys are in use, too, what \<^verbatim>\<open>libssh2_packet_write\<close> sends is what \<^verbatim>\<open>libssh2_packet_read\<close>
  delivers, however the bytes are cut up: the payload is queued, exactly the bytes of the packet are
  taken from the socket, and each side counts one packet.\<close>

theorem plain_roundtrip:
  assumes "\<not> newkeys a" and "\<not> newkeys b" and "send_ok a = []" and "alloc_ok b = []"
    and "sock_state b \<noteq> SOCKET_DISCONNECTED" and "data \<noteq> []" and "queued_type (data ! 0)" and "length data < 2 ^ 31"
    and "libssh2_packet_write env data a = Inr (rc, a')"
    and "data_events (input b)" and "ev_bytes (input b) = concat (drop (length (sent a)) (sent a')) @ rest"
  shows "rc = 0 \<and> (\<exists>b'. libssh2_packet_read env' True b = Inr (uint (data ! 0), b')
    \<and> packets b' = packets b @ [queued_packet data] \<and> data_events (input b') \<and> ev_bytes (input b') = rest
    \<and> seqno (ep_local a') = seqno (ep_local a) + 1 \<and> seqno (ep_remote b') = seqno (ep_remote b) + 1)"
proof -
  obtain pad where pad: "4 \<le> length pad" "length pad < 12"
    and w: "libssh2_packet_write env data a = Inr (0, a\<lparr>ep_local := (ep_local a)\<lparr>seqno := seqno (ep_local a) + 1\<rparr>,
      sent := sent a @ [frame data pad]\<rparr>)" by (rule packet_write_plain[OF assms(1,3,8)])
  from w assms(9,11) have rc: "rc = 0" and n: "seqno (ep_local a') = seqno (ep_local a) + 1"
    and ev: "ev_bytes (input b) = frame data pad @ rest" by auto
  have "fair_frame (data, pad)" using assms(6-8) pad by (simp add: fair_frame_def)
  from packet_read_plain[OF assms(2,5,4,10) ev this, of env'] obtain es where
    "data_events es" "ev_bytes es = rest" and
    r: "libssh2_packet_read env' True b = Inr (uint (data ! 0), count_packet (b\<lparr>input := es, packets := packets b @ [queued_packet data]\<rparr>))" .
  then show ?thesis using rc n by (simp add: count_packet_def)
qed


text \<open>Asking for a packet takes the first one that matches out of the queue and leaves all
  others, in their order; if none matches, the queue stays as it was.\<close>

theorem ask_takes_first:
  assumes "libssh2_packet_ask_ex env t ofs mb ml False s = Inr (r, s')"
  shows "(case r of
      None \<Rightarrow> s' = s \<and> list_all (\<lambda>q. packet_matches t ofs mb ml q = Inr False) (packets s)
    | Some (d, n) \<Rightarrow> \<exists>a p b. packets s = a @ p # b \<and> s' = s\<lparr>packets := a @ b\<rparr> \<and> d = pk_data p \<and> n = pk_len p
        \<and> packet_matches t ofs mb ml p = Inr True \<and> list_all (\<lambda>q. packet_matches t ofs mb ml q = Inr False) a)"
proof (cases "packets s = []")
  case False
  with assms obtain r1 ps where t: "take_packet (packet_matches t ofs mb ml) (packets s) = Inr (r1, ps)"
    and r: "r = map_option (\<lambda>p. (pk_data p, pk_len p)) r1" "s' = s\<lparr>packets := ps\<rparr>"
    by (auto simp: libssh2_packet_ask_ex_def Let_def sbind_eq_Inr)
  show ?thesis
  proof (cases r1)
    case None
    with t have "ps = packets s" "list_all (\<lambda>q. packet_matches t ofs mb ml q = Inr False) (packets s)"
      by (simp_all add: take_packet_None)
    with r None show ?thesis by simp
  next
    case (Some p)
    with t r show ?thesis by (auto simp: take_packet_Some)
  qed
qed (use assms in \<open>auto simp: libssh2_packet_ask_ex_def\<close>)

text \<open>Before keys are in use a packet with more than 24 bytes of padding, which the protocol
  allows (up to 255), is written past the end of the buffer on the stack.\<close>

theorem plain_padding_overflow:
  assumes "\<not> newkeys s" and "sock_state s \<noteq> SOCKET_DISCONNECTED" and "alloc_ok s = []" and "data_events (input s)"
    and "ev_bytes (input s) = frame d pad @ rest" and "length d + 300 < 2 ^ 32" and "24 < length pad" and "length pad < 256"
  shows "libssh2_packet_read env True s = Inl Undefined"
  using read_plain_long_padding[OF assms(3-8)] assms(1,2) by (simp add: libssh2_packet_read_def)

text \<open>The MAC is compared as a string: when the right MAC and the received one begin with a zero
  byte, a packet is taken as confirmed whatever the other bytes of its MAC are.\<close>

theorem mac_zero_byte_confirms:
  assumes "data_events (input s)" and "ev_bytes (input s) = (0 # forged) @ rest"
    and "length (0 # forged) = mac_len (ep_mac (ep_remote s))"
    and "mac_hash (ep_mac (ep_remote s)) (mac_abstract (ep_remote s)) (seqno (ep_remote s)) tmp payload = (0 # m, my)"
    and "case ep_comp (ep_remote s) of None \<Rightarrow> True | Some cm \<Rightarrow> comp_none cm"
    and "payload \<noteq> []" and "queued_type (payload ! 0)" and "alloc_ok s = []"
  shows "\<exists>s'. finish_payload env tmp payload pl n s = Inr (uint (payload ! 0), s')
    \<and> packets s' = packets s @ [\<lparr>pk_data = payload, pk_len = n - ucast pl, pk_head = 0, pk_mac = MAC_CONFIRMED\<rparr>]"
proof -
  have "strncmp_eq (0 # forged) (0 # m) (mac_len (ep_mac (ep_remote s)))" using assms(3)[symmetric] by simp
  then show ?thesis by (rule finish_payload_queued[OF assms(1-4) _ assms(5-8), of env pl n]) auto
qed

text \<open>A poll on an empty queue never finds a packet, not even when the packet asked for is read
  by that very call.\<close>

theorem poll_misses_new_packet:
  assumes "packets s = []" and "libssh2_packet_ask_ex env t ofs mb ml True s = Inr (r, s')"
  shows "r = None"
  using assms by (auto simp: libssh2_packet_ask_ex_def Let_def sbind_eq_Inr split: if_splits)


theorem encrypted_roundtrip_witness:
  "\<exists>a' b' pad. libssh2_packet_write example_env [21, 7] (keyed_session []) = Inr (0, a')
     \<and> libssh2_packet_read example_env True (keyed_session [Recv_Data (concat (sent a'))]) = Inr (21, b')
     \<and> packets b' = [\<lparr>pk_data = [21, 7] @ pad, pk_len = 2, pk_head = 0, pk_mac = MAC_CONFIRMED\<rparr>]"
proof -
  have "libssh2_packet_write example_env [21, 7] (keyed_session []) = Inr (packet_send example_env [21, 7] (keyed_session []))"
    by (simp add: libssh2_packet_write_def keyed_session_def keyed_endpoint_def)
  then obtain rc a' where w: "libssh2_packet_write example_env [21, 7] (keyed_session []) = Inr (rc, a')"
    by (cases "packet_send example_env [21, 7] (keyed_session [])") simp
  let ?b = "keyed_session [Recv_Data (concat (sent a'))]"
  have "ev_bytes (input ?b) = concat (drop (length (sent (keyed_session []))) (sent a')) @ []" by simp
  from encrypted_roundtrip[OF keyed_linked[of "[]" "[Recv_Data (concat (sent a'))]"] _ _ _ _ _ _ _ w _ this, of example_env]
  show ?thesis using w by (auto simp: queued_type_def)
qed

theorem plain_roundtrip_witness:
  "\<exists>a' b'. libssh2_packet_write example_env [21, 7] (example_session []) = Inr (0, a')
     \<and> libssh2_packet_read example_env True (example_session (map (\<lambda>b. Recv_Data [b]) (concat (sent a')))) = Inr (21, b')
     \<and> packets b' = [queued_packet [21, 7]]"
proof -
  obtain a' where w: "libssh2_packet_write example_env [21, 7] (example_session []) = Inr (0, a')"
    by (simp add: libssh2_packet_write_def example_no_keys packet_send_def sock_send_def Let_def)
  let ?i = "\<lambda>bs. map (\<lambda>b. Recv_Data [b]) bs"
  have i: "ev_bytes (?i bs) = bs" "data_events (?i bs)" for bs by (induction bs) simp_all
  let ?b = "example_session (?i (concat (sent a')))"
  have "ev_bytes (input ?b) = concat (drop (length (sent (example_session []))) (sent a')) @ []" by (simp add: i)
  from plain_roundtrip[OF example_no_keys example_no_keys[of "?i (concat (sent a'))"] _ _ _ _ _ _ w _ this, of example_env]
  show ?thesis using w by (auto simp: queued_type_def i)
qed


theorem ask_takes_first_witness:
  "\<exists>s'. libssh2_packet_ask_ex example_env 31 0 None 0 False
        ((example_session [])\<lparr>packets := [queued_packet [21], queued_packet [31, 9], queued_packet [31]]\<rparr>)
      = Inr (Some ([31, 9], 2), s') \<and> packets s' = [queued_packet [21], queued_packet [31]]"
proof -
  let ?s = "(example_session [])\<lparr>packets := [queued_packet [21], queued_packet [31, 9], queued_packet [31]]\<rparr>"
  have e: "libssh2_packet_ask_ex example_env 31 0 None 0 False ?s
      = Inr (Some ([31, 9], 2), ?s\<lparr>packets := [queued_packet [21], queued_packet [31]]\<rparr>)"
    by (simp add: libssh2_packet_ask_ex_def queued_packet_def packet_matches_def rd8_def)
  from ask_takes_first[OF e] e show ?thesis by auto
qed

theorem plain_padding_overflow_witness:
  "libssh2_packet_read example_env True (example_session [Recv_Data (frame [21] (replicate 25 0))]) = Inl Undefined"
  by (rule plain_padding_overflow[OF example_no_keys, where d = "[21]" and pad = "replicate 25 0" and rest = "[]"]) simp_all

theorem mac_zero_byte_confirms_witness:
  "\<exists>s'. finish_payload example_env [] [21] 0 1
        ((keyed_session [Recv_Data [0, 99]])\<lparr>ep_remote := keyed_endpoint\<lparr>ep_mac := \<lparr>mac_len = 2, mac_hash = \<lambda>x n a b. ([0, 1], x)\<rparr>\<rparr>\<rparr>)
      = Inr (21, s') \<and> packets s' = [\<lparr>pk_data = [21], pk_len = 1, pk_head = 0, pk_mac = MAC_CONFIRMED\<rparr>]"
proof -
  let ?s = "(keyed_session [Recv_Data [0, 99]])\<lparr>ep_remote := keyed_endpoint\<lparr>ep_mac := \<lparr>mac_len = 2, mac_hash = \<lambda>x n a b. ([0, 1], x)\<rparr>\<rparr>\<rparr>"
  from mac_zero_byte_confirms[of ?s "[99]" "[]" "[]" "[21]" "[1]" "()" example_env 0 1] show ?thesis
    by (simp add: keyed_endpoint_def queued_type_def)
qed

theorem poll_misses_new_packet_witness:
  "\<exists>r s'. libssh2_packet_ask_ex example_env 31 0 None 0 True (keyed_session []) = Inr (r, s') \<and> r = None"
proof -
  have e: "libssh2_packet_ask_ex example_env 31 0 None 0 True (keyed_session []) = Inr (None, keyed_session [])"
    by (simp add: libssh2_packet_ask_ex_def libssh2_packet_read_def read_encrypted_def read_first_block_def
        recv_one_def keyed_session_def newkeys_def)
  from poll_misses_new_packet[OF _ e] e show ?thesis by simp
qed

end
