(* ===== verification/SSH_Channel.thy ===== *)
theory SSH_Channel
  imports SSH_Transport
begin

text \<open>
  The channels of \<^verbatim>\<open>src/ssh/libssh2/channel.c\<close>: opening, the requests, reading and writing, closing and
  freeing, listeners for forwarded connections.  A function that waits has a bound on the number of
  packets it reads or writes; reaching it is \<open>Never_Returns\<close>.
\<close>

section \<open>Waiting for packets\<close>

text \<open>\<^verbatim>\<open>while (libssh2_packet_read (session, blocking_read) > 0) blocking_read = 0\<close>\<close>

fun pump :: "nat \<Rightarrow> 'x env \<Rightarrow> bool \<Rightarrow> 'x session \<Rightarrow> 'x session run" where
  "pump 0 env blocking_read s = Inl Never_Returns"
| "pump (Suc fuel) env blocking_read s =
     sbind (libssh2_packet_read env blocking_read s) (\<lambda>(rc, s).
     if rc > 0 then pump fuel env False s else Inr s)"

text \<open>The loop that throws away what is queued for a channel.\<close>

fun drop_channel_packets :: "nat \<Rightarrow> 'x env \<Rightarrow> u32 \<Rightarrow> 'x session \<Rightarrow> 'x session run" where
  "drop_channel_packets 0 env cid s = Inl Never_Returns"
| "drop_channel_packets (Suc fuel) env cid s =
     sbind (libssh2_packet_ask_ex env SSH_MSG_CHANNEL_DATA 1 (Some (libssh2_htonu32 cid)) 4 True s) (\<lambda>(d, s).
     if d \<noteq> None then drop_channel_packets fuel env cid s
     else sbind (libssh2_packet_ask_ex env SSH_MSG_CHANNEL_EXTENDED_DATA 1 (Some (libssh2_htonu32 cid)) 4 True s) (\<lambda>(d, s).
       if d \<noteq> None then drop_channel_packets fuel env cid s else Inr s))"

section \<open>Opening a channel\<close>

text \<open>The label \<^verbatim>\<open>channel_error\<close>: the channel is unlinked and its packets are thrown away.\<close>

definition channel_error :: "nat \<Rightarrow> 'x env \<Rightarrow> nat \<Rightarrow> 'x session \<Rightarrow> (nat option \<times> 'x session) run" where
  "channel_error fuel env r s =
     (let cid = cd_id (ch_local (chan s r))
      in sbind (drop_channel_packets fuel env cid (s\<lparr>channels := remove1 r (channels s)\<rparr>)) (\<lambda>s. Inr (None, s)))"

definition open_packet :: "bytes \<Rightarrow> u32 \<Rightarrow> u32 \<Rightarrow> u32 \<Rightarrow> bytes \<Rightarrow> bytes" where
  "open_packet ctype local_channel wsize psize message =
     SSH_MSG_CHANNEL_OPEN # libssh2_htonu32 (of_nat (length ctype)) @ ctype @ libssh2_htonu32 local_channel
       @ libssh2_htonu32 wsize @ libssh2_htonu32 psize @ message"

definition open_reply :: "nat \<Rightarrow> 'x env \<Rightarrow> nat \<Rightarrow> (bytes \<times> u32) option \<Rightarrow> 'x session \<Rightarrow> (nat option \<times> 'x session) run" where
  "open_reply fuel env r reply s =
     (case reply of
        None \<Rightarrow> channel_error fuel env r s
      | Some (data, data_len) \<Rightarrow>
          sbind (rd8 data 0) (\<lambda>t.
          if t = SSH_MSG_CHANNEL_OPEN_CONFIRMATION then
            sbind (rd32 data 5) (\<lambda>rid. sbind (rd32 data 9) (\<lambda>w. sbind (rd32 data 13) (\<lambda>p.
            Inr (Some r, upd_local r (\<lambda>d. d\<lparr>window_size := w, window_size_initial := w, packet_size := p\<rparr>)
                           (upd_remote r (\<lambda>d. d\<lparr>cd_id := rid\<rparr>) s)))))
          else channel_error fuel env r
                 (if t = SSH_MSG_CHANNEL_OPEN_FAILURE then libssh2_error ERROR_CHANNEL_FAILURE ''Channel open failure'' s
                  else s)))"

definition libssh2_channel_open_ex ::
  "nat \<Rightarrow> 'x env \<Rightarrow> bytes \<Rightarrow> u32 \<Rightarrow> u32 \<Rightarrow> bytes \<Rightarrow> 'x session \<Rightarrow> (nat option \<times> 'x session) run" where
  "libssh2_channel_open_ex fuel env ctype wsize psize message s =
     (let (local_channel, s) = libssh2_channel_nextid s;
          (ok, s) = libssh2_alloc s
      in if \<not> ok then Inr (None, libssh2_error ERROR_ALLOC ''Unable to allocate space for channel data'' s)
         else
           let (ok, s) = libssh2_alloc s
           in if \<not> ok then Inr (None, libssh2_error ERROR_ALLOC ''Failed allocating memory for channel type name'' s)
              else
                let r = next_ref s;
                    c = zero_channel\<lparr>channel_type := ctype, ch_local := zero_cd\<lparr>cd_id := local_channel\<rparr>,
                          ch_remote := zero_cd\<lparr>window_size := wsize, window_size_initial := wsize, packet_size := psize\<rparr>\<rparr>;
                    s = s\<lparr>next_ref := r + 1, chan := (chan s)(r := c), channels := channels s @ [r]\<rparr>;
                    (ok, s) = libssh2_alloc s
                in if \<not> ok then Inr (None, libssh2_error ERROR_ALLOC ''Unable to allocate temporary space for packet'' s)
                   else sbind (libssh2_packet_write env (open_packet ctype local_channel wsize psize message) s) (\<lambda>(rc, s).
                     if rc \<noteq> 0 then
                       channel_error fuel env r (libssh2_error ERROR_SOCKET_SEND ''Unable to send channel-open request'' s)
                     else sbind (libssh2_packet_requirev_ex fuel env
                                   [SSH_MSG_CHANNEL_OPEN_CONFIRMATION, SSH_MSG_CHANNEL_OPEN_FAILURE]
                                   1 (Some (libssh2_htonu32 local_channel)) 4 s)
                            (\<lambda>(reply, s). open_reply fuel env r reply s)))"

definition libssh2_channel_direct_tcpip_ex ::
  "nat \<Rightarrow> 'x env \<Rightarrow> bytes \<Rightarrow> u32 \<Rightarrow> bytes \<Rightarrow> u32 \<Rightarrow> 'x session \<Rightarrow> (nat option \<times> 'x session) run" where
  "libssh2_channel_direct_tcpip_ex fuel env host port shost sport s =
     (let (ok, s) = libssh2_alloc s
      in if \<not> ok then Inr (None, libssh2_error ERROR_ALLOC ''Unable to allocate memory for direct-tcpip connection'' s)
         else libssh2_channel_open_ex fuel env (ascii ''direct-tcpip'') LIBSSH2_CHANNEL_WINDOW_DEFAULT LIBSSH2_CHANNEL_PACKET_DEFAULT
                (libssh2_htonu32 (of_nat (length host)) @ host @ libssh2_htonu32 port
                 @ libssh2_htonu32 (of_nat (length shost)) @ shost @ libssh2_htonu32 sport) s)"

section \<open>Listeners\<close>

definition set_listener :: "nat \<Rightarrow> (listener \<Rightarrow> listener) \<Rightarrow> 'x session \<Rightarrow> 'x session" where
  "set_listener lr f s = s\<lparr>listeners := map (\<lambda>l. if l_ref l = lr then f l else l) (listeners s)\<rparr>"

definition global_forward :: "string \<Rightarrow> u8 \<Rightarrow> bytes \<Rightarrow> u32 \<Rightarrow> bytes" where
  "global_forward request want_reply host port =
     SSH_MSG_GLOBAL_REQUEST # libssh2_htonu32 (of_nat (length request)) @ ascii request @ [want_reply]
       @ libssh2_htonu32 (of_nat (length host)) @ host @ libssh2_htonu32 port"

text \<open>The answer to the request: a new listener at the head of the list.\<close>

definition listen_reply ::
  "bytes \<Rightarrow> u32 \<Rightarrow> int \<Rightarrow> bytes \<Rightarrow> u32 \<Rightarrow> 'x session \<Rightarrow> (nat option \<times> 'x session) run" where
  "listen_reply host port maxsize data data_len s =
     sbind (rd8 data 0) (\<lambda>t.
     if t = SSH_MSG_REQUEST_SUCCESS then
       let (ok, s) = libssh2_alloc s
       in if \<not> ok then Inr (None, libssh2_error ERROR_ALLOC ''Unable to allocate memory for listener queue'' s)
          else
            let (ok, s) = libssh2_alloc s
            in if \<not> ok then Inr (None, libssh2_error ERROR_ALLOC ''Unable to allocate memory for listener queue'' s)
               else sbind (if data_len \<ge> 5 \<and> port = 0 then rd32 data 1 else Inr port) (\<lambda>bound.
                 let lr = next_ref s;
                     l = \<lparr>l_ref = lr, l_host = host, l_port = bound, l_queue = [], queue_size = 0, queue_maxsize = maxsize\<rparr>
                 in Inr (Some lr, s\<lparr>next_ref := lr + 1, listeners := l # listeners s\<rparr>))
     else if t = SSH_MSG_REQUEST_FAILURE then
       Inr (None, libssh2_error ERROR_REQUEST_DENIED ''Unable to complete request for forward-listen'' s)
     else Inr (None, s))"

definition libssh2_channel_forward_listen_ex ::
  "nat \<Rightarrow> 'x env \<Rightarrow> bytes option \<Rightarrow> u32 \<Rightarrow> int \<Rightarrow> 'x session \<Rightarrow> (nat option \<times> 'x session) run" where
  "libssh2_channel_forward_listen_ex fuel env host port maxsize s =
     (let host = (case host of Some h \<Rightarrow> h | None \<Rightarrow> ascii ''0.0.0.0'');
          (ok, s) = libssh2_alloc s
      in if \<not> ok then Inr (None, libssh2_error ERROR_ALLOC ''Unable to allocate memeory for setenv packet'' s)
         else sbind (libssh2_packet_write env (global_forward ''tcpip-forward'' 0xFF host port) s) (\<lambda>(rc, s).
           if rc \<noteq> 0 then
             Inr (None, libssh2_error ERROR_SOCKET_SEND ''Unable to send global-request packet for forward listen request'' s)
           else sbind (libssh2_packet_requirev_ex fuel env [SSH_MSG_REQUEST_SUCCESS, SSH_MSG_REQUEST_FAILURE] 0 None 0 s) (\<lambda>(reply, s).
             case reply of
               None \<Rightarrow> Inr (None, s)
             | Some (data, data_len) \<Rightarrow> listen_reply host port maxsize data data_len s)))"

text \<open>The bound port that the caller may ask for is the port of the new listener.\<close>

definition libssh2_channel_forward_accept :: "nat \<Rightarrow> 'x env \<Rightarrow> nat \<Rightarrow> 'x session \<Rightarrow> (nat option \<times> 'x session) run" where
  "libssh2_channel_forward_accept fuel env lr s =
     sbind (pump fuel env False s) (\<lambda>s.
     case find (\<lambda>l. l_ref l = lr) (listeners s) of
       None \<Rightarrow> Inl Undefined
     | Some l \<Rightarrow>
         (case l_queue l of
            [] \<Rightarrow> Inr (None, s)
          | r # q \<Rightarrow>
              Inr (Some r, set_listener lr (\<lambda>l. l\<lparr>l_queue := q, queue_size := queue_size l - 1\<rparr>)
                             (s\<lparr>channels := r # channels s\<rparr>))))"

section \<open>Requests on a channel\<close>

definition request_head :: "channel \<Rightarrow> bytes \<Rightarrow> bytes" where
  "request_head c request =
     SSH_MSG_CHANNEL_REQUEST # libssh2_htonu32 (cd_id (ch_remote c)) @ libssh2_htonu32 (of_nat (length request)) @ request @ [0xFF]"

text \<open>
  What the four requests share: the packet is allocated and sent, and the reply for this channel is
  awaited.
\<close>

definition channel_request ::
  "nat \<Rightarrow> 'x env \<Rightarrow> nat \<Rightarrow> bytes \<Rightarrow> string \<Rightarrow> string \<Rightarrow> string \<Rightarrow> 'x session \<Rightarrow> (int \<times> 'x session) run" where
  "channel_request fuel env r packet e_alloc e_send e_denied s =
     (let (ok, s) = libssh2_alloc s
      in if \<not> ok then Inr (-1, libssh2_error ERROR_ALLOC e_alloc s)
         else sbind (libssh2_packet_write env packet s) (\<lambda>(rc, s).
           if rc \<noteq> 0 then Inr (-1, libssh2_error ERROR_SOCKET_SEND e_send s)
           else sbind (libssh2_packet_requirev_ex fuel env [SSH_MSG_CHANNEL_SUCCESS, SSH_MSG_CHANNEL_FAILURE]
                         1 (Some (libssh2_htonu32 (cd_id (ch_local (chan s r))))) 4 s) (\<lambda>(reply, s).
             case reply of
               None \<Rightarrow> Inr (-1, s)
             | Some (data, data_len) \<Rightarrow>
                 sbind (rd8 data 0) (\<lambda>t.
                 if t = SSH_MSG_CHANNEL_SUCCESS then Inr (0, s)
                 else Inr (-1, libssh2_error ERROR_CHANNEL_REQUEST_DENIED e_denied s)))))"

definition libssh2_channel_setenv_ex :: "nat \<Rightarrow> 'x env \<Rightarrow> nat \<Rightarrow> bytes \<Rightarrow> bytes \<Rightarrow> 'x session \<Rightarrow> (int \<times> 'x session) run" where
  "libssh2_channel_setenv_ex fuel env r varname val s =
     channel_request fuel env r
       (request_head (chan s r) (ascii ''env'') @ libssh2_htonu32 (of_nat (length varname)) @ varname
        @ libssh2_htonu32 (of_nat (length val)) @ val)
       ''Unable to allocate memeory for setenv packet''
       ''Unable to send channel-request packet for setenv request''
       ''Unable to complete request for channel-setenv'' s"

text \<open>
  A missing terminal name or mode string comes with a length all the same; its bytes are left
  uninitialised at the end of the packet.
\<close>

definition libssh2_channel_request_pty_ex ::
  "nat \<Rightarrow> 'x env \<Rightarrow> nat \<Rightarrow> bytes option \<Rightarrow> nat \<Rightarrow> bytes option \<Rightarrow> nat \<Rightarrow> u32 \<Rightarrow> u32 \<Rightarrow> u32 \<Rightarrow> u32 \<Rightarrow> 'x session \<Rightarrow> (int \<times> 'x session) run" where
  "libssh2_channel_request_pty_ex fuel env r trm trm_len modes modes_len width height width_px height_px s =
     (let opt = (\<lambda>x n. case x of Some b \<Rightarrow> take n b | None \<Rightarrow> []);
          body = request_head (chan s r) (ascii ''pty-req'')
            @ libssh2_htonu32 (of_nat trm_len) @ opt trm trm_len
            @ libssh2_htonu32 width @ libssh2_htonu32 height @ libssh2_htonu32 width_px @ libssh2_htonu32 height_px
            @ libssh2_htonu32 (of_nat modes_len) @ opt modes modes_len
      in channel_request fuel env r (body @ map (e_junk env) [length body..<trm_len + modes_len + 41])
           ''Unable to allocate memory for pty-request''
           ''Unable to send pty-request packet''
           ''Unable to complete request for channel request-pty'' s)"

text \<open>
  The cookie: \<^verbatim>\<open>_snprintf\<close> with a limit of two stores the first two characters of the number in
  hexadecimal.  The bytes are of type \<^verbatim>\<open>char\<close>, so one from 128 on is printed as \<^verbatim>\<open>FFFFFFxx\<close>.
\<close>

definition hex_digit :: "u8 \<Rightarrow> u8" where
  "hex_digit n = (if n < 10 then 48 + n else 55 + n)"

definition cookie_digits :: "u8 \<Rightarrow> bytes" where
  "cookie_digits b = (if b \<ge> 128 then ascii ''FF'' else [hex_digit (b div 16), hex_digit (b mod 16)])"

definition libssh2_channel_x11_req_ex ::
  "nat \<Rightarrow> 'x env \<Rightarrow> nat \<Rightarrow> bool \<Rightarrow> bytes option \<Rightarrow> bytes option \<Rightarrow> u32 \<Rightarrow> 'x session \<Rightarrow> (int \<times> 'x session) run" where
  "libssh2_channel_x11_req_ex fuel env r single_connection auth_proto auth_cookie screen_number s =
     (let proto = (case auth_proto of Some p \<Rightarrow> p | None \<Rightarrow> ascii ''MIT-MAGIC-COOKIE-1'');
          cookie = (case auth_cookie of
                      Some c \<Rightarrow> c
                    | None \<Rightarrow> concat (map (\<lambda>i. cookie_digits (e_rand env 0 i)) [0..<16]))
      in channel_request fuel env r
           (request_head (chan s r) (ascii ''x11-req'') @ [if single_connection then 0xFF else 0]
            @ libssh2_htonu32 (of_nat (length proto)) @ proto
            @ libssh2_htonu32 (of_nat (length cookie)) @ cookie @ libssh2_htonu32 screen_number)
           ''Unable to allocate memory for pty-request''
           ''Unable to send x11-req packet''
           ''Unable to complete request for channel x11-req'' s)"

definition libssh2_channel_process_startup ::
  "nat \<Rightarrow> 'x env \<Rightarrow> nat \<Rightarrow> bytes \<Rightarrow> bytes option \<Rightarrow> 'x session \<Rightarrow> (int \<times> 'x session) run" where
  "libssh2_channel_process_startup fuel env r request message s =
     channel_request fuel env r
       (request_head (chan s r) request
        @ (case message of Some m \<Rightarrow> libssh2_htonu32 (of_nat (length m)) @ m | None \<Rightarrow> []))
       ''Unable to allocate memory for channel-process request''
       ''Unable to send channel request''
       ''Unable to complete request for channel-process-startup'' s"

definition libssh2_channel_set_blocking :: "nat \<Rightarrow> bool \<Rightarrow> 'x session \<Rightarrow> 'x session" where
  "libssh2_channel_set_blocking r b s = upd_chan r (\<lambda>c. c\<lparr>blocking := b\<rparr>) s"

definition libssh2_channel_get_exit_status :: "nat \<Rightarrow> 'x session \<Rightarrow> u32" where
  "libssh2_channel_get_exit_status r s = exit_status (chan s r)"

section \<open>Flushing\<close>

text \<open>\<^verbatim>\<open>LIBSSH2_CHANNEL_FLUSH_EXTENDED_DATA\<close> is -1 and \<^verbatim>\<open>LIBSSH2_CHANNEL_FLUSH_ALL\<close> is -2.\<close>

definition flush_wanted :: "u32 \<Rightarrow> int \<Rightarrow> packet \<Rightarrow> bool run" where
  "flush_wanted cid streamid p =
     sbind (rd8 (pk_data p) 0) (\<lambda>t.
     if t \<noteq> SSH_MSG_CHANNEL_DATA \<and> t \<noteq> SSH_MSG_CHANNEL_EXTENDED_DATA then Inr False
     else sbind (rd32 (pk_data p) 1) (\<lambda>i.
       if i \<noteq> cid then Inr False
       else sbind (if t = SSH_MSG_CHANNEL_DATA then Inr 0 else rd32 (pk_data p) 5) (\<lambda>packet_stream_id.
         Inr (streamid = -2
              \<or> t = SSH_MSG_CHANNEL_EXTENDED_DATA \<and> (streamid = -1 \<or> word_of_int streamid = packet_stream_id)
              \<or> t = SSH_MSG_CHANNEL_DATA \<and> streamid = 0))))"

text \<open>The packets that stay, the bytes to refund and the bytes flushed.\<close>

fun flush_scan :: "u32 \<Rightarrow> int \<Rightarrow> packet list \<Rightarrow> (packet list \<times> u32 \<times> u32) run" where
  "flush_scan cid streamid [] = Inr ([], 0, 0)"
| "flush_scan cid streamid (p # ps) =
     sbind (flush_wanted cid streamid p) (\<lambda>b.
     sbind (flush_scan cid streamid ps) (\<lambda>(rest, refund, flushed).
     if b then Inr (rest, (pk_len p - 13) + refund, (pk_len p - pk_head p) + flushed)
     else Inr (p # rest, refund, flushed)))"

definition libssh2_channel_flush_ex :: "'x env \<Rightarrow> nat \<Rightarrow> int \<Rightarrow> 'x session \<Rightarrow> (int \<times> 'x session) run" where
  "libssh2_channel_flush_ex env r streamid s =
     sbind (flush_scan (cd_id (ch_local (chan s r))) streamid (packets s)) (\<lambda>(rest, refund_bytes, flush_bytes).
     let s = s\<lparr>packets := rest\<rparr>
     in if refund_bytes \<noteq> 0
        then sbind (libssh2_channel_receive_window_adjust env r refund_bytes False s) (\<lambda>(w, s). Inr (sint flush_bytes, s))
        else Inr (sint flush_bytes, s))"

definition libssh2_channel_handle_extended_data :: "'x env \<Rightarrow> nat \<Rightarrow> ext_mode \<Rightarrow> 'x session \<Rightarrow> 'x session run" where
  "libssh2_channel_handle_extended_data env r ignore_mode s =
     (let s = upd_remote r (\<lambda>d. d\<lparr>ext_data_mode := ignore_mode\<rparr>) s
      in if ignore_mode = EXTENDED_DATA_IGNORE
         then sbind (libssh2_channel_flush_ex env r (-1) s) (\<lambda>(n, s). Inr s)
         else Inr s)"

section \<open>Reading\<close>

text \<open>Does a queued packet belong to the stream that is read?\<close>

definition read_wanted :: "channel \<Rightarrow> u32 \<Rightarrow> packet \<Rightarrow> bool run" where
  "read_wanted c stream_id p =
     sbind (rd8 (pk_data p) 0) (\<lambda>t.
     if stream_id \<noteq> 0 then
       (if t \<noteq> SSH_MSG_CHANNEL_EXTENDED_DATA then Inr False
        else sbind (rd32 (pk_data p) 1) (\<lambda>i.
          if cd_id (ch_local c) \<noteq> i then Inr False
          else sbind (rd32 (pk_data p) 5) (\<lambda>st. Inr (stream_id = st))))
     else if t = SSH_MSG_CHANNEL_DATA then
       sbind (rd32 (pk_data p) 1) (\<lambda>i. Inr (cd_id (ch_local c) = i))
     else if t = SSH_MSG_CHANNEL_EXTENDED_DATA then
       sbind (rd32 (pk_data p) 1) (\<lambda>i. Inr (cd_id (ch_local c) = i \<and> ext_data_mode (ch_remote c) = EXTENDED_DATA_MERGE))
     else Inr False)"

text \<open>
  The inner loop: the packets that stay in the queue, the bytes read and the session, whose window
  is adjusted for every packet that was used up.
\<close>

fun read_scan ::
  "'x env \<Rightarrow> nat \<Rightarrow> u32 \<Rightarrow> u32 \<Rightarrow> bytes \<Rightarrow> packet list \<Rightarrow> 'x session \<Rightarrow> (packet list \<times> bytes \<times> 'x session) run" where
  "read_scan env r stream_id buflen got [] s = Inr ([], got, s)"
| "read_scan env r stream_id buflen got (p # ps) s =
     (if of_nat (length got) \<ge> buflen then Inr (p # ps, got, s)
      else sbind (read_wanted (chan s r) stream_id p) (\<lambda>b.
        if \<not> b then sbind (read_scan env r stream_id buflen got ps s) (\<lambda>(rest, got, s). Inr (p # rest, got, s))
        else
          let want = buflen - of_nat (length got);
              avail = pk_len p - pk_head p
          in if want \<ge> avail then
               sbind (rdn (pk_data p) (uint (pk_head p)) (unat avail)) (\<lambda>d.
               sbind (libssh2_channel_receive_window_adjust env r (pk_len p - (if stream_id \<noteq> 0 then 13 else 9)) False s) (\<lambda>(w, s).
               read_scan env r stream_id buflen (got @ d) ps s))
             else
               sbind (rdn (pk_data p) (uint (pk_head p)) (unat want)) (\<lambda>d.
               sbind (read_scan env r stream_id buflen (got @ d) ps s) (\<lambda>(rest, got, s).
               Inr (p\<lparr>pk_head := pk_head p + want\<rparr> # rest, got, s)))))"

fun read_loop :: "nat \<Rightarrow> 'x env \<Rightarrow> nat \<Rightarrow> u32 \<Rightarrow> u32 \<Rightarrow> bool \<Rightarrow> 'x session \<Rightarrow> (bytes \<times> 'x session) run" where
  "read_loop 0 env r stream_id buflen blocking_read s = Inl Never_Returns"
| "read_loop (Suc fuel) env r stream_id buflen blocking_read s =
     sbind (pump (Suc fuel) env blocking_read s) (\<lambda>s.
     sbind (read_scan env r stream_id buflen [] (packets s) s) (\<lambda>(rest, got, s).
     let s = s\<lparr>packets := rest\<rparr>
     in if blocking (chan s r) \<and> got = [] \<and> \<not> cd_close (ch_remote (chan s r))
        then read_loop fuel env r stream_id buflen True s
        else Inr (got, s)))"

text \<open>The result is the data that the buffer holds afterwards; its length is what the function returns.\<close>

definition libssh2_channel_read_ex :: "nat \<Rightarrow> 'x env \<Rightarrow> nat \<Rightarrow> u32 \<Rightarrow> u32 \<Rightarrow> 'x session \<Rightarrow> (bytes \<times> 'x session) run" where
  "libssh2_channel_read_ex fuel env r stream_id buflen s =
     sbind (read_loop fuel env r stream_id buflen False s) (\<lambda>(got, s).
     Inr (got, if blocking (chan s r) \<and> got = []
               then libssh2_error ERROR_CHANNEL_CLOSED ''Remote end has closed this channel'' s else s))"

section \<open>Writing\<close>

text \<open>\<open>False\<close> when a read failed while the function waited for the window to open.\<close>

fun wait_window :: "nat \<Rightarrow> 'x env \<Rightarrow> nat \<Rightarrow> 'x session \<Rightarrow> (bool \<times> 'x session) run" where
  "wait_window 0 env r s = Inl Never_Returns"
| "wait_window (Suc fuel) env r s =
     (if window_size (ch_local (chan s r)) \<noteq> 0 then Inr (True, s)
      else sbind (libssh2_packet_read env True s) (\<lambda>(rc, s).
        if rc < 0 then Inr (False, s) else wait_window fuel env r s))"

definition data_packet :: "u32 \<Rightarrow> u32 \<Rightarrow> bytes \<Rightarrow> bytes" where
  "data_packet remote_id stream_id chunk =
     (if stream_id \<noteq> 0 then SSH_MSG_CHANNEL_EXTENDED_DATA else SSH_MSG_CHANNEL_DATA)
       # libssh2_htonu32 remote_id @ (if stream_id \<noteq> 0 then libssh2_htonu32 stream_id else [])
       @ libssh2_htonu32 (of_nat (length chunk)) @ chunk"

text \<open>The number of bytes of the next packet: no more than the window and the packet size allow.\<close>

definition bufwrite_for :: "nat \<Rightarrow> channel_data \<Rightarrow> nat" where
  "bufwrite_for buflen d =
     (let bufwrite = (if buflen > unat (window_size d) then unat (window_size d) else buflen)
      in if bufwrite > unat (packet_size d) then unat (packet_size d) else bufwrite)"

fun write_loop :: "nat \<Rightarrow> 'x env \<Rightarrow> nat \<Rightarrow> u32 \<Rightarrow> bytes \<Rightarrow> nat \<Rightarrow> 'x session \<Rightarrow> (int \<times> 'x session) run" where
  "write_loop 0 env r stream_id buf bufwrote s = Inl Never_Returns"
| "write_loop (Suc fuel) env r stream_id buf bufwrote s =
     (if buf = [] then Inr (int bufwrote, s)
      else
        let remote_id = cd_id (ch_remote (chan s r))
        in sbind (wait_window (Suc fuel) env r s) (\<lambda>(ok, s).
           if \<not> ok then Inr (-1, s)
           else
             let bufwrite = bufwrite_for (length buf) (ch_local (chan s r))
             in sbind (libssh2_packet_write env (data_packet remote_id stream_id (take bufwrite buf)) s) (\<lambda>(rc, s).
                if rc \<noteq> 0 then Inr (-1, libssh2_error ERROR_SOCKET_SEND ''Unable to send channel data'' s)
                else
                  let s = upd_local r (\<lambda>d. d\<lparr>window_size := window_size d - of_nat bufwrite\<rparr>) s
                  in if \<not> blocking (chan s r) then Inr (int (bufwrote + bufwrite), s)
                     else write_loop fuel env r stream_id (drop bufwrite buf) (bufwrote + bufwrite) s)))"

definition libssh2_channel_write_ex :: "nat \<Rightarrow> 'x env \<Rightarrow> nat \<Rightarrow> u32 \<Rightarrow> bytes \<Rightarrow> 'x session \<Rightarrow> (int \<times> 'x session) run" where
  "libssh2_channel_write_ex fuel env r stream_id buf s =
     (if cd_close (ch_local (chan s r)) then
        Inr (-1, libssh2_error ERROR_CHANNEL_CLOSED ''We've already closed this channel'' s)
      else
        let s = (if cd_eof (ch_local (chan s r))
                 then libssh2_error ERROR_CHANNEL_EOF_SENT ''EOF has already been sight, data might be ignored'' s else s)
        in if \<not> blocking (chan s r) \<and> window_size (ch_local (chan s r)) = 0 then Inr (0, s)
           else
             let (ok, s) = libssh2_alloc s
             in if \<not> ok then Inr (-1, libssh2_error ERROR_ALLOC ''Unable to allocte space for data transmission packet'' s)
                else write_loop fuel env r stream_id buf 0 s)"

section \<open>End of file and closing\<close>

definition libssh2_channel_send_eof :: "'x env \<Rightarrow> nat \<Rightarrow> 'x session \<Rightarrow> (int \<times> 'x session) run" where
  "libssh2_channel_send_eof env r s =
     sbind (libssh2_packet_write env (SSH_MSG_CHANNEL_EOF # libssh2_htonu32 (cd_id (ch_remote (chan s r)))) s) (\<lambda>(rc, s).
     if rc \<noteq> 0 then Inr (-1, libssh2_error ERROR_SOCKET_SEND ''Unable to send EOF on channel'' s)
     else Inr (0, upd_local r (\<lambda>d. d\<lparr>cd_eof := True\<rparr>) s))"

definition has_data :: "u32 \<Rightarrow> packet \<Rightarrow> bool run" where
  "has_data cid p =
     sbind (rd8 (pk_data p) 0) (\<lambda>t.
     if t = SSH_MSG_CHANNEL_DATA \<or> t = SSH_MSG_CHANNEL_EXTENDED_DATA
     then sbind (rd32 (pk_data p) 1) (\<lambda>i. Inr (i = cid)) else Inr False)"

fun any_data :: "u32 \<Rightarrow> packet list \<Rightarrow> bool run" where
  "any_data cid [] = Inr False"
| "any_data cid (p # ps) = sbind (has_data cid p) (\<lambda>b. if b then Inr True else any_data cid ps)"

definition libssh2_channel_eof :: "nat \<Rightarrow> 'x session \<Rightarrow> bool run" where
  "libssh2_channel_eof r s =
     sbind (any_data (cd_id (ch_local (chan s r))) (packets s)) (\<lambda>b.
     Inr (\<not> b \<and> cd_eof (ch_remote (chan s r))))"

definition libssh2_channel_close :: "'x env \<Rightarrow> nat \<Rightarrow> 'x session \<Rightarrow> (int \<times> 'x session) run" where
  "libssh2_channel_close env r s =
     (if cd_close (ch_local (chan s r)) then Inr (0, s)
      else
        let s = (if close_cb (chan s r) then e_close env s r else s);
            s = upd_local r (\<lambda>d. d\<lparr>cd_close := True\<rparr>) s
        in sbind (libssh2_packet_write env (SSH_MSG_CHANNEL_CLOSE # libssh2_htonu32 (cd_id (ch_remote (chan s r)))) s) (\<lambda>(rc, s).
           if rc \<noteq> 0 then Inr (-1, libssh2_error ERROR_SOCKET_SEND ''Unable to send close-channel request'' s)
           else Inr (0, s)))"

fun libssh2_channel_wait_closed :: "nat \<Rightarrow> 'x env \<Rightarrow> nat \<Rightarrow> 'x session \<Rightarrow> 'x session run" where
  "libssh2_channel_wait_closed 0 env r s = Inl Never_Returns"
| "libssh2_channel_wait_closed (Suc fuel) env r s =
     (if cd_close (ch_remote (chan s r)) then Inr s
      else sbind (libssh2_packet_read env True s) (\<lambda>(rc, s).
        if rc > 0 then libssh2_channel_wait_closed fuel env r s else Inr s))"

text \<open>Closing, if that is still to be done, and throwing away what is queued for the channel.\<close>

definition free_begin :: "nat \<Rightarrow> 'x env \<Rightarrow> nat \<Rightarrow> 'x session \<Rightarrow> (bool \<times> 'x session) run" where
  "free_begin fuel env r s =
     sbind (if \<not> cd_close (ch_local (chan s r)) \<and> sock_state s = SOCKET_CONNECTED
            then libssh2_channel_close env r s else Inr (0, s)) (\<lambda>(rc, s).
     if rc \<noteq> 0 then Inr (False, s)
     else sbind (drop_channel_packets fuel env (cd_id (ch_local (chan s r))) s) (\<lambda>s. Inr (True, s)))"

text \<open>Of a channel in the list of the session.\<close>

definition libssh2_channel_free :: "nat \<Rightarrow> 'x env \<Rightarrow> nat \<Rightarrow> 'x session \<Rightarrow> (int \<times> 'x session) run" where
  "libssh2_channel_free fuel env r s =
     sbind (free_begin fuel env r s) (\<lambda>(ok, s).
     if \<not> ok then Inr (-1, s) else Inr (0, s\<lparr>channels := remove1 r (channels s)\<rparr>))"

text \<open>
  Of the channels in the queue of a listener, whose links are those of the queue: without a
  predecessor, the head of the list of the session becomes the next channel of the queue.  That
  keeps the lists intact only if the session has no other channel, and if none is opened and no
  connection is queued for the listener while the packets of the freed channels are looked for.
\<close>

definition queue_of :: "nat \<Rightarrow> 'x session \<Rightarrow> nat list option" where
  "queue_of lr s = map_option l_queue (find (\<lambda>l. l_ref l = lr) (listeners s))"

fun free_queue :: "nat \<Rightarrow> 'x env \<Rightarrow> nat \<Rightarrow> nat list \<Rightarrow> 'x session \<Rightarrow> 'x session run" where
  "free_queue fuel env lr [] s = Inr s"
| "free_queue fuel env lr (r # q) s =
     (let cs = channels s; lq = queue_of lr s
      in sbind (free_begin fuel env r s) (\<lambda>(ok, s).
         if \<not> ok \<or> channels s \<noteq> cs \<or> queue_of lr s \<noteq> lq then Inl Broken_List
         else free_queue fuel env lr q (s\<lparr>channels := q\<rparr>)))"

definition libssh2_channel_forward_cancel :: "nat \<Rightarrow> 'x env \<Rightarrow> nat \<Rightarrow> 'x session \<Rightarrow> (int \<times> 'x session) run" where
  "libssh2_channel_forward_cancel fuel env lr s =
     (case find (\<lambda>l. l_ref l = lr) (listeners s) of
        None \<Rightarrow> Inl Undefined
      | Some l \<Rightarrow>
          let queued = l_queue l;
              (ok, s) = libssh2_alloc s
          in if \<not> ok then Inr (-1, libssh2_error ERROR_ALLOC ''Unable to allocate memeory for setenv packet'' s)
             else sbind (libssh2_packet_write env (global_forward ''cancel-tcpip-forward'' 0 (l_host l) (l_port l)) s) (\<lambda>(rc, s).
               if rc \<noteq> 0 then
                 Inr (-1, libssh2_error ERROR_SOCKET_SEND ''Unable to send global-request packet for forward listen request'' s)
               else if queued \<noteq> [] \<and> channels s \<noteq> [] then Inl Broken_List
               else sbind (free_queue fuel env lr queued s) (\<lambda>s.
                 Inr (0, s\<lparr>listeners := filter (\<lambda>l. l_ref l \<noteq> lr) (listeners s)\<rparr>))))"

section \<open>The windows\<close>

fun bytes_queued :: "u32 \<Rightarrow> packet list \<Rightarrow> u32 run" where
  "bytes_queued cid [] = Inr 0"
| "bytes_queued cid (p # ps) =
     sbind (has_data cid p) (\<lambda>b.
     sbind (bytes_queued cid ps) (\<lambda>n. Inr (if b then (pk_len p - pk_head p) + n else n)))"

text \<open>The window, the bytes available and the initial window.\<close>

definition libssh2_channel_window_read_ex :: "nat \<Rightarrow> 'x session \<Rightarrow> (u32 \<times> u32 \<times> u32) run" where
  "libssh2_channel_window_read_ex r s =
     sbind (bytes_queued (cd_id (ch_local (chan s r))) (packets s)) (\<lambda>n.
     Inr (window_size (ch_remote (chan s r)), n, window_size_initial (ch_remote (chan s r))))"

definition libssh2_channel_window_write_ex :: "nat \<Rightarrow> 'x session \<Rightarrow> u32 \<times> u32" where
  "libssh2_channel_window_write_ex r s =
     (window_size (ch_local (chan s r)), window_size_initial (ch_local (chan s r)))"

section \<open>What reading depends on\<close>

text \<open>The bytes of a packet that were not read yet, and those of a stream of a channel in a queue.\<close>

definition pk_rest :: "packet \<Rightarrow> bytes" where
  "pk_rest p = take (unat (pk_len p - pk_head p)) (drop (unat (pk_head p)) (pk_data p))"

definition stream_bytes :: "channel \<Rightarrow> u32 \<Rightarrow> packet list \<Rightarrow> bytes" where
  "stream_bytes c stream_id ps = concat (map (\<lambda>p. if read_wanted c stream_id p = Inr True then pk_rest p else []) ps)"

definition unread :: "packet list \<Rightarrow> bool" where
  "unread ps \<longleftrightarrow> list_all (\<lambda>p. pk_head p \<le> pk_len p) ps"

text \<open>The identifier and the mode of a channel.\<close>

definition ch_key :: "channel \<Rightarrow> u32 \<times> ext_mode" where
  "ch_key c = (cd_id (ch_local c), ext_data_mode (ch_remote c))"

lemma read_wanted_key: "ch_key c' = ch_key c \<Longrightarrow> read_wanted c' = read_wanted c"
  by (intro ext) (simp add: ch_key_def read_wanted_def cong: if_cong)

lemma stream_bytes_key: "ch_key c' = ch_key c \<Longrightarrow> stream_bytes c' = stream_bytes c"
  by (intro ext) (simp only: stream_bytes_def read_wanted_key[of c' c])

lemma stream_bytes_simps [simp]:
  "stream_bytes c st [] = []"
  "stream_bytes c st (p # ps) = (if read_wanted c st p = Inr True then pk_rest p else []) @ stream_bytes c st ps"
  "stream_bytes c st (ps @ qs) = stream_bytes c st ps @ stream_bytes c st qs"
  by (simp_all add: stream_bytes_def)

lemma unread_simps [simp]:
  "unread []" "unread (p # ps) \<longleftrightarrow> pk_head p \<le> pk_len p \<and> unread ps" "unread (ps @ qs) \<longleftrightarrow> unread ps \<and> unread qs"
  by (simp_all add: unread_def)

lemma rdn_uint:
  assumes "rdn d (uint k) n = Inr x"
  shows "unat k + n \<le> length d" and "x = take n (drop (unat k) d)" and "length x = n"
proof -
  have k: "uint k = int (unat k)" by (rule uint_nat)
  from assms have "uint k + int n \<le> int (length d)" by (simp add: rdn_def split: if_splits)
  then show le: "unat k + n \<le> length d" using k by linarith
  from assms show x: "x = take n (drop (unat k) d)" by (simp add: rdn_def split: if_splits)
  from le x show "length x = n" by simp
qed

lemma read_wanted_head [simp]: "read_wanted c st (p\<lparr>pk_head := h\<rparr>) = read_wanted c st p"
  by (simp add: read_wanted_def cong: if_cong)

text \<open>Reading part of a packet.\<close>

lemma pk_rest_split:
  assumes "pk_head p \<le> pk_len p" and "w < pk_len p - pk_head p"
    and "rdn (pk_data p) (uint (pk_head p)) (unat w) = Inr d"
  shows "pk_rest p = d @ pk_rest (p\<lparr>pk_head := pk_head p + w\<rparr>)" and "length d = unat w"
    and "pk_head p + w \<le> pk_len p"
proof -
  let ?h = "unat (pk_head p)" and ?l = "unat (pk_len p)"
  have a: "unat (pk_len p - pk_head p) = ?l - ?h" using assms(1) by (simp add: unat_sub)
  have w: "unat w < ?l - ?h" using assms(2) by (simp add: word_less_nat_alt a)
  have hw: "unat (pk_head p + w) = ?h + unat w"
  proof -
    have "?l < 2 ^ LENGTH(32)" by (rule unsigned_less)
    then have "?h + unat w < 2 ^ 32" using w by simp
    then show ?thesis by (subst unat_add_lem[THEN iffD1]) simp_all
  qed
  then show le: "pk_head p + w \<le> pk_len p" using w by (simp add: word_le_nat_alt)
  note d = rdn_uint(2,3)[OF assms(3)]
  then show "length d = unat w" by simp
  have "unat (pk_len p - (pk_head p + w)) = ?l - ?h - unat w"
    using le hw w by (simp add: unat_sub)
  then show "pk_rest p = d @ pk_rest (p\<lparr>pk_head := pk_head p + w\<rparr>)"
    unfolding pk_rest_def a d(1) using w take_add[of "unat w" "?l - ?h - unat w" "drop ?h (pk_data p)"]
    by (simp add: hw add.commute[of "unat w"])
qed

lemma pk_rest_all:
  assumes "rdn (pk_data p) (uint (pk_head p)) (unat (pk_len p - pk_head p)) = Inr d"
  shows "pk_rest p = d" and "length d = unat (pk_len p - pk_head p)"
  using rdn_uint(2,3)[OF assms] by (simp_all add: pk_rest_def)

section \<open>One pass over the queue\<close>

lemma window_adjust_key:
  assumes "libssh2_channel_receive_window_adjust env r n force s = Inr (w, s')"
  shows "ch_key (chan s' r) = ch_key (chan s r)" and "blocking (chan s' r) = blocking (chan s r)"
    and "cd_close (ch_remote (chan s' r)) = cd_close (ch_remote (chan s r))"
  using window_adjust_effect[OF assms] by (auto simp: ch_key_def)

text \<open>
  A pass of \<^verbatim>\<open>libssh2_channel_read_ex\<close> takes a prefix of the bytes of the stream, as long as the buffer
  allows, and leaves the packets of everybody else alone.
\<close>

lemma read_scan_stream:
  fixes env :: "'x env"
  assumes "read_scan env r st n got ps s = Inr (rest, got', s')" and "unread ps" and "length got \<le> unat n"
    and "c = chan s r"
  shows "\<exists>new. got' = got @ new \<and> stream_bytes c st ps = new @ stream_bytes c st rest
    \<and> length got' \<le> unat n \<and> (length got' < unat n \<longrightarrow> stream_bytes c st rest = [])
    \<and> filter (\<lambda>p. read_wanted c st p \<noteq> Inr True) rest = filter (\<lambda>p. read_wanted c st p \<noteq> Inr True) ps
    \<and> unread rest \<and> ch_key (chan s' r) = ch_key c \<and> blocking (chan s' r) = blocking c
    \<and> cd_close (ch_remote (chan s' r)) = cd_close (ch_remote c)"
  using assms
proof (induction ps arbitrary: got rest s c)
  case Nil
  then show ?case by auto
next
  case (Cons p ps)
  have un: "unat (of_nat (length got) :: u32) = length got"
  proof -
    have "unat n < 2 ^ LENGTH(32)" by (rule unsigned_less)
    with Cons.prems(3) show ?thesis unfolding unat_of_nat by simp
  qed
  show ?case
  proof (cases "of_nat (length got) \<ge> n")
    case True
    with Cons.prems un show ?thesis by (auto simp: word_le_nat_alt)
  next
    case more: False
    then have lt: "length got < unat n" using un by (simp add: word_le_nat_alt)
    from Cons.prems(1) more obtain b where b: "read_wanted (chan s r) st p = Inr b"
      by (cases "read_wanted (chan s r) st p") auto
    show ?thesis
    proof (cases b)
      case False
      with Cons.prems(1) more b obtain rest1 where
        rs: "read_scan env r st n got ps s = Inr (rest1, got', s')" and r: "rest = p # rest1"
        by (auto simp: sbind_eq_Inr)
      from Cons.IH[OF rs _ Cons.prems(3,4)] Cons.prems(2) b False r show ?thesis by (auto simp: Cons.prems(4))
    next
      case True
      let ?want = "n - of_nat (length got) :: u32" and ?avail = "pk_len p - pk_head p"
      have wn: "unat ?want = unat n - length got" using more un by (simp add: unat_sub)
      show ?thesis
      proof (cases "?want \<ge> ?avail")
        case all: True
        with Cons.prems(1) more b True obtain d w s1 where
          d: "rdn (pk_data p) (uint (pk_head p)) (unat ?avail) = Inr d"
          and wa: "libssh2_channel_receive_window_adjust env r (pk_len p - (if st \<noteq> 0 then 13 else 9)) False s = Inr (w, s1)"
          and rs: "read_scan env r st n (got @ d) ps s1 = Inr (rest, got', s')"
          by (auto simp: Let_def sbind_eq_Inr)
        note k = window_adjust_key[OF wa]
        note pr = pk_rest_all[OF d]
        have "length (got @ d) \<le> unat n" using pr(2) all wn lt by (simp add: word_le_nat_alt)
        from Cons.IH[OF rs _ this refl] Cons.prems(2) b True pr(1) k show ?thesis
          by (auto simp: Cons.prems(4) stream_bytes_key[OF k(1)] read_wanted_key[OF k(1)])
      next
        case part: False
        with Cons.prems(1) more b True obtain d rest1 where
          d: "rdn (pk_data p) (uint (pk_head p)) (unat ?want) = Inr d"
          and rs: "read_scan env r st n (got @ d) ps s = Inr (rest1, got', s')"
          and r: "rest = p\<lparr>pk_head := pk_head p + ?want\<rparr> # rest1"
          by (auto simp: Let_def sbind_eq_Inr)
        have hp: "pk_head p \<le> pk_len p" "?want < ?avail" using Cons.prems(2) part by auto
        note sp = pk_rest_split[OF hp d]
        have ln: "length (got @ d) = unat n" using sp(2) wn lt by simp
        have full: "of_nat (length (got @ d)) \<ge> n" unfolding ln by simp
        have "rest1 = ps \<and> got' = got @ d \<and> s' = s" using rs full by (cases ps) auto
        with r sp b True ln Cons.prems(2) show ?thesis by (auto simp: Cons.prems(4))
      qed
    qed
  qed
qed

lemma read_scan_key:
  "read_scan env r st n got ps s = Inr (rest, got', s') \<Longrightarrow> ch_key (chan s' r) = ch_key (chan s r)"
  by (induction ps arbitrary: got rest s)
    (auto simp: Let_def sbind_eq_Inr split: if_splits dest!: window_adjust_key(1))

section \<open>The account of the receive window\<close>

text \<open>
  What a queued data packet was charged to the window when it came in, and what the channel has in
  its window, in the queue of adjustments and in packets still to be read.
\<close>

definition charge :: "packet \<Rightarrow> u32" where
  "charge p = pk_len p - (if pk_data p ! 0 = SSH_MSG_CHANNEL_EXTENDED_DATA then 13 else 9)"

definition window_account :: "nat \<Rightarrow> u32 \<Rightarrow> packet list \<Rightarrow> 'x session \<Rightarrow> u32" where
  "window_account r st ps s = window_size (ch_remote (chan s r)) + adjust_queue (chan s r)
     + sum_list (map charge (filter (\<lambda>p. read_wanted (chan s r) st p = Inr True) ps))"

lemma rd8_0: "rd8 d 0 = Inr t \<Longrightarrow> d \<noteq> [] \<and> t = d ! 0"
  by (auto simp: rd8_def split: if_splits)

lemma read_wanted_charge:
  assumes "read_wanted c st p = Inr True" and "st \<noteq> 0 \<or> ext_data_mode (ch_remote c) \<noteq> EXTENDED_DATA_MERGE"
  shows "charge p = pk_len p - (if st \<noteq> 0 then 13 else 9)"
  using assms unfolding read_wanted_def charge_def
  by (auto simp: sbind_eq_Inr split: if_splits dest!: rd8_0)

lemma charge_head [simp]: "charge (p\<lparr>pk_head := h\<rparr>) = charge p"
  by (simp add: charge_def)

lemma window_account_simps:
  "window_account r st (p # ps) s =
     (if read_wanted (chan s r) st p = Inr True then charge p else 0) + window_account r st ps s"
  by (simp add: window_account_def)

lemma window_account_adjust:
  assumes "libssh2_channel_receive_window_adjust env r n force s = Inr (w, s')"
  shows "window_account r st ps s' = n + window_account r st ps s"
proof -
  note k = window_adjust_key(1)[OF assms]
  from window_adjust_effect[OF assms] obtain q where
    "chan s' = (chan s)(r := (chan s r)\<lparr>adjust_queue := q, ch_remote := (ch_remote (chan s r))\<lparr>window_size := w\<rparr>\<rparr>)"
    and q: "w + q = window_size (ch_remote (chan s r)) + adjust_queue (chan s r) + n" by blast
  then have "window_size (ch_remote (chan s' r)) + adjust_queue (chan s' r)
      = window_size (ch_remote (chan s r)) + adjust_queue (chan s r) + n" by simp
  then show ?thesis by (simp add: window_account_def read_wanted_key[OF k])
qed

lemma read_scan_account:
  assumes "read_scan env r st n got ps s = Inr (rest, got', s')"
    and "st \<noteq> 0 \<or> ext_data_mode (ch_remote (chan s r)) \<noteq> EXTENDED_DATA_MERGE"
  shows "window_account r st rest s' = window_account r st ps s"
  using assms
proof (induction ps arbitrary: got rest s)
  case Nil
  then show ?case by auto
next
  case (Cons p ps)
  show ?case
  proof (cases "of_nat (length got) \<ge> n")
    case True
    with Cons.prems show ?thesis by auto
  next
    case more: False
    with Cons.prems(1) obtain b where b: "read_wanted (chan s r) st p = Inr b"
      by (cases "read_wanted (chan s r) st p") auto
    let ?want = "n - of_nat (length got) :: u32" and ?avail = "pk_len p - pk_head p"
    consider (other) "\<not> b" | (all) b "?want \<ge> ?avail" | (part) b "\<not> ?want \<ge> ?avail" by blast
    then show ?thesis
    proof cases
      case other
      with Cons.prems(1) more b obtain rest1 where
        rs: "read_scan env r st n got ps s = Inr (rest1, got', s')" and r: "rest = p # rest1"
        by (auto simp: sbind_eq_Inr)
      note k = read_scan_key[OF rs]
      show ?thesis using Cons.IH[OF rs Cons.prems(2)] other b r
        by (simp add: window_account_simps read_wanted_key[OF k])
    next
      case all
      with Cons.prems(1) more b obtain d w s1 where
        wa: "libssh2_channel_receive_window_adjust env r (pk_len p - (if st \<noteq> 0 then 13 else 9)) False s = Inr (w, s1)"
        and rs: "read_scan env r st n (got @ d) ps s1 = Inr (rest, got', s')"
        by (auto simp: Let_def sbind_eq_Inr)
      have m: "st \<noteq> 0 \<or> ext_data_mode (ch_remote (chan s1 r)) \<noteq> EXTENDED_DATA_MERGE"
        using Cons.prems(2) window_adjust_key(1)[OF wa] by (simp add: ch_key_def)
      have "read_wanted (chan s r) st p = Inr True" using b all by simp
      then show ?thesis
        by (simp only: window_account_simps Cons.IH[OF rs m] window_account_adjust[OF wa]
            read_wanted_charge[OF _ Cons.prems(2)] if_True simp_thms)
    next
      case part
      with Cons.prems(1) more b obtain d rest1 where
        rs: "read_scan env r st n (got @ d) ps s = Inr (rest1, got', s')"
        and r: "rest = p\<lparr>pk_head := pk_head p + ?want\<rparr> # rest1"
        by (auto simp: Let_def sbind_eq_Inr)
      note k = read_scan_key[OF rs]
      show ?thesis using Cons.IH[OF rs Cons.prems(2)] b part r
        by (simp add: window_account_simps read_wanted_key[OF k])
    qed
  qed
qed

section \<open>A link that takes every packet\<close>

definition open_link :: "'x session \<Rightarrow> bool" where
  "open_link s \<longleftrightarrow> send_ok s = [] \<and> alloc_ok s = []
     \<and> (newkeys s \<longrightarrow> (\<exists>cm. ep_comp (ep_local s) = Some cm \<and> comp_none cm))"

lemma open_link_chan [simp]: "open_link (s\<lparr>chan := h\<rparr>) = open_link s"
  by (simp add: open_link_def newkeys_def)

lemma open_link_upd [simp]:
  "open_link (upd_chan r f s) = open_link s" "open_link (upd_local r g s) = open_link s"
  "open_link (upd_remote r g s) = open_link s" "open_link (s\<lparr>packets := ps\<rparr>) = open_link s"
  "open_link (libssh2_error c m s) = open_link s"
  by (simp_all add: upd_local_def upd_remote_def upd_chan_def open_link_def newkeys_def libssh2_error_def)

lemma packet_write_open:
  assumes "open_link s"
  obtains s' where "libssh2_packet_write env d s = Inr (0, s')" and "open_link s'" and "chan s' = chan s"
    and "\<forall>h. libssh2_packet_write env d (s\<lparr>chan := h\<rparr>) = Inr (0, s'\<lparr>chan := h\<rparr>)"
proof (cases "newkeys s")
  case False
  then have nk: "\<not> newkeys (s\<lparr>chan := h\<rparr>)" for h by (simp add: newkeys_def)
  let ?p = "padding_for 8 (of_nat (length d) + 1)"
  let ?b = "(libssh2_htonu32 (of_nat (length d) + 1 + ?p) @ [ucast ?p]) @ d @ map (e_junk env) [0..<unat ?p]"
  let ?s' = "s\<lparr>ep_local := (ep_local s)\<lparr>seqno := seqno (ep_local s) + 1\<rparr>, sent := sent s @ [?b]\<rparr>"
  have "libssh2_packet_write env d (s\<lparr>chan := h\<rparr>) = Inr (0, ?s'\<lparr>chan := h\<rparr>)" for h
    using nk[of h] assms
    by (simp add: libssh2_packet_write_def packet_send_def Let_def sock_send_def open_link_def)
  from this this[of "chan s"] show ?thesis
    by (intro that[of ?s']) (use False assms in \<open>simp_all add: open_link_def newkeys_def\<close>)
next
  case True
  then have nk: "newkeys (s\<lparr>chan := h\<rparr>)" for h by (simp add: newkeys_def)
  let ?lo = "ep_local s"
  let ?p = "padding_for (of_nat (blocksize (ep_crypt ?lo))) (of_nat (length d) + 1)"
  let ?b = "(libssh2_htonu32 (of_nat (length d) + 1 + ?p) @ [ucast ?p]) @ d @ map (e_rand env (seqno ?lo)) [0..<unat ?p]"
  obtain mac mx where m: "mac_hash (ep_mac ?lo) (mac_abstract ?lo) (seqno ?lo) ?b [] = (mac, mx)" by fastforce
  obtain enc cx where c: "crypt_blocks (crypt_fn (ep_crypt ?lo)) (blocksize (ep_crypt ?lo)) (crypt_abstract ?lo) ?b = (enc, cx)"
    by fastforce
  let ?s' = "s\<lparr>ep_local := ?lo\<lparr>mac_abstract := mx, crypt_abstract := cx, seqno := seqno ?lo + 1\<rparr>, sent := sent s @ [enc @ mac]\<rparr>"
  have "libssh2_packet_write env d (s\<lparr>chan := h\<rparr>) = Inr (0, ?s'\<lparr>chan := h\<rparr>)" for h
    using nk[of h] True assms m c
    by (auto simp: libssh2_packet_write_def packet_send_def Let_def sock_send_def open_link_def libssh2_alloc_def)
  from this this[of "chan s"] show ?thesis
    by (intro that[of ?s']) (use True assms in \<open>simp_all add: open_link_def newkeys_def\<close>)
qed

lemma window_adjust_open:
  assumes "open_link s"
  obtains w s' where "libssh2_channel_receive_window_adjust env r n force s = Inr (w, s')" and "open_link s'"
proof -
  let ?n = "n + adjust_queue (chan s r)"
  let ?d = "SSH_MSG_CHANNEL_WINDOW_ADJUST # libssh2_htonu32 (cd_id (ch_remote (chan s r))) @ libssh2_htonu32 ?n"
  have "open_link (upd_chan r (\<lambda>c. c\<lparr>adjust_queue := 0\<rparr>) s)" using assms by simp
  from packet_write_open[OF this, of env ?d] obtain s1 where
    "libssh2_packet_write env ?d (upd_chan r (\<lambda>c. c\<lparr>adjust_queue := 0\<rparr>) s) = Inr (0, s1)" "open_link s1" by metis
  note w = this
  show ?thesis
  proof (cases "(\<not> force \<and> ?n < LIBSSH2_CHANNEL_MINADJUST) \<or> n = 0 \<and> adjust_queue (chan s r) = 0")
    case True
    with assms show ?thesis
      by (intro that[of "window_size (ch_remote (chan s r))" "if \<not> force \<and> ?n < LIBSSH2_CHANNEL_MINADJUST
            then upd_chan r (\<lambda>c. c\<lparr>adjust_queue := adjust_queue c + n\<rparr>) s else s"])
        (auto simp: libssh2_channel_receive_window_adjust_def Let_def)
  next
    case False
    with w show ?thesis
      by (intro that[of "fst (window_adjust_sent r ?n 0 s1)" "snd (window_adjust_sent r ?n 0 s1)"])
        (auto simp: libssh2_channel_receive_window_adjust_def Let_def window_adjust_sent_def)
  qed
qed

text \<open>Packets as the packet layer queues them: not shorter than their headers and their length.\<close>

definition whole_packet :: "packet \<Rightarrow> bool" where
  "whole_packet p \<longleftrightarrow> pk_data p \<noteq> [] \<and> pk_head p \<le> pk_len p \<and> unat (pk_len p) \<le> length (pk_data p)
     \<and> (pk_data p ! 0 \<in> {SSH_MSG_CHANNEL_DATA, SSH_MSG_CHANNEL_EXTENDED_DATA} \<longrightarrow> 9 \<le> length (pk_data p))"

lemma whole_read_wanted: "whole_packet p \<Longrightarrow> \<exists>b. read_wanted c st p = Inr b"
  unfolding whole_packet_def read_wanted_def by (auto simp: rd8_def rd32_def)

lemma whole_rdn:
  assumes "whole_packet p" and "w \<le> pk_len p - pk_head p"
  shows "\<exists>d. rdn (pk_data p) (uint (pk_head p)) (unat w) = Inr d"
proof -
  have "unat w \<le> unat (pk_len p) - unat (pk_head p)"
    using assms by (simp add: whole_packet_def word_le_nat_alt unat_sub)
  moreover have "unat (pk_head p) \<le> unat (pk_len p)" using assms(1) by (simp add: whole_packet_def word_le_nat_alt)
  moreover have "unat (pk_len p) \<le> length (pk_data p)" using assms(1) by (simp add: whole_packet_def)
  ultimately have "unat (pk_head p) + unat w \<le> length (pk_data p)" by linarith
  then have "uint (pk_head p) + int (unat w) \<le> int (length (pk_data p))" using uint_nat[of "pk_head p"] by linarith
  then show ?thesis by (simp add: rdn_def)
qed

lemma whole_unread: "list_all whole_packet ps \<Longrightarrow> unread ps"
  by (auto simp: unread_def list_all_iff whole_packet_def)

lemma read_scan_returns:
  assumes "open_link s" and "list_all whole_packet ps"
  shows "\<exists>rest got' s'. read_scan env r st n got ps s = Inr (rest, got', s') \<and> open_link s'"
  using assms
proof (induction ps arbitrary: got s)
  case (Cons p ps)
  let ?want = "n - of_nat (length got) :: u32" and ?avail = "pk_len p - pk_head p"
  from Cons.prems have w: "whole_packet p" by simp
  obtain b where b: "read_wanted (chan s r) st p = Inr b" using whole_read_wanted[OF w] by blast
  obtain wn s1 where wa: "libssh2_channel_receive_window_adjust env r (pk_len p - (if st \<noteq> 0 then 13 else 9)) False s = Inr (wn, s1)"
    and s1: "open_link s1" by (rule window_adjust_open[OF Cons.prems(1)])
  obtain d where d: "rdn (pk_data p) (uint (pk_head p)) (unat ?avail) = Inr d" using whole_rdn[OF w order_refl] by blast
  have d': "\<exists>d. rdn (pk_data p) (uint (pk_head p)) (unat ?want) = Inr d" if "\<not> ?avail \<le> ?want"
    using whole_rdn[OF w] that by simp
  note IH = Cons.IH[OF Cons.prems(1), of got] Cons.IH[OF s1, of "got @ d"]
  show ?case
  proof (cases "n \<le> of_nat (length got) \<or> \<not> b \<or> ?avail \<le> ?want")
    case True
    with IH b wa d Cons.prems show ?thesis by (auto simp: Let_def)
  next
    case False
    then obtain e where "rdn (pk_data p) (uint (pk_head p)) (unat ?want) = Inr e" using d' by blast
    with False Cons.IH[OF Cons.prems(1), of "got @ e"] b Cons.prems(2) show ?thesis by (auto simp: Let_def)
  qed
qed auto

section \<open>Writing in pieces\<close>

text \<open>The pieces of a message, and the session after a list of packets was sent.\<close>

function pieces :: "nat \<Rightarrow> 'a list \<Rightarrow> 'a list list" where
  "pieces n b = (if n = 0 \<or> b = [] then [] else take n b # pieces n (drop n b))"
  by pat_completeness auto
termination
  by (relation "measure (\<lambda>(n, b). length b)") auto

declare pieces.simps [simp del]

lemma pieces_Nil [simp]: "pieces n [] = []"
  by (simp add: pieces.simps)

lemma concat_pieces: "0 < n \<Longrightarrow> concat (pieces n b) = b"
proof (induction n b rule: pieces.induct)
  case (1 n b)
  then show ?case by (cases "b = []") (simp_all add: pieces.simps[of n b])
qed

lemma pieces_size: "x \<in> set (pieces n b) \<Longrightarrow> x \<noteq> [] \<and> length x \<le> n"
proof (induction n b rule: pieces.induct)
  case (1 n b)
  then show ?case by (cases "n = 0 \<or> b = []") (auto simp: pieces.simps[of n b])
qed

fun sends :: "'x env \<Rightarrow> bytes list \<Rightarrow> 'x session \<Rightarrow> 'x session" where
  "sends env [] s = s"
| "sends env (p # ps) s = sends env ps (snd (projr (libssh2_packet_write env p s)))"

lemma sends_chan:
  assumes "open_link s"
  shows "sends env ps (s\<lparr>chan := h\<rparr>) = (sends env ps s)\<lparr>chan := h\<rparr> \<and> chan (sends env ps s) = chan s"
  using assms
proof (induction ps arbitrary: s)
  case (Cons p ps)
  obtain s' where "libssh2_packet_write env p s = Inr (0, s')" "open_link s'" "chan s' = chan s"
    "\<forall>h. libssh2_packet_write env p (s\<lparr>chan := h\<rparr>) = Inr (0, s'\<lparr>chan := h\<rparr>)"
    by (rule packet_write_open[OF Cons.prems, of env p])
  with Cons.IH[of s'] show ?case by simp
qed simp

definition charge_local :: "nat \<Rightarrow> nat \<Rightarrow> 'x session \<Rightarrow> 'x session" where
  "charge_local r n s = upd_local r (\<lambda>d. d\<lparr>window_size := window_size d - of_nat n\<rparr>) s"

lemma charge_local_0 [simp]: "charge_local r 0 s = s"
  by (simp add: charge_local_def upd_local_def upd_chan_def)

lemma charge_local_add: "charge_local r m (charge_local r n s) = charge_local r (n + m) s"
  by (simp add: charge_local_def upd_local_def upd_chan_def algebra_simps)

lemma charge_local_chan: "charge_local r n s = s\<lparr>chan := chan (charge_local r n s)\<rparr>"
  by (simp add: charge_local_def upd_local_def upd_chan_def)

lemma charge_local_sends:
  assumes "open_link s"
  shows "sends env ps (charge_local r n s) = charge_local r n (sends env ps s)"
proof -
  have "chan (charge_local r n (sends env ps s)) = chan (charge_local r n s)"
    using sends_chan[OF assms, of env ps] by (simp add: charge_local_def upd_local_def)
  with sends_chan[OF assms, of env ps] charge_local_chan[of r n s] charge_local_chan[of r n "sends env ps s"]
  show ?thesis by metis
qed

lemma charge_local_simps [simp]:
  "open_link (charge_local r n s) = open_link s"
  "ch_remote (chan (charge_local r n s) r) = ch_remote (chan s r)" "blocking (chan (charge_local r n s) r) = blocking (chan s r)"
  "ch_local (chan (charge_local r n s) r) = (ch_local (chan s r))\<lparr>window_size := window_size (ch_local (chan s r)) - of_nat n\<rparr>"
  by (simp_all add: charge_local_def upd_local_def)

lemma write_loop_pieces:
  fixes s :: "'x session"
  assumes "open_link s" and "blocking (chan s r)" and "length buf \<le> unat (window_size (ch_local (chan s r)))"
    and "packet_size (ch_local (chan s r)) = psize" and "psize \<noteq> 0" and "cd_id (ch_remote (chan s r)) = i" and "length buf < fuel"
  shows "write_loop fuel env r st buf k s
    = Inr (int (k + length buf), charge_local r (length buf) (sends env (map (data_packet i st) (pieces (unat psize) buf)) s))"
  using assms
proof (induction fuel arbitrary: buf k s)
  case (Suc fuel)
  let ?d = "ch_local (chan s r)"
  have ps: "0 < unat psize" using Suc.prems(5) by (simp add: unat_gt_0)
  show ?case
  proof (cases "buf = []")
    case False
    let ?n = "bufwrite_for (length buf) ?d"
    have n: "?n = min (length buf) (unat psize)"
      using Suc.prems(3,4) by (auto simp: bufwrite_for_def Let_def)
    then have n0: "0 < ?n" "?n \<le> length buf" using False ps by auto
    have tk: "take ?n buf = take (unat psize) buf" "drop ?n buf = drop (unat psize) buf" by (simp_all add: n min_def)
    have pc: "pieces (unat psize) buf = take (unat psize) buf # pieces (unat psize) (drop (unat psize) buf)"
      using False ps by (subst pieces.simps) simp
    have w0: "window_size ?d \<noteq> 0" using Suc.prems(3) False by auto
    let ?p = "data_packet i st (take (unat psize) buf)"
    obtain s1 where pw: "libssh2_packet_write env ?p s = Inr (0, s1)" and s1: "open_link s1" "chan s1 = chan s"
      by (rule packet_write_open[OF Suc.prems(1), of env ?p])
    have un: "unat (window_size ?d - of_nat ?n) = unat (window_size ?d) - ?n"
    proof -
      have "?n < 2 ^ 32" using n0 Suc.prems(3) unsigned_less[of "window_size ?d", where ?'a = nat] by simp
      then have "unat (of_nat ?n :: u32) = ?n" unfolding unat_of_nat by simp
      then show ?thesis using n0(2) Suc.prems(3) by (simp add: unat_sub word_le_nat_alt)
    qed
    have "write_loop fuel env r st (drop ?n buf) (k + ?n) (charge_local r ?n s1)
        = Inr (int (k + ?n + length (drop ?n buf)), charge_local r (length (drop ?n buf))
            (sends env (map (data_packet i st) (pieces (unat psize) (drop ?n buf))) (charge_local r ?n s1)))"
      by (rule Suc.IH) (use Suc.prems s1 n0 un in auto)
    also have "\<dots> = Inr (int (k + length buf), charge_local r (length buf)
            (sends env (map (data_packet i st) (pieces (unat psize) (drop ?n buf))) s1))"
      using n0 by (simp add: charge_local_sends[OF s1(1)] charge_local_add)
    finally have rest: "write_loop fuel env r st (drop ?n buf) (k + ?n) (charge_local r ?n s1) = \<dots>" .
    have "write_loop (Suc fuel) env r st buf k s = write_loop fuel env r st (drop ?n buf) (k + ?n) (charge_local r ?n s1)"
      using False w0 pw s1 Suc.prems(2,6) tk(1) by (simp add: Let_def flip: charge_local_def)
    then show ?thesis unfolding rest pc using tk(2) pw by simp
  qed simp
qed simp

section \<open>A channel as a pipe\<close>

text \<open>
  What the user of a channel relies on: bytes are put in at one end and taken out at the other,
  in any interleaving.  \<open>put\<close> and \<open>get\<close> may fail; when they succeed they keep an invariant and act
  as on a list of bytes.
\<close>

fun pipe_run ::
  "('b list \<Rightarrow> 's \<Rightarrow> 's option) \<Rightarrow> ('n \<Rightarrow> 's \<Rightarrow> ('b list \<times> 's) option) \<Rightarrow> ('b list + 'n) list \<Rightarrow> 's \<Rightarrow> ('b list \<times> 's) option" where
  "pipe_run put get [] s = Some ([], s)"
| "pipe_run put get (Inl d # ops) s = Option.bind (put d s) (pipe_run put get ops)"
| "pipe_run put get (Inr n # ops) s =
     Option.bind (get n s) (\<lambda>(out, s). map_option (\<lambda>(o', s). (out @ o', s)) (pipe_run put get ops s))"

fun put_in :: "('b list + 'n) list \<Rightarrow> 'b list" where
  "put_in [] = []"
| "put_in (Inl d # ops) = d @ put_in ops"
| "put_in (Inr n # ops) = put_in ops"

locale byte_pipe =
  fixes inv :: "'s \<Rightarrow> bool" and content :: "'s \<Rightarrow> 'b list"
    and put :: "'b list \<Rightarrow> 's \<Rightarrow> 's option" and get :: "'n \<Rightarrow> 's \<Rightarrow> ('b list \<times> 's) option"
  assumes put_law: "inv s \<Longrightarrow> put d s = Some s' \<Longrightarrow> inv s' \<and> content s' = content s @ d"
    and get_law: "inv s \<Longrightarrow> get n s = Some (out, s') \<Longrightarrow> inv s' \<and> content s = out @ content s'"
begin

lemma run_fifo:
  "inv s \<Longrightarrow> pipe_run put get ops s = Some (out, s') \<Longrightarrow> inv s' \<and> content s @ put_in ops = out @ content s'"
proof (induction ops arbitrary: s out)
  case (Cons op ops)
  show ?case
  proof (cases op)
    case (Inl d)
    with Cons show ?thesis by (fastforce simp: bind_eq_Some_conv dest: put_law)
  next
    case (Inr n)
    with Cons.prems(2) obtain o1 s1 o2 where "get n s = Some (o1, s1)" "pipe_run put get ops s1 = Some (o2, s')" "out = o1 @ o2"
      by (auto simp: bind_eq_Some_conv)
    with Cons.IH[of s1 o2] get_law[OF Cons.prems(1)] Inr show ?thesis by auto
  qed
qed simp

lemma drained:
  "inv s \<Longrightarrow> content s = [] \<Longrightarrow> pipe_run put get ops s = Some (out, s') \<Longrightarrow> content s' = [] \<Longrightarrow> out = put_in ops"
  using run_fifo by fastforce

end

text \<open>Putting: a data packet inside the limits arrives.  Getting: a pass over the queue.\<close>

definition pipe_put :: "'x env \<Rightarrow> nat \<Rightarrow> bytes \<Rightarrow> 'x session \<Rightarrow> 'x session option" where
  "pipe_put env r d s =
     (if d = [] \<or> unat (window_size (ch_remote (chan s r))) < length d \<or> unat (packet_size (ch_remote (chan s r))) < length d
        \<or> 2 ^ 31 < length d
      then None
      else case libssh2_packet_add env (data_packet (cd_id (ch_local (chan s r))) 0 d) (of_nat (length d + 9)) MAC_CONFIRMED s of
             Inr (rc, s) \<Rightarrow> Some s
           | Inl e \<Rightarrow> None)"

definition pipe_get :: "'x env \<Rightarrow> nat \<Rightarrow> u32 \<Rightarrow> 'x session \<Rightarrow> (bytes \<times> 'x session) option" where
  "pipe_get env r n s =
     (case read_scan env r 0 n [] (packets s) s of
        Inr (rest, got, s) \<Rightarrow> Some (got, s\<lparr>packets := rest\<rparr>)
      | Inl e \<Rightarrow> None)"

definition pipe_inv :: "nat \<Rightarrow> 'x session \<Rightarrow> bool" where
  "pipe_inv r s \<longleftrightarrow> libssh2_channel_locate s (cd_id (ch_local (chan s r))) = Some r \<and> alloc_ok s = [] \<and> unread (packets s)"

definition pipe_content :: "nat \<Rightarrow> 'x session \<Rightarrow> bytes" where
  "pipe_content r s = stream_bytes (chan s r) 0 (packets s)"

text \<open>What an adjustment of the window leaves alone.\<close>

lemma alloc_ok_write:
  assumes "libssh2_packet_write env d s = Inr (rc, s')" and "alloc_ok s = []"
  shows "alloc_ok s' = []"
proof -
  have snd: "alloc_ok t' = []" if "sock_send b t = (ok, t')" "alloc_ok t = []" for b t ok and t' :: "'a session"
    using that by (auto simp: sock_send_def split: list.splits)
  have al: "libssh2_alloc t = (True, t)" if "alloc_ok t = []" for t :: "'a session" using that by (simp add: libssh2_alloc_def)
  have ps: "alloc_ok t' = []" if "packet_send env d t = (rc, t')" "alloc_ok t = []" for d t rc t'
    using that by (auto simp: packet_send_def Let_def al split: if_splits prod.splits dest!: snd)
  show ?thesis using assms
    by (auto simp: libssh2_packet_write_def Let_def split: if_splits option.splits prod.splits dest!: ps)
qed

lemma window_adjust_alloc:
  assumes "libssh2_channel_receive_window_adjust env r n force s = Inr (w, s')" and "alloc_ok s = []"
  shows "alloc_ok s' = []"
  using assms
  by (auto simp: libssh2_channel_receive_window_adjust_def Let_def sbind_eq_Inr window_adjust_sent_def
      libssh2_error_def upd_remote_def split: if_splits dest!: alloc_ok_write)

definition same_ids :: "'x session \<Rightarrow> 'x session \<Rightarrow> bool" where
  "same_ids s' s \<longleftrightarrow> channels s' = channels s \<and> (\<lambda>q. cd_id (ch_local (chan s' q))) = (\<lambda>q. cd_id (ch_local (chan s q)))"

lemma same_ids_locate: "same_ids s' s \<Longrightarrow> libssh2_channel_locate s' i = libssh2_channel_locate s i"
  unfolding libssh2_channel_locate_def same_ids_def by (simp add: fun_eq_iff)

lemma window_adjust_ids:
  assumes "libssh2_channel_receive_window_adjust env r n force s = Inr (w, s')"
  shows "same_ids s' s"
proof -
  from window_adjust_effect[OF assms] obtain q where
    c: "chan s' = (chan s)(r := (chan s r)\<lparr>adjust_queue := q, ch_remote := (ch_remote (chan s r))\<lparr>window_size := w\<rparr>\<rparr>)"
    and v: "conn_view s' = conn_view (s\<lparr>chan := chan s'\<rparr>)" by blast
  show ?thesis using conn_viewD(5)[OF v] unfolding c by (auto simp: same_ids_def c)
qed

lemma read_scan_ids:
  "read_scan env r st n got ps s = Inr (rest, got', s') \<Longrightarrow> alloc_ok s = [] \<Longrightarrow> same_ids s' s \<and> alloc_ok s' = []"
proof (induction ps arbitrary: got rest s)
  case Nil
  then show ?case by (simp add: same_ids_def)
next
  case (Cons p ps)
  show ?case
  proof (cases "\<exists>d w s1. libssh2_channel_receive_window_adjust env r (pk_len p - (if st \<noteq> 0 then 13 else 9)) False s = Inr (w, s1)
      \<and> read_scan env r st n (got @ d) ps s1 = Inr (rest, got', s')")
    case True
    then obtain d w s1 where wa: "libssh2_channel_receive_window_adjust env r (pk_len p - (if st \<noteq> 0 then 13 else 9)) False s = Inr (w, s1)"
      and rs: "read_scan env r st n (got @ d) ps s1 = Inr (rest, got', s')" by blast
    from Cons.IH[OF rs window_adjust_alloc[OF wa Cons.prems(2)]] window_adjust_ids[OF wa] show ?thesis
      by (simp add: same_ids_def)
  next
    case False
    with Cons.prems Cons.IH show ?thesis
      by (auto simp: Let_def sbind_eq_Inr same_ids_def split: if_splits)
  qed
qed

lemma data_packet_fields:
  assumes "length d + 9 < 2 ^ 32"
  shows "length (data_packet i 0 d) = length d + 9" and "data_packet i 0 d ! 0 = SSH_MSG_CHANNEL_DATA"
    and "libssh2_ntohu32 (drop 1 (data_packet i 0 d)) = i" and "drop 9 (data_packet i 0 d) = d"
    and "rd32 (data_packet i 0 d) 1 = Inr i"
proof -
  show "length (data_packet i 0 d) = length d + 9" "data_packet i 0 d ! 0 = SSH_MSG_CHANNEL_DATA" "drop 9 (data_packet i 0 d) = d"
    by (simp_all add: data_packet_def)
  show n: "libssh2_ntohu32 (drop 1 (data_packet i 0 d)) = i"
    by (simp add: data_packet_def u32_codec.dec_enc)
  then show "rd32 (data_packet i 0 d) 1 = Inr i" by (simp add: rd32_def data_packet_def)
qed

lemma pipe_put_effect:
  assumes "pipe_inv r s" and "pipe_put env r d s = Some s'"
  shows "s' = (upd_remote r (\<lambda>x. x\<lparr>cd_eof := False, window_size := window_size x - of_nat (length d)\<rparr>) s)
    \<lparr>packets := packets s @ [\<lparr>pk_data = data_packet (cd_id (ch_local (chan s r))) 0 d, pk_len = of_nat (length d + 9), pk_head = 9,
       pk_mac = MAC_CONFIRMED\<rparr>]\<rparr>" and "length d + 9 < 2 ^ 32"
proof -
  let ?i = "cd_id (ch_local (chan s r))" and ?rem = "ch_remote (chan s r)"
  from assms(2) have lim: "d \<noteq> []" "length d \<le> unat (window_size ?rem)" "length d \<le> unat (packet_size ?rem)" "length d \<le> 2 ^ 31"
    by (auto simp: pipe_put_def not_less split: if_splits)
  then show l: "length d + 9 < 2 ^ 32" by simp
  note f = data_packet_fields[OF l, of ?i]
  have un: "unat (of_nat (length d) :: u32) = length d" using l unfolding unat_of_nat by simp
  have "libssh2_packet_add env (data_packet ?i 0 d) (of_nat (length d + 9)) MAC_CONFIRMED s
      = Inr (0, (upd_remote r (\<lambda>x. x\<lparr>cd_eof := False, window_size := window_size x - of_nat (length d + 9 - 9)\<rparr>) s)
        \<lparr>packets := packets s @ [\<lparr>pk_data = data_packet ?i 0 d, pk_len = of_nat (length d + 9), pk_head = 9, pk_mac = MAC_CONFIRMED\<rparr>]\<rparr>)"
    by (rule add_data_in_limits)
      (use f lim l assms(1) un in \<open>simp_all add: pipe_inv_def word_le_nat_alt\<close>)
  with assms(2) show "s' = (upd_remote r (\<lambda>x. x\<lparr>cd_eof := False, window_size := window_size x - of_nat (length d)\<rparr>) s)
    \<lparr>packets := packets s @ [\<lparr>pk_data = data_packet ?i 0 d, pk_len = of_nat (length d + 9), pk_head = 9, pk_mac = MAC_CONFIRMED\<rparr>]\<rparr>"
    by (simp add: pipe_put_def split: if_splits)
qed

lemma pipe_put_law:
  assumes "pipe_inv r s" and "pipe_put env r d s = Some s'"
  shows "pipe_inv r s' \<and> pipe_content r s' = pipe_content r s @ d"
proof -
  let ?i = "cd_id (ch_local (chan s r))"
  let ?p = "\<lparr>pk_data = data_packet ?i 0 d, pk_len = of_nat (length d + 9), pk_head = 9, pk_mac = MAC_CONFIRMED\<rparr> :: packet"
  note e = pipe_put_effect[OF assms]
  note f = data_packet_fields[OF e(2), of ?i]
  have un: "unat (of_nat (length d + 9) :: u32) = length d + 9" using e(2) unfolding unat_of_nat by simp
  have le: "(9 :: u32) \<le> of_nat (length d + 9)" unfolding word_le_nat_alt un by simp
  have k: "ch_key (chan s' r) = ch_key (chan s r)" unfolding e(1) by (simp add: ch_key_def upd_remote_def)
  have sid: "same_ids s' s" unfolding e(1) by (auto simp: same_ids_def upd_remote_def)
  have "unat (of_nat (length d + 9) - 9 :: u32) = length d" using un le by (simp add: unat_sub del: of_nat_add)
  then have rest: "pk_rest ?p = d" using f(1,4) by (simp add: pk_rest_def del: of_nat_add)
  have "d \<noteq> []" using assms(2) by (auto simp: pipe_put_def)
  then have "rd8 (data_packet ?i 0 d) 0 = Inr SSH_MSG_CHANNEL_DATA" using f(1,2) by (simp add: rd8_def)
  then have want: "read_wanted (chan s r) 0 ?p = Inr True" using f(5) by (simp add: read_wanted_def)
  have p: "packets s' = packets s @ [?p]" unfolding e(1) by simp
  have "pipe_content r s' = pipe_content r s @ d"
    unfolding pipe_content_def stream_bytes_key[OF k] p using want rest by (simp del: of_nat_add)
  moreover have "pipe_inv r s'"
    using assms(1) k p le same_ids_locate[OF sid] unfolding pipe_inv_def ch_key_def
    by (simp add: e(1) upd_remote_def del: of_nat_add)
  ultimately show ?thesis by simp
qed

lemma pipe_get_law:
  assumes "pipe_inv r s" and "pipe_get env r n s = Some (out, s')"
  shows "pipe_inv r s' \<and> pipe_content r s = out @ pipe_content r s'"
proof -
  from assms(2) obtain rest s1 where rs: "read_scan env r 0 n [] (packets s) s = Inr (rest, out, s1)" and s': "s' = s1\<lparr>packets := rest\<rparr>"
    by (auto simp: pipe_get_def split: sum.splits)
  from assms(1) have i: "unread (packets s)" "alloc_ok s = []" by (simp_all add: pipe_inv_def)
  from read_scan_stream[OF rs i(1) _ refl] have st: "stream_bytes (chan s r) 0 (packets s) = out @ stream_bytes (chan s r) 0 rest"
    and u: "unread rest" and k: "ch_key (chan s1 r) = ch_key (chan s r)" by auto
  from read_scan_ids[OF rs i(2)] have sid: "same_ids s1 s" "alloc_ok s1 = []" by auto
  have "libssh2_channel_locate s' j = libssh2_channel_locate s1 j" for j by (simp add: s' libssh2_channel_locate_def)
  with assms(1) u k sid(2) same_ids_locate[OF sid(1)] have "pipe_inv r s'" by (simp add: pipe_inv_def s' ch_key_def)
  with st show ?thesis by (simp add: pipe_content_def s' stream_bytes_key[OF k])
qed

interpretation chan_pipe: byte_pipe "pipe_inv r" "pipe_content r" "pipe_put env r" "pipe_get env r" for env r
  by unfold_locales (rule pipe_put_law pipe_get_law; assumption)+

section \<open>Properties\<close>

text \<open>(C4) A channel is a pipe for bytes.  Data packets that arrive inside the limits and reads of any
  size, in any order, behave like a queue of bytes: what the reads return, followed by what is still
  queued, is what was queued at first, followed by the data of the packets in the order of their
  arrival.  Nothing is lost, repeated or reordered, and packets are cut where the reader's buffer ends.\<close>

theorem channel_fifo:
  assumes "pipe_inv r s" and "pipe_run (pipe_put env r) (pipe_get env r) ops s = Some (out, s')"
  shows "pipe_content r s @ put_in ops = out @ pipe_content r s'"
  using chan_pipe.run_fifo[OF assms] by simp

text \<open>On a channel that does not block, a read returns as many bytes of the stream as are queued
  and fit into the buffer, in their order; the packets of other channels and streams stay in the
  queue as they are.\<close>

theorem channel_read_returns:
  assumes "pump (Suc fuel) env False s = Inr s1" and "\<not> blocking (chan s1 r)" and "open_link s1"
    and "list_all whole_packet (packets s1)"
  shows "\<exists>got s'. libssh2_channel_read_ex (Suc fuel) env r st n s = Inr (got, s')
    \<and> stream_bytes (chan s1 r) st (packets s1) = got @ stream_bytes (chan s1 r) st (packets s')
    \<and> length got = min (unat n) (length (stream_bytes (chan s1 r) st (packets s1)))
    \<and> filter (\<lambda>p. read_wanted (chan s1 r) st p \<noteq> Inr True) (packets s')
        = filter (\<lambda>p. read_wanted (chan s1 r) st p \<noteq> Inr True) (packets s1)"
proof -
  obtain rest got s2 where rs: "read_scan env r st n [] (packets s1) s1 = Inr (rest, got, s2)"
    using read_scan_returns[OF assms(3,4)] by blast
  from read_scan_stream[OF rs whole_unread[OF assms(4)] _ refl] have
    st: "stream_bytes (chan s1 r) st (packets s1) = got @ stream_bytes (chan s1 r) st rest" "length got \<le> unat n"
      "length got < unat n \<longrightarrow> stream_bytes (chan s1 r) st rest = []" "blocking (chan s2 r) = blocking (chan s1 r)"
      "filter (\<lambda>p. read_wanted (chan s1 r) st p \<noteq> Inr True) rest = filter (\<lambda>p. read_wanted (chan s1 r) st p \<noteq> Inr True) (packets s1)"
    by auto
  have "libssh2_channel_read_ex (Suc fuel) env r st n s = Inr (got, s2\<lparr>packets := rest\<rparr>)"
    unfolding libssh2_channel_read_ex_def read_loop.simps assms(1) sbind_simps rs
    using st(4) assms(2) by simp
  moreover have "length got = min (unat n) (length (stream_bytes (chan s1 r) st (packets s1)))"
    using st(1-3) by (cases "length got < unat n") auto
  ultimately show ?thesis using st by (intro exI[of _ got] exI[of _ "s2\<lparr>packets := rest\<rparr>"]) simp
qed

text \<open>Reading keeps the account of the receive window: window, pending adjustment and charges of
  the packets of the stream that are still queued add up to the same number before and after, unless
  extended data is merged into the standard stream.\<close>

theorem channel_read_account:
  assumes "read_scan env r st n got (packets s) s = Inr (rest, got', s')"
    and "st \<noteq> 0 \<or> ext_data_mode (ch_remote (chan s r)) \<noteq> EXTENDED_DATA_MERGE"
  shows "window_account r st rest s' = window_account r st (packets s) s"
  by (rule read_scan_account[OF assms])

text \<open>(C14) A write on a blocking channel with window enough sends the whole buffer: packets of at most
  the packet size of the remote end whose payloads make up the buffer, in order; it returns the
  length of the buffer and takes exactly that from the window.\<close>

theorem channel_write_pieces:
  assumes "open_link s" and "blocking (chan s r)" and "\<not> cd_close (ch_local (chan s r))" and "\<not> cd_eof (ch_local (chan s r))"
    and "length buf \<le> unat (window_size (ch_local (chan s r)))" and "packet_size (ch_local (chan s r)) \<noteq> 0"
    and "length buf < fuel"
  shows "\<exists>ps. libssh2_channel_write_ex fuel env r st buf s
      = Inr (int (length buf), charge_local r (length buf) (sends env (map (data_packet (cd_id (ch_remote (chan s r))) st) ps) s))
    \<and> concat ps = buf \<and> list_all (\<lambda>p. p \<noteq> [] \<and> length p \<le> unat (packet_size (ch_local (chan s r)))) ps"
proof -
  let ?n = "unat (packet_size (ch_local (chan s r)))"
  have "libssh2_alloc s = (True, s)" using assms(1) by (simp add: open_link_def libssh2_alloc_def)
  then have "libssh2_channel_write_ex fuel env r st buf s = write_loop fuel env r st buf 0 s"
    using assms(2-4) by (simp add: libssh2_channel_write_ex_def)
  also have "\<dots> = Inr (int (length buf), charge_local r (length buf)
      (sends env (map (data_packet (cd_id (ch_remote (chan s r))) st) (pieces ?n buf)) s))"
    using write_loop_pieces[OF assms(1,2,5) refl assms(6) refl assms(7), of env st 0] by simp
  finally show ?thesis
    using assms(6) by (intro exI[of _ "pieces ?n buf"]) (auto simp: concat_pieces unat_gt_0 list_all_iff pieces_size)
qed

text \<open>When the remote end announced a packet size of 0, a blocking write of anything never returns:
  it sends empty packets for ever.\<close>

theorem channel_write_hangs:
  assumes "open_link s" and "blocking (chan s r)" and "\<not> cd_close (ch_local (chan s r))"
    and "window_size (ch_local (chan s r)) \<noteq> 0" and "packet_size (ch_local (chan s r)) = 0" and "buf \<noteq> []"
  shows "libssh2_channel_write_ex fuel env r st buf s = Inl Never_Returns"
proof -
  have loop: "write_loop fuel env r st buf k s = Inl Never_Returns"
    if "open_link s" "blocking (chan s r)" "window_size (ch_local (chan s r)) \<noteq> 0" "packet_size (ch_local (chan s r)) = 0" for k s
    using that
  proof (induction fuel arbitrary: k s)
    case (Suc fuel)
    let ?p = "data_packet (cd_id (ch_remote (chan s r))) st []"
    have n: "bufwrite_for (length buf) (ch_local (chan s r)) = 0" using Suc.prems(4) by (simp add: bufwrite_for_def Let_def)
    obtain s1 where "libssh2_packet_write env ?p s = Inr (0, s1)" "open_link s1" "chan s1 = chan s"
      by (rule packet_write_open[OF Suc.prems(1), of env ?p])
    with Suc n assms(6) show ?case by (simp add: Let_def charge_local_def[symmetric, of _ 0, simplified])
  qed simp
  define s0 where "s0 = (if cd_eof (ch_local (chan s r))
    then libssh2_error ERROR_CHANNEL_EOF_SENT ''EOF has already been sight, data might be ignored'' s else s)"
  have s0: "open_link s0" "chan s0 = chan s" using assms(1) by (simp_all add: s0_def libssh2_error_def[of ERROR_CHANNEL_EOF_SENT] open_link_def newkeys_def)
  then have "libssh2_alloc s0 = (True, s0)" by (simp add: open_link_def libssh2_alloc_def)
  with s0 assms(2-5) loop[of s0 0] show ?thesis
    unfolding libssh2_channel_write_ex_def Let_def s0_def[symmetric] by simp
qed

text \<open>Flushing standard data refunds four bytes less than the packet was charged: its header has 9
  bytes, not 13.  A packet with fewer than four bytes of data thereby takes the window down instead of
  up, and for an empty window the refund wraps around to nearly \<open>2 ^ 32\<close>.\<close>

theorem channel_flush_refund:
  assumes "packets s = [p]" and "flush_wanted (cd_id (ch_local (chan s r))) 0 p = Inr True"
    and "pk_data p ! 0 = SSH_MSG_CHANNEL_DATA" and "libssh2_channel_flush_ex env r 0 s = Inr (k, s')"
  shows "packets s' = [] \<and> window_size (ch_remote (chan s' r)) + adjust_queue (chan s' r)
    = window_size (ch_remote (chan s r)) + adjust_queue (chan s r) + charge p - 4"
proof -
  have c: "pk_len p - 13 = charge p - 4" using assms(3) by (simp add: charge_def)
  let ?s = "s\<lparr>packets := []\<rparr>"
  show ?thesis
  proof (cases "pk_len p - 13 = 0")
    case True
    with assms have "s' = ?s" by (simp add: libssh2_channel_flush_ex_def)
    with True c show ?thesis by simp
  next
    case False
    with assms obtain w where wa: "libssh2_channel_receive_window_adjust env r (pk_len p - 13) False ?s = Inr (w, s')"
      by (auto simp: libssh2_channel_flush_ex_def Let_def sbind_eq_Inr)
    from window_adjust_effect[OF wa] obtain q where
      e: "chan s' = (chan s)(r := (chan s r)\<lparr>adjust_queue := q, ch_remote := (ch_remote (chan s r))\<lparr>window_size := w\<rparr>\<rparr>)"
      "w + q = window_size (ch_remote (chan s r)) + adjust_queue (chan s r) + (pk_len p - 13)"
      and v: "conn_view s' = conn_view (?s\<lparr>chan := chan s'\<rparr>)" by auto
    show ?thesis using e conn_viewD(3)[OF v] unfolding c by simp
  qed
qed

section \<open>Examples\<close>

text \<open>A session whose queue holds a data packet for channel 0, with blocking switched off or on.\<close>

definition example_packet :: packet where
  "example_packet = \<lparr>pk_data = [94, 0, 0, 0, 0, 0, 0, 0, 3, 1, 2, 3], pk_len = 12, pk_head = 9, pk_mac = MAC_CONFIRMED\<rparr>"

definition queued_session :: "unit session" where
  "queued_session = (libssh2_channel_set_blocking 0 False (example_session []))\<lparr>packets := [example_packet], sock_state := SOCKET_DISCONNECTED\<rparr>"

lemma queued_simps [simp]:
  "packets queued_session = [example_packet]" "sock_state queued_session = SOCKET_DISCONNECTED"
  "chan queued_session 0 = example_channel\<lparr>blocking := False\<rparr>" "alloc_ok queued_session = []" "channels queued_session = [0]"
  by (simp_all add: queued_session_def libssh2_channel_set_blocking_def)

lemma example_wanted: "read_wanted (example_channel\<lparr>blocking := b\<rparr>) 0 example_packet = Inr True"
  by (simp add: read_wanted_def example_packet_def rd8_def rd32_def libssh2_ntohu32_def)

lemma example_open: "open_link queued_session" "open_link (example_session ins)"
  by (simp_all add: open_link_def newkeys_def queued_session_def libssh2_channel_set_blocking_def)

lemma example_whole: "whole_packet example_packet"
  by (simp add: whole_packet_def example_packet_def)

lemma example_inv: "pipe_inv 0 queued_session"
  by (simp add: pipe_inv_def libssh2_channel_locate_def example_packet_def)

theorem channel_fifo_witness:
  "\<exists>out s'. pipe_run (pipe_put example_env 0) (pipe_get example_env 0) [Inr 2] queued_session = Some (out, s')
     \<and> pipe_content 0 queued_session = out @ pipe_content 0 s'"
proof -
  obtain rest got s1 where "read_scan example_env 0 0 2 [] (packets queued_session) queued_session = Inr (rest, got, s1)"
    using read_scan_returns[OF example_open(1), of "[example_packet]" example_env 0 0 2 "[]"] example_whole by auto
  then have e: "pipe_run (pipe_put example_env 0) (pipe_get example_env 0) [Inr 2] queued_session = Some (got, s1\<lparr>packets := rest\<rparr>)"
    by (simp add: pipe_get_def)
  from channel_fifo[OF example_inv e] e show ?thesis by auto
qed

theorem channel_read_returns_witness:
  "\<exists>got s'. libssh2_channel_read_ex 1 example_env 0 0 2 queued_session = Inr (got, s') \<and> length got = 2"
proof -
  have p: "pump (Suc 0) example_env False queued_session = Inr queued_session"
    by (simp add: libssh2_packet_read_def)
  have r: "pk_rest example_packet = [1, 2, 3]" by (simp add: pk_rest_def example_packet_def)
  from channel_read_returns[OF p _ example_open(1), of 0 0 2] show ?thesis
    by (auto simp: example_whole example_wanted r)
qed

theorem channel_read_account_witness:
  "\<exists>rest got s'. read_scan example_env 0 0 5 [] (packets queued_session) queued_session = Inr (rest, got, s')
     \<and> window_account 0 0 rest s' = window_account 0 0 [example_packet] queued_session"
proof -
  obtain rest got s1 where e: "read_scan example_env 0 0 5 [] (packets queued_session) queued_session = Inr (rest, got, s1)"
    using read_scan_returns[OF example_open(1), of "[example_packet]" example_env 0 0 5 "[]"] example_whole by auto
  from channel_read_account[OF e] e show ?thesis by auto
qed

theorem channel_write_pieces_witness:
  "\<exists>ps s'. libssh2_channel_write_ex 5 example_env 0 0 [1, 2, 3] (example_session []) = Inr (3, s') \<and> concat ps = [1, 2, 3 :: u8]"
  using channel_write_pieces[OF example_open(2)[of "[]"], of 0 "[1, 2, 3]" 5 example_env 0] by auto

theorem channel_write_hangs_witness:
  "libssh2_channel_write_ex 5 example_env 0 0 [1] (upd_local 0 (\<lambda>d. d\<lparr>packet_size := 0\<rparr>) (example_session [])) = Inl Never_Returns"
  by (rule channel_write_hangs) (simp_all add: example_open upd_local_def)

theorem channel_flush_refund_witness:
  "\<exists>k s'. libssh2_channel_flush_ex example_env 0 0 queued_session = Inr (k, s')
     \<and> window_size (ch_remote (chan s' 0)) + adjust_queue (chan s' 0) = 65535"
proof -
  have f: "flush_wanted (cd_id (ch_local (chan queued_session 0))) 0 example_packet = Inr True"
    by (simp add: flush_wanted_def example_packet_def rd8_def rd32_def libssh2_ntohu32_def)
  obtain w s' where wa: "libssh2_channel_receive_window_adjust example_env 0 (pk_len example_packet - 13) False (queued_session\<lparr>packets := []\<rparr>) = Inr (w, s')"
    by (rule window_adjust_open[of "queued_session\<lparr>packets := []\<rparr>" example_env 0 "pk_len example_packet - 13" False]) (simp_all add: example_open)
  have nz: "pk_len example_packet - 13 \<noteq> 0" and ch: "charge example_packet = 3" by (simp_all add: example_packet_def charge_def)
  have e: "libssh2_channel_flush_ex example_env 0 0 queued_session
      = Inr (sint (pk_len example_packet - pk_head example_packet), s')"
    using f wa nz by (simp add: libssh2_channel_flush_ex_def)
  from channel_flush_refund[OF queued_simps(1) f _ e] e show ?thesis
    by (auto simp: ch) (simp add: example_packet_def)
qed
end
