(* ===== verification/SSH_Methods.thy ===== *)
theory SSH_Methods
  imports SSH_Channel
begin

text \<open>
  The methods of an SSH session and how client and server agree on them: the tables of
  \<^verbatim>\<open>src/ssh/libssh2/crypt.c\<close>, \<^verbatim>\<open>mac.c\<close>, \<^verbatim>\<open>comp.c\<close> and \<^verbatim>\<open>hostkey.c\<close>, and the second half of \<^verbatim>\<open>kex.c\<close>.

  The record \<open>startup\<close> has the fields of \<^verbatim>\<open>LIBSSH2_SESSION\<close> and \<^verbatim>\<open>libssh2_endpoint_data\<close> that only the start
  of a session uses; the session of the packet layer is its field \<open>base\<close>.  OpenSSL and zlib are the
  record \<open>crypto\<close>; their contexts are of the type \<open>'c\<close>.  A string of C is the list of its characters
  without the terminating NUL; a pointer into a packet is the rest of the packet's buffer.
\<close>

section \<open>Methods\<close>

text \<open>What \<^verbatim>\<open>crypt_abstract\<close> and its like point to: a context of OpenSSL or zlib, or the key of a MAC.\<close>

datatype 'c handle = Null | Handle 'c | Key bytes

record 'c crypto =
  evp_init :: "string \<Rightarrow> bool \<Rightarrow> bytes \<Rightarrow> bytes \<Rightarrow> 'c"
  evp_block :: "'c \<Rightarrow> bytes \<Rightarrow> bool \<times> bytes \<times> 'c"
  hmac :: "string \<Rightarrow> bytes \<Rightarrow> bytes \<Rightarrow> bytes"
  sha1 :: "bytes \<Rightarrow> bytes"
  md5sum :: "bytes \<Rightarrow> bytes"
  zlib_init :: "bool \<Rightarrow> 'c option"
  zlib_comp :: "'c \<Rightarrow> bool \<Rightarrow> bytes \<Rightarrow> bytes option \<times> 'c"
  bin2bn :: "bytes \<Rightarrow> nat"
  bn2bin :: "nat \<Rightarrow> bytes"
  bn_bits :: "nat \<Rightarrow> nat"
  mod_exp :: "nat \<Rightarrow> nat \<Rightarrow> nat \<Rightarrow> nat"
  rsa_new :: "nat \<Rightarrow> nat \<Rightarrow> 'c"
  rsa_verify :: "'c \<Rightarrow> bytes \<Rightarrow> bytes \<Rightarrow> bool"
  rsa_sign :: "'c \<Rightarrow> bytes \<Rightarrow> bytes option"
  dsa_new :: "nat \<Rightarrow> nat \<Rightarrow> nat \<Rightarrow> nat \<Rightarrow> 'c"
  dsa_verify :: "'c \<Rightarrow> bytes \<Rightarrow> nat \<Rightarrow> nat \<Rightarrow> bool"
  dsa_sign :: "'c \<Rightarrow> bytes \<Rightarrow> (nat \<times> nat) option"

record 'c named_crypt =
  crypt_name :: string
  iv_len :: nat
  secret_len :: nat
  crypt_table :: "'c handle crypt_method"
  crypt_start :: "bool \<Rightarrow> bytes \<Rightarrow> bytes \<Rightarrow> 'c handle"

record 'c named_mac =
  mac_name :: string
  key_len :: nat
  mac_table :: "'c handle mac_method"

record 'c named_comp =
  comp_name :: string
  comp_table :: "'c handle comp_method"
  comp_init :: "(bool \<Rightarrow> 'c option) option"

record 'c hostkey_method =
  hk_name :: string
  hk_init :: "bytes \<Rightarrow> 'c option run"
  hk_sig_verify :: "('c \<Rightarrow> bytes \<Rightarrow> u32 \<Rightarrow> bytes \<Rightarrow> bool run) option"
  hk_signv :: "'c \<Rightarrow> bytes list \<Rightarrow> bytes option run"
  hk_encrypt :: bool

datatype exchange = Group1 | Group14 | Group_Exchange

record kex_method =
  kex_name :: string
  exchange_keys :: exchange
  kex_flags :: u32

abbreviation (input) REQ_ENC_HOSTKEY :: u32 where "REQ_ENC_HOSTKEY \<equiv> 1"
abbreviation (input) REQ_SIGN_HOSTKEY :: u32 where "REQ_SIGN_HOSTKEY \<equiv> 2"

text \<open>The ciphers of OpenSSL; the block of an EVP context is encrypted in place.\<close>

definition evp_entry :: "'c crypto \<Rightarrow> string \<Rightarrow> nat \<Rightarrow> nat \<Rightarrow> nat \<Rightarrow> string \<Rightarrow> 'c named_crypt" where
  "evp_entry C nm bs il sl cipher =
     \<lparr>crypt_name = nm, iv_len = il, secret_len = sl,
      crypt_table = \<lparr>blocksize = bs, flag_evp = True,
        crypt_fn = (\<lambda>x b. case x of Handle c \<Rightarrow> (let (r, b', c') = evp_block C c b in (r, b', Handle c'))
                               | _ \<Rightarrow> (True, b, x))\<rparr>,
      crypt_start = (\<lambda>enc iv secret. Handle (evp_init C cipher enc (take il iv) (take sl secret)))\<rparr>"

definition libssh2_crypt_methods :: "'c crypto \<Rightarrow> 'c named_crypt list" where
  "libssh2_crypt_methods C =
     [evp_entry C ''aes256-cbc'' 16 16 32 ''aes_256_cbc'',
      evp_entry C ''rijndael-cbc@lysator.liu.se'' 16 16 32 ''aes_256_cbc'',
      evp_entry C ''aes192-cbc'' 16 16 24 ''aes_192_cbc'',
      evp_entry C ''aes128-cbc'' 16 16 16 ''aes_128_cbc'',
      evp_entry C ''blowfish-cbc'' 8 8 16 ''bf_cbc'',
      evp_entry C ''arcfour'' 8 8 16 ''rc4'',
      evp_entry C ''cast128-cbc'' 8 8 16 ''cast5_cbc'',
      evp_entry C ''3des-cbc'' 8 8 24 ''des_ede3_cbc'']"

text \<open>
  The MACs: the key is the buffer \<^verbatim>\<open>common_init\<close> was given, of which the hash takes the first \<open>kl\<close> bytes;
  the MAC is the first \<open>n\<close> bytes of the hash of sequence number, packet and payload.
\<close>

definition hmac_hash :: "'c crypto \<Rightarrow> string \<Rightarrow> nat \<Rightarrow> nat \<Rightarrow> 'c handle \<Rightarrow> u32 \<Rightarrow> bytes \<Rightarrow> bytes \<Rightarrow> bytes \<times> 'c handle" where
  "hmac_hash C alg kl n x sq packet addtl =
     (case x of
        Key key \<Rightarrow> (take n (hmac C alg (take kl key) (libssh2_htonu32 sq @ packet @ addtl)), x)
      | _ \<Rightarrow> ([], x))"

definition mac_entry :: "'c crypto \<Rightarrow> string \<Rightarrow> string \<Rightarrow> nat \<Rightarrow> nat \<Rightarrow> 'c named_mac" where
  "mac_entry C nm alg n kl =
     \<lparr>mac_name = nm, key_len = kl, mac_table = \<lparr>mac_len = n, mac_hash = hmac_hash C alg kl n\<rparr>\<rparr>"

definition libssh2_mac_methods :: "'c crypto \<Rightarrow> 'c named_mac list" where
  "libssh2_mac_methods C =
     [mac_entry C ''hmac-sha1'' ''sha1'' 20 20,
      mac_entry C ''hmac-sha1-96'' ''sha1'' 12 20,
      mac_entry C ''hmac-md5'' ''md5'' 16 16,
      mac_entry C ''hmac-md5-96'' ''md5'' 12 16,
      mac_entry C ''hmac-ripemd160'' ''ripemd160'' 20 20,
      mac_entry C ''hmac-ripemd160@openssh.com'' ''ripemd160'' 20 20]"

definition libssh2_comp_methods :: "'c crypto \<Rightarrow> 'c named_comp list" where
  "libssh2_comp_methods C =
     [\<lparr>comp_name = ''none'',
       comp_table = \<lparr>comp_none = True, comp_fn = (\<lambda>x _ b. (Some b, x))\<rparr>, comp_init = None\<rparr>,
      \<lparr>comp_name = ''zlib'',
       comp_table = \<lparr>comp_none = False,
         comp_fn = (\<lambda>x d b. case x of Handle c \<Rightarrow> (let (r, c') = zlib_comp C c d b in (r, Handle c'))
                                    | _ \<Rightarrow> (None, x))\<rparr>,
       comp_init = Some (zlib_init C)\<rparr>]"

text \<open>
  Host keys.  A string of a key blob is its length and its bytes; \<^verbatim>\<open>strncmp\<close> reads up to the first
  difference.
\<close>

fun strncmp_mem :: "bytes \<Rightarrow> bytes \<Rightarrow> bool run" where
  "strncmp_mem mem [] = Inr True"
| "strncmp_mem [] (n # ns) = Inl Undefined"
| "strncmp_mem (m # ms) (n # ns) = (if m \<noteq> n then Inr False else if m = 0 then Inr True else strncmp_mem ms ns)"

definition blob_string :: "bytes \<Rightarrow> int \<Rightarrow> (bytes \<times> int) run" where
  "blob_string d s = sbind (rd32 d s) (\<lambda>n. sbind (rdn d (s + 4) (unat n)) (\<lambda>x. Inr (x, s + 4 + uint n)))"

definition blob_type :: "bytes \<Rightarrow> string \<Rightarrow> bool run" where
  "blob_type d t =
     sbind (rd32 d 0) (\<lambda>len. if len \<noteq> 7 then Inr False else strncmp_mem (drop 4 d) (ascii t))"

definition ssh_rsa_init :: "'c crypto \<Rightarrow> bytes \<Rightarrow> 'c option run" where
  "ssh_rsa_init C d =
     sbind (blob_type d ''ssh-rsa'') (\<lambda>ok.
     if \<not> ok then Inr None
     else sbind (blob_string d 11) (\<lambda>(e, s). sbind (blob_string d s) (\<lambda>(n, s).
       Inr (Some (rsa_new C (bin2bn C e) (bin2bn C n))))))"

text \<open>A pointer past the end of the buffer and the length that goes with it are passed on.\<close>

definition sig_body :: "bytes \<Rightarrow> u32 \<Rightarrow> bytes run" where
  "sig_body sig sig_len = rdn sig 15 (unat (sig_len - 15))"

definition ssh_rsa_sig_verify :: "'c crypto \<Rightarrow> 'c \<Rightarrow> bytes \<Rightarrow> u32 \<Rightarrow> bytes \<Rightarrow> bool run" where
  "ssh_rsa_sig_verify C key sig sig_len m =
     sbind (sig_body sig sig_len) (\<lambda>b. Inr (rsa_verify C key (sha1 C m) b))"

definition ssh_rsa_signv :: "'c crypto \<Rightarrow> 'c \<Rightarrow> bytes list \<Rightarrow> bytes option run" where
  "ssh_rsa_signv C key vec = Inr (rsa_sign C key (sha1 C (concat vec)))"

definition ssh_dss_init :: "'c crypto \<Rightarrow> bytes \<Rightarrow> 'c option run" where
  "ssh_dss_init C d =
     sbind (blob_type d ''ssh-dss'') (\<lambda>ok.
     if \<not> ok then Inr None
     else sbind (blob_string d 11) (\<lambda>(p, s). sbind (blob_string d s) (\<lambda>(q, s).
       sbind (blob_string d s) (\<lambda>(g, s). sbind (blob_string d s) (\<lambda>(y, s).
       Inr (Some (dsa_new C (bin2bn C p) (bin2bn C q) (bin2bn C g) (bin2bn C y))))))))"

definition ssh_dss_sig_verify :: "'c crypto \<Rightarrow> 'c \<Rightarrow> bytes \<Rightarrow> u32 \<Rightarrow> bytes \<Rightarrow> bool run" where
  "ssh_dss_sig_verify C key sig sig_len m =
     (if sig_len - 15 \<noteq> 40 then Inr False
      else sbind (rdn sig 15 20) (\<lambda>r. sbind (rdn sig 35 20) (\<lambda>s.
        Inr (dsa_verify C key (sha1 C m) (bin2bn C r) (bin2bn C s)))))"

text \<open>The two numbers of a DSS signature are written behind the padding that both together leave.\<close>

definition ssh_dss_signv :: "'c crypto \<Rightarrow> 'c \<Rightarrow> bytes list \<Rightarrow> bytes option run" where
  "ssh_dss_signv C key vec =
     (case dsa_sign C key (sha1 C (concat vec)) of
        None \<Rightarrow> Inr None
      | Some (r, s) \<Rightarrow>
          let r_len = (bn_bits C r + 7) div 8; s_len = (bn_bits C s + 7) div 8;
              rs_pad = 40 - (int r_len + int s_len)
          in if rs_pad < 0 then Inr None
             else sbind (wrn (replicate 40 0) rs_pad (bn2bin C r)) (\<lambda>b.
               sbind (wrn b (rs_pad + int r_len) (bn2bin C s)) (\<lambda>b. Inr (Some b))))"

definition libssh2_hostkey_methods :: "'c crypto \<Rightarrow> 'c hostkey_method list" where
  "libssh2_hostkey_methods C =
     [\<lparr>hk_name = ''ssh-rsa'', hk_init = ssh_rsa_init C, hk_sig_verify = Some (ssh_rsa_sig_verify C),
       hk_signv = ssh_rsa_signv C, hk_encrypt = False\<rparr>,
      \<lparr>hk_name = ''ssh-dss'', hk_init = ssh_dss_init C, hk_sig_verify = Some (ssh_dss_sig_verify C),
       hk_signv = ssh_dss_signv C, hk_encrypt = False\<rparr>]"

definition libssh2_kex_methods :: "kex_method list" where
  "libssh2_kex_methods =
     [\<lparr>kex_name = ''diffie-hellman-group14-sha1'', exchange_keys = Group14, kex_flags = REQ_SIGN_HOSTKEY\<rparr>,
      \<lparr>kex_name = ''diffie-hellman-group-exchange-sha1'', exchange_keys = Group_Exchange, kex_flags = REQ_SIGN_HOSTKEY\<rparr>,
      \<lparr>kex_name = ''diffie-hellman-group1-sha1'', exchange_keys = Group1, kex_flags = REQ_SIGN_HOSTKEY\<rparr>]"

section \<open>The session during its start\<close>

record 'c side =
  banner :: "bytes option"
  kexinit :: "bytes option"
  crypt :: "'c named_crypt option"
  mac :: "'c named_mac option"
  comp :: "'c named_comp option"
  crypt_prefs :: "bytes option"
  mac_prefs :: "bytes option"
  comp_prefs :: "bytes option"
  lang_prefs :: "bytes option"

record 'c startup =
  base :: "'c handle session"
  kex_prefs :: "bytes option"
  hostkey_prefs :: "bytes option"
  kex :: "kex_method option"
  burn_optimistic_kexinit :: bool
  session_id :: "bytes option"
  hostkey :: "'c hostkey_method option"
  server_hostkey_abstract :: "'c option"
  server_hostkey_md5 :: bytes
  server_hostkey_sha1 :: bytes
  side_local :: "'c side"
  side_remote :: "'c side"
  flags :: u32

text \<open>Assigning \<^verbatim>\<open>endpoint->crypt\<close> and its like also tells the packet layer.\<close>

definition use_crypt :: "'c named_crypt \<Rightarrow> 'c handle endpoint \<Rightarrow> 'c handle endpoint" where
  "use_crypt c e = e\<lparr>ep_crypt := crypt_table c\<rparr>"

definition use_mac :: "'c named_mac \<Rightarrow> 'c handle endpoint \<Rightarrow> 'c handle endpoint" where
  "use_mac c e = e\<lparr>ep_mac := mac_table c\<rparr>"

definition use_comp :: "'c named_comp \<Rightarrow> 'c handle endpoint \<Rightarrow> 'c handle endpoint" where
  "use_comp c e = e\<lparr>ep_comp := Some (comp_table c)\<rparr>"

definition upd_side ::
    "bool \<Rightarrow> ('c side \<Rightarrow> 'c side) \<Rightarrow> ('c handle endpoint \<Rightarrow> 'c handle endpoint) \<Rightarrow> 'c startup \<Rightarrow> 'c startup" where
  "upd_side is_local f g u =
     (if is_local then u\<lparr>side_local := f (side_local u), base := (base u)\<lparr>ep_local := g (ep_local (base u))\<rparr>\<rparr>
      else u\<lparr>side_remote := f (side_remote u), base := (base u)\<lparr>ep_remote := g (ep_remote (base u))\<rparr>\<rparr>)"

definition the_side :: "bool \<Rightarrow> 'c startup \<Rightarrow> 'c side" where
  "the_side is_local u = (if is_local then side_local u else side_remote u)"

section \<open>Looking for a name in a list of the server\<close>

abbreviation COMMA :: u8 where "COMMA \<equiv> 0x2C"

text \<open>\<^verbatim>\<open>strchr\<close> stops at a NUL; a buffer without one is left.\<close>

fun strchr :: "u8 \<Rightarrow> bytes \<Rightarrow> nat option run" where
  "strchr c [] = Inl Undefined"
| "strchr c (x # xs) =
     (if x = c then Inr (Some 0) else if x = 0 then Inr None
      else sbind (strchr c xs) (\<lambda>r. Inr (map_option Suc r)))"

lemma strchr_less: "strchr c xs = Inr (Some k) \<Longrightarrow> k < length xs"
  by (induction c xs arbitrary: k rule: strchr.induct) (auto simp: sbind_eq_Inr split: if_splits)

text \<open>Is the needle at offset \<open>s\<close>, with the list's end or a comma behind it?\<close>

definition instr_at :: "bytes \<Rightarrow> u32 \<Rightarrow> bytes \<Rightarrow> nat \<Rightarrow> bool run" where
  "instr_at haystack haystack_len needle s =
     sbind (strncmp_mem (drop s haystack) needle) (\<lambda>eq.
     if \<not> eq then Inr False
     else if of_nat s + of_nat (length needle) = haystack_len then Inr True
     else sbind (rd8 haystack (int s + int (length needle))) (\<lambda>c. Inr (c = COMMA)))"

function instr_loop :: "bytes \<Rightarrow> u32 \<Rightarrow> bytes \<Rightarrow> nat \<Rightarrow> nat option run" where
  "instr_loop haystack haystack_len needle s =
     sbind (strchr COMMA (drop s haystack)) (\<lambda>r.
     case r of
       None \<Rightarrow> Inr None
     | Some k \<Rightarrow>
         if \<not> haystack_len - of_nat (s + k) > of_nat (length needle) then Inr None
         else sbind (instr_at haystack haystack_len needle (s + k + 1)) (\<lambda>found.
              if found then Inr (Some (s + k + 1))
              else instr_loop haystack haystack_len needle (s + k + 1)))"
  by pat_completeness auto
termination
  by (relation "measure (\<lambda>(h, n, d, s). length h - s)") (auto dest!: strchr_less)

declare instr_loop.simps [simp del]

definition libssh2_kex_agree_instr :: "bytes \<Rightarrow> u32 \<Rightarrow> bytes \<Rightarrow> nat option run" where
  "libssh2_kex_agree_instr haystack haystack_len needle =
     (if haystack_len < of_nat (length needle) then Inr None
      else sbind (instr_at haystack haystack_len needle 0) (\<lambda>found.
        if found then Inr (Some 0) else instr_loop haystack haystack_len needle 0))"

definition libssh2_get_method_by_name :: "('m \<Rightarrow> string) \<Rightarrow> bytes \<Rightarrow> 'm list \<Rightarrow> 'm option" where
  "libssh2_get_method_by_name nm name ms = find (\<lambda>m. ascii (nm m) = name) ms"

section \<open>Agreeing on methods\<close>

text \<open>
  The two loops that all \<^verbatim>\<open>libssh2_kex_agree\<close> functions have: over the preferences of the user, and over
  the table if there are none.  \<open>use\<close> is what is done with a method both sides know; \<open>None\<close> is the
  return value -1, or that the search goes on.  \<open>at_end\<close> is what happens at the end of the table.
\<close>

function agree_prefs ::
    "('m \<Rightarrow> string) \<Rightarrow> 'm list \<Rightarrow> bytes \<Rightarrow> u32 \<Rightarrow> ('m \<Rightarrow> nat \<Rightarrow> 'r option run) \<Rightarrow> bytes \<Rightarrow> 'r option run" where
  "agree_prefs nm ms hay hay_len use s =
     (if s = [] then Inr None
      else let m = takeWhile (\<lambda>c. c \<noteq> COMMA) s; rest = drop (Suc (length m)) s
           in sbind (libssh2_kex_agree_instr hay hay_len m) (\<lambda>r.
              case r of
                None \<Rightarrow> agree_prefs nm ms hay hay_len use rest
              | Some q \<Rightarrow>
                  (case libssh2_get_method_by_name nm m ms of
                     None \<Rightarrow> Inr None
                   | Some method \<Rightarrow>
                       sbind (use method q) (\<lambda>done.
                       case done of Some y \<Rightarrow> Inr (Some y) | None \<Rightarrow> agree_prefs nm ms hay hay_len use rest))))"
  by pat_completeness auto
termination
  by (relation "measure (\<lambda>(nm, ms, h, n, u, s). length s)") auto

declare agree_prefs.simps [simp del]

fun agree_table ::
    "('m \<Rightarrow> string) \<Rightarrow> bytes \<Rightarrow> u32 \<Rightarrow> ('m \<Rightarrow> nat \<Rightarrow> 'r option run) \<Rightarrow> 'r option run \<Rightarrow> 'm list \<Rightarrow> 'r option run" where
  "agree_table nm hay hay_len use at_end [] = at_end"
| "agree_table nm hay hay_len use at_end (m # ms) =
     sbind (libssh2_kex_agree_instr hay hay_len (ascii (nm m))) (\<lambda>r.
     case r of
       None \<Rightarrow> agree_table nm hay hay_len use at_end ms
     | Some q \<Rightarrow>
         sbind (use m q) (\<lambda>done.
         case done of Some y \<Rightarrow> Inr (Some y) | None \<Rightarrow> agree_table nm hay hay_len use at_end ms))"

definition hostkey_suits :: "u32 \<Rightarrow> 'c hostkey_method \<Rightarrow> bool" where
  "hostkey_suits kflags method \<longleftrightarrow>
     (kflags AND REQ_ENC_HOSTKEY = 0 \<or> hk_encrypt method)
     \<and> (kflags AND REQ_SIGN_HOSTKEY = 0 \<or> hk_sig_verify method \<noteq> None)"

text \<open>At the end of its table this loop reads the name of the NULL entry.\<close>

definition libssh2_kex_agree_hostkey ::
    "'c crypto \<Rightarrow> bytes option \<Rightarrow> u32 \<Rightarrow> bytes \<Rightarrow> u32 \<Rightarrow> 'c hostkey_method option run" where
  "libssh2_kex_agree_hostkey C prefs kflags hay hay_len =
     (let use = (\<lambda>m q. Inr (if hostkey_suits kflags m then Some m else None))
      in case prefs of
           Some s \<Rightarrow> agree_prefs hk_name (libssh2_hostkey_methods C) hay hay_len use s
         | None \<Rightarrow> agree_table hk_name hay hay_len use (Inl Undefined) (libssh2_hostkey_methods C))"

definition libssh2_kex_agree_kex_hostkey ::
    "'c crypto \<Rightarrow> bytes \<Rightarrow> u32 \<Rightarrow> bytes \<Rightarrow> u32 \<Rightarrow> 'c startup \<Rightarrow> (int \<times> 'c startup) run" where
  "libssh2_kex_agree_kex_hostkey C hay hay_len hk hk_len u =
     (let use = (\<lambda>m q. sbind (libssh2_kex_agree_hostkey C (hostkey_prefs u) (kex_flags m) hk hk_len) (\<lambda>r.
                   Inr (map_option (\<lambda>h. u\<lparr>hostkey := Some h, kex := Some m,
                          burn_optimistic_kexinit := burn_optimistic_kexinit u \<and> q \<noteq> 0\<rparr>) r)))
      in sbind (case kex_prefs u of
                  Some s \<Rightarrow> agree_prefs kex_name libssh2_kex_methods hay hay_len use s
                | None \<Rightarrow> agree_table kex_name hay hay_len use (Inr None) libssh2_kex_methods) (\<lambda>r.
         case r of None \<Rightarrow> Inr (-1, u) | Some u' \<Rightarrow> Inr (0, u')))"

text \<open>Ciphers, MACs and compression.\<close>

definition agree_method ::
    "('m \<Rightarrow> string) \<Rightarrow> 'm list \<Rightarrow> bytes option \<Rightarrow> bytes \<Rightarrow> u32 \<Rightarrow> ('m \<Rightarrow> 's \<Rightarrow> 's) \<Rightarrow> 's \<Rightarrow> (int \<times> 's) run" where
  "agree_method nm ms prefs hay hay_len put u =
     sbind (case prefs of
              Some s \<Rightarrow> agree_prefs nm ms hay hay_len (\<lambda>m q. Inr (Some m)) s
            | None \<Rightarrow> agree_table nm hay hay_len (\<lambda>m q. Inr (Some m)) (Inr None) ms) (\<lambda>r.
     case r of None \<Rightarrow> Inr (-1, u) | Some m \<Rightarrow> Inr (0, put m u))"

definition libssh2_kex_agree_crypt ::
    "'c crypto \<Rightarrow> bool \<Rightarrow> bytes \<Rightarrow> u32 \<Rightarrow> 'c startup \<Rightarrow> (int \<times> 'c startup) run" where
  "libssh2_kex_agree_crypt C is_local hay hay_len u =
     agree_method crypt_name (libssh2_crypt_methods C) (crypt_prefs (the_side is_local u)) hay hay_len
       (\<lambda>m. upd_side is_local (\<lambda>d. d\<lparr>crypt := Some m\<rparr>) (use_crypt m)) u"

definition libssh2_kex_agree_mac ::
    "'c crypto \<Rightarrow> bool \<Rightarrow> bytes \<Rightarrow> u32 \<Rightarrow> 'c startup \<Rightarrow> (int \<times> 'c startup) run" where
  "libssh2_kex_agree_mac C is_local hay hay_len u =
     agree_method mac_name (libssh2_mac_methods C) (mac_prefs (the_side is_local u)) hay hay_len
       (\<lambda>m. upd_side is_local (\<lambda>d. d\<lparr>mac := Some m\<rparr>) (use_mac m)) u"

definition libssh2_kex_agree_comp ::
    "'c crypto \<Rightarrow> bool \<Rightarrow> bytes \<Rightarrow> u32 \<Rightarrow> 'c startup \<Rightarrow> (int \<times> 'c startup) run" where
  "libssh2_kex_agree_comp C is_local hay hay_len u =
     agree_method comp_name (libssh2_comp_methods C) (comp_prefs (the_side is_local u)) hay hay_len
       (\<lambda>m. upd_side is_local (\<lambda>d. d\<lparr>comp := Some m\<rparr>) (use_comp m)) u"

text \<open>One step after the other, until one returns something other than 0.\<close>

fun all_agree :: "('s \<Rightarrow> (int \<times> 's) run) list \<Rightarrow> 's \<Rightarrow> (int \<times> 's) run" where
  "all_agree [] u = Inr (0, u)"
| "all_agree (f # fs) u = sbind (f u) (\<lambda>(rc, u). if rc \<noteq> 0 then Inr (-1, u) else all_agree fs u)"

definition init_comp :: "bool \<Rightarrow> 'c startup \<Rightarrow> (int \<times> 'c startup) run" where
  "init_comp is_local u =
     (case comp (the_side is_local u) of
        None \<Rightarrow> Inr (0, u)
      | Some m \<Rightarrow>
          (case comp_init m of
             None \<Rightarrow> Inr (0, u)
           | Some f \<Rightarrow>
               (case f is_local of
                  None \<Rightarrow> Inr (-1, u)
                | Some c \<Rightarrow> Inr (0, upd_side is_local (\<lambda>d. d) (\<lambda>e. e\<lparr>comp_abstract := Handle c\<rparr>) u))))"

text \<open>The ten lists of a \<^verbatim>\<open>KEXINIT\<close> packet: where each begins, and its length.\<close>

fun locate_lists :: "nat \<Rightarrow> bytes \<Rightarrow> int \<Rightarrow> ((bytes \<times> u32) list \<times> int) run" where
  "locate_lists 0 d s = Inr ([], s)"
| "locate_lists (Suc n) d s =
     sbind (rd32 d s) (\<lambda>len.
     sbind (locate_lists n d (s + 4 + uint len)) (\<lambda>(ls, e).
     Inr ((drop (nat (s + 4)) d, len) # ls, e)))"

definition libssh2_kex_agree_methods :: "'c crypto \<Rightarrow> bytes \<Rightarrow> 'c startup \<Rightarrow> (int \<times> 'c startup) run" where
  "libssh2_kex_agree_methods C data u =
     sbind (locate_lists 10 data 17) (\<lambda>(ls, s).
     sbind (rd8 data s) (\<lambda>follows.
     let list = (\<lambda>f i. f (fst (ls ! i)) (snd (ls ! i)));
         u = u\<lparr>burn_optimistic_kexinit := bit follows 0\<rparr>
     in all_agree
          [\<lambda>u. libssh2_kex_agree_kex_hostkey C (fst (ls ! 0)) (snd (ls ! 0)) (fst (ls ! 1)) (snd (ls ! 1)) u,
           list (libssh2_kex_agree_crypt C True) 2, list (libssh2_kex_agree_crypt C False) 3,
           list (libssh2_kex_agree_mac C True) 4, list (libssh2_kex_agree_mac C False) 5,
           list (libssh2_kex_agree_comp C True) 6, list (libssh2_kex_agree_comp C False) 7,
           init_comp True, init_comp False] u))"

section \<open>Announcing the methods\<close>

definition libssh2_kex_method_strlen :: "string list \<Rightarrow> nat" where
  "libssh2_kex_method_strlen names =
     (if names = [] then 0 else sum_list (map (\<lambda>n. length n + 1) names) - 1)"

definition METHOD_PREFS_LEN :: "bytes option \<Rightarrow> string list \<Rightarrow> nat" where
  "METHOD_PREFS_LEN prefs names =
     (case prefs of Some p \<Rightarrow> length p | None \<Rightarrow> libssh2_kex_method_strlen names)"

text \<open>Every name of the table is followed by a comma; the one after the last name is overwritten later.\<close>

definition libssh2_kex_method_list :: "bytes \<Rightarrow> int \<Rightarrow> nat \<Rightarrow> string list \<Rightarrow> (bytes \<times> int) run" where
  "libssh2_kex_method_list buf s list_strlen names =
     sbind (wrn buf s (libssh2_htonu32 (of_nat list_strlen))) (\<lambda>buf.
     if names = [] then Inr (buf, s + 4)
     else sbind (wrn buf (s + 4) (concat (map (\<lambda>n. ascii n @ [COMMA]) names))) (\<lambda>buf.
       Inr (buf, s + (int list_strlen + 4))))"

definition METHOD_PREFS_STR :: "bytes option \<times> string list \<Rightarrow> bytes \<times> int \<Rightarrow> (bytes \<times> int) run" where
  "METHOD_PREFS_STR = (\<lambda>(prefs, names) (buf, s).
     let len = METHOD_PREFS_LEN prefs names
     in case prefs of
          Some p \<Rightarrow>
            sbind (wrn buf s (libssh2_htonu32 (of_nat len))) (\<lambda>buf.
            sbind (wrn buf (s + 4) (take len p)) (\<lambda>buf. Inr (buf, s + 4 + int len)))
        | None \<Rightarrow> libssh2_kex_method_list buf s len names)"

fun put_lists :: "(bytes option \<times> string list) list \<Rightarrow> bytes \<times> int \<Rightarrow> (bytes \<times> int) run" where
  "put_lists [] b = Inr b"
| "put_lists (l # ls) b = sbind (METHOD_PREFS_STR l b) (put_lists ls)"

definition kexinit_lists :: "'c crypto \<Rightarrow> 'c startup \<Rightarrow> (bytes option \<times> string list) list" where
  "kexinit_lists C u =
     (let l = side_local u; r = side_remote u;
          crypts = map crypt_name (libssh2_crypt_methods C);
          macs = map mac_name (libssh2_mac_methods C);
          comps = map comp_name (libssh2_comp_methods C)
      in [(kex_prefs u, map kex_name libssh2_kex_methods),
          (hostkey_prefs u, map hk_name (libssh2_hostkey_methods C)),
          (crypt_prefs l, crypts), (crypt_prefs r, crypts), (mac_prefs l, macs), (mac_prefs r, macs),
          (comp_prefs l, comps), (comp_prefs r, comps), (lang_prefs l, []), (lang_prefs r, [])])"

definition libssh2_kexinit :: "'c handle env \<Rightarrow> 'c crypto \<Rightarrow> bytes \<Rightarrow> 'c startup \<Rightarrow> (int \<times> 'c startup) run" where
  "libssh2_kexinit env C cookie u =
     (let lists = kexinit_lists C u;
          data_len = 62 + sum_list (map (\<lambda>(p, n). METHOD_PREFS_LEN p n) lists);
          (ok, s) = libssh2_alloc (base u)
      in if \<not> ok then Inr (-1, u\<lparr>base := libssh2_error ERROR_ALLOC ''Unable to allocate memory'' s\<rparr>)
         else
           sbind (wrn (map (e_junk env) [0..<data_len]) 0 (SSH_MSG_KEXINIT # cookie)) (\<lambda>data.
           sbind (put_lists lists (data, 17)) (\<lambda>(data, pos).
           sbind (wrn data pos [0, 0, 0, 0, 0]) (\<lambda>data.
           sbind (libssh2_packet_write env data s) (\<lambda>(rc, s).
           if rc \<noteq> 0 then
             Inr (-1, u\<lparr>base := libssh2_error ERROR_SOCKET_SEND ''Unable to send KEXINIT packet to remote host'' s\<rparr>)
           else Inr (0, u\<lparr>base := s, side_local := (side_local u)\<lparr>kexinit := Some data\<rparr>\<rparr>))))))"

section \<open>Setting preferences\<close>

datatype method_type =
    METHOD_KEX | METHOD_HOSTKEY | METHOD_CRYPT_CS | METHOD_CRYPT_SC | METHOD_MAC_CS | METHOD_MAC_SC
  | METHOD_COMP_CS | METHOD_COMP_SC | METHOD_LANG_CS | METHOD_LANG_SC | METHOD_INVALID

text \<open>The names of the table for a method; the table for languages is NULL.\<close>

fun method_names :: "'c crypto \<Rightarrow> method_type \<Rightarrow> string list option" where
  "method_names C METHOD_KEX = Some (map kex_name libssh2_kex_methods)"
| "method_names C METHOD_HOSTKEY = Some (map hk_name (libssh2_hostkey_methods C))"
| "method_names C METHOD_CRYPT_CS = Some (map crypt_name (libssh2_crypt_methods C))"
| "method_names C METHOD_CRYPT_SC = Some (map crypt_name (libssh2_crypt_methods C))"
| "method_names C METHOD_MAC_CS = Some (map mac_name (libssh2_mac_methods C))"
| "method_names C METHOD_MAC_SC = Some (map mac_name (libssh2_mac_methods C))"
| "method_names C METHOD_COMP_CS = Some (map comp_name (libssh2_comp_methods C))"
| "method_names C METHOD_COMP_SC = Some (map comp_name (libssh2_comp_methods C))"
| "method_names C _ = None"

fun set_prefs :: "method_type \<Rightarrow> bytes \<Rightarrow> 'c startup \<Rightarrow> 'c startup" where
  "set_prefs METHOD_KEX p u = u\<lparr>kex_prefs := Some p\<rparr>"
| "set_prefs METHOD_HOSTKEY p u = u\<lparr>hostkey_prefs := Some p\<rparr>"
| "set_prefs METHOD_CRYPT_CS p u = u\<lparr>side_local := (side_local u)\<lparr>crypt_prefs := Some p\<rparr>\<rparr>"
| "set_prefs METHOD_CRYPT_SC p u = u\<lparr>side_remote := (side_remote u)\<lparr>crypt_prefs := Some p\<rparr>\<rparr>"
| "set_prefs METHOD_MAC_CS p u = u\<lparr>side_local := (side_local u)\<lparr>mac_prefs := Some p\<rparr>\<rparr>"
| "set_prefs METHOD_MAC_SC p u = u\<lparr>side_remote := (side_remote u)\<lparr>mac_prefs := Some p\<rparr>\<rparr>"
| "set_prefs METHOD_COMP_CS p u = u\<lparr>side_local := (side_local u)\<lparr>comp_prefs := Some p\<rparr>\<rparr>"
| "set_prefs METHOD_COMP_SC p u = u\<lparr>side_remote := (side_remote u)\<lparr>comp_prefs := Some p\<rparr>\<rparr>"
| "set_prefs METHOD_LANG_CS p u = u\<lparr>side_local := (side_local u)\<lparr>lang_prefs := Some p\<rparr>\<rparr>"
| "set_prefs METHOD_LANG_SC p u = u\<lparr>side_remote := (side_remote u)\<lparr>lang_prefs := Some p\<rparr>\<rparr>"
| "set_prefs METHOD_INVALID p u = u"

definition cstr_at :: "bytes \<Rightarrow> nat \<Rightarrow> bytes" where
  "cstr_at b s = takeWhile (\<lambda>c. c \<noteq> 0) (drop s b)"

lemma wrn_length: "wrn d off b = Inr d' \<Longrightarrow> length d' = length d"
  by (auto simp: wrn_def split: if_splits)

lemma mvn_length: "mvn d dst src n = Inr d' \<Longrightarrow> length d' = length d"
  by (auto simp: mvn_def sbind_eq_Inr wrn_length)

text \<open>
  Unsupported names are taken out of the buffer of the new preferences: what follows the name is
  moved over it, and the scan goes on where the next name was before.
\<close>

function strip_loop :: "string list option \<Rightarrow> bytes \<Rightarrow> nat \<Rightarrow> bytes run" where
  "strip_loop names buf s =
     (let str = cstr_at buf s; m = takeWhile (\<lambda>c. c \<noteq> COMMA) str; more = length m < length str
      in if str = [] then Inr buf
         else case names of
                None \<Rightarrow> Inl Undefined
              | Some ns \<Rightarrow>
                  sbind (if m \<in> ascii ` set ns then Inr buf
                         else if more then mvn buf (int s) (int (s + length m + 1)) (length str - length m)
                         else if 0 < s then Inr (buf[s - 1 := 0])
                         else Inr (buf[s := 0])) (\<lambda>buf'.
                  if more then strip_loop names buf' (s + length m + 1) else Inr buf'))"
  by pat_completeness auto
termination
proof (relation "measure (\<lambda>(names, buf, s). length buf - s)", goal_cases)
  case (2 names buf s x xa xb a y)
  have "cstr_at buf s \<noteq> [] \<Longrightarrow> s < length buf"
    by (cases "s < length buf") (simp_all add: cstr_at_def)
  moreover have "length y = length buf"
    using 2(6) by (auto split: if_splits dest: mvn_length)
  ultimately show ?case using 2 by simp
qed simp

declare strip_loop.simps [simp del]

definition libssh2_session_method_pref :: "'c crypto \<Rightarrow> method_type \<Rightarrow> bytes \<Rightarrow> 'c startup \<Rightarrow> (int \<times> 'c startup) run" where
  "libssh2_session_method_pref C t prefs u =
     (if t = METHOD_INVALID then
        Inr (-1, u\<lparr>base := libssh2_error ERROR_INVAL ''Invalid parameter specified for method_type'' (base u)\<rparr>)
      else
        let (ok, s) = libssh2_alloc (base u)
        in if \<not> ok then
             Inr (-1, u\<lparr>base := libssh2_error ERROR_ALLOC ''Error allocated space for method preferences'' s\<rparr>)
           else
             sbind (strip_loop (method_names C t) (prefs @ [0]) 0) (\<lambda>buf.
             if cstr_at buf 0 = [] then
               Inr (-1, u\<lparr>base := libssh2_error ERROR_METHOD_NOT_SUPPORTED
                            ''The requested method(s) are not currently supported'' s\<rparr>)
             else Inr (0, set_prefs t (cstr_at buf 0) (u\<lparr>base := s\<rparr>))))"

section \<open>Lists of names\<close>

text \<open>The names of a list, and strings that can be one of them.\<close>

fun split_names :: "bytes \<Rightarrow> bytes list" where
  "split_names [] = [[]]"
| "split_names (c # cs) =
     (if c = COMMA then [] # split_names cs
      else case split_names cs of [] \<Rightarrow> [] | x # xs \<Rightarrow> (c # x) # xs)"

definition clean :: "bytes \<Rightarrow> bool" where
  "clean n \<longleftrightarrow> 0 \<notin> set n \<and> COMMA \<notin> set n"

text \<open>A list as it lies in a packet: the next byte is the first of a length below \<open>2\<^sup>2\<^sup>4\<close>.\<close>

definition name_list :: "bytes \<Rightarrow> bytes \<Rightarrow> bool" where
  "name_list h mem \<longleftrightarrow> 0 \<notin> set h \<and> length h < 2 ^ 24 \<and> (\<exists>rest. mem = h @ 0 # rest)"

lemma split_names_nonempty [simp]: "split_names h \<noteq> []"
  by (induction h rule: split_names.induct) (auto split: list.splits)

lemma split_names_single: "COMMA \<notin> set h \<Longrightarrow> split_names h = [h]"
  by (induction h) auto

lemma split_names_comma: "COMMA \<notin> set a \<Longrightarrow> split_names (a @ COMMA # b) = a # split_names b"
  by (induction a) (auto split: list.splits)

lemma split_names_length: "n \<in> set (split_names h) \<Longrightarrow> length n \<le> length h"
proof (induction h arbitrary: n)
  case (Cons c cs)
  then show ?case by (cases "split_names cs") (fastforce split: if_splits)+
qed simp

lemma hd_split_names: "hd (split_names h) = takeWhile (\<lambda>c. c \<noteq> COMMA) h"
  by (induction h) (auto split: list.splits)

lemma strchr_comma:
  assumes "COMMA \<notin> set a" and "0 \<notin> set a"
  shows "strchr COMMA (a @ COMMA # b) = Inr (Some (length a))"
  using assms by (induction a) auto

lemma strchr_none:
  assumes "COMMA \<notin> set a" and "0 \<notin> set a"
  shows "strchr COMMA (a @ 0 # b) = Inr None"
  using assms by (induction a) auto

lemma strncmp_mem_prefix:
  assumes "0 \<notin> set n"
  shows "strncmp_mem (d @ 0 # rest) n = Inr (take (length n) d = n)"
  using assms
proof (induction n arbitrary: d)
  case (Cons x n)
  then show ?case by (cases d) auto
qed simp

lemma take_hd_name:
  assumes "clean n"
  shows "take (length n) d = n \<and> (length n = length d \<or> (d @ [0]) ! length n = COMMA) \<longleftrightarrow> n = hd (split_names d)"
proof
  assume l: "take (length n) d = n \<and> (length n = length d \<or> (d @ [0]) ! length n = COMMA)"
  then have d: "d = n @ drop (length n) d" by (metis append_take_drop_id)
  have "takeWhile (\<lambda>c. c \<noteq> COMMA) d = n"
  proof (cases "length n = length d")
    case True
    then show ?thesis using assms d by (auto simp: clean_def takeWhile_eq_all_conv)
  next
    case False
    with l have "length n < length d" by (metis length_take min.absorb_iff2 nat_less_le)
    moreover from this l False have "d ! length n = COMMA" by (simp add: nth_append)
    ultimately have "d = n @ COMMA # drop (Suc (length n)) d" using l by (metis id_take_nth_drop)
    then show ?thesis using assms
      by (metis (mono_tags, lifting) clean_def takeWhile.simps(2) takeWhile_append2 append.right_neutral)
  qed
  then show "n = hd (split_names d)" by (simp add: hd_split_names)
next
  assume n: "n = hd (split_names d)"
  then have t: "n = takeWhile (\<lambda>c. c \<noteq> COMMA) d" by (simp add: hd_split_names)
  have "take (length n) d = n" using t by (metis takeWhile_eq_take)
  moreover have "length n = length d \<or> (d @ [0]) ! length n = COMMA"
  proof (cases "length n = length d")
    case False
    then have l: "length n < length d" using t by (metis le_neq_implies_less length_takeWhile_le)
    then have "d ! length n = COMMA" using t nth_length_takeWhile[of "\<lambda>c. c \<noteq> COMMA" d] by auto
    with l show ?thesis by (simp add: nth_append)
  qed simp
  ultimately show "take (length n) d = n \<and> (length n = length d \<or> (d @ [0]) ! length n = COMMA)" by blast
qed

lemma unat_u32: "n < 2 ^ 32 \<Longrightarrow> unat (of_nat n :: u32) = n"
  by (simp add: unat_of_nat take_bit_nat_eq_self_iff)

lemma of_nat_u32_eq: "a < 2 ^ 32 \<Longrightarrow> b < 2 ^ 32 \<Longrightarrow> (of_nat a :: u32) = of_nat b \<longleftrightarrow> a = b"
  by (metis unat_u32)

lemma of_nat_u32_less: "a < 2 ^ 32 \<Longrightarrow> b < 2 ^ 32 \<Longrightarrow> (of_nat a :: u32) < of_nat b \<longleftrightarrow> a < b"
  by (simp add: word_less_nat_alt unat_u32)

lemma instr_at_correct:
  assumes "0 \<notin> set n" "COMMA \<notin> set n" and "length a + length d < 2 ^ 24" and "length n \<le> length d"
  shows "instr_at (a @ d @ 0 # rest) (of_nat (length a + length d)) n (length a) = Inr (n = hd (split_names d))"
proof -
  have e: "(of_nat (length a) + of_nat (length n) = (of_nat (length a + length d) :: u32)) = (length n = length d)"
    using assms(3,4) of_nat_u32_eq[of "length a + length n" "length a + length d"] unfolding of_nat_add[symmetric] by auto
  have r: "rd8 (a @ d @ 0 # rest) (int (length a) + int (length n)) = Inr ((d @ [0]) ! length n)"
    using assms(4) by (simp add: rd8_def nth_append nat_add_distrib)
  show ?thesis
    using take_hd_name[of n d] assms(1,2) unfolding instr_at_def e
    by (auto simp: strncmp_mem_prefix r clean_def)
qed

lemma instr_loop_correct:
  assumes "clean n" and "0 \<notin> set b" and "length a + length b < 2 ^ 24" and "length n < 2 ^ 24"
  shows "\<exists>r. instr_loop (a @ b @ 0 # rest) (of_nat (length a + length b)) n (length a) = Inr r
           \<and> (r \<noteq> None \<longleftrightarrow> n \<in> set (tl (split_names b))) \<and> (\<forall>q. r = Some q \<longrightarrow> 0 < q)"
  using assms
proof (induction "length b" arbitrary: a b rule: less_induct)
  case less
  show ?case
  proof (cases "COMMA \<in> set b")
    case False
    with less.prems show ?thesis
      by (subst instr_loop.simps) (simp add: strchr_none split_names_single)
  next
    case True
    then obtain c d where b: "b = c @ COMMA # d" and c: "COMMA \<notin> set c" by (metis split_list_first)
    have c0: "0 \<notin> set c" and d0: "0 \<notin> set d" using less.prems(2) b by auto
    have sn: "split_names b = c # split_names d" using b c by (simp add: split_names_comma)
    have sc: "strchr COMMA (b @ 0 # rest) = Inr (Some (length c))"
      using c c0 b by (simp add: strchr_comma)
    let ?a = "a @ c @ [COMMA]"
    have ab: "a @ b @ 0 # rest = ?a @ d @ 0 # rest" "length a + length b = length ?a + length d"
      "length a + length c + 1 = length ?a" using b by auto
    have lt: "length ?a + length d < 2 ^ 24" using less.prems(3) b by simp
    have sub: "of_nat (length a + length b) - of_nat (length a + length c) = (of_nat (length d + 1) :: u32)"
      using b by (simp add: of_nat_add)
    have gt: "(of_nat (length n) :: u32) < of_nat (length d + 1) \<longleftrightarrow> length n \<le> length d"
      using of_nat_u32_less[of "length n" "length d + 1"] lt less.prems(4) by (simp del: of_nat_add of_nat_Suc add: less_Suc_eq_le)
    show ?thesis
    proof (cases "length n \<le> length d")
      case False
      then have "n \<notin> set (split_names d)" using split_names_length by blast
      moreover have "instr_loop (a @ b @ 0 # rest) (of_nat (length a + length b)) n (length a) = Inr None"
        by (subst instr_loop.simps) (simp add: sc sub gt[unfolded Suc_eq_plus1[symmetric]] False del: of_nat_add of_nat_Suc)
      ultimately show ?thesis by (simp add: sn)
    next
      case True
      let ?r = "instr_loop (a @ b @ 0 # rest) (of_nat (length a + length b)) n (length ?a)"
      have at: "instr_at (a @ b @ 0 # rest) (of_nat (length a + length b)) n (length ?a) = Inr (n = hd (split_names d))"
        unfolding ab(1,2) using instr_at_correct[of n ?a d rest] True lt less.prems(1) by (simp add: clean_def)
      have step: "instr_loop (a @ b @ 0 # rest) (of_nat (length a + length b)) n (length a)
          = (if n = hd (split_names d) then Inr (Some (length ?a)) else ?r)"
        using True at by (subst instr_loop.simps) (simp add: sc sub gt[unfolded Suc_eq_plus1[symmetric]] del: of_nat_add of_nat_Suc)
      have mem: "n \<in> set (split_names d) \<longleftrightarrow> n = hd (split_names d) \<or> n \<in> set (tl (split_names d))"
        by (metis list.collapse set_ConsD list.set_intros split_names_nonempty)
      show ?thesis
      proof (cases "n = hd (split_names d)")
        case True
        then show ?thesis using step mem by (auto simp: sn)
      next
        case False
        have "length d < length b" using b by simp
        from less.hyps[OF this less.prems(1) d0 lt less.prems(4)] obtain r where
          "?r = Inr r" "r \<noteq> None \<longleftrightarrow> n \<in> set (tl (split_names d))" "\<forall>q. r = Some q \<longrightarrow> 0 < q"
          unfolding ab(1,2) by blast
        then show ?thesis using step mem False by (auto simp: sn)
      qed
    qed
  qed
qed

text \<open>
  \<^verbatim>\<open>libssh2_kex_agree_instr\<close> finds a name exactly if it is one of the names of the list, and reports offset 0 exactly if
  it is the first.
\<close>

lemma agree_instr_correct:
  assumes "clean n" and "name_list h mem" and "length n < 2 ^ 24"
  obtains r where "libssh2_kex_agree_instr mem (of_nat (length h)) n = Inr r"
    and "r \<noteq> None \<longleftrightarrow> n \<in> set (split_names h)" and "r = Some 0 \<longleftrightarrow> n = hd (split_names h)"
proof -
  from assms(2) obtain rest where mem: "mem = h @ 0 # rest" and h: "0 \<notin> set h" "length h < 2 ^ 24"
    by (auto simp: name_list_def)
  have mm: "n \<in> set (split_names h) \<longleftrightarrow> n = hd (split_names h) \<or> n \<in> set (tl (split_names h))"
    by (metis list.collapse set_ConsD list.set_intros split_names_nonempty)
  have lt: "(of_nat (length h) :: u32) < of_nat (length n) \<longleftrightarrow> length h < length n"
    using of_nat_u32_less[of "length h" "length n"] h(2) assms(3) by simp
  show thesis
  proof (cases "length h < length n")
    case True
    then have "n \<notin> set (split_names h)" using split_names_length by (meson not_le)
    then show thesis using True lt mm by (intro that[of None]) (auto simp: libssh2_kex_agree_instr_def)
  next
    case False
    have at: "instr_at mem (of_nat (length h)) n 0 = Inr (n = hd (split_names h))"
      using instr_at_correct[of n "[]" h rest] False h(2) assms(1) mem by (simp add: clean_def)
    from instr_loop_correct[of n h "[]" rest] assms(1,3) h mem obtain r where r:
      "instr_loop mem (of_nat (length h)) n 0 = Inr r" "r \<noteq> None \<longleftrightarrow> n \<in> set (tl (split_names h))"
      "\<forall>q. r = Some q \<longrightarrow> 0 < q" by auto
    show thesis
      by (rule that[of "if n = hd (split_names h) then Some 0 else r"])
        (use at r False lt mm in \<open>auto simp: libssh2_kex_agree_instr_def\<close>)
  qed
qed

section \<open>The methods both sides know\<close>

text \<open>The rule of RFC 4253: the first of the client's methods that the server lists.\<close>

definition chosen :: "('m \<Rightarrow> string) \<Rightarrow> 'm list \<Rightarrow> bytes \<Rightarrow> 'm option" where
  "chosen nm ms h = find (\<lambda>m. ascii (nm m) \<in> set (split_names h)) ms"

definition clean_table :: "string list \<Rightarrow> bool" where
  "clean_table names \<longleftrightarrow> list_all (\<lambda>n. clean (ascii n) \<and> length n < 64) names"

lemma ascii_length [simp]: "length (ascii n) = length n"
  by (simp add: ascii_def)

lemma agree_table_first:
  assumes "clean_table (map nm ms)" and "name_list h mem" and "chosen nm ms h = Some m" and "\<And>q. use m q = Inr (Some (g q))"
  obtains q where "agree_table nm mem (of_nat (length h)) use at_end ms = Inr (Some (g q))"
    and "q = 0 \<longleftrightarrow> ascii (nm m) = hd (split_names h)"
  using assms(1,3)
proof (induction ms arbitrary: thesis)
  case (Cons a ms)
  have a: "clean (ascii (nm a))" "length (ascii (nm a)) < 2 ^ 24" and ms: "clean_table (map nm ms)"
    using Cons.prems(2) by (auto simp: clean_table_def)
  obtain r where r: "libssh2_kex_agree_instr mem (of_nat (length h)) (ascii (nm a)) = Inr r"
      "r \<noteq> None \<longleftrightarrow> ascii (nm a) \<in> set (split_names h)" "r = Some 0 \<longleftrightarrow> ascii (nm a) = hd (split_names h)"
    by (rule agree_instr_correct[OF a(1) assms(2) a(2)]) blast
  show ?case
  proof (cases r)
    case None
    then have "chosen nm ms h = Some m" using r(2) Cons.prems(3) by (simp add: chosen_def)
    from Cons.IH[OF _ ms this] obtain q where
      "agree_table nm mem (of_nat (length h)) use at_end ms = Inr (Some (g q))" "q = 0 \<longleftrightarrow> ascii (nm m) = hd (split_names h)"
      by blast
    then show ?thesis using r(1) None by (intro Cons.prems(1)[of q]) simp_all
  next
    case (Some q)
    then have "a = m" using r(2) Cons.prems(3) by (simp add: chosen_def)
    then show ?thesis using r Some assms(4) by (intro Cons.prems(1)[of q]) simp_all
  qed
qed (simp add: chosen_def)

lemma agree_table_stop:
  assumes "clean_table (map nm ms)" and "name_list h mem" and "chosen nm ms h = Some m" and "\<And>q. use m q = Inl e"
  shows "agree_table nm mem (of_nat (length h)) use at_end ms = Inl e"
  using assms(1,3)
proof (induction ms)
  case (Cons a ms)
  have a: "clean (ascii (nm a))" "length (ascii (nm a)) < 2 ^ 24" and ms: "clean_table (map nm ms)"
    using Cons.prems(1) by (auto simp: clean_table_def)
  obtain r where r: "libssh2_kex_agree_instr mem (of_nat (length h)) (ascii (nm a)) = Inr r"
      "r \<noteq> None \<longleftrightarrow> ascii (nm a) \<in> set (split_names h)"
    by (rule agree_instr_correct[OF a(1) assms(2) a(2)]) blast
  show ?case
    using r Cons.prems(2) Cons.IH[OF ms] assms(4) by (cases r) (auto simp: chosen_def)
qed (simp add: chosen_def)

lemma agree_table_none:
  assumes "clean_table (map nm ms)" and "name_list h mem" and "chosen nm ms h = None"
  shows "agree_table nm mem (of_nat (length h)) use at_end ms = at_end"
  using assms(1,3)
proof (induction ms)
  case (Cons a ms)
  have a: "clean (ascii (nm a))" "length (ascii (nm a)) < 2 ^ 24" "clean_table (map nm ms)"
    using Cons.prems(1) by (auto simp: clean_table_def)
  have n: "ascii (nm a) \<notin> set (split_names h)" "chosen nm ms h = None"
    using Cons.prems(2) by (auto simp: chosen_def split: if_splits)
  obtain r where "libssh2_kex_agree_instr mem (of_nat (length h)) (ascii (nm a)) = Inr r"
      "r \<noteq> None \<longleftrightarrow> ascii (nm a) \<in> set (split_names h)"
    by (rule agree_instr_correct[OF a(1) assms(2) a(2)]) blast
  then show ?case using n Cons.IH[OF a(3) n(2)] by simp
qed simp

text \<open>The tables are clean, and every host key suits every key exchange.\<close>

lemma tables_clean:
  "clean_table (map kex_name libssh2_kex_methods)"
  "clean_table (map hk_name (libssh2_hostkey_methods C))"
  "clean_table (map crypt_name (libssh2_crypt_methods C))"
  "clean_table (map mac_name (libssh2_mac_methods C))"
  "clean_table (map comp_name (libssh2_comp_methods C))"
proof -
  have "clean_table [''diffie-hellman-group14-sha1'', ''diffie-hellman-group-exchange-sha1'', ''diffie-hellman-group1-sha1'']"
    by code_simp
  then show "clean_table (map kex_name libssh2_kex_methods)" by (simp add: libssh2_kex_methods_def)
  have "clean_table [''ssh-rsa'', ''ssh-dss'']" by code_simp
  then show "clean_table (map hk_name (libssh2_hostkey_methods C))" by (simp add: libssh2_hostkey_methods_def)
  have "clean_table [''aes256-cbc'', ''rijndael-cbc@lysator.liu.se'', ''aes192-cbc'', ''aes128-cbc'', ''blowfish-cbc'',
      ''arcfour'', ''cast128-cbc'', ''3des-cbc'']" by code_simp
  then show "clean_table (map crypt_name (libssh2_crypt_methods C))"
    by (simp add: libssh2_crypt_methods_def evp_entry_def)
  have "clean_table [''hmac-sha1'', ''hmac-sha1-96'', ''hmac-md5'', ''hmac-md5-96'', ''hmac-ripemd160'',
      ''hmac-ripemd160@openssh.com'']" by code_simp
  then show "clean_table (map mac_name (libssh2_mac_methods C))"
    by (simp add: libssh2_mac_methods_def mac_entry_def)
  have "clean_table [''none'', ''zlib'']" by code_simp
  then show "clean_table (map comp_name (libssh2_comp_methods C))" by (simp add: libssh2_comp_methods_def)
qed

lemma kex_flags_sign: "m \<in> set libssh2_kex_methods \<Longrightarrow> kex_flags m = REQ_SIGN_HOSTKEY"
  by (auto simp: libssh2_kex_methods_def)

lemma hostkey_suits_all: "h \<in> set (libssh2_hostkey_methods C) \<Longrightarrow> hostkey_suits REQ_SIGN_HOSTKEY h"
  by (auto simp: libssh2_hostkey_methods_def hostkey_suits_def)

lemma chosen_in: "chosen nm ms h = Some m \<Longrightarrow> m \<in> set ms \<and> ascii (nm m) \<in> set (split_names h)"
  by (auto simp: chosen_def find_Some_iff)

text \<open>A user who set no preferences.\<close>

definition no_prefs :: "'c startup \<Rightarrow> bool" where
  "no_prefs u \<longleftrightarrow> kex_prefs u = None \<and> hostkey_prefs u = None
     \<and> (\<forall>b. crypt_prefs (the_side b u) = None \<and> mac_prefs (the_side b u) = None \<and> comp_prefs (the_side b u) = None)"

lemma no_prefs_upd:
  assumes "\<And>d. crypt_prefs (f d) = crypt_prefs d" "\<And>d. mac_prefs (f d) = mac_prefs d" "\<And>d. comp_prefs (f d) = comp_prefs d"
  shows "no_prefs (upd_side b f g u) = no_prefs u"
  using assms by (cases b) (auto simp: no_prefs_def upd_side_def the_side_def all_bool_eq)

lemma agree_hostkey_first:
  assumes "name_list h mem" and "chosen hk_name (libssh2_hostkey_methods C) h = Some x" and "k \<in> set libssh2_kex_methods"
  shows "libssh2_kex_agree_hostkey C None (kex_flags k) mem (of_nat (length h)) = Inr (Some x)"
proof -
  have "hostkey_suits (kex_flags k) x"
    using hostkey_suits_all chosen_in[OF assms(2)] kex_flags_sign[OF assms(3)] by auto
  then show ?thesis
    using agree_table_first[OF tables_clean(2) assms(1,2), of "\<lambda>m q. Inr (if hostkey_suits (kex_flags k) m then Some m else None)" "\<lambda>q. x" "Inl Undefined"]
    by (auto simp: libssh2_kex_agree_hostkey_def)
qed

lemma agree_kex_first:
  assumes "no_prefs u" and "name_list kl km" and "name_list hl hm"
    and "chosen kex_name libssh2_kex_methods kl = Some k" and "chosen hk_name (libssh2_hostkey_methods C) hl = Some x"
  shows "libssh2_kex_agree_kex_hostkey C km (of_nat (length kl)) hm (of_nat (length hl)) u
    = Inr (0, u\<lparr>hostkey := Some x, kex := Some k,
        burn_optimistic_kexinit := burn_optimistic_kexinit u \<and> ascii (kex_name k) \<noteq> hd (split_names kl)\<rparr>)"
proof -
  have hk: "libssh2_kex_agree_hostkey C None (kex_flags k) hm (of_nat (length hl)) = Inr (Some x)"
    using agree_hostkey_first[OF assms(3,5)] chosen_in[OF assms(4)] by simp
  show ?thesis
    by (rule agree_table_first[OF tables_clean(1) assms(2,4),
        of "\<lambda>m q. sbind (libssh2_kex_agree_hostkey C None (kex_flags m) hm (of_nat (length hl))) (\<lambda>r.
              Inr (map_option (\<lambda>h. u\<lparr>hostkey := Some h, kex := Some m,
                burn_optimistic_kexinit := burn_optimistic_kexinit u \<and> q \<noteq> 0\<rparr>) r))"
           "\<lambda>q. u\<lparr>hostkey := Some x, kex := Some k, burn_optimistic_kexinit := burn_optimistic_kexinit u \<and> q \<noteq> 0\<rparr>" "Inr None"])
      (use assms(1) hk in \<open>simp_all add: libssh2_kex_agree_kex_hostkey_def no_prefs_def Let_def\<close>)
qed

lemma agree_method_first:
  assumes "clean_table (map nm ms)" and "name_list h mem" and "chosen nm ms h = Some m"
  shows "agree_method nm ms None mem (of_nat (length h)) put u = Inr (0, put m u)"
  by (rule agree_table_first[OF assms, of "\<lambda>m q. Inr (Some m)" "\<lambda>q. m" "Inr None"]) (simp_all add: agree_method_def)

section \<open>The packet \<^verbatim>\<open>KEXINIT\<close>\<close>

definition wire_string :: "bytes \<Rightarrow> bytes" where
  "wire_string b = libssh2_htonu32 (of_nat (length b)) @ b"

definition kexinit_packet :: "bytes \<Rightarrow> bytes list \<Rightarrow> u8 \<Rightarrow> bytes \<Rightarrow> bytes" where
  "kexinit_packet cookie ls follows rest =
     SSH_MSG_KEXINIT # cookie @ concat (map wire_string ls) @ follows # rest"

fun list_tails :: "bytes list \<Rightarrow> bytes \<Rightarrow> (bytes \<times> u32) list" where
  "list_tails [] post = []"
| "list_tails (l # ls) post = (l @ concat (map wire_string ls) @ post, of_nat (length l)) # list_tails ls post"

lemma uint_u32: "n < 2 ^ 32 \<Longrightarrow> uint (of_nat n :: u32) = int n"
  by (simp add: uint_nat unat_u32)

lemma locate_lists_packet:
  assumes "\<forall>l\<in>set ls. length l < 2 ^ 24"
  shows "locate_lists (length ls) (pre @ concat (map wire_string ls) @ post) (int (length pre))
    = Inr (list_tails ls post, int (length pre + length (concat (map wire_string ls))))"
  using assms
proof (induction ls arbitrary: pre)
  case (Cons l ls)
  let ?d = "pre @ concat (map wire_string (l # ls)) @ post" and ?pre = "pre @ wire_string l"
  have u: "uint (of_nat (length l) :: u32) = int (length l)" using Cons.prems by (intro uint_u32) auto
  have d: "?d = ?pre @ concat (map wire_string ls) @ post" by simp
  have r: "rd32 ?d (int (length pre)) = Inr (of_nat (length l))"
    using rd32_at[of "int (length pre)" pre "of_nat (length l)"] by (simp add: wire_string_def)
  have nx: "int (length pre) + 4 + int (length l) = int (length ?pre)" by (simp add: wire_string_def libssh2_htonu32_def)
  have ih: "locate_lists (length ls) ?d (int (length ?pre))
      = Inr (list_tails ls post, int (length ?pre + length (concat (map wire_string ls))))"
    unfolding d by (rule Cons.IH) (use Cons.prems in simp)
  have dr: "drop (nat (int (length pre) + 4)) ?d = l @ concat (map wire_string ls) @ post"
    by (simp add: wire_string_def libssh2_htonu32_def nat_add_distrib)
  show ?case
    unfolding length_Cons locate_lists.simps(2) r sbind_simps u nx ih dr
    by (simp del: of_nat_add add: add.assoc)
qed simp

lemma htonu32_small: "n < 2 ^ 24 \<Longrightarrow> \<exists>rest. libssh2_htonu32 (of_nat n) = 0 # rest"
proof -
  assume n: "n < 2 ^ 24"
  have "drop_bit 24 (of_nat n :: u32) = 0"
    by (rule word_unat_eq_iff[THEN iffD2]) (use n in \<open>simp add: unat_drop_bit_eq unat_u32 drop_bit_nat_def\<close>)
  then show ?thesis by (simp add: libssh2_htonu32_def)
qed

lemma name_list_wire:
  assumes "0 \<notin> set l" and "length l < 2 ^ 24" and "length l' < 2 ^ 24"
  shows "name_list l (l @ wire_string l' @ rest)"
  using assms htonu32_small[OF assms(3)] by (auto simp: name_list_def wire_string_def)

definition fair_list :: "bytes \<Rightarrow> bool" where
  "fair_list l \<longleftrightarrow> 0 \<notin> set l \<and> length l < 2 ^ 24"

lemma locate_kexinit:
  assumes "length cookie = 16" and "length ls = 10" and "\<forall>l\<in>set ls. length l < 2 ^ 24"
  shows "\<exists>e. locate_lists 10 (kexinit_packet cookie ls follows rest) 17 = Inr (list_tails ls (follows # rest), e)
    \<and> rd8 (kexinit_packet cookie ls follows rest) e = Inr follows"
proof -
  let ?pre = "SSH_MSG_KEXINIT # cookie"
  have l: "int (length ?pre) = 17" using assms(1) by simp
  have "rd8 (?pre @ concat (map wire_string ls) @ follows # rest) (int (length ?pre + length (concat (map wire_string ls)))) = Inr follows"
    by (simp add: rd8_def nth_append nat_add_distrib del: of_nat_add of_nat_Suc)
  then show ?thesis
    using locate_lists_packet[OF assms(3), of ?pre "follows # rest"] unfolding l assms(2) kexinit_packet_def
    by simp
qed

definition comp_ready :: "bool \<Rightarrow> 'c named_comp \<Rightarrow> bool" where
  "comp_ready b z \<longleftrightarrow> (case comp_init z of None \<Rightarrow> True | Some f \<Rightarrow> f b \<noteq> None)"

lemma init_comp_ok:
  assumes "comp (the_side b u) = Some z" and "comp_ready b z"
  shows "\<exists>c. init_comp b u = Inr (0, upd_side b (\<lambda>d. d) (\<lambda>e. e\<lparr>comp_abstract := c e\<rparr>) u)"
proof (cases "comp_init z")
  case None
  then show ?thesis using assms(1)
    by (intro exI[of _ comp_abstract]) (simp add: init_comp_def upd_side_def)
next
  case (Some f)
  with assms obtain c where "f b = Some c" by (auto simp: comp_ready_def)
  then show ?thesis using assms(1) Some
    by (intro exI[of _ "\<lambda>_. Handle c"]) (simp add: init_comp_def)
qed

lemmas agree_steps = libssh2_kex_agree_crypt_def libssh2_kex_agree_mac_def libssh2_kex_agree_comp_def

lemma no_prefs_side: "no_prefs u \<Longrightarrow> crypt_prefs (the_side b u) = None \<and> mac_prefs (the_side b u) = None \<and> comp_prefs (the_side b u) = None"
  by (simp add: no_prefs_def)

lemma agree_side_first:
  assumes "no_prefs u" and "name_list h mem"
  shows "chosen crypt_name (libssh2_crypt_methods C) h = Some a \<Longrightarrow>
      libssh2_kex_agree_crypt C b mem (of_nat (length h)) u = Inr (0, upd_side b (\<lambda>d. d\<lparr>crypt := Some a\<rparr>) (use_crypt a) u)"
    and "chosen mac_name (libssh2_mac_methods C) h = Some m \<Longrightarrow>
      libssh2_kex_agree_mac C b mem (of_nat (length h)) u = Inr (0, upd_side b (\<lambda>d. d\<lparr>mac := Some m\<rparr>) (use_mac m) u)"
    and "chosen comp_name (libssh2_comp_methods C) h = Some z \<Longrightarrow>
      libssh2_kex_agree_comp C b mem (of_nat (length h)) u = Inr (0, upd_side b (\<lambda>d. d\<lparr>comp := Some z\<rparr>) (use_comp z) u)"
  using assms(2) no_prefs_side[OF assms(1)] by (simp_all add: agree_steps agree_method_first tables_clean)

lemma no_prefs_kept [simp]:
  "no_prefs (upd_side b (\<lambda>d. d\<lparr>crypt := a\<rparr>) g u) = no_prefs u" "no_prefs (upd_side b (\<lambda>d. d\<lparr>mac := m\<rparr>) g u) = no_prefs u"
  "no_prefs (upd_side b (\<lambda>d. d\<lparr>comp := z\<rparr>) g u) = no_prefs u"
  "no_prefs (u\<lparr>hostkey := h\<rparr>) = no_prefs u" "no_prefs (u\<lparr>kex := k\<rparr>) = no_prefs u"
  "no_prefs (u\<lparr>burn_optimistic_kexinit := t\<rparr>) = no_prefs u"
  by (simp_all add: no_prefs_upd) (simp_all add: no_prefs_def the_side_def)

text \<open>(C26)
  Client and server agree as RFC 4253 asks.  For a user without preferences and a server whose lists each
  contain a method the client knows, \<^verbatim>\<open>libssh2_kex_agree_methods\<close> succeeds, whatever else the lists contain, and
  each method is the first one of the client's table that the server lists.  The packet layer is told
  the ciphers, MACs and compression.  A packet the server has already sent is dropped later unless
  its guess was the method agreed on.
\<close>

theorem methods_agreed:
  assumes "no_prefs u" and "length cookie = 16"
    and "\<forall>l\<in>set [kl, hl, c1, c2, m1, m2, z1, z2, l1, l2]. fair_list l"
    and "chosen kex_name libssh2_kex_methods kl = Some k" and "chosen hk_name (libssh2_hostkey_methods C) hl = Some x"
    and "chosen crypt_name (libssh2_crypt_methods C) c1 = Some a1" and "chosen crypt_name (libssh2_crypt_methods C) c2 = Some a2"
    and "chosen mac_name (libssh2_mac_methods C) m1 = Some b1" and "chosen mac_name (libssh2_mac_methods C) m2 = Some b2"
    and "chosen comp_name (libssh2_comp_methods C) z1 = Some d1" and "chosen comp_name (libssh2_comp_methods C) z2 = Some d2"
    and "comp_ready True d1" and "comp_ready False d2"
  shows "\<exists>u'. libssh2_kex_agree_methods C (kexinit_packet cookie [kl, hl, c1, c2, m1, m2, z1, z2, l1, l2] follows rest) u
      = Inr (0, u')
    \<and> kex u' = Some k \<and> hostkey u' = Some x
    \<and> burn_optimistic_kexinit u' = (bit follows 0 \<and> ascii (kex_name k) \<noteq> hd (split_names kl))
    \<and> crypt (side_local u') = Some a1 \<and> mac (side_local u') = Some b1 \<and> comp (side_local u') = Some d1
    \<and> crypt (side_remote u') = Some a2 \<and> mac (side_remote u') = Some b2 \<and> comp (side_remote u') = Some d2
    \<and> ep_crypt (ep_local (base u')) = crypt_table a1 \<and> ep_mac (ep_local (base u')) = mac_table b1
    \<and> ep_comp (ep_local (base u')) = Some (comp_table d1)
    \<and> ep_crypt (ep_remote (base u')) = crypt_table a2 \<and> ep_mac (ep_remote (base u')) = mac_table b2
    \<and> ep_comp (ep_remote (base u')) = Some (comp_table d2)"
proof -
  let ?ls = "[kl, hl, c1, c2, m1, m2, z1, z2, l1, l2]"
  let ?post = "follows # rest"
  have fair: "0 \<notin> set l \<and> length l < 2 ^ 24" if "l \<in> set ?ls" for l using that assms(3) unfolding fair_list_def by blast
  have fl: "\<forall>l\<in>set ?ls. length l < 2 ^ 24" using fair by blast
  obtain e where e: "locate_lists 10 (kexinit_packet cookie ?ls follows rest) 17 = Inr (list_tails ?ls ?post, e)"
      "rd8 (kexinit_packet cookie ?ls follows rest) e = Inr follows"
    using locate_kexinit[OF assms(2) _ fl] by auto
  have nl: "name_list l (l @ wire_string l' @ r)" if "l \<in> set ?ls" "l' \<in> set ?ls" for l l' r
    using fair[OF that(1)] fair[OF that(2)] by (intro name_list_wire) auto
  let ?u0 = "u\<lparr>hostkey := Some x, kex := Some k,
      burn_optimistic_kexinit := bit follows 0 \<and> ascii (kex_name k) \<noteq> hd (split_names kl)\<rparr>"
  let ?u1 = "upd_side True (\<lambda>d. d\<lparr>crypt := Some a1\<rparr>) (use_crypt a1) ?u0"
  let ?u2 = "upd_side False (\<lambda>d. d\<lparr>crypt := Some a2\<rparr>) (use_crypt a2) ?u1"
  let ?u3 = "upd_side True (\<lambda>d. d\<lparr>mac := Some b1\<rparr>) (use_mac b1) ?u2"
  let ?u4 = "upd_side False (\<lambda>d. d\<lparr>mac := Some b2\<rparr>) (use_mac b2) ?u3"
  let ?u5 = "upd_side True (\<lambda>d. d\<lparr>comp := Some d1\<rparr>) (use_comp d1) ?u4"
  let ?u6 = "upd_side False (\<lambda>d. d\<lparr>comp := Some d2\<rparr>) (use_comp d2) ?u5"
  have "comp (the_side True ?u6) = Some d1" by (simp add: the_side_def upd_side_def)
  from init_comp_ok[OF this assms(12)] obtain g1 where
    g1: "init_comp True ?u6 = Inr (0, upd_side True (\<lambda>d. d) (\<lambda>e. e\<lparr>comp_abstract := g1 e\<rparr>) ?u6)" by blast
  let ?u7 = "upd_side True (\<lambda>d. d) (\<lambda>e. e\<lparr>comp_abstract := g1 e\<rparr>) ?u6"
  have "comp (the_side False ?u7) = Some d2" by (simp add: the_side_def upd_side_def)
  from init_comp_ok[OF this assms(13)] obtain g2 where
    g2: "init_comp False ?u7 = Inr (0, upd_side False (\<lambda>d. d) (\<lambda>e. e\<lparr>comp_abstract := g2 e\<rparr>) ?u7)" by blast
  let ?u8 = "upd_side False (\<lambda>d. d) (\<lambda>e. e\<lparr>comp_abstract := g2 e\<rparr>) ?u7"
  have kx: "libssh2_kex_agree_kex_hostkey C (kl @ wire_string hl @ r) (of_nat (length kl)) (hl @ wire_string c1 @ r') (of_nat (length hl))
      (u\<lparr>burn_optimistic_kexinit := bit follows 0\<rparr>) = Inr (0, ?u0)" for r r'
    using agree_kex_first[OF _ nl nl assms(4,5), of "u\<lparr>burn_optimistic_kexinit := bit follows 0\<rparr>"] assms(1) by simp
  have np: "no_prefs ?u0" "no_prefs ?u1" "no_prefs ?u2" "no_prefs ?u3" "no_prefs ?u4" "no_prefs ?u5"
    using assms(1) by simp_all
  have st:
    "libssh2_kex_agree_crypt C True (c1 @ wire_string c2 @ r) (of_nat (length c1)) ?u0 = Inr (0, ?u1)"
    "libssh2_kex_agree_crypt C False (c2 @ wire_string m1 @ r) (of_nat (length c2)) ?u1 = Inr (0, ?u2)"
    "libssh2_kex_agree_mac C True (m1 @ wire_string m2 @ r) (of_nat (length m1)) ?u2 = Inr (0, ?u3)"
    "libssh2_kex_agree_mac C False (m2 @ wire_string z1 @ r) (of_nat (length m2)) ?u3 = Inr (0, ?u4)"
    "libssh2_kex_agree_comp C True (z1 @ wire_string z2 @ r) (of_nat (length z1)) ?u4 = Inr (0, ?u5)"
    "libssh2_kex_agree_comp C False (z2 @ wire_string l1 @ r) (of_nat (length z2)) ?u5 = Inr (0, ?u6)" for r
    by (rule agree_side_first(1)[OF np(1) nl assms(6)] agree_side_first(1)[OF np(2) nl assms(7)]
        agree_side_first(2)[OF np(3) nl assms(8)] agree_side_first(2)[OF np(4) nl assms(9)]
        agree_side_first(3)[OF np(5) nl assms(10)] agree_side_first(3)[OF np(6) nl assms(11)]; simp)+
  have "libssh2_kex_agree_methods C (kexinit_packet cookie ?ls follows rest) u = Inr (0, ?u8)"
    by (simp add: libssh2_kex_agree_methods_def e Let_def kx st g1 g2)
  then show ?thesis
    by (simp add: upd_side_def use_crypt_def use_mac_def use_comp_def)
qed


text \<open>If the server's list of host keys has none the client knows, while a key exchange method is common,
  the search runs past the end of the client's table and reads the name of a NULL pointer.
\<close>

theorem no_common_hostkey_crashes:
  assumes "no_prefs u" and "length cookie = 16" and "length ls = 10" and "\<forall>l\<in>set ls. fair_list l"
    and "chosen kex_name libssh2_kex_methods (ls ! 0) = Some k"
    and "chosen hk_name (libssh2_hostkey_methods C) (ls ! 1) = None"
  shows "libssh2_kex_agree_methods C (kexinit_packet cookie ls follows rest) u = Inl Undefined"
proof -
  obtain kl hl c l' ls' where ls: "ls = kl # hl # c # l' # ls'"
    using assms(3) by (auto simp: numeral_eq_Suc length_Suc_conv)
  have fair: "0 \<notin> set l \<and> length l < 2 ^ 24" if "l \<in> set ls" for l using that assms(4) unfolding fair_list_def by blast
  obtain e where e: "locate_lists 10 (kexinit_packet cookie ls follows rest) 17 = Inr (list_tails ls (follows # rest), e)"
      "rd8 (kexinit_packet cookie ls follows rest) e = Inr follows"
    using locate_kexinit[OF assms(2,3)] fair by blast
  have nl: "name_list kl (kl @ wire_string hl @ r)" "name_list hl (hl @ wire_string c @ r)" for r
    using fair[of kl] fair[of hl] fair[of c] unfolding ls by (simp_all add: name_list_wire)
  have hk: "libssh2_kex_agree_hostkey C None (kex_flags k) (hl @ wire_string c @ r) (of_nat (length hl)) = Inl Undefined" for r
    using agree_table_none[OF tables_clean(2) nl(2)] assms(6) ls by (simp add: libssh2_kex_agree_hostkey_def)
  have at: "agree_table kex_name (kl @ wire_string hl @ r) (of_nat (length kl))
      (\<lambda>m q. sbind (libssh2_kex_agree_hostkey C None (kex_flags m) (hl @ wire_string c @ r') (of_nat (length hl))) (F m q))
      (Inr None) libssh2_kex_methods = Inl Undefined" for r r' F
    using assms(5) ls by (intro agree_table_stop[OF tables_clean(1) nl(1), of k]) (simp, subst hk, simp)
  have "libssh2_kex_agree_kex_hostkey C (kl @ wire_string hl @ r) (of_nat (length kl)) (hl @ wire_string c @ r') (of_nat (length hl))
      (u\<lparr>burn_optimistic_kexinit := b\<rparr>) = Inl Undefined" for r r' b
    using assms(1) by (simp add: libssh2_kex_agree_kex_hostkey_def no_prefs_def Let_def at)
  then show ?thesis unfolding ls by (simp add: libssh2_kex_agree_methods_def e[unfolded ls] Let_def)
qed


section \<open>What the client announces\<close>

fun join_names :: "string list \<Rightarrow> bytes" where
  "join_names [] = []"
| "join_names [n] = ascii n"
| "join_names (n # ns) = ascii n @ COMMA # join_names ns"

definition offered :: "bytes option \<times> string list \<Rightarrow> bytes" where
  "offered l = (case l of (Some p, _) \<Rightarrow> p | (None, names) \<Rightarrow> join_names names)"

lemma join_names_commas: "names \<noteq> [] \<Longrightarrow> concat (map (\<lambda>n. ascii n @ [COMMA]) names) = join_names names @ [COMMA]"
  by (induction names rule: join_names.induct) auto

lemma strlen_join: "libssh2_kex_method_strlen names = length (join_names names)"
proof (cases "names = []")
  case False
  have "sum_list (map (\<lambda>n. length n + 1) names) = length (concat (map (\<lambda>n. ascii n @ [COMMA]) names))"
    by (induction names) simp_all
  with False show ?thesis by (simp add: libssh2_kex_method_strlen_def join_names_commas)
qed (simp add: libssh2_kex_method_strlen_def)

lemma prefs_len_offered: "METHOD_PREFS_LEN p names = length (offered (p, names))"
  by (cases p) (simp_all add: METHOD_PREFS_LEN_def offered_def strlen_join)

lemma wrn_end:
  assumes "length x \<le> length mid"
  shows "wrn (pre @ mid) (int (length pre)) x = Inr (pre @ x @ drop (length x) mid)"
  using assms by (simp add: wrn_def)

lemma wrn_skip:
  assumes "off = int (length (pre @ a))" and "length x \<le> length mid"
  shows "wrn (pre @ a @ mid) off x = Inr (pre @ a @ x @ drop (length x) mid)"
  using wrn_end[of x mid "pre @ a"] assms by simp

lemma put_list:
  assumes "length (wire_string (offered l)) < length mid"
  obtains mid' where "METHOD_PREFS_STR l (pre @ mid, int (length pre))
      = Inr ((pre @ wire_string (offered l)) @ mid', int (length (pre @ wire_string (offered l))))"
    and "length mid' = length mid - length (wire_string (offered l))"
proof -
  obtain p names where l: "l = (p, names)" by (cases l)
  let ?o = "offered (p, names)"
  have room: "4 + length ?o < length mid" using assms l by (simp add: wire_string_def)
  let ?h = "libssh2_htonu32 (of_nat (length ?o))"
  have h: "wrn (pre @ mid) (int (length pre)) ?h = Inr (pre @ ?h @ drop 4 mid)"
    using room by (subst wrn_end) simp_all
  have two: "wrn (pre @ ?h @ drop 4 mid) (int (length pre) + 4) x = Inr (pre @ ?h @ x @ drop (4 + length x) mid)"
    if "length x \<le> length ?o + 1" for x
    using wrn_skip[of "int (length pre) + 4" pre ?h x "drop 4 mid"] room that by (simp add: add.commute)
  show thesis
  proof (cases p)
    case (Some q)
    with two[of q] h show thesis
      by (intro that[of "drop (4 + length q) mid"])
        (simp_all add: l METHOD_PREFS_STR_def prefs_len_offered offered_def wire_string_def Let_def)
  next
    case None
    show thesis
    proof (cases "names = []")
      case True
      with h None show thesis
        by (intro that[of "drop 4 mid"])
          (simp_all add: l METHOD_PREFS_STR_def prefs_len_offered offered_def wire_string_def libssh2_kex_method_list_def)
    next
      case False
      have o: "?o = join_names names" using None by (simp add: offered_def)
      with two[of "join_names names @ [COMMA]"] h None False show thesis
        by (intro that[of "COMMA # drop (5 + length ?o) mid"])
          (use room in \<open>simp_all add: l METHOD_PREFS_STR_def prefs_len_offered wire_string_def libssh2_kex_method_list_def join_names_commas Let_def\<close>)
    qed
  qed
qed

lemma put_lists_end:
  assumes "length (concat (map (\<lambda>l. wire_string (offered l)) ls)) < length mid"
  obtains mid' where "put_lists ls (pre @ mid, int (length pre))
      = Inr ((pre @ concat (map (\<lambda>l. wire_string (offered l)) ls)) @ mid', int (length (pre @ concat (map (\<lambda>l. wire_string (offered l)) ls))))"
    and "length mid' = length mid - length (concat (map (\<lambda>l. wire_string (offered l)) ls))"
  using assms
proof (induction ls arbitrary: pre mid thesis)
  case Nil
  then show ?case by simp
next
  case (Cons l ls)
  obtain mid1 where m1: "METHOD_PREFS_STR l (pre @ mid, int (length pre))
      = Inr ((pre @ wire_string (offered l)) @ mid1, int (length (pre @ wire_string (offered l))))"
    "length mid1 = length mid - length (wire_string (offered l))"
    using put_list[of l mid pre] Cons.prems(2) by auto
  have "length (concat (map (\<lambda>l. wire_string (offered l)) ls)) < length mid1" using Cons.prems(2) m1(2) by simp
  from Cons.IH[OF _ this, of "pre @ wire_string (offered l)"] obtain mid' where
    "put_lists ls ((pre @ wire_string (offered l)) @ mid1, int (length (pre @ wire_string (offered l))))
      = Inr (((pre @ wire_string (offered l)) @ concat (map (\<lambda>l. wire_string (offered l)) ls)) @ mid',
          int (length ((pre @ wire_string (offered l)) @ concat (map (\<lambda>l. wire_string (offered l)) ls))))"
    "length mid' = length mid1 - length (concat (map (\<lambda>l. wire_string (offered l)) ls))" by blast
  with m1 show ?case by (intro Cons.prems(1)[of mid']) simp_all
qed


text \<open>\<^verbatim>\<open>libssh2_kexinit\<close> writes nothing outside its buffer and hands the packet layer exactly the packet of RFC 4253: a
  cookie, the preferences of the user or else the names of the tables, each list with its length, no
  guess and a reserved zero.  The comma behind the last name of each table is overwritten.
\<close>

theorem kexinit_sent:
  assumes "length cookie = 16" and "alloc_ok (base u) = []"
  shows "libssh2_kexinit env C cookie u =
    (let data = kexinit_packet cookie (map offered (kexinit_lists C u)) 0 [0, 0, 0, 0]
     in sbind (libssh2_packet_write env data (base u)) (\<lambda>(rc, s).
        if rc \<noteq> 0 then
          Inr (-1, u\<lparr>base := libssh2_error ERROR_SOCKET_SEND ''Unable to send KEXINIT packet to remote host'' s\<rparr>)
        else Inr (0, u\<lparr>base := s, side_local := (side_local u)\<lparr>kexinit := Some data\<rparr>\<rparr>)))"
proof -
  let ?ls = "kexinit_lists C u" and ?pre = "SSH_MSG_KEXINIT # cookie"
  let ?con = "concat (map (\<lambda>l. wire_string (offered l)) ?ls)"
  let ?n = "62 + sum_list (map (\<lambda>(p, n). METHOD_PREFS_LEN p n) ?ls)"
  have l10: "length ?ls = 10" by (simp add: kexinit_lists_def Let_def)
  have "length (concat (map (\<lambda>l. wire_string (offered l)) xs)) = 4 * length xs + sum_list (map (\<lambda>(p, n). METHOD_PREFS_LEN p n) xs)" for xs
    by (induction xs) (auto simp: wire_string_def prefs_len_offered)
  then have n: "?n = 17 + (length ?con + 5)" by (simp add: l10)
  let ?junk = "map (e_junk env) [0..<?n]"
  let ?mid = "drop 17 ?junk"
  have w1: "wrn ?junk 0 ?pre = Inr (?pre @ ?mid)"
    using wrn_end[of ?pre ?junk "[]"] assms(1) by (simp add: n)
  have lm: "length ?con < length ?mid" by (simp add: n)
  obtain mid' where m: "put_lists ?ls (?pre @ ?mid, int (length ?pre)) = Inr ((?pre @ ?con) @ mid', int (length (?pre @ ?con)))"
    and lm': "length mid' = length ?mid - length ?con"
    by (rule put_lists_end[OF lm])
  have "length mid' = 5" using lm' by (simp add: n)
  then have w2: "wrn ((?pre @ ?con) @ mid') (int (length (?pre @ ?con))) [0, 0, 0, 0, 0] = Inr ((?pre @ ?con) @ [0, 0, 0, 0, 0])"
    by (subst wrn_end) simp_all
  have p: "kexinit_packet cookie (map offered ?ls) 0 [0, 0, 0, 0] = (?pre @ ?con) @ [0, 0, 0, 0, 0]"
  proof -
    have "map wire_string (map offered ?ls) = map (\<lambda>l. wire_string (offered l)) ?ls" by simp
    then show ?thesis unfolding kexinit_packet_def by (simp del: map_map)
  qed
  have s17: "int (length ?pre) = 17" using assms(1) by simp
  have al: "libssh2_alloc (base u) = (True, base u)" using assms(2) by (simp add: libssh2_alloc_def)
  show ?thesis
    unfolding libssh2_kexinit_def Let_def al prod.case w1 sbind_simps m[unfolded s17] w2 p by simp
qed


section \<open>Preferences\<close>

lemma cstr_at_prefix:
  assumes "0 \<notin> set a"
  shows "cstr_at (pre @ a @ 0 # rest) (length pre) = a"
  using assms by (auto simp: cstr_at_def takeWhile_append takeWhile_eq_all_conv)

lemma takeWhile_name: "COMMA \<notin> set n \<Longrightarrow> takeWhile (\<lambda>c. c \<noteq> COMMA) (n @ COMMA # m) = n"
  by (auto simp: takeWhile_append takeWhile_eq_all_conv)

text \<open>A preference list of an unsupported method and a supported one, for example
  \<^verbatim>\<open>foo,hmac-sha1\<close>, is accepted, but not stored as the supported method alone: the scan goes on in the
  middle of the name that was moved and cuts it off there.  What is left is not a method.
\<close>

theorem unsupported_preference_corrupts:
  assumes "method_names C t = Some names" and "clean n" and "n \<noteq> []" and "clean m" and "length n + 1 < length m"
    and "n \<notin> ascii ` set names" and "drop (length n + 1) m \<notin> ascii ` set names" and "alloc_ok (base u) = []"
  shows "libssh2_session_method_pref C t (n @ COMMA # m) u = Inr (0, set_prefs t (take (length n) m) u)"
proof -
  let ?b0 = "n @ COMMA # m @ [0]" and ?s = "Suc (length n)"
  define rest where "rest = drop (Suc (length m)) ?b0"
  define b1 where "b1 = m @ 0 # rest"
  have z: "0 \<notin> set n" "0 \<notin> set m" "COMMA \<notin> set n" "COMMA \<notin> set m" using assms(2,4) by (auto simp: clean_def)
  have c0: "cstr_at ?b0 0 = n @ COMMA # m"
    using cstr_at_prefix[of "n @ COMMA # m" "[]" "[]"] z by simp
  have mv: "mvn ?b0 0 (1 + int (length n)) (Suc (length m)) = Inr b1"
    by (simp add: mvn_def rdn_def wrn_def nat_add_distrib b1_def rest_def)
  have lt: "length (take ?s m) = ?s" using assms(5) by simp
  have "b1 = take ?s m @ drop ?s m @ 0 # rest" unfolding b1_def by (metis append.assoc append_take_drop_id)
  then have c1: "cstr_at b1 ?s = drop ?s m"
    using cstr_at_prefix[of "drop ?s m" "take ?s m" rest] lt z(2) by (metis in_set_dropD)
  have nc: "takeWhile (\<lambda>c. c \<noteq> COMMA) (drop ?s m) = drop ?s m"
    using z(4) by (auto simp: takeWhile_eq_all_conv dest: in_set_dropD)
  have l1: "strip_loop (Some names) b1 ?s = Inr (b1[length n := 0])"
    using assms(5,7) by (subst strip_loop.simps) (simp add: c1 nc)
  have l0: "strip_loop (Some names) ?b0 0 = Inr (b1[length n := 0])"
    using assms(6) l1 mv by (subst strip_loop.simps) (simp add: c0 takeWhile_name z(3))
  have "b1[length n := 0] = take (length n) m @ 0 # drop ?s b1"
    using assms(5) by (simp add: upd_conv_take_nth_drop b1_def)
  then have c2: "cstr_at (b1[length n := 0]) 0 = take (length n) m"
    using cstr_at_prefix[of "take (length n) m" "[]" "drop ?s b1"] z(2) by (auto dest: in_set_takeD)
  have ne: "take (length n) m \<noteq> []" using assms(3,5) by auto
  have "t \<noteq> METHOD_INVALID" using assms(1) by auto
  then show ?thesis
    using assms(8) l0 c2 ne assms(1) by (simp add: libssh2_session_method_pref_def libssh2_alloc_def)
qed


section \<open>Numbers\<close>

text \<open>
  What OpenSSL's manual says of its big numbers: \<^verbatim>\<open>BN_bin2bn\<close> reads a number from its big-endian bytes, \<^verbatim>\<open>BN_bn2bin\<close>
  writes it without leading zeros in \<^verbatim>\<open>BN_num_bytes\<close> bytes, \<^verbatim>\<open>BN_mod_exp\<close> computes a power modulo a number.
\<close>

definition big_endian :: "bytes \<Rightarrow> nat" where
  "big_endian b = foldl (\<lambda>n x. 256 * n + unat x) 0 b"

definition bignums :: "'c crypto \<Rightarrow> bool" where
  "bignums C \<longleftrightarrow> (\<forall>b. bin2bn C b = big_endian b)
     \<and> (\<forall>n. big_endian (bn2bin C n) = n \<and> length (bn2bin C n) = (bn_bits C n + 7) div 8)
     \<and> (\<forall>a b p. 0 < p \<longrightarrow> mod_exp C a b p = a ^ b mod p)"

lemma big_endian_snoc: "big_endian (b @ [x]) = 256 * big_endian b + unat x"
  by (simp add: big_endian_def)

lemma big_endian_append: "big_endian (a @ b) = 256 ^ length b * big_endian a + big_endian b"
  by (induction b rule: rev_induct) (simp_all add: big_endian_snoc append_assoc[symmetric] algebra_simps del: append_assoc, simp add: big_endian_def)

lemma big_endian_zeros [simp]: "big_endian (replicate k 0) = 0"
  by (induction k) (simp_all add: big_endian_def replicate_append_same[symmetric] del: replicate_Suc, simp_all add: big_endian_def)

text \<open>The signature made with a DSS key.  The packet must hold the two numbers of a signature in 20 bytes each;
  \<^verbatim>\<open>signv\<close> puts all the padding in front of the first.  If the second number has 20 bytes the halves are
  right; if it is shorter, the end of the first number slips into the second half, which then is not
  the second number any more, and the server refuses the client.
\<close>

theorem dss_signature_halves:
  assumes "bignums C" and "dsa_sign C key (sha1 C (concat vec)) = Some (r, s)"
    and "length (bn2bin C r) \<le> 20" and "length (bn2bin C s) \<le> 20"
  shows "\<exists>sig. ssh_dss_signv C key vec = Inr (Some sig) \<and> length sig = 40
    \<and> (length (bn2bin C s) = 20 \<longrightarrow> bin2bn C (take 20 sig) = r \<and> bin2bn C (drop 20 sig) = s)
    \<and> (length (bn2bin C s) < 20 \<and> r mod 256 \<noteq> 0 \<longrightarrow> bin2bn C (drop 20 sig) \<noteq> s)"
proof -
  let ?R = "bn2bin C r" and ?S = "bn2bin C s"
  let ?p = "40 - (length ?R + length ?S)"
  let ?sig = "replicate ?p 0 @ ?R @ ?S"
  have doc: "\<And>b. bin2bn C b = big_endian b" "\<And>n. big_endian (bn2bin C n) = n"
    "\<And>n. (bn_bits C n + 7) div 8 = length (bn2bin C n)" using assms(1) by (simp_all add: bignums_def)
  have pad: "40 - (int (length ?R) + int (length ?S)) = int ?p" using assms(3,4) by (simp add: of_nat_diff)
  have w1: "wrn (replicate 40 0) (int ?p) ?R = Inr (replicate ?p 0 @ ?R @ replicate (length ?S) 0)"
  proof -
    have "replicate 40 (0::u8) = replicate ?p 0 @ replicate (length ?R + length ?S) 0"
      using assms(3,4) by (simp flip: replicate_add)
    then show ?thesis using wrn_end[of ?R "replicate (length ?R + length ?S) 0" "replicate ?p 0"] by simp
  qed
  have w2: "wrn (replicate ?p 0 @ ?R @ replicate (length ?S) 0) (int ?p + int (length ?R)) ?S = Inr ?sig"
    using wrn_skip[of "int ?p + int (length ?R)" "replicate ?p 0" ?R ?S "replicate (length ?S) 0"] assms(3,4) by simp
  have sv: "ssh_dss_signv C key vec = Inr (Some ?sig)"
    using assms(2,3,4) w1 w2 by (simp add: ssh_dss_signv_def doc(3) Let_def pad del: of_nat_diff)
  have good: "bin2bn C (take 20 ?sig) = r \<and> bin2bn C (drop 20 ?sig) = s" if "length ?S = 20"
  proof -
    have "length (replicate ?p (0::u8) @ ?R) = 20" using assms(3) that by simp
    then have "take 20 ?sig = replicate ?p 0 @ ?R" "drop 20 ?sig = ?S" by (metis append.assoc append_eq_conv_conj)+
    then show ?thesis by (simp add: doc big_endian_append)
  qed
  have bad: "bin2bn C (drop 20 ?sig) \<noteq> s" if "length ?S < 20" and "r mod 256 \<noteq> 0"
  proof -
    have "?R \<noteq> []" using doc(2)[of r] that(2) by (auto simp: big_endian_def)
    then obtain R0 x where R: "?R = R0 @ [x]" by (metis append_butlast_last_id)
    have x: "unat x \<noteq> 0" using doc(2)[of r] that(2) R by (auto simp: big_endian_snoc)
    define X where "X = drop 20 (replicate ?p 0 @ R0)"
    have le: "20 \<le> length (replicate ?p (0::u8) @ R0)" using that(1) assms(3) R by simp
    have "drop 20 ?sig = (X @ [x]) @ ?S" using le unfolding X_def R by simp
    then have "bin2bn C (drop 20 ?sig) = 256 ^ length ?S * (256 * big_endian X + unat x) + s"
      by (simp only: doc(1) big_endian_append[of "X @ [x]"] big_endian_snoc doc(2))
    then show ?thesis using x by simp
  qed
  have "length ?sig = 40" using assms(3,4) by simp
  with sv good bad show ?thesis by blast
qed


section \<open>Witnesses\<close>

text \<open>A library of small functions that satisfies the hypotheses, and a session before its start.\<close>

fun to_bytes :: "nat \<Rightarrow> bytes" where
  "to_bytes n = (if n = 0 then [] else to_bytes (n div 256) @ [of_nat (n mod 256)])"

fun nat_bits :: "nat \<Rightarrow> nat" where
  "nat_bits n = (if n = 0 then 0 else nat_bits (n div 2) + 1)"

declare to_bytes.simps [simp del] nat_bits.simps [simp del]

definition example_crypto :: "unit crypto" where
  "example_crypto =
     \<lparr>evp_init = (\<lambda>_ _ _ _. ()), evp_block = (\<lambda>c b. (False, map (NOT) b, c)),
      hmac = (\<lambda>_ k m. replicate 20 (sum_list k + sum_list m)), sha1 = (\<lambda>b. replicate 20 (sum_list b)),
      md5sum = (\<lambda>b. replicate 16 (sum_list b)), zlib_init = (\<lambda>_. Some ()), zlib_comp = (\<lambda>c _ b. (Some b, c)),
      bin2bn = big_endian, bn2bin = to_bytes, bn_bits = nat_bits, mod_exp = (\<lambda>a b p. a ^ b mod p),
      rsa_new = (\<lambda>_ _. ()), rsa_verify = (\<lambda>_ h s. h = s), rsa_sign = (\<lambda>_ h. Some h),
      dsa_new = (\<lambda>_ _ _ _. ()), dsa_verify = (\<lambda>_ _ _ _. True), dsa_sign = (\<lambda>_ h. Some (1, 2))\<rparr>"

lemma nat_bits_256: "0 < n \<Longrightarrow> nat_bits n = (if n < 256 then nat_bits n else nat_bits (n div 256) + 8)"
proof -
  have "nat_bits n = nat_bits (n div 2 ^ k) + k" if "2 ^ k \<le> n" for k
    using that
  proof (induction k)
    case (Suc k)
    have "2 ^ k \<le> n" "n div 2 ^ k \<noteq> 0" using Suc.prems by (auto simp: div_eq_0_iff)
    moreover have "n div 2 ^ k div 2 = n div 2 ^ Suc k" by (simp add: div_mult2_eq[symmetric] mult.commute)
    ultimately show ?case using Suc.IH nat_bits.simps[of "n div 2 ^ k"] by simp
  qed simp
  from this[of 8] show ?thesis by simp
qed

lemma nat_bits_small: "n < 2 ^ k \<Longrightarrow> nat_bits n \<le> k"
proof (induction k arbitrary: n)
  case (Suc k)
  then show ?case using nat_bits.simps[of n] Suc.IH[of "n div 2"] by auto
qed (simp add: nat_bits.simps)

lemma to_bytes_doc: "big_endian (to_bytes n) = n \<and> length (to_bytes n) = (nat_bits n + 7) div 8"
proof (induction n rule: to_bytes.induct)
  case (1 n)
  show ?case
  proof (cases "n = 0")
    case True
    then show ?thesis by (simp add: to_bytes.simps nat_bits.simps big_endian_def)
  next
    case False
    have b: "unat (of_nat (n mod 256) :: u8) = n mod 256" by (simp add: unat_of_nat take_bit_nat_eq_self_iff)
    have pos: "0 < nat_bits n" using False by (simp add: nat_bits.simps)
    have "length (to_bytes n) = (nat_bits n + 7) div 8"
    proof (cases "n < 256")
      case True
      then have "nat_bits n \<le> 8" using nat_bits_small[of n 8] by simp
      then have "(nat_bits n + 7) div 8 = 1" using pos by (intro div_nat_eqI) simp_all
      then show ?thesis using False True by (simp add: to_bytes.simps[of n] to_bytes.simps[of 0])
    next
      case ge: False
      have "(nat_bits n + 7) div 8 = (nat_bits (n div 256) + 7) div 8 + 1"
        using nat_bits_256[of n] False ge by simp
      then show ?thesis using 1 False by (simp add: to_bytes.simps[of n])
    qed
    then show ?thesis using 1 False b by (simp add: to_bytes.simps[of n] big_endian_snoc)
  qed
qed

lemma example_bignums: "bignums example_crypto"
  using to_bytes_doc by (simp add: bignums_def example_crypto_def)

definition null_endpoint :: "'c handle endpoint" where
  "null_endpoint = \<lparr>ep_crypt = \<lparr>blocksize = 8, flag_evp = False, crypt_fn = \<lambda>x b. (False, b, x)\<rparr>, crypt_abstract = Null,
     ep_mac = \<lparr>mac_len = 0, mac_hash = \<lambda>x n a b. ([], x)\<rparr>, seqno = 0, mac_abstract = Null, ep_comp = None,
     comp_abstract = Null\<rparr>"

definition null_session :: "recv_event list \<Rightarrow> 'c handle session" where
  "null_session ins = \<lparr>state = 0, sock_state = SOCKET_CONNECTED, packets = [], chan = \<lambda>_. example_channel,
     channels = [], next_ref = 0, next_channel = 0, listeners = [], ep_remote = null_endpoint,
     ep_local = null_endpoint, err_code = ERROR_NONE, err_msg = [], input = ins, sent = [],
     send_ok = [], alloc_ok = []\<rparr>"

definition null_side :: "'c side" where
  "null_side = \<lparr>banner = None, kexinit = None, crypt = None, mac = None, comp = None, crypt_prefs = None,
     mac_prefs = None, comp_prefs = None, lang_prefs = None\<rparr>"

definition null_startup :: "recv_event list \<Rightarrow> 'c startup" where
  "null_startup ins = \<lparr>base = null_session ins, kex_prefs = None, hostkey_prefs = None, kex = None,
     burn_optimistic_kexinit = False, session_id = None, hostkey = None, server_hostkey_abstract = None,
     server_hostkey_md5 = [], server_hostkey_sha1 = [], side_local = null_side, side_remote = null_side, flags = 0\<rparr>"

definition null_env :: "'x env" where
  "null_env = \<lparr>e_disconnect = None, e_ignore = None, e_debug = False, e_macerror = None, e_x11 = None,
     e_close = \<lambda>s _. s, e_kex = \<lambda>s. s, e_rand = \<lambda>_ _. 0, e_junk = \<lambda>_. 0\<rparr>"

lemma null_no_prefs: "no_prefs (null_startup ins)"
  by (simp add: no_prefs_def null_startup_def null_side_def the_side_def)

definition server_lists :: "bytes list" where
  "server_lists = map ascii
     [''diffie-hellman-group1-sha1,diffie-hellman-group14-sha1'', ''ssh-dss'', ''3des-cbc,aes128-cbc'', ''arcfour'',
      ''umac-64,hmac-md5'', ''hmac-sha1'', ''none'', ''none'', [], []]"

lemma server_lists_fair: "list_all fair_list server_lists"
proof -
  have "list_all (\<lambda>l. 0 \<notin> set l \<and> length l < 64) server_lists" by code_simp
  then show ?thesis by (auto simp: fair_list_def list_all_iff)
qed

lemma server_fair:
  "\<forall>l\<in>set [server_lists ! 0, server_lists ! 1, server_lists ! 2, server_lists ! 3, server_lists ! 4, server_lists ! 5,
     server_lists ! 6, server_lists ! 7, server_lists ! 8, server_lists ! 9]. fair_list l"
proof -
  have "length server_lists = 10" by (simp add: server_lists_def)
  then have "server_lists ! i \<in> set server_lists" if "i < 10" for i using that by simp
  then show ?thesis using server_lists_fair by (simp add: list_all_iff)
qed

lemma server_split:
  "split_names (server_lists ! 0) = map ascii [''diffie-hellman-group1-sha1'', ''diffie-hellman-group14-sha1'']"
  "split_names (server_lists ! Suc 0) = map ascii [''ssh-dss'']"
  "split_names (server_lists ! 2) = map ascii [''3des-cbc'', ''aes128-cbc'']"
  "split_names (server_lists ! 3) = map ascii [''arcfour'']"
  "split_names (server_lists ! 4) = map ascii [''umac-64'', ''hmac-md5'']"
  "split_names (server_lists ! 5) = map ascii [''hmac-sha1'']"
  "split_names (server_lists ! 6) = map ascii [''none'']"
  "split_names (server_lists ! 7) = map ascii [''none'']"
  by code_simp+

lemma of_char_inj: "(of_char a :: u8) = of_char b \<Longrightarrow> a = b"
proof -
  assume eq: "(of_char a :: u8) = of_char b"
  have "unat (of_char c :: u8) = (of_char c :: nat)" for c
  proof -
    have "(of_char c :: u8) = of_nat (of_char c)" by (simp add: of_nat_of_char)
    then show ?thesis by (simp add: unat_of_nat take_bit_nat_eq_self_iff del: of_nat_of_char)
  qed
  with eq have "(of_char a :: nat) = of_char b" by metis
  then show "a = b" by (simp add: of_char_eq_iff)
qed

lemma ascii_inj [simp]: "ascii a = ascii b \<longleftrightarrow> a = b"
  unfolding ascii_def by (rule inj_map_eq_map) (auto simp: inj_def of_char_inj)

theorem methods_agreed_witness:
  "\<exists>u'. libssh2_kex_agree_methods example_crypto
        (kexinit_packet (replicate 16 7) [server_lists ! 0, server_lists ! 1, server_lists ! 2, server_lists ! 3,
           server_lists ! 4, server_lists ! 5, server_lists ! 6, server_lists ! 7, server_lists ! 8, server_lists ! 9] 1 [0, 0, 0, 0])
        (null_startup []) = Inr (0, u')
     \<and> map_option kex_name (kex u') = Some ''diffie-hellman-group14-sha1'' \<and> burn_optimistic_kexinit u'
     \<and> map_option crypt_name (crypt (side_local u')) = Some ''aes128-cbc''"
proof -
  have "\<exists>k x a1 a2 b1 b2 d1 d2. chosen kex_name libssh2_kex_methods (server_lists ! 0) = Some k \<and> kex_name k = ''diffie-hellman-group14-sha1''
      \<and> chosen hk_name (libssh2_hostkey_methods example_crypto) (server_lists ! 1) = Some x
      \<and> chosen crypt_name (libssh2_crypt_methods example_crypto) (server_lists ! 2) = Some a1 \<and> crypt_name a1 = ''aes128-cbc''
      \<and> chosen crypt_name (libssh2_crypt_methods example_crypto) (server_lists ! 3) = Some a2
      \<and> chosen mac_name (libssh2_mac_methods example_crypto) (server_lists ! 4) = Some b1
      \<and> chosen mac_name (libssh2_mac_methods example_crypto) (server_lists ! 5) = Some b2
      \<and> chosen comp_name (libssh2_comp_methods example_crypto) (server_lists ! 6) = Some d1 \<and> comp_ready True d1
      \<and> chosen comp_name (libssh2_comp_methods example_crypto) (server_lists ! 7) = Some d2 \<and> comp_ready False d2"
    by (simp add: chosen_def server_split libssh2_kex_methods_def libssh2_hostkey_methods_def libssh2_crypt_methods_def
        evp_entry_def libssh2_mac_methods_def mac_entry_def libssh2_comp_methods_def comp_ready_def)
  then obtain k x a1 a2 b1 b2 d1 d2 where c:
    "chosen kex_name libssh2_kex_methods (server_lists ! 0) = Some k" "kex_name k = ''diffie-hellman-group14-sha1''"
    "chosen hk_name (libssh2_hostkey_methods example_crypto) (server_lists ! 1) = Some x"
    "chosen crypt_name (libssh2_crypt_methods example_crypto) (server_lists ! 2) = Some a1" "crypt_name a1 = ''aes128-cbc''"
    "chosen crypt_name (libssh2_crypt_methods example_crypto) (server_lists ! 3) = Some a2"
    "chosen mac_name (libssh2_mac_methods example_crypto) (server_lists ! 4) = Some b1"
    "chosen mac_name (libssh2_mac_methods example_crypto) (server_lists ! 5) = Some b2"
    "chosen comp_name (libssh2_comp_methods example_crypto) (server_lists ! 6) = Some d1" "comp_ready True d1"
    "chosen comp_name (libssh2_comp_methods example_crypto) (server_lists ! 7) = Some d2" "comp_ready False d2" by blast
  have "length (replicate 16 (7::u8)) = 16" by simp
  from methods_agreed[OF null_no_prefs this server_fair c(1,3,4,6-9,11,10,12)] show ?thesis
    using c(2,5) server_split(1) by fastforce
qed

theorem no_common_hostkey_crashes_witness:
  "libssh2_kex_agree_methods example_crypto
     (kexinit_packet (replicate 16 7) (server_lists[1 := ascii ''ssh-ed25519'']) 0 []) (null_startup []) = Inl Undefined"
proof (rule no_common_hostkey_crashes[OF null_no_prefs])
  show "\<forall>l\<in>set (server_lists[1 := ascii ''ssh-ed25519'']). fair_list l"
  proof -
    have "list_all (\<lambda>l. 0 \<notin> set l \<and> length l < 64) (server_lists[1 := ascii ''ssh-ed25519''])" by code_simp
    then show ?thesis by (auto simp: fair_list_def list_all_iff)
  qed
  have e: "split_names (ascii ''ssh-ed25519'') = [ascii ''ssh-ed25519'']" by code_simp
  show "chosen hk_name (libssh2_hostkey_methods example_crypto) (server_lists[1 := ascii ''ssh-ed25519''] ! 1) = None"
    by (simp add: chosen_def server_lists_def libssh2_hostkey_methods_def e)
  show "chosen kex_name libssh2_kex_methods (server_lists[1 := ascii ''ssh-ed25519''] ! 0) = Some (libssh2_kex_methods ! 0)"
    by (simp add: chosen_def server_split libssh2_kex_methods_def)
qed (simp_all add: server_lists_def)

theorem kexinit_sent_witness:
  "\<exists>u'. libssh2_kexinit null_env example_crypto (replicate 16 7) (null_startup []) = Inr (0, u')
     \<and> kexinit (side_local u') = Some (kexinit_packet (replicate 16 7)
           (map offered (kexinit_lists example_crypto (null_startup []))) 0 [0, 0, 0, 0])"
proof -
  have "length (replicate 16 (7::u8)) = 16" "alloc_ok (base (null_startup [] :: unit startup)) = []"
    by (simp_all add: null_startup_def null_session_def)
  note sent = kexinit_sent[OF this, of null_env example_crypto]
  have nk: "\<not> newkeys (base (null_startup [] :: unit startup))"
    by (simp add: newkeys_def null_startup_def null_session_def)
  have "\<exists>s'. libssh2_packet_write null_env data (base (null_startup [] :: unit startup)) = Inr (0, s')" for data
    using nk by (simp add: libssh2_packet_write_def packet_send_def Let_def sock_send_def null_startup_def null_session_def)
  then obtain s' where "libssh2_packet_write null_env (kexinit_packet (replicate 16 7)
      (map offered (kexinit_lists example_crypto (null_startup []))) 0 [0, 0, 0, 0]) (base (null_startup [] :: unit startup)) = Inr (0, s')" by blast
  with sent show ?thesis by (simp add: Let_def)
qed

theorem unsupported_preference_corrupts_witness:
  "libssh2_session_method_pref example_crypto METHOD_MAC_CS (ascii ''foo,hmac-sha1'') (null_startup [])
     = Inr (0, set_prefs METHOD_MAC_CS (ascii ''hma'') (null_startup []))"
proof -
  have "libssh2_session_method_pref example_crypto METHOD_MAC_CS (ascii ''foo'' @ COMMA # ascii ''hmac-sha1'') (null_startup [])
      = Inr (0, set_prefs METHOD_MAC_CS (take (length (ascii ''foo'')) (ascii ''hmac-sha1'')) (null_startup []))"
  proof (rule unsupported_preference_corrupts)
    show "method_names example_crypto METHOD_MAC_CS = Some (map mac_name (libssh2_mac_methods example_crypto))" by simp
    show "clean (ascii ''foo'')" "clean (ascii ''hmac-sha1'')" by code_simp+
    have d: "drop (length (ascii ''foo'') + 1) (ascii ''hmac-sha1'') = ascii ''-sha1''" by code_simp
    show "ascii ''foo'' \<notin> ascii ` set (map mac_name (libssh2_mac_methods example_crypto))"
      "drop (length (ascii ''foo'') + 1) (ascii ''hmac-sha1'') \<notin> ascii ` set (map mac_name (libssh2_mac_methods example_crypto))"
      unfolding d by (simp_all add: libssh2_mac_methods_def mac_entry_def)
  qed (simp_all add: ascii_def null_startup_def null_session_def)
  moreover have "ascii ''foo'' @ COMMA # ascii ''hmac-sha1'' = ascii ''foo,hmac-sha1''"
    "take (length (ascii ''foo'')) (ascii ''hmac-sha1'') = ascii ''hma''" by code_simp+
  ultimately show ?thesis by simp
qed

theorem dss_signature_halves_witness:
  "\<exists>sig. ssh_dss_signv example_crypto () [[1, 2], [3]] = Inr (Some sig) \<and> length sig = 40 \<and> bin2bn example_crypto (drop 20 sig) \<noteq> 2"
proof -
  have sz: "length (bn2bin example_crypto 1) = 1" "length (bn2bin example_crypto 2) = 1"
    by (simp_all add: example_crypto_def to_bytes.simps)
  have "\<exists>sig. ssh_dss_signv example_crypto () [[1, 2], [3]] = Inr (Some sig) \<and> length sig = 40
    \<and> (length (bn2bin example_crypto 2) = 20 \<longrightarrow> bin2bn example_crypto (take 20 sig) = 1 \<and> bin2bn example_crypto (drop 20 sig) = 2)
    \<and> (length (bn2bin example_crypto 2) < 20 \<and> 1 mod 256 \<noteq> (0::nat) \<longrightarrow> bin2bn example_crypto (drop 20 sig) \<noteq> 2)"
    by (rule dss_signature_halves[OF example_bignums]) (simp_all add: sz del: One_nat_def, simp add: example_crypto_def)
  then show ?thesis by (auto simp: sz)
qed

end
