(* ===== verification/SSH_Kex.thy ===== *)
theory SSH_Kex
  imports SSH_Methods
begin

text \<open>
  The exchange of keys: the first half of \<^verbatim>\<open>src/ssh/libssh2/kex.c\<close>, Diffie-Hellman with the groups the code
  knows or one the server chooses, and \<^verbatim>\<open>libssh2_kex_exchange\<close>.  The function for any group is cut into the parts
  of its text: sending the client's value, reading the reply, the messages \<^verbatim>\<open>NEWKEYS\<close>, and the keys.  The random
  exponent is an argument, the big numbers of OpenSSL are those of \<open>crypto\<close>.
\<close>

section \<open>Numbers and hashes on the wire\<close>

abbreviation (input) SSH_MSG_NEWKEYS :: u8 where "SSH_MSG_NEWKEYS \<equiv> 21"
abbreviation (input) SSH_MSG_KEXDH_INIT :: u8 where "SSH_MSG_KEXDH_INIT \<equiv> 30"
abbreviation (input) SSH_MSG_KEXDH_REPLY :: u8 where "SSH_MSG_KEXDH_REPLY \<equiv> 31"
abbreviation (input) SSH_MSG_KEX_DH_GEX_REQUEST :: u8 where "SSH_MSG_KEX_DH_GEX_REQUEST \<equiv> 34"
abbreviation (input) SSH_MSG_KEX_DH_GEX_GROUP :: u8 where "SSH_MSG_KEX_DH_GEX_GROUP \<equiv> 31"
abbreviation (input) SSH_MSG_KEX_DH_GEX_INIT :: u8 where "SSH_MSG_KEX_DH_GEX_INIT \<equiv> 32"
abbreviation (input) SSH_MSG_KEX_DH_GEX_REPLY :: u8 where "SSH_MSG_KEX_DH_GEX_REPLY \<equiv> 33"

definition DEFAULT_BANNER :: bytes where
  "DEFAULT_BANNER = ascii ''SSH-2.0-libssh2_0.14''"

text \<open>A number with its length; a leading zero keeps it positive.\<close>

definition mpint :: "'c crypto \<Rightarrow> nat \<Rightarrow> bytes" where
  "mpint C n = wire_string (if bn_bits C n mod 8 \<noteq> 0 then bn2bin C n else 0 # bn2bin C n)"

text \<open>\<^verbatim>\<open>SHA1_HASH\<close>: as many digests as are needed, each over the ones before.\<close>

function sha1_hash_loop :: "'c crypto \<Rightarrow> bytes \<Rightarrow> bytes \<Rightarrow> bytes \<Rightarrow> u8 \<Rightarrow> nat \<Rightarrow> nat \<Rightarrow> bytes \<Rightarrow> bytes" where
  "sha1_hash_loop C k h sid version reqlen len v =
     (if len < reqlen then
        sha1_hash_loop C k h sid version reqlen (len + 20)
          (v @ sha1 C (k @ h @ (if 0 < len then v else version # sid)))
      else v)"
  by pat_completeness auto
termination
  by (relation "measure (\<lambda>(C, k, h, sid, version, reqlen, len, v). reqlen - len)") auto

declare sha1_hash_loop.simps [simp del]

definition SHA1_HASH :: "'c crypto \<Rightarrow> bytes \<Rightarrow> bytes \<Rightarrow> bytes \<Rightarrow> char \<Rightarrow> nat \<Rightarrow> 'x session \<Rightarrow> (bytes \<times> 'x session) run" where
  "SHA1_HASH C k h sid version reqlen s =
     (let (ok, s) = libssh2_alloc s
      in if \<not> ok then Inl Undefined
         else Inr (sha1_hash_loop C k h sid (of_char version) reqlen 0 [], s))"

section \<open>Diffie-Hellman\<close>

definition fail :: "ssh_error \<Rightarrow> string \<Rightarrow> 'c startup \<Rightarrow> 'c startup" where
  "fail code msg u = u\<lparr>base := libssh2_error code msg (base u)\<rparr>"

definition on_base :: "('c handle session \<Rightarrow> ('a \<times> 'c handle session) run) \<Rightarrow> 'c startup \<Rightarrow> ('a \<times> 'c startup) run" where
  "on_base f u = sbind (f (base u)) (\<lambda>(r, s). Inr (r, u\<lparr>base := s\<rparr>))"

definition alloc_base :: "'c startup \<Rightarrow> bool \<times> 'c startup" where
  "alloc_base u = (let (ok, s) = libssh2_alloc (base u) in (ok, u\<lparr>base := s\<rparr>))"

text \<open>A packet is its buffer, which may be longer, and its length.\<close>

definition libssh2_packet_require :: "nat \<Rightarrow> 'x env \<Rightarrow> u8 \<Rightarrow> 'x session \<Rightarrow> ((bytes \<times> u32) option \<times> 'x session) run" where
  "libssh2_packet_require fuel env t s = libssh2_packet_require_ex fuel env t 0 None 0 s"

text \<open>Sending the client's value, and dropping the packet of a wrong guess.  The result is the return value.\<close>

definition dh_send :: "nat \<Rightarrow> 'c handle env \<Rightarrow> bytes \<Rightarrow> bytes \<Rightarrow> 'c startup \<Rightarrow> (int \<times> 'c startup) run" where
  "dh_send fuel env beyond e_packet u =
     (let (ok, u) = alloc_base u
      in if \<not> ok then Inr (-1, fail ERROR_ALLOC ''Out of memory error'' u)
         else
           sbind (on_base (libssh2_packet_write env e_packet) u) (\<lambda>(rc, u).
           if rc \<noteq> 0 then Inr (-11, fail ERROR_SOCKET_SEND ''Unable to send KEX init message'' u)
           else if burn_optimistic_kexinit u then
             sbind (on_base (libssh2_packet_burn fuel env beyond) u) (\<lambda>(burn_type, u).
             if burn_type \<le> 0 then Inr (-1, u) else Inr (0, u\<lparr>burn_optimistic_kexinit := False\<rparr>))
           else Inr (0, u)))"

text \<open>The bytes of the exchange hash.\<close>

definition hash_input ::
    "bytes \<Rightarrow> bytes \<Rightarrow> bytes \<Rightarrow> bytes \<Rightarrow> bytes \<Rightarrow> u8 \<Rightarrow> bytes \<Rightarrow> bytes \<Rightarrow> bytes \<Rightarrow> bytes \<Rightarrow> bytes" where
  "hash_input v_c v_s i_c i_s k_s packet_type_init midhash e_value f_value k_value =
     wire_string v_c @ wire_string v_s @ wire_string i_c @ wire_string i_s @ wire_string k_s
     @ (if packet_type_init = SSH_MSG_KEX_DH_GEX_INIT
        then libssh2_htonu32 1024 @ libssh2_htonu32 1536 @ libssh2_htonu32 2048 else [])
     @ midhash @ e_value @ wire_string f_value @ k_value"

definition local_banner :: "'c startup \<Rightarrow> bytes" where
  "local_banner u = (case banner (side_local u) of None \<Rightarrow> DEFAULT_BANNER | Some b \<Rightarrow> take (length b - 2) b)"

text \<open>
  The reply of the server: \<open>Inl\<close> is a return value, \<open>Inr\<close> the shared secret and the exchange hash.
\<close>

definition dh_verify ::
    "'c crypto \<Rightarrow> nat \<Rightarrow> nat \<Rightarrow> u8 \<Rightarrow> bytes \<Rightarrow> bytes \<Rightarrow> bytes \<Rightarrow> bytes \<Rightarrow> int \<Rightarrow> 'c hostkey_method \<Rightarrow> 'c \<Rightarrow> 'c startup
     \<Rightarrow> ((int + bytes \<times> bytes) \<times> 'c startup) run" where
  "dh_verify C x p packet_type_init midhash e_value k_s reply pos hm key u =
     sbind (blob_string reply pos) (\<lambda>(f_value, pos).
     sbind (rd32 reply pos) (\<lambda>h_sig_len.
     let h_sig = drop (nat (pos + 4)) reply;
         (ok, u) = alloc_base u
     in if \<not> ok then Inr (Inl (-1), fail ERROR_ALLOC ''Unable to allocate buffer for K'' u)
        else
          let k_value = mpint C (mod_exp C (bin2bn C f_value) x p)
          in case (banner (side_remote u), kexinit (side_local u), kexinit (side_remote u), hk_sig_verify hm) of
               (Some v_s, Some i_c, Some i_s, Some verify) \<Rightarrow>
                 let h = sha1 C (hash_input (local_banner u) v_s i_c i_s k_s packet_type_init midhash e_value f_value k_value)
                 in sbind (verify key h_sig h_sig_len h) (\<lambda>good.
                    if \<not> good then Inr (Inl (-1), fail ERROR_HOSTKEY_SIGN ''Unable to verify hostkey signature'' u)
                    else Inr (Inr (k_value, h), u))
             | _ \<Rightarrow> Inl Undefined))"

definition dh_reply ::
    "'c crypto \<Rightarrow> nat \<Rightarrow> nat \<Rightarrow> u8 \<Rightarrow> bytes \<Rightarrow> bytes \<Rightarrow> bytes \<Rightarrow> 'c startup \<Rightarrow> ((int + bytes \<times> bytes) \<times> 'c startup) run" where
  "dh_reply C x p packet_type_init midhash e_value reply u =
     sbind (rd32 reply 1) (\<lambda>hostkey_len.
     let (ok, u) = alloc_base u
     in if \<not> ok then Inr (Inl (-1), fail ERROR_ALLOC ''Unable to allocate memory for a copy of the host key'' u)
        else
          sbind (rdn reply 5 (unat hostkey_len)) (\<lambda>k_s.
          let u = u\<lparr>server_hostkey_md5 := md5sum C k_s, server_hostkey_sha1 := sha1 C k_s\<rparr>
          in case hostkey u of
               None \<Rightarrow> Inl Undefined
             | Some hm \<Rightarrow>
                 sbind (hk_init hm k_s) (\<lambda>r.
                 case r of
                   None \<Rightarrow> Inr (Inl (-1), fail ERROR_HOSTKEY_INIT ''Unable to initialize hostkey importer'' u)
                 | Some key \<Rightarrow>
                     dh_verify C x p packet_type_init midhash e_value k_s reply (5 + uint hostkey_len) hm key
                       (u\<lparr>server_hostkey_abstract := Some key\<rparr>))))"

definition dh_newkeys :: "nat \<Rightarrow> 'c handle env \<Rightarrow> 'c startup \<Rightarrow> (int \<times> 'c startup) run" where
  "dh_newkeys fuel env u =
     sbind (on_base (libssh2_packet_write env [SSH_MSG_NEWKEYS]) u) (\<lambda>(rc, u).
     if rc \<noteq> 0 then Inr (-1, fail ERROR_SOCKET_SEND ''Unable to send NEWKEYS message'' u)
     else
       sbind (on_base (libssh2_packet_require fuel env SSH_MSG_NEWKEYS) u) (\<lambda>(r, u).
       case r of
         None \<Rightarrow> Inr (-1, fail ERROR_TIMEOUT ''Timed out waiting for NEWKEYS'' u)
       | Some _ \<Rightarrow> Inr (0, u\<lparr>base := (base u)\<lparr>state := state (base u) OR LIBSSH2_STATE_NEWKEYS\<rparr>\<rparr>)))"

text \<open>The keys of one direction: initial value, secret and the key of the MAC.\<close>

definition install_crypt ::
    "'c crypto \<Rightarrow> bytes \<Rightarrow> bytes \<Rightarrow> bytes \<Rightarrow> bool \<Rightarrow> char \<Rightarrow> char \<Rightarrow> 'c startup \<Rightarrow> (int \<times> 'c startup) run" where
  "install_crypt C k h sid is_local v_iv v_secret u =
     (case crypt (the_side is_local u) of
        None \<Rightarrow> Inl Undefined
      | Some m \<Rightarrow>
          sbind (on_base (SHA1_HASH C k h sid v_iv (iv_len m)) u) (\<lambda>(iv, u).
          sbind (on_base (SHA1_HASH C k h sid v_secret (secret_len m)) u) (\<lambda>(secret, u).
          let (ok, u) = alloc_base u
          in if \<not> ok then Inr (-1, upd_side is_local (\<lambda>d. d) (\<lambda>e. e\<lparr>crypt_abstract := Null\<rparr>) u)
             else Inr (0, upd_side is_local (\<lambda>d. d) (\<lambda>e. e\<lparr>crypt_abstract := crypt_start m is_local iv secret\<rparr>) u))))"

definition install_mac ::
    "'c crypto \<Rightarrow> bytes \<Rightarrow> bytes \<Rightarrow> bytes \<Rightarrow> bool \<Rightarrow> char \<Rightarrow> 'c startup \<Rightarrow> (int \<times> 'c startup) run" where
  "install_mac C k h sid is_local v_key u =
     (case mac (the_side is_local u) of
        None \<Rightarrow> Inl Undefined
      | Some m \<Rightarrow>
          sbind (on_base (SHA1_HASH C k h sid v_key (key_len m)) u) (\<lambda>(key, u).
          Inr (0, upd_side is_local (\<lambda>d. d) (\<lambda>e. e\<lparr>mac_abstract := Key key\<rparr>) u)))"

definition dh_keys :: "'c crypto \<Rightarrow> bytes \<Rightarrow> bytes \<Rightarrow> 'c startup \<Rightarrow> (int \<times> 'c startup) run" where
  "dh_keys C k h u =
     (let (ok, u) = (case session_id u of
            Some _ \<Rightarrow> (True, u)
          | None \<Rightarrow> (let (ok, u) = alloc_base u in (ok, if ok then u\<lparr>session_id := Some h\<rparr> else u)))
      in if \<not> ok then Inr (-1, u)
         else let sid = the (session_id u)
              in all_agree
                   [install_crypt C k h sid True CHR ''A'' CHR ''C'', install_crypt C k h sid False CHR ''B'' CHR ''D'',
                    install_mac C k h sid True CHR ''E'', install_mac C k h sid False CHR ''F''] u)"

definition groupGP_sha1_key_exchange ::
    "nat \<Rightarrow> 'c handle env \<Rightarrow> 'c crypto \<Rightarrow> bytes \<Rightarrow> nat \<Rightarrow> nat \<Rightarrow> nat \<Rightarrow> u8 \<Rightarrow> u8 \<Rightarrow> bytes \<Rightarrow> 'c startup \<Rightarrow> (int \<times> 'c startup) run" where
  "groupGP_sha1_key_exchange fuel env C beyond x g p packet_type_init packet_type_reply midhash u =
     (let e_value = mpint C (mod_exp C g x p)
      in sbind (dh_send fuel env beyond (packet_type_init # e_value) u) (\<lambda>(rc, u).
         if rc \<noteq> 0 then Inr (rc, u)
         else
           sbind (on_base (libssh2_packet_require fuel env packet_type_reply) u) (\<lambda>(r, u).
           case r of
             None \<Rightarrow> Inr (-1, fail ERROR_TIMEOUT ''Timed out waiting for KEX reply'' u)
           | Some (reply, _) \<Rightarrow>
               sbind (dh_reply C x p packet_type_init midhash e_value reply u) (\<lambda>(res, u).
               case res of
                 Inl rc \<Rightarrow> Inr (rc, u)
               | Inr (k_value, h) \<Rightarrow>
                   sbind (dh_newkeys fuel env u) (\<lambda>(rc, u).
                   if rc \<noteq> 0 then Inr (rc, u) else dh_keys C k_value h u)))))"

definition group1_p :: bytes where
  "group1_p =
     [0xFF, 0xFF, 0xFF, 0xFF, 0xFF, 0xFF, 0xFF, 0xFF, 0xC9, 0x0F, 0xDA, 0xA2, 0x21, 0x68, 0xC2, 0x34,
      0xC4, 0xC6, 0x62, 0x8B, 0x80, 0xDC, 0x1C, 0xD1, 0x29, 0x02, 0x4E, 0x08, 0x8A, 0x67, 0xCC, 0x74,
      0x02, 0x0B, 0xBE, 0xA6, 0x3B, 0x13, 0x9B, 0x22, 0x51, 0x4A, 0x08, 0x79, 0x8E, 0x34, 0x04, 0xDD,
      0xEF, 0x95, 0x19, 0xB3, 0xCD, 0x3A, 0x43, 0x1B, 0x30, 0x2B, 0x0A, 0x6D, 0xF2, 0x5F, 0x14, 0x37,
      0x4F, 0xE1, 0x35, 0x6D, 0x6D, 0x51, 0xC2, 0x45, 0xE4, 0x85, 0xB5, 0x76, 0x62, 0x5E, 0x7E, 0xC6,
      0xF4, 0x4C, 0x42, 0xE9, 0xA6, 0x37, 0xED, 0x6B, 0x0B, 0xFF, 0x5C, 0xB6, 0xF4, 0x06, 0xB7, 0xED,
      0xEE, 0x38, 0x6B, 0xFB, 0x5A, 0x89, 0x9F, 0xA5, 0xAE, 0x9F, 0x24, 0x11, 0x7C, 0x4B, 0x1F, 0xE6,
      0x49, 0x28, 0x66, 0x51, 0xEC, 0xE6, 0x53, 0x81, 0xFF, 0xFF, 0xFF, 0xFF, 0xFF, 0xFF, 0xFF, 0xFF]"

definition group14_p :: bytes where
  "group14_p =
     [0xFF, 0xFF, 0xFF, 0xFF, 0xFF, 0xFF, 0xFF, 0xFF, 0xC9, 0x0F, 0xDA, 0xA2, 0x21, 0x68, 0xC2, 0x34,
      0xC4, 0xC6, 0x62, 0x8B, 0x80, 0xDC, 0x1C, 0xD1, 0x29, 0x02, 0x4E, 0x08, 0x8A, 0x67, 0xCC, 0x74,
      0x02, 0x0B, 0xBE, 0xA6, 0x3B, 0x13, 0x9B, 0x22, 0x51, 0x4A, 0x08, 0x79, 0x8E, 0x34, 0x04, 0xDD,
      0xEF, 0x95, 0x19, 0xB3, 0xCD, 0x3A, 0x43, 0x1B, 0x30, 0x2B, 0x0A, 0x6D, 0xF2, 0x5F, 0x14, 0x37,
      0x4F, 0xE1, 0x35, 0x6D, 0x6D, 0x51, 0xC2, 0x45, 0xE4, 0x85, 0xB5, 0x76, 0x62, 0x5E, 0x7E, 0xC6,
      0xF4, 0x4C, 0x42, 0xE9, 0xA6, 0x37, 0xED, 0x6B, 0x0B, 0xFF, 0x5C, 0xB6, 0xF4, 0x06, 0xB7, 0xED,
      0xEE, 0x38, 0x6B, 0xFB, 0x5A, 0x89, 0x9F, 0xA5, 0xAE, 0x9F, 0x24, 0x11, 0x7C, 0x4B, 0x1F, 0xE6,
      0x49, 0x28, 0x66, 0x51, 0xEC, 0xE4, 0x5B, 0x3D, 0xC2, 0x00, 0x7C, 0xB8, 0xA1, 0x63, 0xBF, 0x05,
      0x98, 0xDA, 0x48, 0x36, 0x1C, 0x55, 0xD3, 0x9A, 0x69, 0x16, 0x3F, 0xA8, 0xFD, 0x24, 0xCF, 0x5F,
      0x83, 0x65, 0x5D, 0x23, 0xDC, 0xA3, 0xAD, 0x96, 0x1C, 0x62, 0xF3, 0x56, 0x20, 0x85, 0x52, 0xBB,
      0x9E, 0xD5, 0x29, 0x07, 0x70, 0x96, 0x96, 0x6D, 0x67, 0x0C, 0x35, 0x4E, 0x4A, 0xBC, 0x98, 0x04,
      0xF1, 0x74, 0x6C, 0x08, 0xCA, 0x18, 0x21, 0x7C, 0x32, 0x90, 0x5E, 0x46, 0x2E, 0x36, 0xCE, 0x3B,
      0xE3, 0x9E, 0x77, 0x2C, 0x18, 0x0E, 0x86, 0x03, 0x9B, 0x27, 0x83, 0xA2, 0xEC, 0x07, 0xA2, 0x8F,
      0xB5, 0xC5, 0x5D, 0xF0, 0x6F, 0x4C, 0x52, 0xC9, 0xDE, 0x2B, 0xCB, 0xF6, 0x95, 0x58, 0x17, 0x18,
      0x39, 0x95, 0x49, 0x7C, 0xEA, 0x95, 0x6A, 0xE5, 0x15, 0xD2, 0x26, 0x18, 0x98, 0xFA, 0x05, 0x10,
      0x15, 0x72, 0x8E, 0x5A, 0x8A, 0xAC, 0xAA, 0x68, 0xFF, 0xFF, 0xFF, 0xFF, 0xFF, 0xFF, 0xFF, 0xFF]"

text \<open>The argument \<open>rand\<close> gives a random number of so many bits.\<close>

definition group1_sha1_key_exchange ::
    "nat \<Rightarrow> 'c handle env \<Rightarrow> 'c crypto \<Rightarrow> bytes \<Rightarrow> (nat \<Rightarrow> nat) \<Rightarrow> 'c startup \<Rightarrow> (int \<times> 'c startup) run" where
  "group1_sha1_key_exchange fuel env C beyond rand u =
     groupGP_sha1_key_exchange fuel env C beyond (rand 128) 2 (bin2bn C group1_p) SSH_MSG_KEXDH_INIT SSH_MSG_KEXDH_REPLY [] u"

definition group14_sha1_key_exchange ::
    "nat \<Rightarrow> 'c handle env \<Rightarrow> 'c crypto \<Rightarrow> bytes \<Rightarrow> (nat \<Rightarrow> nat) \<Rightarrow> 'c startup \<Rightarrow> (int \<times> 'c startup) run" where
  "group14_sha1_key_exchange fuel env C beyond rand u =
     groupGP_sha1_key_exchange fuel env C beyond (rand 256) 2 (bin2bn C group14_p) SSH_MSG_KEXDH_INIT SSH_MSG_KEXDH_REPLY [] u"

definition group_exchange_sha1_key_exchange ::
    "nat \<Rightarrow> 'c handle env \<Rightarrow> 'c crypto \<Rightarrow> bytes \<Rightarrow> (nat \<Rightarrow> nat) \<Rightarrow> 'c startup \<Rightarrow> (int \<times> 'c startup) run" where
  "group_exchange_sha1_key_exchange fuel env C beyond rand u =
     (let request = SSH_MSG_KEX_DH_GEX_REQUEST # libssh2_htonu32 1024 @ libssh2_htonu32 1536 @ libssh2_htonu32 2048
      in sbind (on_base (libssh2_packet_write env request) u) (\<lambda>(rc, u).
         if rc \<noteq> 0 then Inr (-1, fail ERROR_SOCKET_SEND ''Unable to send Group Exchange Request'' u)
         else
           sbind (on_base (libssh2_packet_require fuel env SSH_MSG_KEX_DH_GEX_GROUP) u) (\<lambda>(r, u).
           case r of
             None \<Rightarrow> Inr (-1, fail ERROR_TIMEOUT ''Timeout waiting for GEX_GROUP reply'' u)
           | Some (data, n) \<Rightarrow>
               sbind (blob_string data 1) (\<lambda>(p, pos).
               sbind (blob_string data pos) (\<lambda>(g, pos).
               sbind (rdn data 1 (unat (n - 1))) (\<lambda>midhash.
               groupGP_sha1_key_exchange fuel env C beyond (rand (length p)) (bin2bn C g) (bin2bn C p)
                 SSH_MSG_KEX_DH_GEX_INIT SSH_MSG_KEX_DH_GEX_REPLY midhash u))))))"

section \<open>Exchanging keys\<close>

fun run_exchange ::
    "exchange \<Rightarrow> nat \<Rightarrow> 'c handle env \<Rightarrow> 'c crypto \<Rightarrow> bytes \<Rightarrow> (nat \<Rightarrow> nat) \<Rightarrow> 'c startup \<Rightarrow> (int \<times> 'c startup) run" where
  "run_exchange Group1 = group1_sha1_key_exchange"
| "run_exchange Group14 = group14_sha1_key_exchange"
| "run_exchange Group_Exchange = group_exchange_sha1_key_exchange"

definition set_kexinit :: "bool \<Rightarrow> bytes option \<Rightarrow> 'c startup \<Rightarrow> 'c startup" where
  "set_kexinit is_local v = upd_side is_local (\<lambda>d. d\<lparr>kexinit := v\<rparr>) (\<lambda>e. e)"

definition agree_first :: "nat \<Rightarrow> 'c handle env \<Rightarrow> 'c crypto \<Rightarrow> bytes \<Rightarrow> 'c startup \<Rightarrow> (int \<times> 'c startup) run" where
  "agree_first fuel env C cookie u =
     (let oldlocal = kexinit (side_local u)
      in sbind (libssh2_kexinit env C cookie (set_kexinit True None u)) (\<lambda>(rc, u).
         if rc \<noteq> 0 then Inr (-1, set_kexinit True oldlocal u)
         else
           sbind (on_base (libssh2_packet_require fuel env SSH_MSG_KEXINIT) u) (\<lambda>(r, u).
           case r of
             None \<Rightarrow> Inr (-1, set_kexinit True oldlocal u)
           | Some (data, n) \<Rightarrow>
               libssh2_kex_agree_methods C data (set_kexinit False (Some (take (unat n) data)) u))))"

definition libssh2_kex_exchange ::
    "nat \<Rightarrow> 'c handle env \<Rightarrow> 'c crypto \<Rightarrow> bytes \<Rightarrow> bytes \<Rightarrow> (nat \<Rightarrow> nat) \<Rightarrow> bool \<Rightarrow> 'c startup \<Rightarrow> (int \<times> 'c startup) run" where
  "libssh2_kex_exchange fuel env C cookie beyond rand reexchange u =
     (let u = u\<lparr>base := (base u)\<lparr>state := state (base u) OR LIBSSH2_STATE_EXCHANGING_KEYS\<rparr>\<rparr>;
          u = (if reexchange
               then u\<lparr>kex := None, server_hostkey_abstract := (if hostkey u = None then server_hostkey_abstract u else None),
                      hostkey := None\<rparr>
               else u)
      in sbind (if kex u = None \<or> hostkey u = None then agree_first fuel env C cookie u else Inr (0, u)) (\<lambda>(rc, u).
         if rc \<noteq> 0 then Inr (-1, u)
         else case kex u of
                None \<Rightarrow> Inl Undefined
              | Some k \<Rightarrow>
                  sbind (run_exchange (exchange_keys k) fuel env C beyond rand u) (\<lambda>(rc, u).
                  if rc \<noteq> 0 then Inr (-1, fail ERROR_KEY_EXCHANGE_FAILURE ''Unrecoverable error exchanging keys'' u)
                  else let u = set_kexinit False None (set_kexinit True None u)
                       in Inr (0, u\<lparr>base := (base u)\<lparr>state := state (base u) AND NOT LIBSSH2_STATE_EXCHANGING_KEYS\<rparr>\<rparr>))))"

section \<open>The shared secret\<close>

definition mp_body :: "'c crypto \<Rightarrow> nat \<Rightarrow> bytes" where
  "mp_body C n = (if bn_bits C n mod 8 \<noteq> 0 then bn2bin C n else 0 # bn2bin C n)"

lemma mpint_body: "mpint C n = wire_string (mp_body C n)"
  by (simp add: mpint_def mp_body_def)

lemma bin2bn_body: "bignums C \<Longrightarrow> bin2bn C (mp_body C n) = n"
  using big_endian_append[of "[0]" "bn2bin C n"] by (auto simp: mp_body_def bignums_def big_endian_def)

lemma blob_string_at:
  assumes "off = int (length a)" and "length v < 2 ^ 32"
  shows "blob_string (a @ wire_string v @ rest) off = Inr (v, int (length (a @ wire_string v)))"
proof -
  have r: "rd32 (a @ wire_string v @ rest) off = Inr (of_nat (length v))"
    using rd32_at[OF assms(1), of "of_nat (length v)" "v @ rest"] by (simp add: wire_string_def)
  have b: "rdn (a @ wire_string v @ rest) (off + 4) (length v) = Inr v"
    using assms(1) by (simp add: rdn_def wire_string_def nat_add_distrib)
  have n: "unat (of_nat (length v) :: u32) = length v" "uint (of_nat (length v) :: u32) = int (length v)"
    using assms(2) by (simp_all add: unat_u32 uint_u32)
  have l: "off + 4 + int (length v) = int (length (a @ wire_string v))"
    using assms(1) by (simp add: wire_string_def)
  show ?thesis unfolding blob_string_def r sbind_simps n b l by simp
qed

lemma drop_exact: "n = length xs \<Longrightarrow> drop n (xs @ ys) = ys"
  by simp

text \<open>The reply of a server: its host key, its value and its signature.\<close>

definition kexdh_reply :: "'c crypto \<Rightarrow> u8 \<Rightarrow> bytes \<Rightarrow> nat \<Rightarrow> bytes \<Rightarrow> bytes" where
  "kexdh_reply C t k_s f sig = t # wire_string k_s @ mpint C f @ wire_string sig"

lemma dh_secret:
  assumes "bignums C" and "0 < p"
  shows "mod_exp C (mod_exp C g y p) x p = mod_exp C (mod_exp C g x p) y p"
  using assms by (simp add: bignums_def power_mod power_mult[symmetric] mult.commute)

lemma alloc_base_ok: "alloc_ok (base u) = [] \<Longrightarrow> alloc_base u = (True, u)"
  by (simp add: alloc_base_def libssh2_alloc_def)

text \<open>What the server hashes: it computes the secret from the client's value and its own exponent.\<close>

definition server_hash ::
    "'c crypto \<Rightarrow> bytes \<Rightarrow> bytes \<Rightarrow> bytes \<Rightarrow> bytes \<Rightarrow> bytes \<Rightarrow> u8 \<Rightarrow> bytes \<Rightarrow> nat \<Rightarrow> nat \<Rightarrow> nat \<Rightarrow> nat \<Rightarrow> bytes" where
  "server_hash C v_c v_s i_c i_s k_s t midhash e g p y =
     sha1 C (hash_input v_c v_s i_c i_s k_s t midhash (mpint C e) (mp_body C (mod_exp C g y p)) (mpint C (mod_exp C e y p)))"

definition with_hostkey :: "'c crypto \<Rightarrow> bytes \<Rightarrow> 'c \<Rightarrow> 'c startup \<Rightarrow> 'c startup" where
  "with_hostkey C k_s key u =
     u\<lparr>server_hostkey_md5 := md5sum C k_s, server_hostkey_sha1 := sha1 C k_s, server_hostkey_abstract := Some key\<rparr>"

section \<open>The keys\<close>

text \<open>
  RFC 4253, section 7.2: the first digest is over the secret, the exchange hash, a letter and the identifier of the
  session; each further one has all digests so far in place of letter and identifier.
\<close>

primrec rfc_blocks :: "'c crypto \<Rightarrow> bytes \<Rightarrow> bytes \<Rightarrow> bytes \<Rightarrow> u8 \<Rightarrow> nat \<Rightarrow> bytes" where
  "rfc_blocks C k h sid v 0 = []"
| "rfc_blocks C k h sid v (Suc n) =
     rfc_blocks C k h sid v n
     @ sha1 C (k @ h @ (if n = 0 then v # sid else rfc_blocks C k h sid v n))"

definition rfc_key :: "'c crypto \<Rightarrow> bytes \<Rightarrow> bytes \<Rightarrow> bytes \<Rightarrow> char \<Rightarrow> nat \<Rightarrow> bytes" where
  "rfc_key C k h sid v n = take n (rfc_blocks C k h sid (of_char v) ((n + 19) div 20))"

lemma hash_loop_blocks:
  "sha1_hash_loop C k h sid v n (20 * i) (rfc_blocks C k h sid v i) = rfc_blocks C k h sid v (max i ((n + 19) div 20))"
proof (induction "n - 20 * i" arbitrary: i rule: less_induct)
  case less
  show ?case
  proof (cases "20 * i < n")
    case True
    then have "Suc i \<le> (n + 19) div 20" by linarith
    then have m: "max i ((n + 19) div 20) = max (Suc i) ((n + 19) div 20)" by simp
    have "n - 20 * Suc i < n - 20 * i" using True by simp
    from less[OF this] show ?thesis
      using True unfolding m by (subst sha1_hash_loop.simps) (cases "i = 0"; simp add: add.commute)
  next
    case False
    then have "(n + 19) div 20 \<le> i" by linarith
    then show ?thesis using False by (subst sha1_hash_loop.simps) simp
  qed
qed

lemma hash_loop_rfc: "sha1_hash_loop C k h sid v n 0 [] = rfc_blocks C k h sid v ((n + 19) div 20)"
  using hash_loop_blocks[of C k h sid v n 0] by simp

lemma rfc_blocks_length: "(\<And>b. length (sha1 C b) = 20) \<Longrightarrow> length (rfc_blocks C k h sid v n) = 20 * n"
  by (induction n) simp_all

section \<open>What the steps leave alone\<close>

definition same_start :: "'c startup \<Rightarrow> 'c startup \<Rightarrow> bool" where
  "same_start u u' \<longleftrightarrow> (\<exists>s b. u' = u\<lparr>base := s, burn_optimistic_kexinit := b\<rparr>)"

lemma same_start_base: "same_start u (u\<lparr>base := s\<rparr>)"
  by (cases u) (auto simp: same_start_def)

lemma same_start_burn: "same_start u (u\<lparr>burn_optimistic_kexinit := b\<rparr>)"
  by (cases u) (auto simp: same_start_def)

lemma same_start_trans: "same_start u v \<Longrightarrow> same_start v w \<Longrightarrow> same_start u w"
  unfolding same_start_def by (elim exE) (simp, blast)

lemma same_start_fields:
  assumes "same_start u u'"
  shows "hostkey u' = hostkey u" "side_local u' = side_local u" "side_remote u' = side_remote u" "session_id u' = session_id u"
    "local_banner u' = local_banner u" "the_side b u' = the_side b u"
  using assms by (auto simp: same_start_def local_banner_def the_side_def)

lemma on_base_same: "on_base f u = Inr (r, u') \<Longrightarrow> same_start u u'"
  by (auto simp: on_base_def sbind_eq_Inr same_start_base split: prod.splits)

lemma alloc_base_eq: "alloc_base u = (ok, u') \<Longrightarrow> \<exists>a. u' = u\<lparr>base := (base u)\<lparr>alloc_ok := a\<rparr>\<rparr>"
  by (cases u, cases "base u") (auto simp: alloc_base_def libssh2_alloc_def split: list.splits)

lemma alloc_base_same: "alloc_base u = (ok, u') \<Longrightarrow> same_start u u'"
  using alloc_base_eq[of u ok u'] by (auto simp: same_start_base)

lemma fail_same: "same_start u (fail c m u)"
  by (simp add: fail_def same_start_base)

lemma dh_send_same:
  assumes "dh_send fuel env beyond d u = Inr (rc, u')"
  shows "same_start u u'"
proof -
  obtain ok v where a: "alloc_base u = (ok, v)" by (cases "alloc_base u")
  have "same_start v u'"
    using assms a by (auto simp: dh_send_def sbind_eq_Inr split: if_splits
      intro: on_base_same same_start_trans[OF on_base_same] fail_same same_start_burn
        same_start_trans[OF on_base_same same_start_trans[OF on_base_same same_start_burn]])
  then show ?thesis using alloc_base_same[OF a] same_start_trans by blast
qed

lemma dh_newkeys_same:
  assumes "dh_newkeys fuel env u = Inr (0, u')"
  shows "same_start u u' \<and> newkeys (base u')"
proof -
  obtain v w x where v: "on_base (libssh2_packet_write env [SSH_MSG_NEWKEYS]) u = Inr (0, v)"
    and w: "on_base (libssh2_packet_require fuel env SSH_MSG_NEWKEYS) v = Inr (Some x, w)"
    and u': "u' = w\<lparr>base := (base w)\<lparr>state := state (base w) OR LIBSSH2_STATE_NEWKEYS\<rparr>\<rparr>"
    using assms by (auto simp: dh_newkeys_def sbind_eq_Inr split: if_splits option.splits)
  have "newkeys (base u')" by (simp add: u' newkeys_def)
  moreover have "same_start w u'" by (simp add: u' same_start_base)
  ultimately show ?thesis using on_base_same[OF v] on_base_same[OF w] same_start_trans by blast
qed

text \<open>What a reply that is accepted has been: a signature of the key it brought, over the hash of the exchange.\<close>

definition verified ::
    "'c crypto \<Rightarrow> nat \<Rightarrow> nat \<Rightarrow> u8 \<Rightarrow> bytes \<Rightarrow> bytes \<Rightarrow> bytes \<Rightarrow> bytes \<Rightarrow> 'c startup \<Rightarrow> bool" where
  "verified C x p t midhash e_value k_value h u \<longleftrightarrow>
     (\<exists>hm verify k_s key f_value sig n v_s i_c i_s.
        hostkey u = Some hm \<and> hk_init hm k_s = Inr (Some key) \<and> hk_sig_verify hm = Some verify
        \<and> banner (side_remote u) = Some v_s \<and> kexinit (side_local u) = Some i_c \<and> kexinit (side_remote u) = Some i_s
        \<and> k_value = mpint C (mod_exp C (bin2bn C f_value) x p)
        \<and> h = sha1 C (hash_input (local_banner u) v_s i_c i_s k_s t midhash e_value f_value k_value)
        \<and> verify key sig n h = Inr True)"

lemma dh_verify_verified:
  assumes "dh_verify C x p t midhash e_value k_s reply pos hm key u = Inr (Inr (k_value, h), u')"
    and "hostkey u = Some hm" and "hk_init hm k_s = Inr (Some key)"
  shows "verified C x p t midhash e_value k_value h u \<and> same_start u u'"
proof -
  obtain ok v where a: "alloc_base u = (ok, v)" by (cases "alloc_base u")
  note f = same_start_fields[OF alloc_base_same[OF a]]
  obtain f_value pos' n where b: "blob_string reply pos = Inr (f_value, pos')" "rd32 reply pos' = Inr n"
    using assms(1) by (auto simp: dh_verify_def sbind_eq_Inr)
  show ?thesis
    using assms alloc_base_same[OF a] unfolding dh_verify_def verified_def b sbind_simps prod.case Let_def a f
    by (auto simp: sbind_eq_Inr Let_def split: if_splits option.splits) blast+
qed

lemma dh_reply_verified:
  assumes "dh_reply C x p t midhash e_value reply u = Inr (Inr (k_value, h), u')"
  shows "verified C x p t midhash e_value k_value h u
    \<and> session_id u' = session_id u \<and> side_local u' = side_local u \<and> side_remote u' = side_remote u"
proof -
  obtain ok v where a: "alloc_base u = (ok, v)" by (cases "alloc_base u")
  note f = same_start_fields[OF alloc_base_same[OF a]]
  obtain n k_s hm key where ok: "ok" "rd32 reply 1 = Inr n" "rdn reply 5 (unat n) = Inr k_s"
    and hm: "hostkey v = Some hm" and key: "hk_init hm k_s = Inr (Some key)"
    and dv: "dh_verify C x p t midhash e_value k_s reply (5 + uint n) hm key (with_hostkey C k_s key v) = Inr (Inr (k_value, h), u')"
    using assms a by (auto simp: dh_reply_def with_hostkey_def sbind_eq_Inr Let_def split: if_splits option.splits)
  let ?w = "with_hostkey C k_s key v"
  have w: "hostkey ?w = Some hm" "session_id ?w = session_id u" "side_local ?w = side_local u" "side_remote ?w = side_remote u"
    "local_banner ?w = local_banner u" "hostkey ?w = hostkey u"
    using f hm by (simp_all add: with_hostkey_def local_banner_def)
  have vw: "verified C x p t midhash e_value k_value h ?w = verified C x p t midhash e_value k_value h u"
    unfolding verified_def w(3-6) by (rule refl)
  from dh_verify_verified[OF dv w(1) key] have "verified C x p t midhash e_value k_value h u" and ss: "same_start ?w u'"
    unfolding vw by simp_all
  then show ?thesis using same_start_fields(2-4)[OF ss] w by simp
qed

abbreviation alloc_left :: "'c startup \<Rightarrow> bool list \<Rightarrow> 'c startup" where
  "alloc_left u a \<equiv> u\<lparr>base := (base u)\<lparr>alloc_ok := a\<rparr>\<rparr>"

lemma sha1_hash_rfc:
  assumes "on_base (SHA1_HASH C k h sid v n) u = Inr (key, u')"
  shows "key = rfc_blocks C k h sid (of_char v) ((n + 19) div 20) \<and> (\<exists>a. u' = alloc_left u a)"
proof -
  obtain ok w where a: "alloc_base u = (ok, w)" by (cases "alloc_base u")
  then have "ok \<and> u' = w \<and> key = sha1_hash_loop C k h sid (of_char v) n 0 []"
    using assms by (auto simp: on_base_def SHA1_HASH_def alloc_base_def split: if_splits prod.splits)
  then show ?thesis using alloc_base_eq[OF a] by (simp add: hash_loop_rfc)
qed

lemma install_crypt_rfc:
  assumes "install_crypt C k h sid b v_iv v_secret u = Inr (0, u')"
  shows "\<exists>m a. crypt (the_side b u) = Some m \<and> u' = upd_side b (\<lambda>d. d) (\<lambda>e. e\<lparr>crypt_abstract := crypt_start m b
      (rfc_blocks C k h sid (of_char v_iv) ((iv_len m + 19) div 20))
      (rfc_blocks C k h sid (of_char v_secret) ((secret_len m + 19) div 20))\<rparr>) (alloc_left u a)"
proof -
  obtain m iv v secret w where m: "crypt (the_side b u) = Some m"
    and iv: "on_base (SHA1_HASH C k h sid v_iv (iv_len m)) u = Inr (iv, v)"
    and se: "on_base (SHA1_HASH C k h sid v_secret (secret_len m)) v = Inr (secret, w)"
    using assms by (auto simp: install_crypt_def sbind_eq_Inr split: option.splits)
  obtain ok z where a: "alloc_base w = (ok, z)" by (cases "alloc_base w")
  have u': "u' = upd_side b (\<lambda>d. d) (\<lambda>e. e\<lparr>crypt_abstract := crypt_start m b iv secret\<rparr>) z"
    using assms by (simp add: install_crypt_def m iv se a split: if_splits)
  from sha1_hash_rfc[OF iv] obtain a1 where v: "iv = rfc_blocks C k h sid (of_char v_iv) ((iv_len m + 19) div 20)"
    "v = alloc_left u a1" by blast
  from sha1_hash_rfc[OF se] obtain a2 where w: "secret = rfc_blocks C k h sid (of_char v_secret) ((secret_len m + 19) div 20)"
    "w = alloc_left v a2" by blast
  from alloc_base_eq[OF a] obtain a3 where "z = alloc_left w a3" by blast
  then have "z = alloc_left u a3" by (simp add: v(2) w(2))
  then show ?thesis using m v(1) w(1) u' by blast
qed

lemma install_mac_rfc:
  assumes "install_mac C k h sid b v_key u = Inr (0, u')"
  shows "\<exists>m a. mac (the_side b u) = Some m
    \<and> u' = upd_side b (\<lambda>d. d) (\<lambda>e. e\<lparr>mac_abstract := Key (rfc_blocks C k h sid (of_char v_key) ((key_len m + 19) div 20))\<rparr>)
        (alloc_left u a)"
proof -
  obtain m key v where m: "mac (the_side b u) = Some m"
    and key: "on_base (SHA1_HASH C k h sid v_key (key_len m)) u = Inr (key, v)"
    and u': "u' = upd_side b (\<lambda>d. d) (\<lambda>e. e\<lparr>mac_abstract := Key key\<rparr>) v"
    using assms by (auto simp: install_mac_def sbind_eq_Inr split: option.splits)
  show ?thesis using sha1_hash_rfc[OF key] m u' by blast
qed

text \<open>One end of a direction with its keys: the letters of initial value, secret and MAC, and whether it encrypts.\<close>

definition keyed_ep ::
    "'c crypto \<Rightarrow> bytes \<Rightarrow> bytes \<Rightarrow> bytes \<Rightarrow> 'c side \<Rightarrow> bool \<Rightarrow> char \<Rightarrow> char \<Rightarrow> char \<Rightarrow> 'c handle endpoint \<Rightarrow> 'c handle endpoint" where
  "keyed_ep C k h sid d enc v_iv v_secret v_key e = e\<lparr>
     crypt_abstract := crypt_start (the (crypt d)) enc
       (rfc_blocks C k h sid (of_char v_iv) ((iv_len (the (crypt d)) + 19) div 20))
       (rfc_blocks C k h sid (of_char v_secret) ((secret_len (the (crypt d)) + 19) div 20)),
     mac_abstract := Key (rfc_blocks C k h sid (of_char v_key) ((key_len (the (mac d)) + 19) div 20))\<rparr>"

lemma upd_side_simps [simp]:
  "the_side b (upd_side c (\<lambda>d. d) g u) = the_side b u" "session_id (upd_side c f g u) = session_id u"
  "the_side b (u\<lparr>base := s\<rparr>) = the_side b u"
  by (auto simp: upd_side_def the_side_def)

lemma all_agree_zero:
  "all_agree (f # fs) u = Inr (0, u') \<longleftrightarrow> (\<exists>v. f u = Inr (0, v) \<and> all_agree fs v = Inr (0, u'))"
  by (auto simp: sbind_eq_Inr split: if_splits)

lemma dh_keys_rfc:
  assumes "dh_keys C k h u = Inr (0, u')"
  defines "sid \<equiv> (case session_id u of None \<Rightarrow> h | Some i \<Rightarrow> i)"
  shows "session_id u' = Some sid \<and> state (base u') = state (base u)
    \<and> ep_local (base u') = keyed_ep C k h sid (side_local u) True CHR ''A'' CHR ''C'' CHR ''E'' (ep_local (base u))
    \<and> ep_remote (base u') = keyed_ep C k h sid (side_remote u) False CHR ''B'' CHR ''D'' CHR ''F'' (ep_remote (base u))"
proof -
  obtain u0 a0 where u0: "u0 = (alloc_left u a0)\<lparr>session_id := Some sid\<rparr>"
    and ag: "all_agree
       [install_crypt C k h sid True CHR ''A'' CHR ''C'', install_crypt C k h sid False CHR ''B'' CHR ''D'',
        install_mac C k h sid True CHR ''E'', install_mac C k h sid False CHR ''F''] u0 = Inr (0, u')"
  proof (cases "session_id u")
    case None
    obtain ok w where a: "alloc_base u = (ok, w)" by (cases "alloc_base u")
    from alloc_base_eq[OF a] obtain a0 where w: "w = alloc_left u a0" by blast
    show ?thesis using assms(1) that[of "w\<lparr>session_id := Some h\<rparr>" a0] None a w
      by (simp add: dh_keys_def sid_def split: if_splits)
  next
    case (Some i)
    have "u = (alloc_left u (alloc_ok (base u)))\<lparr>session_id := Some i\<rparr>" using Some by (cases u) simp
    then show ?thesis using assms(1) that[of u "alloc_ok (base u)"] Some by (simp add: dh_keys_def sid_def)
  qed
  from ag obtain u1 u2 u3 where
    "install_crypt C k h sid True CHR ''A'' CHR ''C'' u0 = Inr (0, u1)" "install_crypt C k h sid False CHR ''B'' CHR ''D'' u1 = Inr (0, u2)"
    "install_mac C k h sid True CHR ''E'' u2 = Inr (0, u3)" "install_mac C k h sid False CHR ''F'' u3 = Inr (0, u')"
    unfolding all_agree_zero by auto
  note i1 = install_crypt_rfc[OF this(1)] and i2 = install_crypt_rfc[OF this(2)]
    and i3 = install_mac_rfc[OF this(3)] and i4 = install_mac_rfc[OF this(4)]
  from i1 i2 i3 i4 show ?thesis
    by (elim exE conjE) (simp add: u0 upd_side_def the_side_def keyed_ep_def)
qed

lemma verified_same: "same_start u v \<Longrightarrow> verified C x p t midhash e_value k h v = verified C x p t midhash e_value k h u"
  unfolding verified_def by (simp only: same_start_fields)

definition keys_installed :: "'c crypto \<Rightarrow> bytes \<Rightarrow> bytes \<Rightarrow> 'c startup \<Rightarrow> 'c startup \<Rightarrow> bool" where
  "keys_installed C k h u u' \<longleftrightarrow>
     (let sid = (case session_id u of None \<Rightarrow> h | Some i \<Rightarrow> i)
      in newkeys (base u') \<and> session_id u' = Some sid
         \<and> (\<exists>e. ep_local (base u') = keyed_ep C k h sid (side_local u) True CHR ''A'' CHR ''C'' CHR ''E'' e)
         \<and> (\<exists>e. ep_remote (base u') = keyed_ep C k h sid (side_remote u) False CHR ''B'' CHR ''D'' CHR ''F'' e))"

lemma keys_installed_cong:
  "session_id v = session_id u \<Longrightarrow> side_local v = side_local u \<Longrightarrow> side_remote v = side_remote u
    \<Longrightarrow> keys_installed C k h v u' = keys_installed C k h u u'"
  by (simp add: keys_installed_def)

lemma dh_verify_error: "dh_verify C x p t midhash e_value k_s reply pos hm key u = Inr (Inl rc, u') \<Longrightarrow> rc = -1"
  by (cases "alloc_base u") (auto simp: dh_verify_def sbind_eq_Inr Let_def split: if_splits option.splits)

lemma dh_reply_error: "dh_reply C x p t midhash e_value reply u = Inr (Inl rc, u') \<Longrightarrow> rc = -1"
  by (cases "alloc_base u") (auto simp: dh_reply_def sbind_eq_Inr Let_def dest: dh_verify_error split: if_splits option.splits)

lemma groupGP_verified:
  assumes "groupGP_sha1_key_exchange fuel env C beyond x g p t t' midhash u = Inr (0, u')"
  shows "\<exists>k h. verified C x p t midhash (mpint C (mod_exp C g x p)) k h u \<and> keys_installed C k h u u'"
proof -
  let ?e = "mpint C (mod_exp C g x p)"
  obtain u1 reply n u2 res u3 where
    u1: "dh_send fuel env beyond (t # ?e) u = Inr (0, u1)"
    and u2: "on_base (libssh2_packet_require fuel env t') u1 = Inr (Some (reply, n), u2)"
    and res: "dh_reply C x p t midhash ?e reply u2 = Inr (res, u3)"
    using assms by (auto simp: groupGP_sha1_key_exchange_def sbind_eq_Inr Let_def split: if_splits option.splits)
  have "\<exists>k h u4. res = Inr (k, h) \<and> dh_newkeys fuel env u3 = Inr (0, u4) \<and> dh_keys C k h u4 = Inr (0, u')"
    using assms res dh_reply_error[of C x p t midhash ?e reply u2 _ u3]
    by (cases res) (auto simp: groupGP_sha1_key_exchange_def u1 u2 sbind_eq_Inr Let_def split: if_splits)
  then obtain k h u4 where u3: "dh_reply C x p t midhash ?e reply u2 = Inr (Inr (k, h), u3)"
    and u4: "dh_newkeys fuel env u3 = Inr (0, u4)" and ks: "dh_keys C k h u4 = Inr (0, u')" using res by blast
  have s2: "same_start u u2" using dh_send_same[OF u1] on_base_same[OF u2] by (rule same_start_trans)
  have s4: "same_start u3 u4" "newkeys (base u4)" using dh_newkeys_same[OF u4] by simp_all
  note v = dh_reply_verified[OF u3]
  have f: "session_id u4 = session_id u" "side_local u4 = side_local u" "side_remote u4 = side_remote u"
    using same_start_fields[OF s2] same_start_fields[OF s4(1)] v by simp_all
  have "keys_installed C k h u4 u'"
    using dh_keys_rfc[OF ks] s4(2) by (auto simp: keys_installed_def newkeys_def Let_def)
  then show ?thesis using v verified_same[OF s2] keys_installed_cong[OF f] by blast
qed

lemma run_exchange_verified:
  assumes "run_exchange m fuel env C beyond rand u = Inr (0, u')"
  shows "\<exists>x g p t midhash k h. verified C x p t midhash (mpint C (mod_exp C g x p)) k h u \<and> keys_installed C k h u u'"
proof (cases m)
  case Group1
  from groupGP_verified[OF assms[unfolded this run_exchange.simps group1_sha1_key_exchange_def]] show ?thesis by blast
next
  case Group14
  from groupGP_verified[OF assms[unfolded this run_exchange.simps group14_sha1_key_exchange_def]] show ?thesis by blast
next
  case Group_Exchange
  then obtain v w x x' g p t t' midhash data n where
    v: "on_base (libssh2_packet_write env data) u = Inr (0, v)"
    and w: "on_base (libssh2_packet_require fuel env SSH_MSG_KEX_DH_GEX_GROUP) v = Inr (x', w)"
    and gp: "groupGP_sha1_key_exchange fuel env C beyond x g p t t' midhash w = Inr (0, u')"
    using assms by (auto simp: group_exchange_sha1_key_exchange_def sbind_eq_Inr Let_def split: if_splits option.splits)
  have s: "same_start u w" using on_base_same[OF v] on_base_same[OF w] by (rule same_start_trans)
  note f = same_start_fields[OF s]
  from groupGP_verified[OF gp] show ?thesis
    unfolding verified_same[OF s] keys_installed_cong[OF f(4,2,3)] by blast
qed

section \<open>Both ends\<close>

text \<open>
  What the code relies on: an OpenSSL context that decrypts undoes one that encrypts under the same key, and the
  hashes have their sizes.
\<close>

definition crypt_works :: "'c named_crypt \<Rightarrow> ('c handle \<Rightarrow> 'c handle \<Rightarrow> bool) \<Rightarrow> bool" where
  "crypt_works m sync \<longleftrightarrow> (\<forall>iv secret. sync (crypt_start m True iv secret) (crypt_start m False iv secret))
     \<and> cipher_pair (crypt_fn (crypt_table m)) (crypt_fn (crypt_table m)) (blocksize (crypt_table m)) sync"

definition digest_sizes :: "'c crypto \<Rightarrow> bool" where
  "digest_sizes C \<longleftrightarrow> (\<forall>b. length (sha1 C b) = 20)
     \<and> (\<forall>k b. length (hmac C ''sha1'' k b) = 20 \<and> length (hmac C ''md5'' k b) = 16 \<and> length (hmac C ''ripemd160'' k b) = 20)"

definition same_mac_key :: "nat \<Rightarrow> 'c handle \<Rightarrow> 'c handle \<Rightarrow> bool" where
  "same_mac_key n x y \<longleftrightarrow> (\<exists>a b. x = Key a \<and> y = Key b \<and> take n a = take n b)"

text \<open>An end of the other party, with keys as RFC 4253 wants them and nothing more.\<close>

definition rfc_ep ::
    "'c crypto \<Rightarrow> bytes \<Rightarrow> bytes \<Rightarrow> bytes \<Rightarrow> 'c named_crypt \<Rightarrow> 'c named_mac \<Rightarrow> bool \<Rightarrow> char \<Rightarrow> char \<Rightarrow> char \<Rightarrow> 'c handle endpoint \<Rightarrow> bool" where
  "rfc_ep C k h sid mc mm enc v_iv v_secret v_key e \<longleftrightarrow>
     ep_crypt e = crypt_table mc \<and> ep_mac e = mac_table mm
     \<and> crypt_abstract e = crypt_start mc enc (rfc_key C k h sid v_iv (iv_len mc)) (rfc_key C k h sid v_secret (secret_len mc))
     \<and> mac_abstract e = Key (rfc_key C k h sid v_key (key_len mm)) \<and> (\<exists>cm. ep_comp e = Some cm \<and> comp_none cm)"

lemma crypt_methods_take:
  assumes "m \<in> set (libssh2_crypt_methods C)"
  shows "crypt_start m enc iv secret = crypt_start m enc (take (iv_len m) iv) (take (secret_len m) secret)"
    "8 \<le> blocksize (crypt_table m)" "blocksize (crypt_table m) \<le> 32"
  using assms by (auto simp: libssh2_crypt_methods_def evp_entry_def)

lemma mac_methods_pair:
  assumes "m \<in> set (libssh2_mac_methods C)" and "digest_sizes C"
  shows "mac_pair (mac_hash (mac_table m)) (mac_hash (mac_table m)) (mac_len (mac_table m)) (same_mac_key (key_len m))"
  using assms by (auto simp: libssh2_mac_methods_def mac_entry_def mac_pair_def same_mac_key_def hmac_hash_def digest_sizes_def)

lemma crypt_start_rfc:
  assumes "m \<in> set (libssh2_crypt_methods C)"
  shows "crypt_start m enc (rfc_blocks C k h sid (of_char v) ((iv_len m + 19) div 20)) (rfc_blocks C k h sid (of_char v') ((secret_len m + 19) div 20))
    = crypt_start m enc (rfc_key C k h sid v (iv_len m)) (rfc_key C k h sid v' (secret_len m))"
  by (subst crypt_methods_take(1)[OF assms]) (simp add: rfc_key_def)

lemma linked_ends:
  assumes "mc \<in> set (libssh2_crypt_methods C)" and "mm \<in> set (libssh2_mac_methods C)"
    and "crypt_works mc csync" and "digest_sizes C" and "newkeys a" and "newkeys b" and "seqno (ep_local a) = seqno (ep_remote b)"
    and "ep_crypt (ep_local a) = crypt_table mc" and "ep_mac (ep_local a) = mac_table mm"
    and "\<exists>cm. ep_comp (ep_local a) = Some cm \<and> comp_none cm"
    and "ep_crypt (ep_remote b) = crypt_table mc" and "ep_mac (ep_remote b) = mac_table mm"
    and "\<exists>cm. ep_comp (ep_remote b) = Some cm \<and> comp_none cm"
    and "crypt_abstract (ep_local a) = crypt_start mc True iv secret" and "crypt_abstract (ep_remote b) = crypt_start mc False iv secret"
    and "same_mac_key (key_len mm) (mac_abstract (ep_local a)) (mac_abstract (ep_remote b))"
  shows "linked csync (same_mac_key (key_len mm)) a b"
proof -
  have "csync (crypt_start mc True iv secret) (crypt_start mc False iv secret)"
    "cipher_pair (crypt_fn (crypt_table mc)) (crypt_fn (crypt_table mc)) (blocksize (crypt_table mc)) csync"
    using assms(3) by (simp_all add: crypt_works_def)
  then show ?thesis
    unfolding linked_def Let_def assms(8,9,11,12,14,15)
    using assms(5-7,10,13,16) crypt_methods_take(2,3)[OF assms(1)] mac_methods_pair[OF assms(2,4)] by auto
qed

lemma keyed_ep_rfc:
  assumes "crypt d = Some mc" and "mac d = Some mm" and "mc \<in> set (libssh2_crypt_methods C)"
  shows "crypt_abstract (keyed_ep C k h sid d enc v v' v'' e)
      = crypt_start mc enc (rfc_key C k h sid v (iv_len mc)) (rfc_key C k h sid v' (secret_len mc))"
    "same_mac_key (key_len mm) (mac_abstract (keyed_ep C k h sid d enc v v' v'' e)) (Key (rfc_key C k h sid v'' (key_len mm)))"
    "same_mac_key (key_len mm) (Key (rfc_key C k h sid v'' (key_len mm))) (mac_abstract (keyed_ep C k h sid d enc v v' v'' e))"
    "ep_crypt (keyed_ep C k h sid d enc v v' v'' e) = ep_crypt e" "ep_mac (keyed_ep C k h sid d enc v v' v'' e) = ep_mac e"
    "ep_comp (keyed_ep C k h sid d enc v v' v'' e) = ep_comp e" "seqno (keyed_ep C k h sid d enc v v' v'' e) = seqno e"
  using assms(1,2) crypt_start_rfc[OF assms(3)] by (simp_all add: keyed_ep_def same_mac_key_def rfc_key_def)

section \<open>Properties\<close>



text \<open>(C27)
  The keys of \<^verbatim>\<open>LIBSSH2_KEX_METHOD_SHA1_HASH\<close> are those of RFC 4253, section 7.2, for every length asked for, and
  the digests never go beyond the buffer, which has room for one digest more than the key.
\<close>

theorem session_keys_rfc:
  assumes "digest_sizes C" and "SHA1_HASH C k h sid v n s = Inr (key, s')"
  shows "take n key = rfc_key C k h sid v n \<and> n \<le> length key \<and> length key < n + 20"
proof -
  have key: "key = rfc_blocks C k h sid (of_char v) ((n + 19) div 20)"
    using assms(2) by (auto simp: SHA1_HASH_def hash_loop_rfc split: prod.splits if_splits)
  have "length key = 20 * ((n + 19) div 20)"
    using assms(1) by (simp add: key rfc_blocks_length digest_sizes_def)
  moreover have "n \<le> 20 * ((n + 19) div 20)" "20 * ((n + 19) div 20) < n + 20" by linarith+
  ultimately show ?thesis by (simp add: key rfc_key_def)
qed

text \<open>(C9)
  The keys put into use by the client fit those of a server that follows RFC 4253, in both directions: the two ends
  are in step, as the packet layer needs it for what one end sends to be what the other receives.
\<close>

theorem exchange_links:
  assumes "dh_keys C k h u = Inr (0, u')" and "sid = (case session_id u of None \<Rightarrow> h | Some i \<Rightarrow> i)"
    and "newkeys (base u)" and "newkeys b" and "digest_sizes C" and "crypt_works lc csync" and "crypt_works rc csync"
    and "crypt (side_local u) = Some lc" "mac (side_local u) = Some lm" "crypt (side_remote u) = Some rc" "mac (side_remote u) = Some rm"
    and "lc \<in> set (libssh2_crypt_methods C)" "rc \<in> set (libssh2_crypt_methods C)"
    and "lm \<in> set (libssh2_mac_methods C)" "rm \<in> set (libssh2_mac_methods C)"
    and "ep_crypt (ep_local (base u)) = crypt_table lc" "ep_mac (ep_local (base u)) = mac_table lm"
    and "ep_crypt (ep_remote (base u)) = crypt_table rc" "ep_mac (ep_remote (base u)) = mac_table rm"
    and "\<exists>cm. ep_comp (ep_local (base u)) = Some cm \<and> comp_none cm" "\<exists>cm. ep_comp (ep_remote (base u)) = Some cm \<and> comp_none cm"
    and "rfc_ep C k h sid lc lm False CHR ''A'' CHR ''C'' CHR ''E'' (ep_remote b)"
    and "rfc_ep C k h sid rc rm True CHR ''B'' CHR ''D'' CHR ''F'' (ep_local b)"
    and "seqno (ep_remote b) = seqno (ep_local (base u))" "seqno (ep_local b) = seqno (ep_remote (base u))"
  shows "linked csync (same_mac_key (key_len lm)) (base u') b \<and> linked csync (same_mac_key (key_len rm)) b (base u')"
proof -
  note ks = dh_keys_rfc[OF assms(1), folded assms(2)]
  have nk: "newkeys (base u')" using ks assms(3) by (simp add: newkeys_def)
  have l: "ep_local (base u') = keyed_ep C k h sid (side_local u) True CHR ''A'' CHR ''C'' CHR ''E'' (ep_local (base u))"
    and r: "ep_remote (base u') = keyed_ep C k h sid (side_remote u) False CHR ''B'' CHR ''D'' CHR ''F'' (ep_remote (base u))"
    using ks by simp_all
  have "linked csync (same_mac_key (key_len lm)) (base u') b"
    using assms(16,17,20,22,24) keyed_ep_rfc[OF assms(8,9,12)]
    by (intro linked_ends[OF assms(12,14,6,5) nk assms(4)]) (simp_all add: l rfc_ep_def del: of_char_Char)
  moreover have "linked csync (same_mac_key (key_len rm)) b (base u')"
    using assms(18,19,21,23,25) keyed_ep_rfc[OF assms(10,11,13)]
    by (intro linked_ends[OF assms(13,15,7,5) assms(4) nk]) (simp_all add: r rfc_ep_def del: of_char_Char)
  ultimately show ?thesis ..
qed

section \<open>Witnesses\<close>

text \<open>The small functions of \<open>example_crypto\<close>, with signatures that verify, and a server with the key (1, 3).\<close>

definition signed_crypto :: "unit crypto" where
  "signed_crypto = example_crypto\<lparr>rsa_verify := \<lambda>_ _ _. True, sha1 := \<lambda>b. replicate 20 (of_nat (length b)),
     md5sum := \<lambda>b. replicate 16 (of_nat (length b)), hmac := \<lambda>a k b. replicate (if a = ''md5'' then 16 else 20) (of_nat (length b))\<rparr>"

definition example_key :: bytes where
  "example_key = wire_string (ascii ''ssh-rsa'') @ wire_string [1] @ wire_string [3]"

definition example_side :: "unit side" where
  "example_side = null_side\<lparr>banner := Some (ascii ''SSH-2.0-x''), kexinit := Some [20],
     crypt := Some (hd (libssh2_crypt_methods signed_crypto)), mac := Some (hd (libssh2_mac_methods signed_crypto))\<rparr>"

definition example_ep :: "unit handle endpoint" where
  "example_ep = null_endpoint\<lparr>ep_crypt := crypt_table (hd (libssh2_crypt_methods signed_crypto)),
     ep_mac := mac_table (hd (libssh2_mac_methods signed_crypto)), ep_comp := Some (comp_table (hd (libssh2_comp_methods signed_crypto)))\<rparr>"

definition example_startup :: "unit startup" where
  "example_startup = (null_startup [])\<lparr>
     base := (null_session [])\<lparr>packets := [queued_packet (31 # wire_string [23] @ wire_string [5]),
          queued_packet (kexdh_reply signed_crypto 33 example_key 2 (replicate 20 0)), queued_packet [21]],
        ep_local := example_ep, ep_remote := example_ep\<rparr>,
     hostkey := Some (hd (libssh2_hostkey_methods signed_crypto)), side_local := example_side, side_remote := example_side\<rparr>"

lemma case_zero_iff:
  "(case r of Inl _ \<Rightarrow> False | Inr (rc, _) \<Rightarrow> rc = 0) \<longleftrightarrow> (\<exists>u'. r = Inr (0 :: int, u'))"
  by (auto split: sum.splits prod.splits)


lemma signed_bignums: "bignums signed_crypto"
  using example_bignums by (simp add: signed_crypto_def bignums_def)

lemma signed_sizes: "digest_sizes signed_crypto"
  by (simp add: digest_sizes_def signed_crypto_def example_crypto_def)

lemma example_start_simps [simp]:
  "alloc_ok (base example_startup) = []" "hostkey example_startup = Some (hd (libssh2_hostkey_methods signed_crypto))"
  "side_local example_startup = example_side" "side_remote example_startup = example_side"
  "session_id example_startup = None" "ep_local (base example_startup) = example_ep" "ep_remote (base example_startup) = example_ep"
  by (simp_all add: example_startup_def null_startup_def null_session_def)

lemma example_key_opens: "hk_init (hd (libssh2_hostkey_methods signed_crypto)) example_key = Inr (Some ())"
  by code_simp


theorem session_keys_rfc_witness:
  "\<exists>key s'. SHA1_HASH signed_crypto [1] [2] [3] CHR ''C'' 32 (null_session [] :: unit handle session) = Inr (key, s')
     \<and> take 32 key = rfc_key signed_crypto [1] [2] [3] CHR ''C'' 32 \<and> length key < 52"
proof -
  obtain key s' where "SHA1_HASH signed_crypto [1] [2] [3] CHR ''C'' 32 (null_session [] :: unit handle session) = Inr (key, s')"
    by (simp add: SHA1_HASH_def libssh2_alloc_def null_session_def)
  with session_keys_rfc[OF signed_sizes this] show ?thesis by auto
qed

definition example_peer :: "bytes \<Rightarrow> bytes \<Rightarrow> unit handle session" where
  "example_peer k h =
     (let mc = hd (libssh2_crypt_methods signed_crypto); mm = hd (libssh2_mac_methods signed_crypto); key = rfc_key signed_crypto k h h
      in (null_session [])\<lparr>state := LIBSSH2_STATE_NEWKEYS,
           ep_remote := example_ep\<lparr>crypt_abstract := crypt_start mc False (key CHR ''A'' (iv_len mc)) (key CHR ''C'' (secret_len mc)),
              mac_abstract := Key (key CHR ''E'' (key_len mm))\<rparr>,
           ep_local := example_ep\<lparr>crypt_abstract := crypt_start mc True (key CHR ''B'' (iv_len mc)) (key CHR ''D'' (secret_len mc)),
              mac_abstract := Key (key CHR ''F'' (key_len mm))\<rparr>\<rparr>)"

definition both_open :: "unit handle \<Rightarrow> unit handle \<Rightarrow> bool" where
  "both_open x y \<longleftrightarrow> x = Handle () \<and> y = Handle ()"

lemma example_crypt_works: "crypt_works (hd (libssh2_crypt_methods signed_crypto)) both_open"
proof -
  have "map ((NOT) \<circ> (NOT)) b = b" for b :: bytes by (induction b) simp_all
  then show ?thesis
    by (auto simp: crypt_works_def cipher_pair_def both_open_def libssh2_crypt_methods_def evp_entry_def signed_crypto_def example_crypto_def)
qed

theorem exchange_links_witness:
  "\<exists>u'. dh_keys signed_crypto [1] [2] (example_startup\<lparr>base := (base example_startup)\<lparr>state := LIBSSH2_STATE_NEWKEYS\<rparr>\<rparr>) = Inr (0, u')
     \<and> linked both_open (same_mac_key 20) (base u') (example_peer [1] [2]) \<and> linked both_open (same_mac_key 20) (example_peer [1] [2]) (base u')"
proof -
  let ?u = "example_startup\<lparr>base := (base example_startup)\<lparr>state := LIBSSH2_STATE_NEWKEYS\<rparr>\<rparr>"
  let ?b = "example_peer [1] [2]" and ?mc = "hd (libssh2_crypt_methods signed_crypto)" and ?mm = "hd (libssh2_mac_methods signed_crypto)"
  have "case dh_keys signed_crypto [1] [2] ?u of Inl _ \<Rightarrow> False | Inr (rc, _) \<Rightarrow> rc = 0" by code_simp
  then obtain u' where u': "dh_keys signed_crypto [1] [2] ?u = Inr (0, u')" unfolding case_zero_iff by blast
  have in_tables: "?mc \<in> set (libssh2_crypt_methods signed_crypto)" "?mm \<in> set (libssh2_mac_methods signed_crypto)"
    by (simp_all add: libssh2_crypt_methods_def libssh2_mac_methods_def)
  have comp: "\<exists>cm. ep_comp example_ep = Some cm \<and> comp_none cm" by (simp add: example_ep_def libssh2_comp_methods_def)
  have peer: "rfc_ep signed_crypto [1] [2] [2] ?mc ?mm False CHR ''A'' CHR ''C'' CHR ''E'' (ep_remote ?b)"
    "rfc_ep signed_crypto [1] [2] [2] ?mc ?mm True CHR ''B'' CHR ''D'' CHR ''F'' (ep_local ?b)" "newkeys ?b"
    "seqno (ep_remote ?b) = 0" "seqno (ep_local ?b) = 0"
    using comp by (simp_all add: example_peer_def Let_def rfc_ep_def newkeys_def, simp_all add: example_ep_def null_endpoint_def)
  have kl: "key_len ?mm = 20" by (simp add: libssh2_mac_methods_def mac_entry_def)
  have "linked both_open (same_mac_key (key_len ?mm)) (base u') ?b \<and> linked both_open (same_mac_key (key_len ?mm)) ?b (base u')"
    by (rule exchange_links[OF u' _ _ peer(3) signed_sizes example_crypt_works example_crypt_works _ _ _ _ in_tables(1,1,2,2)])
      (use peer comp in \<open>simp_all add: newkeys_def example_side_def, simp_all add: example_ep_def null_endpoint_def\<close>)
  with u' show ?thesis unfolding kl by blast
qed

end
