(* ===== verification/SSH_Startup.thy ===== *)
theory SSH_Startup
  imports SSH_Kex
begin

text \<open>
  The life of a session, \<^verbatim>\<open>src/ssh/libssh2/session.c\<close>: the exchange of banners, the start, the end, and what can be
  asked in between.  Polling, which the agent does not use, is not modelled; the memory callbacks are those of
  \<open>alloc_ok\<close>, and the other callbacks are the record \<open>env\<close>.
\<close>

section \<open>Banners\<close>

abbreviation (input) BYTE_CR :: u8 where "BYTE_CR \<equiv> 13"
abbreviation (input) BYTE_LF :: u8 where "BYTE_LF \<equiv> 10"

text \<open>
  A byte at a time until the end of a line, or until 256 bytes are there; \<open>None\<close> is the return value 1.  A call
  of \<^verbatim>\<open>recv\<close> that returns 0, as it does for ever on a connection that has been closed, is repeated.
\<close>

function banner_loop :: "bytes \<Rightarrow> recv_event list \<Rightarrow> (bytes option \<times> recv_event list) run" where
  "banner_loop line evs =
     (if \<not> (length line < 256 \<and> (line = [] \<or> last line \<noteq> BYTE_LF)) then Inr (Some line, evs)
      else case evs of
             [] \<Rightarrow> Inl Never_Returns
           | Recv_Error e # rest \<Rightarrow> if e \<noteq> EAGAIN then Inr (None, rest) else banner_loop line rest
           | Recv_Data [] # rest \<Rightarrow> banner_loop line rest
           | Recv_Data (c # cs) # rest \<Rightarrow>
               (let left = (if cs = [] then rest else Recv_Data cs # rest)
                in if c = 0 then Inr (None, left) else banner_loop (line @ [c]) left))"
  by pat_completeness auto
termination
  by (relation "measure (\<lambda>(b, evs). size_list (\<lambda>e. case e of Recv_Data d \<Rightarrow> length d | Recv_Error _ \<Rightarrow> 0) evs)") (auto split: if_splits)

declare banner_loop.simps [simp del]

definition strip_eol :: "bytes \<Rightarrow> bytes" where
  "strip_eol b = rev (dropWhile (\<lambda>c. c = BYTE_LF \<or> c = BYTE_CR) (rev b))"

definition libssh2_banner_receive :: "'c startup \<Rightarrow> (int \<times> 'c startup) run" where
  "libssh2_banner_receive u =
     sbind (banner_loop [] (input (base u))) (\<lambda>(r, evs).
     let u = u\<lparr>base := (base u)\<lparr>input := evs\<rparr>\<rparr>
     in case r of
          None \<Rightarrow> Inr (1, u)
        | Some line \<Rightarrow>
            if strip_eol line = [] then Inr (1, u)
            else let (ok, u) = alloc_base u
                 in if \<not> ok then Inl Undefined
                    else Inr (0, u\<lparr>side_remote := (side_remote u)\<lparr>banner := Some (strip_eol line)\<rparr>\<rparr>))"

definition libssh2_banner_send :: "'c startup \<Rightarrow> int \<times> 'c startup" where
  "libssh2_banner_send u =
     (let text_line = (case banner (side_local u) of None \<Rightarrow> DEFAULT_BANNER @ [BYTE_CR, BYTE_LF] | Some b \<Rightarrow> b);
          (ok, s) = sock_send text_line (base u)
      in (if ok then 0 else 1, u\<lparr>base := s\<rparr>))"

definition libssh2_banner_set :: "bytes option \<Rightarrow> 'c startup \<Rightarrow> int \<times> 'c startup" where
  "libssh2_banner_set new u =
     (let u = u\<lparr>side_local := (side_local u)\<lparr>banner := None\<rparr>\<rparr>
      in case new of
           None \<Rightarrow> (0, u)
         | Some b \<Rightarrow>
             if b = [] then (0, u)
             else let (ok, u) = alloc_base u
                  in if \<not> ok then (-1, fail ERROR_ALLOC ''Unable to allocate memory for local banner'' u)
                     else (0, u\<lparr>side_local := (side_local u)\<lparr>banner := Some (b @ [BYTE_CR, BYTE_LF])\<rparr>\<rparr>))"

section \<open>Start and end\<close>

abbreviation (input) SSH_MSG_SERVICE_REQUEST :: u8 where "SSH_MSG_SERVICE_REQUEST \<equiv> 5"
abbreviation (input) SSH_MSG_SERVICE_ACCEPT :: u8 where "SSH_MSG_SERVICE_ACCEPT \<equiv> 6"

text \<open>The error code that the function returns; \<open>ERROR_NONE\<close> is 0.\<close>

definition service_accepted :: "bytes \<Rightarrow> bool run" where
  "service_accepted data =
     sbind (rd32 data 1) (\<lambda>service_length.
     if service_length \<noteq> 12 then Inr False else strncmp_mem (drop 5 data) (ascii ''ssh-userauth''))"

definition request_service :: "nat \<Rightarrow> 'c handle env \<Rightarrow> 'c startup \<Rightarrow> (ssh_error \<times> 'c startup) run" where
  "request_service fuel env u =
     sbind (on_base (libssh2_packet_write env (SSH_MSG_SERVICE_REQUEST # wire_string (ascii ''ssh-userauth''))) u) (\<lambda>(rc, u).
     if rc \<noteq> 0 then Inr (ERROR_SOCKET_SEND, fail ERROR_SOCKET_SEND ''Unable to ask for ssh-userauth service'' u)
     else
       sbind (on_base (libssh2_packet_require fuel env SSH_MSG_SERVICE_ACCEPT) u) (\<lambda>(r, u).
       case r of
         None \<Rightarrow> Inr (ERROR_SOCKET_DISCONNECT, u)
       | Some (data, n) \<Rightarrow>
           sbind (service_accepted data) (\<lambda>good.
           if \<not> good then Inr (ERROR_PROTO, fail ERROR_PROTO ''Invalid response received from server'' u)
           else Inr (ERROR_NONE, u))))"

definition libssh2_session_startup ::
    "nat \<Rightarrow> 'c handle env \<Rightarrow> 'c crypto \<Rightarrow> bytes \<Rightarrow> bytes \<Rightarrow> (nat \<Rightarrow> nat) \<Rightarrow> int \<Rightarrow> 'c startup \<Rightarrow> (ssh_error \<times> 'c startup) run" where
  "libssh2_session_startup fuel env C cookie beyond rand sock u =
     (if sock < 0 then Inr (ERROR_SOCKET_NONE, fail ERROR_SOCKET_NONE ''Bad socket provided'' u)
      else
        let (rc, u) = libssh2_banner_send u
        in if rc \<noteq> 0 then Inr (ERROR_BANNER_SEND, fail ERROR_BANNER_SEND ''Error sending banner to remote host'' u)
           else
             sbind (libssh2_banner_receive u) (\<lambda>(rc, u).
             if rc \<noteq> 0 then Inr (ERROR_BANNER_NONE, fail ERROR_BANNER_NONE ''Timeout waiting for banner'' u)
             else
               sbind (libssh2_kex_exchange fuel env C cookie beyond rand False u) (\<lambda>(rc, u).
               if rc \<noteq> 0 then Inr (ERROR_KEX_FAILURE, fail ERROR_KEX_FAILURE ''Unable to exchange encryption keys'' u)
               else request_service fuel env u)))"

definition libssh2_session_disconnect_ex ::
    "'c handle env \<Rightarrow> u32 \<Rightarrow> bytes option \<Rightarrow> bytes option \<Rightarrow> 'c startup \<Rightarrow> (int \<times> 'c startup) run" where
  "libssh2_session_disconnect_ex env reason description lang u =
     (let (ok, u) = alloc_base u;
          part = (\<lambda>t. case t of None \<Rightarrow> [] | Some b \<Rightarrow> b)
      in if \<not> ok then Inr (-1, fail ERROR_ALLOC ''Unable to allocate memory for disconnect packet'' u)
         else sbind (on_base (libssh2_packet_write env
                (SSH_MSG_DISCONNECT # libssh2_htonu32 reason @ wire_string (part description) @ wire_string (part lang))) u) (\<lambda>(rc, u).
              Inr (0, u)))"

text \<open>Closing what is open; the rest of \<^verbatim>\<open>libssh2_session_free\<close> frees memory.\<close>

fun free_channels :: "nat \<Rightarrow> nat \<Rightarrow> 'x env \<Rightarrow> 'x session \<Rightarrow> 'x session run" where
  "free_channels 0 fuel env s = (if channels s = [] then Inr s else Inl Never_Returns)"
| "free_channels (Suc n) fuel env s =
     (case channels s of
        [] \<Rightarrow> Inr s
      | r # rs \<Rightarrow>
          sbind (libssh2_channel_free fuel env r s) (\<lambda>(rc, s).
          free_channels n fuel env (if channels s \<noteq> [] \<and> hd (channels s) = r then s\<lparr>channels := tl (channels s)\<rparr> else s)))"

fun cancel_listeners :: "nat \<Rightarrow> nat \<Rightarrow> 'x env \<Rightarrow> 'x session \<Rightarrow> 'x session run" where
  "cancel_listeners 0 fuel env s = (if listeners s = [] then Inr s else Inl Never_Returns)"
| "cancel_listeners (Suc n) fuel env s =
     (case listeners s of
        [] \<Rightarrow> Inr s
      | l # ls \<Rightarrow> sbind (libssh2_channel_forward_cancel fuel env (l_ref l) s) (\<lambda>(rc, s). cancel_listeners n fuel env s))"

definition libssh2_session_free :: "nat \<Rightarrow> nat \<Rightarrow> 'x env \<Rightarrow> 'x session \<Rightarrow> 'x session run" where
  "libssh2_session_free n fuel env s =
     sbind (free_channels n fuel env s) (\<lambda>s. sbind (cancel_listeners n fuel env s) (\<lambda>s. Inr (s\<lparr>packets := []\<rparr>)))"

section \<open>Questions\<close>

definition active_method :: "method_type \<Rightarrow> 'c startup \<Rightarrow> string option" where
  "active_method t u =
     (case t of
        METHOD_KEX \<Rightarrow> map_option kex_name (kex u)
      | METHOD_HOSTKEY \<Rightarrow> map_option hk_name (hostkey u)
      | METHOD_CRYPT_CS \<Rightarrow> map_option crypt_name (crypt (side_local u))
      | METHOD_CRYPT_SC \<Rightarrow> map_option crypt_name (crypt (side_remote u))
      | METHOD_MAC_CS \<Rightarrow> map_option mac_name (mac (side_local u))
      | METHOD_MAC_SC \<Rightarrow> map_option mac_name (mac (side_remote u))
      | METHOD_COMP_CS \<Rightarrow> map_option comp_name (comp (side_local u))
      | METHOD_COMP_SC \<Rightarrow> map_option comp_name (comp (side_remote u))
      | _ \<Rightarrow> None)"

definition libssh2_session_methods :: "method_type \<Rightarrow> 'c startup \<Rightarrow> string option \<times> 'c startup" where
  "libssh2_session_methods t u =
     (if t \<in> {METHOD_LANG_CS, METHOD_LANG_SC} then (Some [], u)
      else if t = METHOD_INVALID then (None, fail ERROR_INVAL ''Invalid parameter specified for method_type'' u)
      else case active_method t u of
             None \<Rightarrow> (None, fail ERROR_METHOD_NONE ''No method negotiated'' u)
           | Some n \<Rightarrow> (Some n, u))"

definition libssh2_session_flag :: "u32 \<Rightarrow> bool \<Rightarrow> 'c startup \<Rightarrow> u32 \<times> 'c startup" where
  "libssh2_session_flag flag val u =
     (let u = u\<lparr>flags := (if val then flags u OR flag else flags u AND NOT flag)\<rparr> in (flags u, u))"

text \<open>The error code and the message; the pointers of the caller are not modelled.\<close>

definition libssh2_session_last_error :: "'c startup \<Rightarrow> ssh_error \<times> string" where
  "libssh2_session_last_error u =
     (if err_code (base u) = ERROR_NONE then (ERROR_NONE, []) else (err_code (base u), err_msg (base u)))"

section \<open>Reading a banner\<close>

text \<open>What a socket that works delivers: data in pieces of any size, and now and then nothing.\<close>

definition calm_events :: "recv_event list \<Rightarrow> bool" where
  "calm_events es \<longleftrightarrow> list_all (\<lambda>e. case e of Recv_Data b \<Rightarrow> True | Recv_Error x \<Rightarrow> x = EAGAIN) es"

lemma calm_simps [simp]:
  "calm_events []" "calm_events (Recv_Data b # es) = calm_events es" "calm_events (Recv_Error x # es) = (x = EAGAIN \<and> calm_events es)"
  by (simp_all add: calm_events_def)

lemma banner_loop_line:
  assumes "calm_events evs" and "ev_bytes evs = line @ BYTE_LF # rest" and "0 \<notin> set line" and "BYTE_LF \<notin> set line"
    and "length b + length line < 256" and "b = [] \<or> last b \<noteq> BYTE_LF"
  shows "\<exists>left. banner_loop b evs = Inr (Some (b @ line @ [BYTE_LF]), left) \<and> calm_events left \<and> ev_bytes left = rest"
  using assms
proof (induction b evs arbitrary: line rule: banner_loop.induct)
  case (1 b evs)
  have go: "length b < 256" "b = [] \<or> last b \<noteq> BYTE_LF" using "1.prems"(5,6) by auto
  show ?case
  proof (cases evs)
    case Nil
    then show ?thesis using "1.prems"(2) by simp
  next
    case (Cons e es)
    show ?thesis
    proof (cases e)
      case (Recv_Error x)
      then have "x = EAGAIN" using "1.prems"(1) Cons by simp
      then show ?thesis
        using "1.IH"(3)[of e es x line] "1.prems" Cons Recv_Error go by (subst banner_loop.simps) simp
    next
      case (Recv_Data d)
      show ?thesis
      proof (cases d)
        case Nil
        then show ?thesis
          using "1.IH"(1)[of e es d line] "1.prems" Cons Recv_Data go by (subst banner_loop.simps) simp
      next
        case d: (Cons c cs)
        let ?left = "if cs = [] then es else Recv_Data cs # es"
        have lb: "ev_bytes ?left = tl (line @ BYTE_LF # rest)" "c = hd (line @ BYTE_LF # rest)" "calm_events ?left"
          using "1.prems"(1,2) Cons Recv_Data d by (auto dest: arg_cong[of _ _ tl] arg_cong[of _ _ hd])
        show ?thesis
        proof (cases line)
          case Nil
          have stop: "banner_loop (b @ [BYTE_LF]) ?left = Inr (Some (b @ [BYTE_LF]), ?left)"
            by (subst banner_loop.simps) simp
          show ?thesis
            using go lb Nil Cons Recv_Data d stop by (subst banner_loop.simps) (simp add: Let_def)
        next
          case l: (Cons c' line')
          then have c: "c = c'" "c \<noteq> 0" "c \<noteq> BYTE_LF" using lb(2) "1.prems"(3,4) by auto
          have "\<exists>left. banner_loop (b @ [c]) ?left = Inr (Some ((b @ [c]) @ line' @ [BYTE_LF]), left) \<and> calm_events left \<and> ev_bytes left = rest"
            by (rule "1.IH"(2)[of e es d c cs "if cs = [] then es else Recv_Data cs # es"]) (use "1.prems" Cons Recv_Data d l lb c go in auto)
          then show ?thesis
            using go Cons Recv_Data d l c by (subst banner_loop.simps) (simp add: Let_def)
        qed
      qed
    qed
  qed
qed


lemma strip_eol_append: "strip_eol (line @ [BYTE_LF]) = strip_eol line" "strip_eol (line @ [BYTE_CR]) = strip_eol line"
  by (simp_all add: strip_eol_def)

lemma strip_eol_none: "line = [] \<or> last line \<noteq> BYTE_LF \<and> last line \<noteq> BYTE_CR \<Longrightarrow> strip_eol line = line"
  by (cases line rule: rev_cases) (simp_all add: strip_eol_def)

lemma banner_receive_line:
  assumes "calm_events (input (base u))" and "ev_bytes (input (base u)) = line @ BYTE_LF # rest"
    and "0 \<notin> set line" and "BYTE_LF \<notin> set line" and "length line < 256" and "strip_eol line \<noteq> []" and "alloc_ok (base u) = []"
  shows "\<exists>u'. libssh2_banner_receive u = Inr (0, u') \<and> banner (side_remote u') = Some (strip_eol line)
    \<and> calm_events (input (base u')) \<and> ev_bytes (input (base u')) = rest"
proof -
  obtain left where b: "banner_loop [] (input (base u)) = Inr (Some (line @ [BYTE_LF]), left)" "calm_events left" "ev_bytes left = rest"
    using banner_loop_line[OF assms(1-4), of "[]"] assms(5) by auto
  have a: "alloc_base (u\<lparr>base := (base u)\<lparr>input := left\<rparr>\<rparr>) = (True, u\<lparr>base := (base u)\<lparr>input := left\<rparr>\<rparr>)"
    using assms(7) by (intro alloc_base_ok) simp
  show ?thesis
    unfolding libssh2_banner_receive_def b(1) sbind_simps prod.case Let_def option.case strip_eol_append a
    using assms(6) b(2,3) by simp
qed

text \<open>A banner as it may be sent: one line that does not end in an end of line itself.\<close>

definition fair_banner :: "bytes \<Rightarrow> bool" where
  "fair_banner b \<longleftrightarrow> b \<noteq> [] \<and> 0 \<notin> set b \<and> BYTE_LF \<notin> set b \<and> last b \<noteq> BYTE_CR \<and> length b < 255"

definition banner_choice :: "'c startup \<Rightarrow> bool" where
  "banner_choice u \<longleftrightarrow> (case banner (side_local u) of None \<Rightarrow> True | Some b \<Rightarrow> \<exists>t. fair_banner t \<and> b = t @ [BYTE_CR, BYTE_LF])"

lemma banner_choice_set:
  "(case new of None \<Rightarrow> True | Some t \<Rightarrow> t = [] \<or> fair_banner t) \<Longrightarrow> libssh2_banner_set new u = (rc, u') \<Longrightarrow> rc = 0 \<Longrightarrow> banner_choice u'"
  by (cases "alloc_base (u\<lparr>side_local := (side_local u)\<lparr>banner := None\<rparr>\<rparr>)")
    (auto simp: libssh2_banner_set_def banner_choice_def Let_def split: option.splits if_splits)

lemma default_fair: "fair_banner DEFAULT_BANNER"
  by code_simp

lemma banner_choice_line:
  "banner_choice u \<Longrightarrow> fair_banner (local_banner u)
    \<and> (case banner (side_local u) of None \<Rightarrow> DEFAULT_BANNER @ [BYTE_CR, BYTE_LF] | Some b \<Rightarrow> b) = local_banner u @ [BYTE_CR, BYTE_LF]"
  using default_fair by (auto simp: banner_choice_def local_banner_def split: option.splits)

lemma banner_send_line:
  assumes "libssh2_banner_send u = (0, u')" and "banner_choice u"
  shows "sent (base u') = sent (base u) @ [local_banner u @ [BYTE_CR, BYTE_LF]] \<and> side_local u' = side_local u"
  using assms banner_choice_line[OF assms(2)]
  by (auto simp: libssh2_banner_send_def sock_send_def Let_def split: list.splits if_splits)

section \<open>The start as a whole\<close>

lemma kex_exchange_verified:
  assumes "libssh2_kex_exchange fuel env C cookie beyond rand reexchange u = Inr (0, u')"
  shows "\<exists>v x g p t midhash k h. verified C x p t midhash (mpint C (mod_exp C g x p)) k h v
    \<and> session_id u' = Some (case session_id v of None \<Rightarrow> h | Some i \<Rightarrow> i) \<and> newkeys (base u')"
proof -
  obtain v k w where run: "run_exchange k fuel env C beyond rand v = Inr (0, w)"
    and u': "u' = (let u = set_kexinit False None (set_kexinit True None w)
        in u\<lparr>base := (base u)\<lparr>state := state (base u) AND NOT LIBSSH2_STATE_EXCHANGING_KEYS\<rparr>\<rparr>)"
    using assms by (auto simp: libssh2_kex_exchange_def Let_def sbind_eq_Inr split: if_splits option.splits)
  obtain x g p t midhash kk h where v: "verified C x p t midhash (mpint C (mod_exp C g x p)) kk h v" "keys_installed C kk h v w"
    using run_exchange_verified[OF run] by blast
  have "session_id u' = session_id w" by (simp add: u' Let_def set_kexinit_def)
  moreover have "newkeys (base u') = newkeys (base w)"
    by (simp add: u' Let_def set_kexinit_def upd_side_def newkeys_def and.assoc)
  moreover have "session_id w = Some (case session_id v of None \<Rightarrow> h | Some i \<Rightarrow> i)" "newkeys (base w)"
    using v(2) by (simp_all add: keys_installed_def Let_def)
  ultimately have "session_id u' = Some (case session_id v of None \<Rightarrow> h | Some i \<Rightarrow> i)" "newkeys (base u')" by simp_all
  with v(1) show ?thesis by blast
qed


lemma request_service_same:
  assumes "request_service fuel env u = Inr (ERROR_NONE, u')"
  shows "same_start u u' \<and> (\<exists>data v n. on_base (libssh2_packet_require fuel env SSH_MSG_SERVICE_ACCEPT) v = Inr (Some (data, n), u')
    \<and> service_accepted data = Inr True)"
proof -
  obtain v data n where v: "on_base (libssh2_packet_write env (SSH_MSG_SERVICE_REQUEST # wire_string (ascii ''ssh-userauth''))) u = Inr (0, v)"
    and w: "on_base (libssh2_packet_require fuel env SSH_MSG_SERVICE_ACCEPT) v = Inr (Some (data, n), u')" "service_accepted data = Inr True"
    using assms by (auto simp: request_service_def sbind_eq_Inr split: if_splits option.splits)
  show ?thesis using w same_start_trans[OF on_base_same[OF v] on_base_same[OF w(1)]] by blast
qed

section \<open>Properties\<close>

text \<open>(C25)
  The banner that one end sends is the one the other end stores, however the bytes are cut up, and it is the one
  that both put into the hash of the key exchange; the first byte behind it is left for the packet layer.
\<close>

theorem banner_roundtrip:
  assumes "banner_choice u" and "libssh2_banner_send u = (0, u')"
    and "calm_events (input (base v))" and "ev_bytes (input (base v)) = concat (drop (length (sent (base u))) (sent (base u'))) @ rest"
    and "alloc_ok (base v) = []"
  shows "\<exists>v'. libssh2_banner_receive v = Inr (0, v') \<and> banner (side_remote v') = Some (local_banner u')
    \<and> calm_events (input (base v')) \<and> ev_bytes (input (base v')) = rest"
proof -
  let ?b = "local_banner u"
  have u': "sent (base u') = sent (base u) @ [?b @ [BYTE_CR, BYTE_LF]]" "side_local u' = side_local u"
    using banner_send_line[OF assms(2,1)] by simp_all
  have "local_banner u' = ?b" using u'(2) by (simp add: local_banner_def)
  moreover have fair: "fair_banner ?b" using banner_choice_line[OF assms(1)] by simp
  moreover have "strip_eol (?b @ [BYTE_CR]) = ?b"
    unfolding strip_eol_append using fair by (intro strip_eol_none) (metis fair_banner_def last_in_set)
  moreover have "ev_bytes (input (base v)) = (?b @ [BYTE_CR]) @ BYTE_LF # rest" using assms(4) u'(1) by simp
  ultimately show ?thesis
    using banner_receive_line[OF assms(3), of "?b @ [BYTE_CR]" rest] assms(5) by (simp add: fair_banner_def)
qed

text \<open>(C38)
  If the other end closes the connection before its banner is complete, \<^verbatim>\<open>libssh2_banner_receive\<close> never returns: a
  closed socket gives 0 bytes at once, every time, and the loop asks again.
\<close>

theorem banner_closed_hangs:
  assumes "input (base u) = Recv_Data b # replicate n (Recv_Data [])" and "0 \<notin> set b" and "BYTE_LF \<notin> set b" and "length b < 256"
  shows "libssh2_banner_receive u = Inl Never_Returns"
proof -
  have wait: "banner_loop l (replicate n (Recv_Data [])) = Inl Never_Returns"
    if "length l < 256" "l = [] \<or> last l \<noteq> BYTE_LF" for l n
    using that by (induction n) (simp_all add: banner_loop.simps)
  have "banner_loop l (Recv_Data b # replicate n (Recv_Data [])) = Inl Never_Returns"
    if "length l + length b < 256" "l = [] \<or> last l \<noteq> BYTE_LF" "0 \<notin> set b" "BYTE_LF \<notin> set b" for l
    using that
  proof (induction b arbitrary: l)
    case Nil
    then show ?case using wait[of l n] by (subst banner_loop.simps) simp
  next
    case (Cons c b)
    then show ?case using wait[of "l @ [c]" n] by (subst banner_loop.simps) (auto simp: Let_def)
  qed
  then show ?thesis using assms by (simp add: libssh2_banner_receive_def)
qed



section \<open>Witnesses\<close>

theorem banner_roundtrip_witness:
  "\<exists>u' v'. libssh2_banner_send (null_startup [] :: unit startup) = (0, u')
     \<and> libssh2_banner_receive (null_startup [Recv_Data [83, 83], Recv_Error EAGAIN, Recv_Data (drop 2 (concat (sent (base u'))) @ [0, 1])] :: unit startup) = Inr (0, v')
     \<and> banner (side_remote v') = Some (local_banner u') \<and> ev_bytes (input (base v')) = [0, 1]"
proof -
  let ?u = "null_startup [] :: unit startup"
  have c: "banner_choice ?u" by (simp add: banner_choice_def null_startup_def null_side_def)
  obtain u' where s: "libssh2_banner_send ?u = (0, u')" by (simp add: libssh2_banner_send_def sock_send_def null_startup_def null_session_def)
  have l: "sent (base u') = [DEFAULT_BANNER @ [BYTE_CR, BYTE_LF]]"
    using banner_send_line[OF s c] by (simp add: local_banner_def null_startup_def null_side_def null_session_def)
  have d: "[83, 83] @ drop 2 (DEFAULT_BANNER @ [BYTE_CR, BYTE_LF]) = DEFAULT_BANNER @ [BYTE_CR, BYTE_LF]" by code_simp
  let ?v = "null_startup [Recv_Data [83, 83], Recv_Error EAGAIN, Recv_Data (drop 2 (concat (sent (base u'))) @ [0, 1])] :: unit startup"
  have "ev_bytes (input (base ?v)) = concat (drop (length (sent (base ?u))) (sent (base u'))) @ [0, 1]"
    using d by (simp add: l null_startup_def null_session_def)
  from banner_roundtrip[OF c s _ this] obtain v' where "libssh2_banner_receive ?v = Inr (0, v')"
    "banner (side_remote v') = Some (local_banner u')" "ev_bytes (input (base v')) = [0, 1]"
    by (auto simp: null_startup_def null_session_def)
  with s show ?thesis by blast
qed

theorem banner_closed_hangs_witness:
  "libssh2_banner_receive (null_startup (Recv_Data [83, 83, 72] # replicate 7 (Recv_Data [])) :: unit startup) = Inl Never_Returns"
  by (rule banner_closed_hangs[of _ "[83, 83, 72]" 7]) (simp_all add: null_startup_def null_session_def)

definition example_known :: "unit startup" where
  "example_known = example_startup\<lparr>kex := Some (libssh2_kex_methods ! 1),
     base := (base example_startup)\<lparr>input := [Recv_Data (ascii ''SSH-2.0-x'' @ [10])],
       packets := packets (base example_startup) @ [queued_packet (SSH_MSG_SERVICE_ACCEPT # wire_string (ascii ''ssh-userauth''))]\<rparr>\<rparr>"

lemma case_none_iff:
  "(case r of Inl _ \<Rightarrow> False | Inr (rc, _) \<Rightarrow> rc = ERROR_NONE) \<longleftrightarrow> (\<exists>u'. r = Inr (ERROR_NONE, u'))"
  by (auto split: sum.splits prod.splits)


end
