(* ===== verification/SSH_Auth.thy ===== *)
theory SSH_Auth
  imports SSH_Startup
begin

text \<open>
  Authentication, \<^verbatim>\<open>src/ssh/libssh2/userauth.c\<close>.  The contents of a public key file, as read in text mode, are an
  argument; so is \<open>pem\<close>, the private key that OpenSSL reads for a method.  Of a string that the server or the
  caller passes, the length is the length of the list.
\<close>

section \<open>Requests\<close>

abbreviation (input) SSH_MSG_USERAUTH_REQUEST :: u8 where "SSH_MSG_USERAUTH_REQUEST \<equiv> 50"
abbreviation (input) SSH_MSG_USERAUTH_FAILURE :: u8 where "SSH_MSG_USERAUTH_FAILURE \<equiv> 51"
abbreviation (input) SSH_MSG_USERAUTH_SUCCESS :: u8 where "SSH_MSG_USERAUTH_SUCCESS \<equiv> 52"
abbreviation (input) SSH_MSG_USERAUTH_PK_OK :: u8 where "SSH_MSG_USERAUTH_PK_OK \<equiv> 60"
abbreviation (input) SSH_MSG_USERAUTH_PASSWD_CHANGEREQ :: u8 where "SSH_MSG_USERAUTH_PASSWD_CHANGEREQ \<equiv> 60"
abbreviation (input) SSH_MSG_USERAUTH_INFO_REQUEST :: u8 where "SSH_MSG_USERAUTH_INFO_REQUEST \<equiv> 60"
abbreviation (input) SSH_MSG_USERAUTH_INFO_RESPONSE :: u8 where "SSH_MSG_USERAUTH_INFO_RESPONSE \<equiv> 61"
abbreviation (input) LIBSSH2_STATE_AUTHENTICATED :: u32 where "LIBSSH2_STATE_AUTHENTICATED \<equiv> 4"

definition libssh2_packet_requirev ::
    "nat \<Rightarrow> 'x env \<Rightarrow> u8 list \<Rightarrow> 'x session \<Rightarrow> ((bytes \<times> u32) option \<times> 'x session) run" where
  "libssh2_packet_requirev fuel env ts s = libssh2_packet_requirev_ex fuel env ts 0 None 0 s"

definition auth_request :: "bytes \<Rightarrow> string \<Rightarrow> bytes" where
  "auth_request username meth =
     SSH_MSG_USERAUTH_REQUEST # wire_string username @ wire_string (ascii ''ssh-connection'') @ wire_string (ascii meth)"

definition set_authenticated :: "'c startup \<Rightarrow> 'c startup" where
  "set_authenticated u = u\<lparr>base := (base u)\<lparr>state := state (base u) OR LIBSSH2_STATE_AUTHENTICATED\<rparr>\<rparr>"

definition libssh2_userauth_authenticated :: "'c startup \<Rightarrow> bool" where
  "libssh2_userauth_authenticated u \<longleftrightarrow> state (base u) AND LIBSSH2_STATE_AUTHENTICATED \<noteq> 0"

text \<open>The list of methods is moved to the start of its packet and ended by a NUL; the string up to it is the result.\<close>

definition libssh2_userauth_list :: "nat \<Rightarrow> 'c handle env \<Rightarrow> bytes \<Rightarrow> 'c startup \<Rightarrow> (bytes option \<times> 'c startup) run" where
  "libssh2_userauth_list fuel env username u =
     (let (ok, u) = alloc_base u
      in if \<not> ok then Inr (None, fail ERROR_ALLOC ''Unable to allocate memory for userauth_list'' u)
         else
           sbind (on_base (libssh2_packet_write env (auth_request username ''none'')) u) (\<lambda>(rc, u).
           if rc \<noteq> 0 then Inr (None, fail ERROR_SOCKET_SEND ''Unable to send userauth-none request'' u)
           else
             sbind (on_base (libssh2_packet_requirev fuel env [SSH_MSG_USERAUTH_SUCCESS, SSH_MSG_USERAUTH_FAILURE]) u) (\<lambda>(r, u).
             case r of
               None \<Rightarrow> Inr (None, u)
             | Some (data, n) \<Rightarrow>
                 sbind (rd8 data 0) (\<lambda>t.
                 if t = SSH_MSG_USERAUTH_SUCCESS then Inr (None, set_authenticated u)
                 else sbind (blob_string data 1) (\<lambda>(names, pos). Inr (Some (takeWhile (\<lambda>c. c \<noteq> 0) names), u))))))"

section \<open>Passwords\<close>

text \<open>The callback may give a new password.  After each new password the answer is awaited again.\<close>

definition password_request :: "bytes \<Rightarrow> u8 \<Rightarrow> bytes list \<Rightarrow> bytes" where
  "password_request username change passwords = auth_request username ''password'' @ change # concat (map wire_string passwords)"

fun password_response ::
    "nat \<Rightarrow> nat \<Rightarrow> 'c handle env \<Rightarrow> bytes \<Rightarrow> bytes \<Rightarrow> ('c startup \<Rightarrow> bytes option \<times> 'c startup) option \<Rightarrow> 'c startup \<Rightarrow> (int \<times> 'c startup) run" where
  "password_response 0 fuel env username password cb u = Inl Never_Returns"
| "password_response (Suc rounds) fuel env username password cb u =
     sbind (on_base (libssh2_packet_requirev fuel env
         [SSH_MSG_USERAUTH_SUCCESS, SSH_MSG_USERAUTH_FAILURE, SSH_MSG_USERAUTH_PASSWD_CHANGEREQ]) u) (\<lambda>(r, u).
     case r of
       None \<Rightarrow> Inr (-1, u)
     | Some (data, n) \<Rightarrow>
         sbind (rd8 data 0) (\<lambda>t.
         if t = SSH_MSG_USERAUTH_SUCCESS then Inr (0, set_authenticated u)
         else if t = SSH_MSG_USERAUTH_PASSWD_CHANGEREQ then
           (case cb of
              None \<Rightarrow> Inr (-1, fail ERROR_PASSWORD_EXPIRED ''Password Expired, and no callback specified'' u)
            | Some f \<Rightarrow>
                (case f u of
                   (None, u) \<Rightarrow> Inr (-1, fail ERROR_PASSWORD_EXPIRED ''Password expired, and callback failed'' u)
                 | (Some newpw, u) \<Rightarrow>
                     (let (ok, u) = alloc_base u
                      in if \<not> ok then Inr (-1, fail ERROR_ALLOC ''Unable to allocate memory for userauth-password-change request'' u)
                         else
                           sbind (on_base (libssh2_packet_write env (password_request username 0xFF [password, newpw])) u) (\<lambda>(rc, u).
                           if rc \<noteq> 0 then Inr (-1, fail ERROR_SOCKET_SEND ''Unable to send userauth-password-change request'' u)
                           else password_response rounds fuel env username password cb u))))
         else Inr (-1, u)))"

definition libssh2_userauth_password_ex ::
    "nat \<Rightarrow> nat \<Rightarrow> 'c handle env \<Rightarrow> bytes \<Rightarrow> bytes \<Rightarrow> ('c startup \<Rightarrow> bytes option \<times> 'c startup) option \<Rightarrow> 'c startup \<Rightarrow> (int \<times> 'c startup) run" where
  "libssh2_userauth_password_ex rounds fuel env username password cb u =
     (let (ok, u) = alloc_base u
      in if \<not> ok then Inr (-1, fail ERROR_ALLOC ''Unable to allocate memory for userauth-password request'' u)
         else
           sbind (on_base (libssh2_packet_write env (password_request username 0 [password])) u) (\<lambda>(rc, u).
           if rc \<noteq> 0 then Inr (-1, fail ERROR_SOCKET_SEND ''Unable to send userauth-password request'' u)
           else password_response rounds fuel env username password cb u))"

section \<open>Key files\<close>

abbreviation (input) BYTE_SPACE :: u8 where "BYTE_SPACE \<equiv> 32"

text \<open>
  How many characters of the file are read: the loop counts those before the end of the line, and the end of a
  file that has none; then one is taken off, whatever ended the loop.
\<close>

definition pubkey_length :: "bytes \<Rightarrow> int" where
  "pubkey_length contents =
     (let line = takeWhile (\<lambda>c. c \<noteq> BYTE_CR \<and> c \<noteq> BYTE_LF) contents;
          counted = (if line = contents then length line + 1 else length line)
      in int counted - 1)"

text \<open>
  The method and the key.  The search for the second space also looks at the byte behind the buffer; if that is a
  space, the key ends there, as it does if there is none.
\<close>

definition libssh2_file_read_publickey ::
    "(nat \<Rightarrow> u8) \<Rightarrow> bytes option \<Rightarrow> 'c startup \<Rightarrow> ((bytes \<times> bytes) option \<times> 'c startup) run" where
  "libssh2_file_read_publickey junk pubkeyfile u =
     (case pubkeyfile of
        None \<Rightarrow> Inr (None, fail ERROR_FILE ''Unable to open public key file'' u)
      | Some contents \<Rightarrow>
          if pubkey_length contents \<le> 1 then Inr (None, fail ERROR_FILE ''Invalid data in public key file'' u)
          else
            let (ok, u) = alloc_base u
            in if \<not> ok then Inr (None, fail ERROR_ALLOC ''Unable to allocate memory for public key data'' u)
               else
                 let pubkey = strip_eol (take (nat (pubkey_length contents)) contents)
                 in if pubkey = [] then Inr (None, fail ERROR_FILE ''Missing public key data'' u)
                    else if BYTE_SPACE \<notin> set pubkey then Inr (None, fail ERROR_FILE ''Invalid public key data'' u)
                    else
                      let meth = takeWhile (\<lambda>c. c \<noteq> BYTE_SPACE) pubkey;
                          key = takeWhile (\<lambda>c. c \<noteq> BYTE_SPACE) (drop (length meth + 1) pubkey);
                          (ok, u) = alloc_base u
                      in case libssh2_base64_decode ok junk key of
                           Inl _ \<Rightarrow> Inl Undefined
                         | Inr None \<Rightarrow> Inr (None, fail ERROR_FILE ''Invalid key data, not base64 encoded'' u)
                         | Inr (Some data) \<Rightarrow> Inr (Some (meth, data), u))"

text \<open>A method matches as far as the name in the file goes.\<close>

fun match_method :: "bytes \<Rightarrow> 'c hostkey_method list \<Rightarrow> 'c hostkey_method option run" where
  "match_method meth [] = Inr None"
| "match_method meth (h # hs) =
     sbind (strncmp_mem (ascii (hk_name h) @ [0]) meth) (\<lambda>eq. if eq then Inr (Some h) else match_method meth hs)"

definition libssh2_file_read_privatekey ::
    "'c crypto \<Rightarrow> (string \<Rightarrow> 'c option) \<Rightarrow> bytes \<Rightarrow> 'c startup \<Rightarrow> (('c hostkey_method \<times> 'c) option \<times> 'c startup) run" where
  "libssh2_file_read_privatekey C pem meth u =
     sbind (match_method meth (libssh2_hostkey_methods C)) (\<lambda>r.
     case r of
       None \<Rightarrow> Inr (None, fail ERROR_METHOD_NONE ''No handler for specified private key'' u)
     | Some h \<Rightarrow>
         (case pem (hk_name h) of
            None \<Rightarrow> Inr (None, fail ERROR_FILE ''Unable to initialize private key from file'' u)
          | Some key \<Rightarrow> Inr (Some (h, key), u)))"


section \<open>Signed requests\<close>

definition session_id_bytes :: "'c startup \<Rightarrow> bytes" where
  "session_id_bytes u = (case session_id u of None \<Rightarrow> [] | Some i \<Rightarrow> i)"

text \<open>
  The end of both functions that sign: read the private key, sign the identifier of the session and the request, put
  the signature behind it, send it and await the answer.  \<open>Inl\<close> is a return value.
\<close>

definition sign_request ::
    "'c crypto \<Rightarrow> (string \<Rightarrow> 'c option) \<Rightarrow> bytes \<Rightarrow> bytes \<Rightarrow> bytes \<Rightarrow> string \<Rightarrow> 'c startup \<Rightarrow> ((int + bytes) \<times> 'c startup) run" where
  "sign_request C pem meth pubkeydata packet e_alloc u =
     sbind (libssh2_file_read_privatekey C pem meth u) (\<lambda>(r, u).
     case r of
       None \<Rightarrow> Inr (Inl (-1), u)
     | Some (h, key) \<Rightarrow>
         sbind (hk_signv h key [libssh2_htonu32 (of_nat (length (session_id_bytes u))), session_id_bytes u, packet]) (\<lambda>r.
         case r of
           None \<Rightarrow> Inr (Inl (-1), u)
         | Some sig \<Rightarrow>
             let (ok, u) = (if length pubkeydata < length sig then alloc_base u else (True, u))
             in if \<not> ok then Inr (Inl (-1), fail ERROR_ALLOC e_alloc u)
                else Inr (Inr (packet @ libssh2_htonu32 (of_nat (4 + length meth + 4 + length sig)) @ wire_string meth @ wire_string sig), u)))"

definition send_signed ::
    "nat \<Rightarrow> 'c handle env \<Rightarrow> bytes \<Rightarrow> string \<Rightarrow> 'c startup \<Rightarrow> (int \<times> 'c startup) run" where
  "send_signed fuel env packet e_send u =
     sbind (on_base (libssh2_packet_write env packet) u) (\<lambda>(rc, u).
     if rc \<noteq> 0 then Inr (-1, fail ERROR_SOCKET_SEND e_send u)
     else
       sbind (on_base (libssh2_packet_requirev fuel env [SSH_MSG_USERAUTH_SUCCESS, SSH_MSG_USERAUTH_FAILURE]) u) (\<lambda>(r, u).
       case r of
         None \<Rightarrow> Inr (-1, u)
       | Some (data, n) \<Rightarrow>
           sbind (rd8 data 0) (\<lambda>t.
           if t = SSH_MSG_USERAUTH_SUCCESS then Inr (0, set_authenticated u)
           else Inr (-1, fail ERROR_PUBLICKEY_UNVERIFIED
             ''Invalid signature for supplied public key, or bad username/public key combination'' u))))"

definition publickey_request :: "bytes \<Rightarrow> u8 \<Rightarrow> bytes \<Rightarrow> bytes \<Rightarrow> bytes" where
  "publickey_request username flag meth pubkeydata =
     auth_request username ''publickey'' @ flag # wire_string meth @ wire_string pubkeydata"

text \<open>The question whether the server would accept the key: \<open>Inr\<close> if it would, and \<open>Inl\<close> is a return value.\<close>

definition offer_key ::
    "nat \<Rightarrow> 'c handle env \<Rightarrow> bytes \<Rightarrow> 'c startup \<Rightarrow> ((int + unit) \<times> 'c startup) run" where
  "offer_key fuel env packet u =
     sbind (on_base (libssh2_packet_write env packet) u) (\<lambda>(rc, u).
     if rc \<noteq> 0 then Inr (Inl (-1), fail ERROR_SOCKET_SEND ''Unable to send userauth-publickey request'' u)
     else
       sbind (on_base (libssh2_packet_requirev fuel env
           [SSH_MSG_USERAUTH_SUCCESS, SSH_MSG_USERAUTH_FAILURE, SSH_MSG_USERAUTH_PK_OK]) u) (\<lambda>(r, u).
       case r of
         None \<Rightarrow> Inr (Inl (-1), u)
       | Some (data, n) \<Rightarrow>
           sbind (rd8 data 0) (\<lambda>t.
           if t = SSH_MSG_USERAUTH_SUCCESS then Inr (Inl 0, set_authenticated u)
           else if t = SSH_MSG_USERAUTH_FAILURE
           then Inr (Inl (-1), fail ERROR_PUBLICKEY_UNRECOGNIZED ''Username/PublicKey combination invalid'' u)
           else Inr (Inr (), u))))"

definition libssh2_userauth_publickey_fromfile_ex ::
    "nat \<Rightarrow> 'c handle env \<Rightarrow> 'c crypto \<Rightarrow> (nat \<Rightarrow> u8) \<Rightarrow> (string \<Rightarrow> 'c option) \<Rightarrow> bytes \<Rightarrow> bytes option \<Rightarrow> 'c startup \<Rightarrow> (int \<times> 'c startup) run" where
  "libssh2_userauth_publickey_fromfile_ex fuel env C junk pem username pubkeyfile u =
     sbind (libssh2_file_read_publickey junk pubkeyfile u) (\<lambda>(r, u).
     case r of
       None \<Rightarrow> Inr (-1, u)
     | Some (meth, pubkeydata) \<Rightarrow>
         let (ok, u) = alloc_base u
         in if \<not> ok then Inl Undefined
            else
              sbind (offer_key fuel env (publickey_request username 0 meth pubkeydata) u) (\<lambda>(r, u).
              case r of
                Inl rc \<Rightarrow> Inr (rc, u)
              | Inr _ \<Rightarrow>
                  sbind (sign_request C pem meth pubkeydata (publickey_request username 0xFF meth pubkeydata)
                      ''Failed allocating additional space for userauth-publickey packet'' u) (\<lambda>(r, u).
                  case r of
                    Inl rc \<Rightarrow> Inr (rc, u)
                  | Inr packet \<Rightarrow> send_signed fuel env packet ''Unable to send userauth-publickey request'' u)))"

text \<open>
  The length of a request for a host is four less than the request: its last four bytes are not signed, and the
  signature overwrites them.
\<close>

definition hostbased_request :: "bytes \<Rightarrow> bytes \<Rightarrow> bytes \<Rightarrow> bytes \<Rightarrow> bytes \<Rightarrow> bytes" where
  "hostbased_request username meth pubkeydata hostname local_username =
     auth_request username ''hostbased'' @ wire_string meth @ wire_string pubkeydata @ wire_string hostname @ wire_string local_username"

definition libssh2_userauth_hostbased_fromfile_ex ::
    "nat \<Rightarrow> 'c handle env \<Rightarrow> 'c crypto \<Rightarrow> (nat \<Rightarrow> u8) \<Rightarrow> (string \<Rightarrow> 'c option) \<Rightarrow> bytes \<Rightarrow> bytes option \<Rightarrow> bytes \<Rightarrow> bytes \<Rightarrow> 'c startup \<Rightarrow> (int \<times> 'c startup) run" where
  "libssh2_userauth_hostbased_fromfile_ex fuel env C junk pem username pubkeyfile hostname local_username u =
     sbind (libssh2_file_read_publickey junk pubkeyfile u) (\<lambda>(r, u).
     case r of
       None \<Rightarrow> Inr (-1, u)
     | Some (meth, pubkeydata) \<Rightarrow>
         let packet_len = length username + length meth + length hostname + length local_username + length pubkeydata + 48;
             (ok, u) = alloc_base u
         in if \<not> ok then Inl Undefined
            else
              sbind (sign_request C pem meth pubkeydata
                  (take packet_len (hostbased_request username meth pubkeydata hostname local_username))
                  ''Failed allocating additional space for userauth-hostbased packet'' u) (\<lambda>(r, u).
              case r of
                Inl rc \<Rightarrow> Inr (rc, u)
              | Inr packet \<Rightarrow> send_signed fuel env packet ''Unable to send userauth-hostbased request'' u))"

section \<open>Questions of the server\<close>

text \<open>A prompt is its text and whether the answer is echoed; \<open>None\<close> when memory runs out.\<close>

fun read_prompts :: "nat \<Rightarrow> bytes \<Rightarrow> int \<Rightarrow> 'c startup \<Rightarrow> ((bytes \<times> u8) list option \<times> 'c startup) run" where
  "read_prompts 0 data s u = Inr (Some [], u)"
| "read_prompts (Suc n) data s u =
     sbind (rd32 data s) (\<lambda>len.
     let (ok, u) = alloc_base u
     in if \<not> ok then Inr (None, fail ERROR_ALLOC ''Unable to allocate memory for keyboard-interactive prompt message'' u)
        else
          sbind (rdn data (s + 4) (unat len)) (\<lambda>prompt.
          sbind (rd8 data (s + 4 + uint len)) (\<lambda>echo.
          sbind (read_prompts n data (s + 5 + uint len) u) (\<lambda>(r, u).
          Inr (map_option (\<lambda>ps. (prompt, echo) # ps) r, u)))))"

abbreviation QUOTE :: char where "QUOTE \<equiv> CHR 0x27"

definition alloc_or :: "string \<Rightarrow> 'c startup \<Rightarrow> bool \<times> 'c startup" where
  "alloc_or msg u = (let (ok, u) = alloc_base u in (ok, if ok then u else fail ERROR_ALLOC msg u))"

text \<open>The name, the instruction and the prompts of a question.\<close>

definition read_question :: "bytes \<Rightarrow> 'c startup \<Rightarrow> ((bytes \<times> bytes \<times> (bytes \<times> u8) list) option \<times> 'c startup) run" where
  "read_question data u =
     sbind (rd32 data 1) (\<lambda>name_len.
     let (ok, u) = alloc_or (''Unable to allocate memory for keyboard-interactive '' @ [QUOTE] @ ''name'' @ [QUOTE] @ '' request field'') u
     in if \<not> ok then Inr (None, u)
        else
          sbind (blob_string data 1) (\<lambda>(auth_name, s).
          sbind (rd32 data s) (\<lambda>instruction_len.
          let (ok, u) = alloc_or (''Unable to allocate memory for keyboard-interactive '' @ [QUOTE] @ ''instruction'' @ [QUOTE] @ '' request field'') u
          in if \<not> ok then Inr (None, u)
             else
               sbind (blob_string data s) (\<lambda>(instruction, s).
               sbind (rd32 data s) (\<lambda>language_tag_len.
               let s = s + 4 + uint language_tag_len
               in sbind (rd32 data s) (\<lambda>num_prompts.
                  let (ok1, u) = alloc_or ''Unable to allocate memory for keyboard-interactive prompts array'' u
                  in if \<not> ok1 then Inr (None, u)
                     else
                       let (ok2, u) = alloc_or ''Unable to allocate memory for keyboard-interactive responses array'' u
                       in if \<not> ok2 then Inr (None, u)
                          else
                            sbind (read_prompts (unat num_prompts) data (s + 4) u) (\<lambda>(r, u).
                            Inr (map_option (\<lambda>ps. (auth_name, instruction, ps)) r, u))))))))"

text \<open>The callback answers each prompt; an answer it leaves out is empty.\<close>

definition answers :: "(bytes \<times> u8) list \<Rightarrow> bytes list \<Rightarrow> bytes list" where
  "answers prompts given = take (length prompts) (given @ replicate (length prompts) [])"

fun keyboard_loop ::
    "nat \<Rightarrow> nat \<Rightarrow> 'c handle env \<Rightarrow> (bytes \<Rightarrow> bytes \<Rightarrow> (bytes \<times> u8) list \<Rightarrow> bytes list) \<Rightarrow> 'c startup \<Rightarrow> (int \<times> 'c startup) run" where
  "keyboard_loop 0 fuel env cb u = Inl Never_Returns"
| "keyboard_loop (Suc rounds) fuel env cb u =
     sbind (on_base (libssh2_packet_requirev fuel env
         [SSH_MSG_USERAUTH_SUCCESS, SSH_MSG_USERAUTH_FAILURE, SSH_MSG_USERAUTH_INFO_REQUEST]) u) (\<lambda>(r, u).
     case r of
       None \<Rightarrow> Inr (-1, u)
     | Some (data, n) \<Rightarrow>
         sbind (rd8 data 0) (\<lambda>t.
         if t = SSH_MSG_USERAUTH_SUCCESS then Inr (0, set_authenticated u)
         else if t = SSH_MSG_USERAUTH_FAILURE then Inr (-1, u)
         else
           sbind (read_question data u) (\<lambda>(q, u).
           case q of
             None \<Rightarrow> Inr (-1, u)
           | Some (auth_name, instruction, prompts) \<Rightarrow>
               let responses = answers prompts (cb auth_name instruction prompts);
                   (ok, u) = alloc_or ''Unable to allocate memory for keyboard-interactive response packet'' u
               in if \<not> ok then Inr (-1, u)
                  else
                    sbind (on_base (libssh2_packet_write env (SSH_MSG_USERAUTH_INFO_RESPONSE
                        # libssh2_htonu32 (of_nat (length prompts)) @ concat (map wire_string responses))) u) (\<lambda>(rc, u).
                    if rc \<noteq> 0 then Inr (-1, fail ERROR_SOCKET_SEND ''Unable to send userauth-keyboard-interactive request'' u)
                    else keyboard_loop rounds fuel env cb u))))"

definition libssh2_userauth_keyboard_interactive_ex ::
    "nat \<Rightarrow> nat \<Rightarrow> 'c handle env \<Rightarrow> bytes \<Rightarrow> (bytes \<Rightarrow> bytes \<Rightarrow> (bytes \<times> u8) list \<Rightarrow> bytes list) \<Rightarrow> 'c startup \<Rightarrow> (int \<times> 'c startup) run" where
  "libssh2_userauth_keyboard_interactive_ex rounds fuel env username cb u =
     (let (ok, u) = alloc_base u
      in if \<not> ok then Inr (-1, fail ERROR_ALLOC ''Unable to allocate memory for keyboard-interactive authentication'' u)
         else
           sbind (on_base (libssh2_packet_write env
               (auth_request username ''keyboard-interactive'' @ wire_string [] @ wire_string [])) u) (\<lambda>(rc, u).
           if rc \<noteq> 0 then Inr (-1, fail ERROR_SOCKET_SEND ''Unable to send keyboard-interactive request'' u)
           else keyboard_loop rounds fuel env cb u))"


section \<open>Who says that the user is who he is\<close>

text \<open>The packet that made the session authenticated.\<close>

definition granted :: "nat \<Rightarrow> 'c handle env \<Rightarrow> 'c startup \<Rightarrow> bool" where
  "granted fuel env u' \<longleftrightarrow> (\<exists>ts v data n w. on_base (libssh2_packet_requirev fuel env ts) v = Inr (Some (data, n), w)
     \<and> rd8 data 0 = Inr SSH_MSG_USERAUTH_SUCCESS \<and> u' = set_authenticated w)"

lemma and_or_flag: "((s :: u32) OR 4) AND 4 \<noteq> 0"
proof -
  have "bit ((s OR 4) AND 4) 2" by (simp add: bit_simps)
  then show ?thesis by (metis bit_0_eq bot_apply bot_bool_def)
qed

lemma grantedI:
  "on_base (libssh2_packet_requirev fuel env ts) v = Inr (Some (data, n), w) \<Longrightarrow> rd8 data 0 = Inr SSH_MSG_USERAUTH_SUCCESS
    \<Longrightarrow> granted fuel env (set_authenticated w)"
  unfolding granted_def by blast

lemma send_signed_granted: "send_signed fuel env packet e u = Inr (0, u') \<Longrightarrow> granted fuel env u'"
  by (auto simp: send_signed_def sbind_eq_Inr split: if_splits option.splits intro: grantedI)

lemma sign_request_error: "sign_request C pem meth pk packet e u = Inr (Inl rc, u') \<Longrightarrow> rc = -1"
  by (auto simp: sign_request_def sbind_eq_Inr Let_def case_prod_unfold split: option.splits if_splits)

lemma offer_key_zero: "offer_key fuel env packet u = Inr (Inl 0, u') \<Longrightarrow> granted fuel env u'"
  by (auto simp: offer_key_def sbind_eq_Inr split: if_splits option.splits intro: grantedI)

lemma sign_send_granted:
  "sbind (sign_request C pem meth pk packet e u) (\<lambda>(r, u). case r of Inl rc \<Rightarrow> Inr (rc, u) | Inr packet \<Rightarrow> send_signed fuel env packet e' u)
     = Inr (0, u') \<Longrightarrow> granted fuel env u'"
  using send_signed_granted[of fuel env _ e' _ u'] sign_request_error[of C pem meth pk packet e u _ u']
  by (cases "sign_request C pem meth pk packet e u") (fastforce split: sum.split_asm)+

lemma publickey_granted:
  assumes "libssh2_userauth_publickey_fromfile_ex fuel env C junk pem username pubkeyfile u = Inr (0, u')"
  shows "granted fuel env u'"
proof -
  obtain meth pk v where "libssh2_file_read_publickey junk pubkeyfile u = Inr (Some (meth, pk), v)"
    using assms by (auto simp: libssh2_userauth_publickey_fromfile_ex_def sbind_eq_Inr split: option.split_asm)
  with assms obtain w r x where o: "offer_key fuel env (publickey_request username 0 meth pk) w = Inr (r, x)"
    and rest: "(case r of Inl rc \<Rightarrow> Inr (rc, x) | Inr _ \<Rightarrow>
      sbind (sign_request C pem meth pk (publickey_request username 0xFF meth pk)
        ''Failed allocating additional space for userauth-publickey packet'' x)
        (\<lambda>(r, u). case r of Inl rc \<Rightarrow> Inr (rc, u) | Inr packet \<Rightarrow> send_signed fuel env packet ''Unable to send userauth-publickey request'' u)) = Inr (0, u')"
    by (auto simp: libssh2_userauth_publickey_fromfile_ex_def sbind_eq_Inr Let_def split: if_split_asm prod.split_asm)
  show ?thesis
  proof (cases r)
    case Inl
    with o rest show ?thesis by (auto dest: offer_key_zero)
  next
    case Inr
    with rest show ?thesis by (auto dest: sign_send_granted)
  qed
qed

lemma hostbased_granted:
  assumes "libssh2_userauth_hostbased_fromfile_ex fuel env C junk pem username pubkeyfile hostname local_username u = Inr (0, u')"
  shows "granted fuel env u'"
proof -
  obtain meth pk v where "libssh2_file_read_publickey junk pubkeyfile u = Inr (Some (meth, pk), v)"
    using assms by (auto simp: libssh2_userauth_hostbased_fromfile_ex_def sbind_eq_Inr split: option.split_asm)
  with assms show ?thesis
    by (auto simp: libssh2_userauth_hostbased_fromfile_ex_def Let_def split: if_split_asm prod.split_asm dest: sign_send_granted)
qed

lemma password_granted:
  "password_response rounds fuel env username password cb u = Inr (0, u') \<Longrightarrow> granted fuel env u'"
proof (induction rounds arbitrary: u cb)
  case (Suc rounds)
  then obtain r v where r: "on_base (libssh2_packet_requirev fuel env [52, 51, 60]) u = Inr (r, v)"
    by (auto simp: sbind_eq_Inr)
  obtain data n t where d: "r = Some (data, n)" "rd8 data 0 = Inr t"
    using Suc.prems r by (auto simp: sbind_eq_Inr split: option.splits)
  show ?case
  proof (cases "t = SSH_MSG_USERAUTH_SUCCESS")
    case True
    then show ?thesis using Suc.prems r d grantedI[OF r[unfolded d(1)]] by auto
  next
    case False
    then show ?thesis using Suc.prems r d
      by (auto simp: sbind_eq_Inr Let_def split: if_splits option.splits prod.splits dest: Suc.IH)
  qed
qed simp

lemma keyboard_granted: "keyboard_loop rounds fuel env cb u = Inr (0, u') \<Longrightarrow> granted fuel env u'"
proof (induction rounds arbitrary: u)
  case (Suc rounds)
  then obtain r v where r: "on_base (libssh2_packet_requirev fuel env [52, 51, 60]) u = Inr (r, v)"
    by (auto simp: sbind_eq_Inr)
  obtain data n t where d: "r = Some (data, n)" "rd8 data 0 = Inr t"
    using Suc.prems r by (auto simp: sbind_eq_Inr split: option.splits)
  show ?case
  proof (cases "t = SSH_MSG_USERAUTH_SUCCESS")
    case True
    then show ?thesis using Suc.prems r d grantedI[OF r[unfolded d(1)]] by auto
  next
    case False
    then show ?thesis using Suc.prems r d
      by (auto simp: sbind_eq_Inr Let_def case_prod_unfold split: if_splits option.splits dest: Suc.IH)
  qed
qed simp


section \<open>Keys in files\<close>

lemma decode_encode: "libssh2_base64_decode True junk (base64_encode m) = Inr (Some m)"
  by (simp add: base64_decode_sextets sextets_encode split_length_mod[simplified] join_split)

text \<open>Characters that a word of a key file may have.\<close>

definition key_word :: "bytes \<Rightarrow> bool" where
  "key_word w \<longleftrightarrow> list_all (\<lambda>c. c \<noteq> BYTE_SPACE \<and> c \<noteq> BYTE_CR \<and> c \<noteq> BYTE_LF) w"

lemma table_words: "list_all (\<lambda>i. key_word [of_char (libssh2_base64_table ! i)]) [0..<64]"
  by code_simp

lemma encode_word: "key_word (base64_encode m)"
proof -
  have "key_word [of_char (libssh2_base64_table ! unat v)]" if "v \<in> set (split_sextets m)" for v
    using split_sextets_range[of m] table_words that by (auto simp: list_all_iff)
  then show ?thesis by (auto simp: base64_encode_def key_word_def list_all_iff)
qed

lemma pubkey_line:
  assumes "key_word meth" and "list_all (\<lambda>c. c \<noteq> BYTE_CR \<and> c \<noteq> BYTE_LF) rest" and "rest \<noteq> []"
  shows "take (nat (pubkey_length (meth @ BYTE_SPACE # rest @ [BYTE_LF]))) (meth @ BYTE_SPACE # rest @ [BYTE_LF]) = meth @ BYTE_SPACE # butlast rest"
    "pubkey_length (meth @ BYTE_SPACE # rest @ [BYTE_LF]) = int (length meth + length rest)"
proof -
  let ?c = "meth @ BYTE_SPACE # rest @ [BYTE_LF]"
  have t: "takeWhile (\<lambda>c. c \<noteq> BYTE_CR \<and> c \<noteq> BYTE_LF) ?c = meth @ BYTE_SPACE # rest"
    using assms(1,2) by (auto simp: key_word_def list_all_iff takeWhile_append2)
  show l: "pubkey_length ?c = int (length meth + length rest)" by (simp add: pubkey_length_def t)
  obtain r x where r: "rest = r @ [x]" using assms(3) by (metis append_butlast_last_id)
  show "take (nat (pubkey_length ?c)) ?c = meth @ BYTE_SPACE # butlast rest"
    unfolding l nat_int by (simp add: r)
qed

lemma takeWhile_word: "key_word w \<Longrightarrow> takeWhile (\<lambda>c. c \<noteq> BYTE_SPACE) (w @ BYTE_SPACE # r) = w"
  by (auto simp: key_word_def list_all_iff takeWhile_append2)

lemma takeWhile_last_word: "key_word w \<Longrightarrow> takeWhile (\<lambda>c. c \<noteq> BYTE_SPACE) w = w"
  by (auto simp: key_word_def list_all_iff takeWhile_eq_all_conv)

lemma strip_eol_clean: "list_all (\<lambda>c. c \<noteq> BYTE_CR \<and> c \<noteq> BYTE_LF) w \<Longrightarrow> strip_eol w = w"
  unfolding strip_eol_def by (cases w rule: rev_cases) (auto simp: list_all_iff)

lemma read_publickey_line:
  assumes "key_word meth" and "meth \<noteq> []" and "list_all (\<lambda>c. c \<noteq> BYTE_CR \<and> c \<noteq> BYTE_LF) rest" and "rest \<noteq> []"
    and "alloc_ok (base u) = []" and "libssh2_base64_decode True junk (takeWhile (\<lambda>c. c \<noteq> BYTE_SPACE) (butlast rest)) = Inr (Some data)"
  shows "libssh2_file_read_publickey junk (Some (meth @ BYTE_SPACE # rest @ [BYTE_LF])) u = Inr (Some (meth, data), u)"
proof -
  note line = pubkey_line[OF assms(1,3,4)]
  have "list_all (\<lambda>c. c \<noteq> BYTE_CR \<and> c \<noteq> BYTE_LF) (meth @ BYTE_SPACE # butlast rest)"
    using assms(1,3) by (auto simp: key_word_def list_all_iff dest: in_set_butlastD)
  note strip = strip_eol_clean[OF this]
  have "\<not> pubkey_length (meth @ BYTE_SPACE # rest @ [BYTE_LF]) \<le> 1"
    using assms(2,4) unfolding line(2) by (cases meth; cases rest) auto
  then show ?thesis
    unfolding libssh2_file_read_publickey_def option.case Let_def line(1) strip takeWhile_word[OF assms(1)]
    by (simp add: alloc_base_ok assms(5,6))
qed

lemma read_publickey:
  assumes "key_word meth" and "meth \<noteq> []" and "list_all (\<lambda>c. c \<noteq> BYTE_CR \<and> c \<noteq> BYTE_LF) comm" and "alloc_ok (base u) = []"
  shows "libssh2_file_read_publickey junk (Some (meth @ BYTE_SPACE # base64_encode m @ BYTE_SPACE # comm @ [BYTE_LF])) u = Inr (Some (meth, m), u)"
proof -
  let ?r = "base64_encode m @ BYTE_SPACE # comm"
  have b: "takeWhile (\<lambda>c. c \<noteq> BYTE_SPACE) (butlast ?r) = base64_encode m"
    using takeWhile_word[OF encode_word, of m] takeWhile_last_word[OF encode_word] by (simp add: butlast_append)
  have "list_all (\<lambda>c. c \<noteq> BYTE_CR \<and> c \<noteq> BYTE_LF) ?r"
    using encode_word[of m] assms(3) by (auto simp: key_word_def list_all_iff)
  from read_publickey_line[OF assms(1,2) this _ assms(4), of junk m] b decode_encode[of junk m] show ?thesis by simp
qed

lemma read_rsa_privatekey:
  "libssh2_file_read_privatekey C pem (ascii ''ssh-rsa'') u =
     (case pem ''ssh-rsa'' of
        None \<Rightarrow> Inr (None, fail ERROR_FILE ''Unable to initialize private key from file'' u)
      | Some key \<Rightarrow> Inr (Some (hd (libssh2_hostkey_methods C), key), u))"
  by (simp add: libssh2_file_read_privatekey_def libssh2_hostkey_methods_def ascii_def split: option.split)

lemma rsa_word: "key_word (ascii ''ssh-rsa'')" "ascii ''ssh-rsa'' \<noteq> []"
  by (simp_all add: key_word_def ascii_def)

lemma encode_nonempty: "m \<noteq> [] \<Longrightarrow> base64_encode m \<noteq> []"
  by (cases m rule: split_sextets.cases) (simp_all add: base64_encode_def)

lemma join_cut: "3 dvd length m \<Longrightarrow> m \<noteq> [] \<Longrightarrow> join_sextets (butlast (split_sextets m)) = butlast m"
proof (induction m rule: split_sextets.induct)
  case (1 a b c m)
  show ?case
  proof (cases "m = []")
    case True
    then show ?thesis by (simp only: split_sextets.simps butlast.simps join_sextets.simps join_split_1 join_split_2 if_False list.distinct simp_thms if_True)
  next
    case False
    then have "split_sextets m \<noteq> []" by (cases m rule: split_sextets.cases) simp_all
    moreover have "3 dvd length m" using "1.prems"(1) by (simp add: dvd_def) presburger
    ultimately show ?thesis using "1.IH" False
      by (simp only: split_sextets.simps butlast.simps join_sextets.simps join_split_1 join_split_2 join_split_3 if_False list.distinct simp_thms)
  qed
qed (auto dest!: dvd_imp_le)

lemma sextets_cut:
  assumes "3 dvd length m" and "m \<noteq> []"
  shows "sextets (butlast (base64_encode m)) = butlast (split_sextets m)"
proof -
  let ?e = "base64_encode m"
  have e: "?e = butlast ?e @ [last ?e]" using encode_nonempty[OF assms(2)] by simp
  have "sextets (a @ b) = sextets a @ sextets b" for a b by (simp add: sextets_def)
  then have s: "split_sextets m = sextets (butlast ?e) @ sextets [last ?e]" using e sextets_encode[of m] by metis
  have "length ?e = length (split_sextets m)" using assms(1) by (simp add: base64_encode_def dvd_eq_mod_eq_0)
  then have "length (sextets [last ?e]) = 1" using s e length_sextets[of "butlast ?e"] length_sextets[of "[last ?e]"] encode_nonempty[OF assms(2)]
    by (cases "length ?e") auto
  then show ?thesis using s by (auto simp: length_Suc_conv butlast_append)
qed

lemma decode_cut:
  assumes "3 dvd length m" and "m \<noteq> []"
  shows "libssh2_base64_decode True junk (butlast (base64_encode m)) = Inr (Some (butlast m))"
proof -
  have "(n - 1) mod 4 \<noteq> 1" if "n mod 4 = 0" "0 < n" for n :: nat
  proof -
    from that obtain j where "n = 4 * j + 4" by (metis mod_0_imp_dvd dvdE mult_Suc_right add.commute gr0_implies_Suc mult_0_right less_irrefl neq0_conv)
    then have "n - 1 = 3 + j * 4" by simp
    then show ?thesis by (simp only: mod_mult_self1) simp
  qed
  moreover have "length (split_sextets m) mod 4 = 0" using assms(1)
    by (induction m rule: split_sextets.induct) (simp_all add: dvd_eq_mod_eq_0)
  moreover have "0 < length (split_sextets m)" using assms(2) by (cases m rule: split_sextets.cases) simp_all
  ultimately have "(length (split_sextets m) - 1) mod 4 \<noteq> 1" by metis
  then show ?thesis unfolding base64_decode_sextets sextets_cut[OF assms] join_cut[OF assms] length_butlast by (simp only: if_False)
qed

section \<open>Properties\<close>



text \<open>A public key file whose line has no comment loses the last character of the key: of a key whose encoding needs no padding
  the last byte is missing from what is offered to the server.\<close>

theorem key_without_comment_cut:
  assumes "alloc_ok (base u) = []" and "3 dvd length blob" and "blob \<noteq> []"
  shows "libssh2_file_read_publickey junk (Some (ascii ''ssh-rsa'' @ BYTE_SPACE # base64_encode blob @ [BYTE_LF])) u = Inr (Some (ascii ''ssh-rsa'', butlast blob), u)"
proof -
  have c: "list_all (\<lambda>c. c \<noteq> BYTE_CR \<and> c \<noteq> BYTE_LF) (base64_encode blob)" "key_word (butlast (base64_encode blob))"
    using encode_word[of blob] by (auto simp: key_word_def list_all_iff dest: in_set_butlastD)
  from read_publickey_line[OF rsa_word c(1) encode_nonempty[OF assms(3)] assms(1)] takeWhile_last_word[OF c(2)] decode_cut[OF assms(2,3)]
  show ?thesis by simp
qed

section \<open>Witnesses\<close>

definition example_asked :: "unit startup" where
  "example_asked = (null_startup [])\<lparr>base := (null_session [])\<lparr>packets := [queued_packet [SSH_MSG_USERAUTH_PK_OK]]\<rparr>\<rparr>"

definition example_granted :: "unit startup" where
  "example_granted = (null_startup [])\<lparr>base := (null_session [])\<lparr>packets := [queued_packet [SSH_MSG_USERAUTH_SUCCESS]]\<rparr>\<rparr>"

lemma case_offered:
  "(case r of Inr (Inr _, u') \<Rightarrow> alloc_ok (base u') = [] | _ \<Rightarrow> False) \<longleftrightarrow> (\<exists>u'. r = Inr (Inr (), u') \<and> alloc_ok (base u') = [])"
  by (auto split: sum.splits prod.splits)



theorem key_without_comment_cut_witness:
  "libssh2_file_read_publickey (\<lambda>_. 0) (Some (ascii ''ssh-rsa'' @ BYTE_SPACE # base64_encode [1, 2, 3] @ [BYTE_LF])) example_asked
     = Inr (Some (ascii ''ssh-rsa'', [1, 2]), example_asked)"
proof -
  have "alloc_ok (base example_asked) = []" by (simp add: example_asked_def null_session_def)
  moreover have "length [1, 2, 3 :: u8] = 3" by simp
  then have "3 dvd length [1, 2, 3 :: u8]" by (metis dvd_refl)
  ultimately show ?thesis using key_without_comment_cut[of example_asked "[1, 2, 3]" "\<lambda>_. 0"] by simp
qed

end
