(* ===== verification/SSH_Scp.thy ===== *)
theory SSH_Scp
  imports SSH_Startup
begin

text \<open>
  Copies of files, \<^verbatim>\<open>src/ssh/libssh2/scp.c\<close>, on a channel of its own.  A path is its characters without the
  terminating NUL.  \<^verbatim>\<open>strtol\<close> and \<^verbatim>\<open>_snprintf\<close>, the latter under the name that \<^verbatim>\<open>libssh2_config.h\<close> gives it,
  are those of the C library of Windows, where a \<^verbatim>\<open>long\<close> has 32 bits.
\<close>

section \<open>The negotiation on the channel\<close>

abbreviation (input) LIBSSH2_SCP_RESPONSE_BUFLEN :: nat where "LIBSSH2_SCP_RESPONSE_BUFLEN \<equiv> 256"

definition libssh2_channel_open_session :: "nat \<Rightarrow> 'x env \<Rightarrow> 'x session \<Rightarrow> (nat option \<times> 'x session) run" where
  "libssh2_channel_open_session fuel env s =
     libssh2_channel_open_ex fuel env (ascii ''session'') LIBSSH2_CHANNEL_WINDOW_DEFAULT LIBSSH2_CHANNEL_PACKET_DEFAULT [] s"

definition libssh2_channel_read :: "nat \<Rightarrow> 'x env \<Rightarrow> nat \<Rightarrow> u32 \<Rightarrow> 'x session \<Rightarrow> (bytes \<times> 'x session) run" where
  "libssh2_channel_read fuel env r buflen s = libssh2_channel_read_ex fuel env r 0 buflen s"

definition libssh2_channel_write :: "nat \<Rightarrow> 'x env \<Rightarrow> nat \<Rightarrow> bytes \<Rightarrow> 'x session \<Rightarrow> (int \<times> 'x session) run" where
  "libssh2_channel_write fuel env r buf s = libssh2_channel_write_ex fuel env r 0 buf s"

text \<open>Every failure once the channel is open: the channel is freed and NULL returned.\<close>

definition give_up :: "nat \<Rightarrow> 'x env \<Rightarrow> nat \<Rightarrow> 'x session \<Rightarrow> ('b option \<times> 'x session) run" where
  "give_up fuel env r s = sbind (libssh2_channel_free fuel env r s) (\<lambda>(rc, s). Inr (None, s))"

text \<open>The start of both functions: the channel, the command with its NUL and the request to run it.\<close>

definition scp_command :: "string \<Rightarrow> bytes \<Rightarrow> bytes" where
  "scp_command command_text path = ascii command_text @ path @ [0]"

definition start_scp :: "nat \<Rightarrow> 'x env \<Rightarrow> bytes \<Rightarrow> 'x session \<Rightarrow> (nat option \<times> 'x session) run" where
  "start_scp fuel env command_line s =
     (let (ok, s) = libssh2_alloc s
      in if \<not> ok then Inr (None, libssh2_error ERROR_ALLOC ''Unable to allocate a command buffer for scp session'' s)
         else
           sbind (libssh2_channel_open_session fuel env s) (\<lambda>(c, s).
           case c of
             None \<Rightarrow> Inr (None, s)
           | Some r \<Rightarrow>
               sbind (libssh2_channel_process_startup fuel env r (ascii ''exec'') (Some command_line) (libssh2_channel_set_blocking r True s)) (\<lambda>(rc, s).
               if rc \<noteq> 0 then give_up fuel env r s else Inr (Some r, s))))"

section \<open>Sending a file\<close>

definition wait_ack :: "nat \<Rightarrow> 'x env \<Rightarrow> nat \<Rightarrow> 'x session \<Rightarrow> (unit option \<times> 'x session) run" where
  "wait_ack fuel env r s =
     sbind (libssh2_channel_read fuel env r 1 s) (\<lambda>(got, s).
     if got = [] \<or> hd got \<noteq> 0
     then give_up fuel env r (libssh2_error ERROR_SCP_PROTOCOL ''Invalid ACK response from remote'' s)
     else Inr (Some (), s))"

text \<open>
  A line that does not fit the buffer has the length -1, that is \<open>2 ^ 32 - 1\<close>, for which 8 bytes are allocated: as soon
  as the channel may send, they are overrun.  If it fails before, it returns -1, which is the length.
\<close>

definition write_too_long :: "nat \<Rightarrow> 'x env \<Rightarrow> nat \<Rightarrow> 'x session \<Rightarrow> 'x session run" where
  "write_too_long fuel env r s =
     (if cd_close (ch_local (chan s r)) then Inr (libssh2_error ERROR_CHANNEL_CLOSED ''We've already closed this channel'' s)
      else
        let s = (if cd_eof (ch_local (chan s r))
                 then libssh2_error ERROR_CHANNEL_EOF_SENT ''EOF has already been sight, data might be ignored'' s else s);
            (ok, s) = libssh2_alloc s
        in if \<not> ok then Inr (libssh2_error ERROR_ALLOC ''Unable to allocte space for data transmission packet'' s)
           else sbind (wait_window fuel env r s) (\<lambda>(ok, s). if ok then Inl Undefined else Inr s))"

definition send_line :: "nat \<Rightarrow> 'x env \<Rightarrow> nat \<Rightarrow> bytes \<Rightarrow> string \<Rightarrow> 'x session \<Rightarrow> (unit option \<times> 'x session) run" where
  "send_line fuel env r line e_send s =
     (if LIBSSH2_SCP_RESPONSE_BUFLEN < length line then
        sbind (write_too_long fuel env r s) (\<lambda>s. wait_ack fuel env r s)
      else
        sbind (libssh2_channel_write fuel env r line s) (\<lambda>(rc, s).
        if rc \<noteq> int (length line) then give_up fuel env r (libssh2_error ERROR_SOCKET_SEND e_send s)
        else wait_ack fuel env r s))"

text \<open>\<^verbatim>\<open>%o\<close>, \<^verbatim>\<open>%lu\<close> and \<^verbatim>\<open>%ld\<close>.\<close>

fun radix_digits :: "nat \<Rightarrow> nat \<Rightarrow> bytes" where
  "radix_digits radix n =
     (if radix < 2 \<or> n < radix then [48 + of_nat n] else radix_digits radix (n div radix) @ [48 + of_nat (n mod radix)])"

declare radix_digits.simps [simp del]

definition decimal :: "int \<Rightarrow> bytes" where
  "decimal i = (if i < 0 then 45 # radix_digits 10 (nat (- i)) else radix_digits 10 (nat i))"

definition base_name :: "bytes \<Rightarrow> bytes" where
  "base_name path = rev (takeWhile (\<lambda>c. c \<noteq> 47) (rev path))"

definition time_line :: "u32 \<Rightarrow> u32 \<Rightarrow> bytes" where
  "time_line mtime atime = ascii ''T'' @ decimal (sint mtime) @ ascii '' 0 '' @ decimal (sint atime) @ ascii '' 0'' @ [10]"

definition file_line :: "u32 \<Rightarrow> u32 \<Rightarrow> bytes \<Rightarrow> bytes" where
  "file_line mode fsize path =
     ascii ''C0'' @ radix_digits 8 (unat mode) @ ascii '' '' @ decimal (uint fsize) @ ascii '' '' @ base_name path @ [10]"

definition libssh2_scp_send_ex ::
    "nat \<Rightarrow> 'x env \<Rightarrow> bytes \<Rightarrow> u32 \<Rightarrow> u32 \<Rightarrow> u32 \<Rightarrow> u32 \<Rightarrow> 'x session \<Rightarrow> (nat option \<times> 'x session) run" where
  "libssh2_scp_send_ex fuel env path mode fsize mtime atime s =
     (let times = (mtime \<noteq> 0 \<or> atime \<noteq> 0)
      in sbind (start_scp fuel env (scp_command (if times then ''scp -pt '' else ''scp -t '') path) s) (\<lambda>(c, s).
      case c of
        None \<Rightarrow> Inr (None, s)
      | Some r \<Rightarrow>
          sbind (wait_ack fuel env r s) (\<lambda>(a, s).
          if a = None then Inr (None, s)
          else
            sbind (if times then send_line fuel env r (time_line mtime atime) ''Unable to send time data for SCP file'' s
                   else Inr (Some (), s)) (\<lambda>(a, s).
            if a = None then Inr (None, s)
            else
              sbind (send_line fuel env r (file_line mode fsize path) ''Unable to send core file data for SCP file'' s) (\<lambda>(a, s).
              if a = None then Inr (None, s)
              else Inr (Some r, libssh2_channel_set_blocking r False s))))))"

definition libssh2_scp_send :: "nat \<Rightarrow> 'x env \<Rightarrow> bytes \<Rightarrow> u32 \<Rightarrow> u32 \<Rightarrow> 'x session \<Rightarrow> (nat option \<times> 'x session) run" where
  "libssh2_scp_send fuel env path mode fsize s = libssh2_scp_send_ex fuel env path mode fsize 0 0 s"

section \<open>Receiving a file\<close>

text \<open>\<^verbatim>\<open>strtol\<close>: the value, what is left of the text, and whether it was out of range.\<close>

definition strtol :: "nat \<Rightarrow> bytes \<Rightarrow> int \<times> bytes \<times> bool" where
  "strtol radix b =
     (let t = dropWhile (\<lambda>c. c = 32 \<or> 9 \<le> c \<and> c \<le> 13) b;
          neg = (t \<noteq> [] \<and> hd t = 45);
          t = (if t \<noteq> [] \<and> (hd t = 45 \<or> hd t = 43) then tl t else t);
          digit = (\<lambda>c :: u8. 48 \<le> c \<and> unat c < 48 + radix);
          ds = takeWhile digit t;
          v = foldl (\<lambda>a c. int radix * a + (uint c - 48)) 0 ds;
          v = (if neg then - v else v)
      in if ds = [] then (0, b, False)
         else if v < - (2 ^ 31) then (- (2 ^ 31), dropWhile digit t, True)
         else if 2 ^ 31 \<le> v then (2 ^ 31 - 1, dropWhile digit t, True)
         else (v, dropWhile digit t, False))"

text \<open>One of the two loops: the first character, the others, how many there are at least, and the messages.\<close>

record response =
  first_char :: u8
  allowed :: "u8 \<Rightarrow> bool"
  shortest :: nat
  e_first :: string

definition line_end :: "u8 \<Rightarrow> bool" where
  "line_end c \<longleftrightarrow> c = BYTE_CR \<or> c = BYTE_LF"

definition time_response :: response where
  "time_response = \<lparr>first_char = 84, allowed = (\<lambda>c. 48 \<le> c \<and> c \<le> 57 \<or> c = 32 \<or> line_end c), shortest = 9,
     e_first = ''Invalid data in SCP response, missing Time data''\<rparr>"

definition file_response :: response where
  "file_response = \<lparr>first_char = 67, allowed = (\<lambda>c. line_end c \<or> 32 \<le> c \<and> c \<le> 126), shortest = 7,
     e_first = ''Invalid response from SCP server''\<rparr>"

text \<open>What the loop does after another byte: it fails with a message, goes on, or has the line.\<close>

datatype progress = Bad string | More | Line bytes

definition strip_line :: "bytes \<Rightarrow> bytes" where
  "strip_line got = rev (dropWhile line_end (rev got))"

definition examine :: "response \<Rightarrow> bytes \<Rightarrow> progress" where
  "examine k got =
     (if hd got \<noteq> first_char k then Bad (e_first k)
      else if 1 < length got \<and> \<not> allowed k (last got) then Bad ''Invalid data in SCP response''
      else if length got < shortest k \<or> last got \<noteq> BYTE_LF then
        (if length got = LIBSSH2_SCP_RESPONSE_BUFLEN then Bad ''Unterminated response from SCP server'' else More)
      else if length (strip_line got) < shortest k - 1 then Bad ''Invalid response from SCP server, too short''
      else Line (strip_line got))"

text \<open>The argument counts the places left in the buffer; before it is full the loop has been left.\<close>

fun recv_line :: "nat \<Rightarrow> nat \<Rightarrow> 'x env \<Rightarrow> nat \<Rightarrow> response \<Rightarrow> bytes \<Rightarrow> 'x session \<Rightarrow> (bytes option \<times> 'x session) run" where
  "recv_line 0 fuel env r k got s = Inr (Some [], s)"
| "recv_line (Suc n) fuel env r k got s =
     sbind (libssh2_channel_read fuel env r 1 s) (\<lambda>(b, s).
     if b = [] then give_up fuel env r (libssh2_error ERROR_SCP_PROTOCOL ''Timed out waiting for SCP response'' s)
     else
       case examine k (got @ b) of
         Bad e \<Rightarrow> give_up fuel env r (libssh2_error ERROR_SCP_PROTOCOL e s)
       | More \<Rightarrow> recv_line n fuel env r k (got @ b) s
       | Line l \<Rightarrow> Inr (Some l, s))"

text \<open>The text before the first space and the text behind it, if the space is there and not the first character.\<close>

definition cut_space :: "bytes \<Rightarrow> (bytes \<times> bytes) option" where
  "cut_space b =
     (let w = takeWhile (\<lambda>c. c \<noteq> 32) b in if w = [] \<or> w = b then None else Some (w, drop (length w + 1) b))"

definition parse_times :: "bytes \<Rightarrow> string + int \<times> int" where
  "parse_times line =
     (case cut_space (drop 1 line) of
        None \<Rightarrow> Inl ''Invalid response from SCP server, malformed mtime''
      | Some (m, rest) \<Rightarrow>
          (case strtol 10 m of (mtime, e, erange) \<Rightarrow>
           if erange then Inl ''Invalid response from SCP server, invalid mtime''
           else
             (case cut_space rest of
                None \<Rightarrow> Inl ''Invalid response from SCP server, malformed mtime.usec''
              | Some (usec, rest) \<Rightarrow>
                  (case cut_space rest of
                     None \<Rightarrow> Inl ''Invalid response from SCP server, too short or malformed''
                   | Some (a, rest) \<Rightarrow>
                       (case strtol 10 a of (atime, e, erange) \<Rightarrow>
                        if erange then Inl ''Invalid response from SCP server, invalid atime'' else Inr (mtime, atime))))))"

definition parse_file :: "bytes \<Rightarrow> string + int \<times> int" where
  "parse_file line =
     (case cut_space (drop 1 line) of
        None \<Rightarrow> Inl ''Invalid response from SCP server, malformed mode''
      | Some (m, rest) \<Rightarrow>
          (case strtol 8 m of (mode, e, erange) \<Rightarrow>
           if e \<noteq> [] \<or> erange then Inl ''Invalid response from SCP server, invalid mode''
           else
             (case cut_space rest of
                None \<Rightarrow> Inl ''Invalid response from SCP server, too short or malformed''
              | Some (z, rest) \<Rightarrow>
                  (case strtol 10 z of (fsize, e, erange) \<Rightarrow>
                   if e \<noteq> [] \<or> erange then Inl ''Invalid response from SCP server, invalid size'' else Inr (mode, fsize)))))"

definition send_ack :: "nat \<Rightarrow> 'x env \<Rightarrow> nat \<Rightarrow> 'x session \<Rightarrow> (unit option \<times> 'x session) run" where
  "send_ack fuel env r s =
     sbind (libssh2_channel_write fuel env r [0] s) (\<lambda>(rc, s). if rc \<noteq> 1 then give_up fuel env r s else Inr (Some (), s))"

text \<open>A line, what it says, and the acknowledgement.\<close>

definition recv_response ::
    "nat \<Rightarrow> 'x env \<Rightarrow> nat \<Rightarrow> response \<Rightarrow> (bytes \<Rightarrow> string + int \<times> int) \<Rightarrow> 'x session \<Rightarrow> ((int \<times> int) option \<times> 'x session) run" where
  "recv_response fuel env r k parse s =
     sbind (recv_line LIBSSH2_SCP_RESPONSE_BUFLEN fuel env r k [] s) (\<lambda>(l, s).
     case l of
       None \<Rightarrow> Inr (None, s)
     | Some line \<Rightarrow>
         (case parse line of
            Inl e \<Rightarrow> give_up fuel env r (libssh2_error ERROR_SCP_PROTOCOL e s)
          | Inr v \<Rightarrow> sbind (send_ack fuel env r s) (\<lambda>(a, s). Inr (map_option (\<lambda>_. v) a, s))))"

text \<open>\<^verbatim>\<open>struct stat\<close>: \<^verbatim>\<open>st_mode\<close> has 16 bits.\<close>

record file_stat =
  st_mtime :: int
  st_atime :: int
  st_size :: int
  st_mode :: "16 word"

definition libssh2_scp_recv ::
    "nat \<Rightarrow> 'x env \<Rightarrow> bytes \<Rightarrow> bool \<Rightarrow> 'x session \<Rightarrow> ((nat \<times> file_stat option) option \<times> 'x session) run" where
  "libssh2_scp_recv fuel env path sb s =
     sbind (start_scp fuel env (scp_command (if sb then ''scp -pf '' else ''scp -f '') path) s) (\<lambda>(c, s).
     case c of
       None \<Rightarrow> Inr (None, s)
     | Some r \<Rightarrow>
         sbind (send_ack fuel env r s) (\<lambda>(a, s).
         if a = None then Inr (None, s)
         else
           sbind (if sb then recv_response fuel env r time_response parse_times s else Inr (Some (0, 0), s)) (\<lambda>(t, s).
           case t of
             None \<Rightarrow> Inr (None, s)
           | Some (mtime, atime) \<Rightarrow>
               sbind (recv_response fuel env r file_response parse_file s) (\<lambda>(f, s).
               case f of
                 None \<Rightarrow> Inr (None, s)
               | Some (mode, fsize) \<Rightarrow>
                   Inr (Some (r, if sb then Some \<lparr>st_mtime = mtime, st_atime = atime, st_size = fsize, st_mode = of_int mode\<rparr> else None),
                        libssh2_channel_set_blocking r False s)))))"

section \<open>Lines\<close>

text \<open>The bytes that single reads of the channel return, one after the other.\<close>

fun reads :: "nat \<Rightarrow> 'x env \<Rightarrow> nat \<Rightarrow> bytes \<Rightarrow> 'x session \<Rightarrow> 'x session \<Rightarrow> bool" where
  "reads fuel env r [] s s' \<longleftrightarrow> s' = s"
| "reads fuel env r (b # bs) s s' \<longleftrightarrow> (\<exists>t. libssh2_channel_read fuel env r 1 s = Inr ([b], t) \<and> reads fuel env r bs t s')"

definition good_line :: "response \<Rightarrow> bytes \<Rightarrow> bool" where
  "good_line k line \<longleftrightarrow> line \<noteq> [] \<and> hd line = first_char k \<and> list_all (\<lambda>c. allowed k c \<and> \<not> line_end c) (tl line)
     \<and> \<not> line_end (hd line) \<and> shortest k \<le> length line + 1 \<and> length line < LIBSSH2_SCP_RESPONSE_BUFLEN"

lemma strip_line_clean: "list_all (\<lambda>c. \<not> line_end c) line \<Longrightarrow> strip_line (line @ [10]) = line"
  unfolding strip_line_def by (cases line rule: rev_cases) (auto simp: line_end_def)

lemma good_clean: "good_line k line \<Longrightarrow> list_all (\<lambda>c. \<not> line_end c) line"
  by (cases line) (auto simp: good_line_def list_all_iff)

lemma examine_more:
  assumes "good_line k (got @ b # bs)"
  shows "examine k (got @ [b]) = More"
proof -
  have "hd (got @ [b]) = first_char k" using assms by (cases got) (auto simp: good_line_def)
  moreover have "allowed k b \<or> got = []" using assms by (cases got) (auto simp: good_line_def)
  moreover have "\<not> line_end b" using good_clean[OF assms] by simp
  moreover have "length (got @ [b]) < 256" using assms by (simp add: good_line_def)
  ultimately show ?thesis by (auto simp: examine_def line_end_def)
qed

lemma examine_line: "good_line k line \<Longrightarrow> allowed k 10 \<Longrightarrow> examine k (line @ [10]) = Line line"
  using strip_line_clean[OF good_clean, of k line] by (auto simp: examine_def good_line_def)

lemma recv_line_good:
  assumes "good_line k line" and "allowed k 10" and "reads fuel env r (bs @ [10]) s s'" and "line = got @ bs"
  shows "recv_line (256 - length got) fuel env r k got s = Inr (Some line, s')"
  using assms(3,4)
proof (induction bs arbitrary: got s)
  case Nil
  then have "length got < 256" using assms(1) by (simp add: good_line_def)
  then obtain n where "256 - length got = Suc n" by (metis Suc_diff_Suc)
  with Nil examine_line[OF assms(1,2)] show ?case by auto
next
  case (Cons b bs)
  then obtain t where t: "libssh2_channel_read fuel env r 1 s = Inr ([b], t)" "reads fuel env r (bs @ [10]) t s'" by auto
  have "length got < 255" using assms(1) Cons.prems(2) by (simp add: good_line_def)
  then have n: "256 - length got = Suc (256 - length (got @ [b]))" by simp
  have "examine k (got @ [b]) = More" using examine_more[of k got b bs] assms(1) Cons.prems(2) by simp
  with Cons.IH[OF t(2), of "got @ [b]"] t(1) Cons.prems(2) show ?case unfolding n by simp
qed

section \<open>Numbers\<close>

definition digit_of :: "nat \<Rightarrow> u8 \<Rightarrow> bool" where
  "digit_of radix c \<longleftrightarrow> 48 \<le> c \<and> unat c < 48 + radix"

lemma digit_value:
  assumes "d < 10"
  shows "uint (48 + of_nat d :: u8) = 48 + int d" "d < radix \<Longrightarrow> digit_of radix (48 + of_nat d)"
proof -
  have "unat (of_nat (48 + d) :: u8) = (48 + d) mod 256" by (simp only: unat_of_nat) simp
  then have "unat (of_nat (48 + d) :: u8) = 48 + d" using assms by (simp only: mod_less)
  then have u: "unat (48 + of_nat d :: u8) = 48 + d" by simp
  then show "uint (48 + of_nat d :: u8) = 48 + int d" by (simp add: uint_nat)
  show "d < radix \<Longrightarrow> digit_of radix (48 + of_nat d)" using u by (simp add: digit_of_def word_le_nat_alt)
qed

lemma radix_digits_value:
  assumes "2 \<le> radix" "radix \<le> 10"
  shows "foldl (\<lambda>a c. int radix * a + (uint c - 48)) 0 (radix_digits radix n) = int n"
proof (induction n rule: less_induct)
  case (less n)
  show ?case
  proof (cases "n < radix")
    case True
    then show ?thesis using assms by (subst radix_digits.simps) (simp add: digit_value)
  next
    case False
    then have "n div radix < n" using assms by simp
    moreover have "n mod radix < 10" using assms mod_less_divisor[of radix n] by linarith
    ultimately show ?thesis using less[of "n div radix"] False assms
      by (subst radix_digits.simps) (simp add: digit_value zdiv_int zmod_int)
  qed
qed

lemma radix_digits_digits: "2 \<le> radix \<Longrightarrow> radix \<le> 10 \<Longrightarrow> list_all (digit_of radix) (radix_digits radix n)"
proof (induction n rule: less_induct)
  case (less n)
  show ?case
  proof (cases "n < radix")
    case True
    then show ?thesis using less.prems by (subst radix_digits.simps) (simp add: digit_value)
  next
    case False
    then have "n div radix < n" using less.prems by simp
    moreover have "n mod radix < radix" "n mod radix < 10" using less.prems mod_less_divisor[of radix n] by linarith+
    ultimately show ?thesis using less.IH[of "n div radix"] False less.prems
      by (subst radix_digits.simps) (simp add: digit_value)
  qed
qed

lemma radix_digits_nonempty [simp]: "radix_digits radix n \<noteq> []"
  by (subst radix_digits.simps) simp

lemma digit_of_range: "digit_of radix c \<Longrightarrow> radix \<le> 10 \<Longrightarrow> 48 \<le> c \<and> c \<le> 57"
  by (auto simp: digit_of_def word_le_nat_alt)

lemma digit_of_not: "digit_of radix c \<Longrightarrow> radix \<le> 10 \<Longrightarrow> c \<noteq> 32 \<and> \<not> (9 \<le> c \<and> c \<le> 13) \<and> c \<noteq> 45 \<and> c \<noteq> 43 \<and> \<not> line_end c"
  by (drule (1) digit_of_range) (auto simp: word_le_nat_alt line_end_def)

lemma strtol_digits:
  assumes "list_all (digit_of radix) ds" "ds \<noteq> []" "radix \<le> 10"
    and "foldl (\<lambda>a c. int radix * a + (uint c - 48)) 0 ds = int v" "v < 2 ^ 31"
  shows "strtol radix ds = (int v, [], False)"
proof -
  obtain d r where d: "ds = d # r" using assms(2) by (cases ds) auto
  then have n: "digit_of radix d" using assms(1) by simp
  have t: "takeWhile (digit_of radix) ds = ds" "dropWhile (digit_of radix) ds = []"
    using assms(1) by (auto simp: list_all_iff takeWhile_eq_all_conv dropWhile_eq_Nil_conv)
  have w: "dropWhile (\<lambda>c. c = 32 \<or> 9 \<le> c \<and> c \<le> 13) ds = ds" "hd ds \<noteq> 45" "hd ds \<noteq> 43"
    using digit_of_not[OF n assms(3)] by (auto simp: d)
  show ?thesis
    unfolding strtol_def digit_of_def[symmetric] Let_def w(1) using w(2,3) t assms(2,4,5) by simp
qed

lemma cut_space_word: "w \<noteq> [] \<Longrightarrow> list_all (\<lambda>c. c \<noteq> 32) w \<Longrightarrow> cut_space (w @ 32 # b) = Some (w, b)"
  by (simp add: cut_space_def takeWhile_tail list_all_iff Let_def takeWhile_append2)

lemma radix_word: "2 \<le> radix \<Longrightarrow> radix \<le> 10 \<Longrightarrow> list_all (\<lambda>c. c \<noteq> 32 \<and> \<not> line_end c \<and> 48 \<le> c \<and> c \<le> 57) (radix_digits radix n)"
  using radix_digits_digits[of radix n] digit_of_not[of radix] digit_of_range[of radix] by (simp add: list_all_iff)

lemma strtol_radix: "2 \<le> radix \<Longrightarrow> radix \<le> 10 \<Longrightarrow> n < 2 ^ 31 \<Longrightarrow> strtol radix (radix_digits radix n) = (int n, [], False)"
  by (rule strtol_digits[OF radix_digits_digits _ _ radix_digits_value]) simp_all

lemma strtol_mode:
  assumes "n < 2 ^ 31"
  shows "strtol 8 (48 # radix_digits 8 n) = (int n, [], False)"
proof (rule strtol_digits)
  show "list_all (digit_of 8) (48 # radix_digits 8 n)" using radix_digits_digits[of 8 n] by (simp add: digit_of_def)
  show "foldl (\<lambda>a c. int 8 * a + (uint c - 48)) 0 (48 # radix_digits 8 n) = int n" using radix_digits_value[of 8 n] by simp
qed (use assms in simp_all)

lemma decimal_uint: "decimal (uint w) = radix_digits 10 (unat w)"
  by (simp add: decimal_def not_less[symmetric] linorder_not_le)

lemma parse_file_line:
  assumes "unat mode < 2 ^ 31" and "unat fsize < 2 ^ 31"
  shows "parse_file (butlast (file_line mode fsize path)) = Inr (int (unat mode), int (unat fsize))"
proof -
  have b: "drop 1 (butlast (file_line mode fsize path)) = (48 # radix_digits 8 (unat mode)) @ 32 # radix_digits 10 (unat fsize) @ 32 # base_name path"
    by (simp add: file_line_def ascii_def decimal_uint butlast_append)
  have "list_all (\<lambda>c. c \<noteq> 32) (48 # radix_digits 8 (unat mode))" "list_all (\<lambda>c. c \<noteq> 32) (radix_digits 10 (unat fsize))"
    using radix_word[of 8 "unat mode"] radix_word[of 10 "unat fsize"] by (simp_all add: list_all_iff)
  then show ?thesis
    using assms unfolding parse_file_def b by (subst cut_space_word) (simp_all add: cut_space_word strtol_mode strtol_radix)
qed

text \<open>A path whose last part has printable characters only.\<close>

definition printable :: "bytes \<Rightarrow> bool" where
  "printable b \<longleftrightarrow> list_all (\<lambda>c. 32 \<le> c \<and> c \<le> 126) b"

lemma file_line_good:
  assumes "printable (base_name path)" and "length (file_line mode fsize path) \<le> 256"
  shows "good_line file_response (butlast (file_line mode fsize path))"
proof -
  have r: "list_all (\<lambda>c. \<not> line_end c \<and> 32 \<le> c \<and> c \<le> 126) (radix_digits radix n)" if "2 \<le> radix" "radix \<le> 10" for radix n
    using radix_word[OF that, of n] by (auto simp: list_all_iff word_le_nat_alt)
  have p: "list_all (\<lambda>c. \<not> line_end c \<and> 32 \<le> c \<and> c \<le> 126) (base_name path)"
    using assms(1) by (auto simp: printable_def list_all_iff line_end_def word_le_nat_alt)
  have b: "butlast (file_line mode fsize path) = 67 # 48 # radix_digits 8 (unat mode) @ 32 # radix_digits 10 (unat fsize) @ 32 # base_name path"
    by (simp add: file_line_def ascii_def decimal_uint butlast_append)
  have "Suc 0 \<le> length (radix_digits radix n)" for radix n by (cases "radix_digits radix n") simp_all
  from this[of 8 "unat mode"] this[of 10 "unat fsize"]
  have l: "7 \<le> length (butlast (file_line mode fsize path)) + 1" unfolding b by simp
  have "file_line mode fsize path \<noteq> []" by (simp add: file_line_def ascii_def)
  then have "length (butlast (file_line mode fsize path)) < 256" using assms(2) by (cases "file_line mode fsize path") auto
  with l r[of 8 "unat mode"] r[of 10 "unat fsize"] p show ?thesis
    unfolding good_line_def by (auto simp: b file_response_def list_all_iff line_end_def)
qed

lemma file_line_end: "file_line mode fsize path = butlast (file_line mode fsize path) @ [10]"
  by (simp add: file_line_def butlast_append)

lemma give_up_None: "give_up fuel env r s = Inr (x, s') \<Longrightarrow> x = None"
  by (auto simp: give_up_def sbind_eq_Inr)

text \<open>The server has acknowledged: a read returns a 0.\<close>

definition acked :: "nat \<Rightarrow> 'x env \<Rightarrow> nat \<Rightarrow> 'x session \<Rightarrow> 'x session \<Rightarrow> bool" where
  "acked fuel env r s s' \<longleftrightarrow> (\<exists>got. libssh2_channel_read fuel env r 1 s = Inr (got, s') \<and> got \<noteq> [] \<and> hd got = 0)"

lemma wait_ack_acked: "wait_ack fuel env r s = Inr (Some (), s') \<longleftrightarrow> acked fuel env r s s'"
  by (auto simp: wait_ack_def acked_def sbind_eq_Inr dest: give_up_None split: if_split_asm)

lemma send_line_sent:
  "send_line fuel env r line e s = Inr (Some (), s') \<Longrightarrow> length line \<le> 256
    \<Longrightarrow> \<exists>v. libssh2_channel_write fuel env r line s = Inr (int (length line), v) \<and> acked fuel env r v s'"
  by (auto simp: send_line_def sbind_eq_Inr wait_ack_acked dest: give_up_None split: if_split_asm)

section \<open>Properties\<close>


text \<open>\<^verbatim>\<open>libssh2_scp_send\<close> returns a channel only after the server has run the command, has acknowledged it, has got the whole
  line with the mode, the size and the name, and has acknowledged that.\<close>

theorem scp_send_acknowledged:
  assumes "libssh2_scp_send fuel env path mode fsize s = Inr (Some r, s')" and "length (file_line mode fsize path) \<le> 256"
  shows "\<exists>s1 s2 s3 s4. start_scp fuel env (scp_command ''scp -t '' path) s = Inr (Some r, s1) \<and> acked fuel env r s1 s2
    \<and> libssh2_channel_write fuel env r (file_line mode fsize path) s2 = Inr (int (length (file_line mode fsize path)), s3)
    \<and> acked fuel env r s3 s4 \<and> s' = libssh2_channel_set_blocking r False s4"
proof -
  obtain s1 s2 s4 where "start_scp fuel env (scp_command ''scp -t '' path) s = Inr (Some r, s1)" "wait_ack fuel env r s1 = Inr (Some (), s2)"
    "send_line fuel env r (file_line mode fsize path) ''Unable to send core file data for SCP file'' s2 = Inr (Some (), s4)"
    "s' = libssh2_channel_set_blocking r False s4"
    using assms(1) unfolding libssh2_scp_send_def libssh2_scp_send_ex_def Let_def
    by (auto simp: sbind_eq_Inr split: option.split_asm if_split_asm)
  with send_line_sent[OF _ assms(2)] show ?thesis unfolding wait_ack_acked by blast
qed


section \<open>Witnesses\<close>

definition example_copy :: "nat \<Rightarrow> unit handle session" where
  "example_copy acks = (null_session (replicate 4 (Recv_Data [])))\<lparr>packets :=
     [queued_packet (SSH_MSG_CHANNEL_OPEN_CONFIRMATION # [0, 0, 0, 0, 0, 0, 0, 7, 0, 0, 0, 32, 0, 0, 0, 32]),
      queued_packet (SSH_MSG_CHANNEL_SUCCESS # [0, 0, 0, 0])]
     @ replicate acks (queued_packet (SSH_MSG_CHANNEL_DATA # [0, 0, 0, 0, 0, 0, 0, 1, 0])\<lparr>pk_head := 9\<rparr>)\<rparr>"



lemma case_some_iff:
  "(case x of Inl _ \<Rightarrow> False | Inr (q, s) \<Rightarrow> q = Some a \<and> P s) \<longleftrightarrow> (\<exists>s. x = Inr (Some a, s) \<and> P s)"
  by (auto split: sum.splits prod.splits)

theorem scp_send_acknowledged_witness:
  "\<exists>s' s1 s2 s3 s4. libssh2_scp_send 9 null_env [97] 438 5 (example_copy 2) = Inr (Some 0, s')
    \<and> start_scp 9 null_env (scp_command ''scp -t '' [97]) (example_copy 2) = Inr (Some 0, s1) \<and> acked 9 null_env 0 s1 s2
    \<and> libssh2_channel_write 9 null_env 0 (file_line 438 5 [97]) s2 = Inr (int (length (file_line 438 5 [97])), s3)
    \<and> acked 9 null_env 0 s3 s4 \<and> s' = libssh2_channel_set_blocking 0 False s4"
proof -
  have "case libssh2_scp_send 9 null_env [97] 438 5 (example_copy 2) of Inl _ \<Rightarrow> False | Inr (q, s) \<Rightarrow> q = Some 0 \<and> True"
    by code_simp
  then obtain s' where "libssh2_scp_send 9 null_env [97] 438 5 (example_copy 2) = Inr (Some 0, s')"
    unfolding case_some_iff by blast
  moreover have "length (file_line 438 5 [97]) \<le> 256" by code_simp
  ultimately show ?thesis using scp_send_acknowledged[of 9 null_env "[97]" 438 5 "example_copy 2" 0] by blast
qed

lemma case_overrun:
  "(case x of Inl _ \<Rightarrow> False | Inr (q, s1) \<Rightarrow> q = Some a \<and> (case f s1 of Inl _ \<Rightarrow> False | Inr (got, s2) \<Rightarrow> got \<noteq> [] \<and> hd got = 0 \<and> P s2))
    \<longleftrightarrow> (\<exists>s1 got s2. x = Inr (Some a, s1) \<and> f s1 = Inr (got, s2) \<and> got \<noteq> [] \<and> hd got = 0 \<and> P s2)"
  by (auto split: sum.splits prod.splits)


text \<open>A channel whose queue holds the bytes of a line, one by one.\<close>

definition example_reading :: "bytes \<Rightarrow> unit handle session" where
  "example_reading bs = (null_session (replicate (length bs) (Recv_Data [])))\<lparr>channels := [0], next_ref := 1,
     packets := map (\<lambda>b. queued_packet (SSH_MSG_CHANNEL_DATA # [0, 0, 0, 0, 0, 0, 0, 1, b])\<lparr>pk_head := 9\<rparr>) bs\<rparr>"

fun read_all :: "nat \<Rightarrow> 'x env \<Rightarrow> nat \<Rightarrow> bytes \<Rightarrow> 'x session \<Rightarrow> 'x session option" where
  "read_all fuel env r [] s = Some s"
| "read_all fuel env r (b # bs) s =
     (case libssh2_channel_read fuel env r 1 s of Inl _ \<Rightarrow> None | Inr (got, t) \<Rightarrow> if got = [b] then read_all fuel env r bs t else None)"

lemma read_all_reads: "read_all fuel env r bs s = Some s' \<Longrightarrow> reads fuel env r bs s s'"
  by (induction bs arbitrary: s) (auto split: sum.split_asm prod.split_asm if_split_asm)


end
