(* ===== verification/SSH_Sftp.thy ===== *)
theory SSH_Sftp
  imports SSH_Scp
begin

text \<open>
  The subsystem sftp, \<^verbatim>\<open>src/ssh/libssh2/sftp.c\<close>: its packets on a channel, the attributes of files and the operations on
  files and directories.  The record \<open>sftp\<close> has the session of its channel.  Handles are numbers that stand for their
  addresses; a file keeps its position and a directory its names, which share a union in C, and the operations for the one
  are not called for the other.  Of a name that the caller passes, the length is the length of the list.
\<close>

section \<open>State\<close>

abbreviation (input) SSH_FXP_INIT :: u8 where "SSH_FXP_INIT \<equiv> 1"
abbreviation (input) SSH_FXP_VERSION :: u8 where "SSH_FXP_VERSION \<equiv> 2"
abbreviation (input) SSH_FXP_OPEN :: u8 where "SSH_FXP_OPEN \<equiv> 3"
abbreviation (input) SSH_FXP_CLOSE :: u8 where "SSH_FXP_CLOSE \<equiv> 4"
abbreviation (input) SSH_FXP_READ :: u8 where "SSH_FXP_READ \<equiv> 5"
abbreviation (input) SSH_FXP_WRITE :: u8 where "SSH_FXP_WRITE \<equiv> 6"
abbreviation (input) SSH_FXP_LSTAT :: u8 where "SSH_FXP_LSTAT \<equiv> 7"
abbreviation (input) SSH_FXP_FSTAT :: u8 where "SSH_FXP_FSTAT \<equiv> 8"
abbreviation (input) SSH_FXP_SETSTAT :: u8 where "SSH_FXP_SETSTAT \<equiv> 9"
abbreviation (input) SSH_FXP_FSETSTAT :: u8 where "SSH_FXP_FSETSTAT \<equiv> 10"
abbreviation (input) SSH_FXP_OPENDIR :: u8 where "SSH_FXP_OPENDIR \<equiv> 11"
abbreviation (input) SSH_FXP_READDIR :: u8 where "SSH_FXP_READDIR \<equiv> 12"
abbreviation (input) SSH_FXP_REMOVE :: u8 where "SSH_FXP_REMOVE \<equiv> 13"
abbreviation (input) SSH_FXP_MKDIR :: u8 where "SSH_FXP_MKDIR \<equiv> 14"
abbreviation (input) SSH_FXP_RMDIR :: u8 where "SSH_FXP_RMDIR \<equiv> 15"
abbreviation (input) SSH_FXP_REALPATH :: u8 where "SSH_FXP_REALPATH \<equiv> 16"
abbreviation (input) SSH_FXP_STAT :: u8 where "SSH_FXP_STAT \<equiv> 17"
abbreviation (input) SSH_FXP_RENAME :: u8 where "SSH_FXP_RENAME \<equiv> 18"
abbreviation (input) SSH_FXP_READLINK :: u8 where "SSH_FXP_READLINK \<equiv> 19"
abbreviation (input) SSH_FXP_SYMLINK :: u8 where "SSH_FXP_SYMLINK \<equiv> 20"
abbreviation (input) SSH_FXP_STATUS :: u8 where "SSH_FXP_STATUS \<equiv> 101"
abbreviation (input) SSH_FXP_HANDLE :: u8 where "SSH_FXP_HANDLE \<equiv> 102"
abbreviation (input) SSH_FXP_DATA :: u8 where "SSH_FXP_DATA \<equiv> 103"
abbreviation (input) SSH_FXP_NAME :: u8 where "SSH_FXP_NAME \<equiv> 104"
abbreviation (input) SSH_FXP_ATTRS :: u8 where "SSH_FXP_ATTRS \<equiv> 105"
abbreviation (input) LIBSSH2_SFTP_VERSION :: u32 where "LIBSSH2_SFTP_VERSION \<equiv> 3"
abbreviation (input) LIBSSH2_SFTP_PACKET_MAXLEN :: u32 where "LIBSSH2_SFTP_PACKET_MAXLEN \<equiv> 40000"
abbreviation (input) LIBSSH2_FX_OK :: u32 where "LIBSSH2_FX_OK \<equiv> 0"
abbreviation (input) LIBSSH2_FX_EOF :: u32 where "LIBSSH2_FX_EOF \<equiv> 1"
abbreviation (input) LIBSSH2_FX_OP_UNSUPPORTED :: u32 where "LIBSSH2_FX_OP_UNSUPPORTED \<equiv> 8"
abbreviation (input) LIBSSH2_FX_FILE_ALREADY_EXISTS :: u32 where "LIBSSH2_FX_FILE_ALREADY_EXISTS \<equiv> 11"

record sftp_handle =
  h_bytes :: bytes
  is_dir_handle :: bool
  h_next :: "nat option"
  h_offset :: u64
  names_left :: u32
  names_packet :: bytes
  next_name :: int

record 'x sftp =
  ses :: "'x session"
  sftp_channel :: nat
  request_id :: u32
  sftp_version :: u32
  brigade :: "bytes list"
  handles :: "nat option"
  handle_at :: "nat \<Rightarrow> sftp_handle"
  next_handle :: nat
  last_errno :: u32

definition on_ses :: "('x session \<Rightarrow> ('b \<times> 'x session) run) \<Rightarrow> 'x sftp \<Rightarrow> ('b \<times> 'x sftp) run" where
  "on_ses f t = sbind (f (ses t)) (\<lambda>(r, s). Inr (r, t\<lparr>ses := s\<rparr>))"

definition sftp_error :: "ssh_error \<Rightarrow> string \<Rightarrow> 'x sftp \<Rightarrow> 'x sftp" where
  "sftp_error code msg t = t\<lparr>ses := libssh2_error code msg (ses t)\<rparr>"

definition sftp_alloc :: "'x sftp \<Rightarrow> bool \<times> 'x sftp" where
  "sftp_alloc t = (let (ok, s) = libssh2_alloc (ses t) in (ok, t\<lparr>ses := s\<rparr>))"

definition put_handle :: "nat \<Rightarrow> sftp_handle \<Rightarrow> 'x sftp \<Rightarrow> 'x sftp" where
  "put_handle h v t = t\<lparr>handle_at := (handle_at t)(h := v)\<rparr>"

section \<open>Packets\<close>

definition libssh2_sftp_packet_add :: "bytes \<Rightarrow> 'x sftp \<Rightarrow> int \<times> 'x sftp" where
  "libssh2_sftp_packet_add data t =
     (let (ok, t) = sftp_alloc t
      in if \<not> ok then (-1, sftp_error ERROR_ALLOC ''Unable to allocate datablock for SFTP packet'' t)
         else (0, t\<lparr>brigade := brigade t @ [data]\<rparr>))"

text \<open>A read of the channel, after its mode has been set.\<close>

definition sftp_channel_read :: "nat \<Rightarrow> 'x env \<Rightarrow> bool \<Rightarrow> u32 \<Rightarrow> 'x sftp \<Rightarrow> (bytes \<times> 'x sftp) run" where
  "sftp_channel_read fuel env block n t =
     on_ses (libssh2_channel_read fuel env (sftp_channel t) n)
       (t\<lparr>ses := libssh2_channel_set_blocking (sftp_channel t) block (ses t)\<rparr>)"

abbreviation fxp_timeout :: "'x sftp \<Rightarrow> 'x sftp" where
  "fxp_timeout t \<equiv> sftp_error ERROR_SOCKET_TIMEOUT ''Timeout waiting for FXP packet'' t"

text \<open>The length of a packet; \<open>Inl\<close> is a return value.\<close>

definition read_length :: "nat \<Rightarrow> 'x env \<Rightarrow> bool \<Rightarrow> 'x sftp \<Rightarrow> ((int + u32) \<times> 'x sftp) run" where
  "read_length fuel env should_block t =
     (if should_block then
        sbind (sftp_channel_read fuel env True 4 t) (\<lambda>(b, t).
        if length b \<noteq> 4 then Inr (Inl (-1), fxp_timeout t) else Inr (Inr (libssh2_ntohu32 b), t))
      else
        sbind (sftp_channel_read fuel env False 1 t) (\<lambda>(b, t).
        if length b \<noteq> 1 then Inr (Inl 0, fxp_timeout t)
        else
          sbind (sftp_channel_read fuel env True 3 t) (\<lambda>(c, t).
          if length c \<noteq> 3 then Inr (Inl (-1), fxp_timeout t) else Inr (Inr (libssh2_ntohu32 (b @ c)), t))))"

text \<open>The loop that reads the packet.  A read never returns less than 0, so it has no other end than the end of the packet.\<close>

fun read_packet_body :: "nat \<Rightarrow> nat \<Rightarrow> 'x env \<Rightarrow> u32 \<Rightarrow> bytes \<Rightarrow> 'x sftp \<Rightarrow> (bytes \<times> 'x sftp) run" where
  "read_packet_body 0 fuel env packet_len got t = Inl Never_Returns"
| "read_packet_body (Suc rounds) fuel env packet_len got t =
     (if packet_len \<le> of_nat (length got) then Inr (got, t)
      else sbind (sftp_channel_read fuel env True (packet_len - of_nat (length got)) t) (\<lambda>(b, t).
        read_packet_body rounds fuel env packet_len (got @ b) t))"

definition libssh2_sftp_packet_read :: "nat \<Rightarrow> 'x env \<Rightarrow> bool \<Rightarrow> 'x sftp \<Rightarrow> (int \<times> 'x sftp) run" where
  "libssh2_sftp_packet_read fuel env should_block t =
     sbind (read_length fuel env should_block t) (\<lambda>(r, t).
     case r of
       Inl rc \<Rightarrow> Inr (rc, t)
     | Inr packet_len \<Rightarrow>
         if LIBSSH2_SFTP_PACKET_MAXLEN < packet_len
         then Inr (-1, sftp_error ERROR_CHANNEL_PACKET_EXCEEDED ''SFTP packet too large'' t)
         else
           let (ok, t) = sftp_alloc t
           in if \<not> ok then Inr (-1, sftp_error ERROR_ALLOC ''Unable to allocate SFTP packet'' t)
              else
                sbind (read_packet_body fuel fuel env packet_len [] t) (\<lambda>(packet, t).
                let (rc, t) = libssh2_sftp_packet_add packet t
                in if rc \<noteq> 0 then Inr (-1, t) else sbind (rd8 packet 0) (\<lambda>c. Inr (uint c, t))))"

text \<open>The first packet that \<^verbatim>\<open>strncmp\<close> finds equal.\<close>

fun take_match :: "bytes \<Rightarrow> bytes list \<Rightarrow> (bytes option \<times> bytes list) run" where
  "take_match m [] = Inr (None, [])"
| "take_match m (p # ps) =
     sbind (strncmp_mem p m) (\<lambda>eq.
     if eq then Inr (Some p, ps) else sbind (take_match m ps) (\<lambda>(r, rest). Inr (r, p # rest)))"

definition match_buf :: "u8 \<Rightarrow> u32 \<Rightarrow> bytes" where
  "match_buf packet_type rid = (if packet_type = SSH_FXP_VERSION then [packet_type] else packet_type # libssh2_htonu32 rid)"

definition libssh2_sftp_packet_ask ::
    "nat \<Rightarrow> 'x env \<Rightarrow> u8 \<Rightarrow> u32 \<Rightarrow> bool \<Rightarrow> 'x sftp \<Rightarrow> (bytes option \<times> 'x sftp) run" where
  "libssh2_sftp_packet_ask fuel env packet_type rid poll_channel t =
     sbind (if poll_channel then libssh2_sftp_packet_read fuel env False t else Inr (0, t)) (\<lambda>(rc, t).
     if rc < 0 then Inr (None, t)
     else sbind (take_match (match_buf packet_type rid) (brigade t)) (\<lambda>(r, rest). Inr (r, t\<lparr>brigade := rest\<rparr>)))"

fun sftp_require_loop :: "nat \<Rightarrow> nat \<Rightarrow> 'x env \<Rightarrow> u8 \<Rightarrow> u32 \<Rightarrow> 'x sftp \<Rightarrow> (bytes option \<times> 'x sftp) run" where
  "sftp_require_loop 0 fuel env packet_type rid t = Inl Never_Returns"
| "sftp_require_loop (Suc rounds) fuel env packet_type rid t =
     (if sock_state (ses t) \<noteq> SOCKET_CONNECTED then Inr (None, t)
      else
        sbind (libssh2_sftp_packet_read fuel env True t) (\<lambda>(ret, t).
        if ret < 0 then Inr (None, t)
        else if ret = 0 then sftp_require_loop rounds fuel env packet_type rid t
        else if uint packet_type = ret then libssh2_sftp_packet_ask fuel env packet_type rid False t
        else sftp_require_loop rounds fuel env packet_type rid t))"

definition libssh2_sftp_packet_require :: "nat \<Rightarrow> 'x env \<Rightarrow> u8 \<Rightarrow> u32 \<Rightarrow> 'x sftp \<Rightarrow> (bytes option \<times> 'x sftp) run" where
  "libssh2_sftp_packet_require fuel env packet_type rid t =
     sbind (libssh2_sftp_packet_ask fuel env packet_type rid False t) (\<lambda>(r, t).
     if r \<noteq> None then Inr (r, t) else sftp_require_loop fuel fuel env packet_type rid t)"

fun flush_packets :: "nat \<Rightarrow> nat \<Rightarrow> 'x env \<Rightarrow> 'x sftp \<Rightarrow> 'x sftp run" where
  "flush_packets 0 fuel env t = Inl Never_Returns"
| "flush_packets (Suc rounds) fuel env t =
     sbind (libssh2_sftp_packet_read fuel env False t) (\<lambda>(rc, t).
     if 0 < rc then flush_packets rounds fuel env t else Inr t)"

fun ask_any :: "nat \<Rightarrow> 'x env \<Rightarrow> u8 list \<Rightarrow> u32 \<Rightarrow> 'x sftp \<Rightarrow> (bytes option \<times> 'x sftp) run" where
  "ask_any fuel env [] rid t = Inr (None, t)"
| "ask_any fuel env (v # vs) rid t =
     sbind (libssh2_sftp_packet_ask fuel env v rid False t) (\<lambda>(r, t).
     if r \<noteq> None then Inr (r, t) else ask_any fuel env vs rid t)"

fun sftp_requirev_loop :: "nat \<Rightarrow> nat \<Rightarrow> 'x env \<Rightarrow> u8 list \<Rightarrow> u32 \<Rightarrow> 'x sftp \<Rightarrow> (bytes option \<times> 'x sftp) run" where
  "sftp_requirev_loop 0 fuel env valid_responses rid t = Inl Never_Returns"
| "sftp_requirev_loop (Suc rounds) fuel env valid_responses rid t =
     (if sock_state (ses t) \<noteq> SOCKET_CONNECTED then Inr (None, t)
      else
        sbind (ask_any fuel env valid_responses rid t) (\<lambda>(r, t).
        if r \<noteq> None then Inr (r, t)
        else
          sbind (libssh2_sftp_packet_read fuel env True t) (\<lambda>(ret, t).
          if ret < 0 then Inr (None, t) else sftp_requirev_loop rounds fuel env valid_responses rid t)))"

definition libssh2_sftp_packet_requirev :: "nat \<Rightarrow> 'x env \<Rightarrow> u8 list \<Rightarrow> u32 \<Rightarrow> 'x sftp \<Rightarrow> (bytes option \<times> 'x sftp) run" where
  "libssh2_sftp_packet_requirev fuel env valid_responses rid t =
     sbind (flush_packets fuel fuel env t) (\<lambda>t. sftp_requirev_loop fuel fuel env valid_responses rid t)"

section \<open>Attributes\<close>

abbreviation (input) LIBSSH2_SFTP_ATTR_SIZE :: u32 where "LIBSSH2_SFTP_ATTR_SIZE \<equiv> 1"
abbreviation (input) LIBSSH2_SFTP_ATTR_UIDGID :: u32 where "LIBSSH2_SFTP_ATTR_UIDGID \<equiv> 2"
abbreviation (input) LIBSSH2_SFTP_ATTR_PERMISSIONS :: u32 where "LIBSSH2_SFTP_ATTR_PERMISSIONS \<equiv> 4"
abbreviation (input) LIBSSH2_SFTP_ATTR_ACMODTIME :: u32 where "LIBSSH2_SFTP_ATTR_ACMODTIME \<equiv> 8"
abbreviation (input) LIBSSH2_SFTP_ATTR_PFILETYPE_FILE :: u32 where "LIBSSH2_SFTP_ATTR_PFILETYPE_FILE \<equiv> 0x8000"
abbreviation (input) LIBSSH2_SFTP_ATTR_PFILETYPE_DIR :: u32 where "LIBSSH2_SFTP_ATTR_PFILETYPE_DIR \<equiv> 0x4000"

record sftp_attributes =
  attr_flags :: u32
  filesize :: u64
  attr_uid :: u32
  attr_gid :: u32
  permissions :: u32
  attr_atime :: u32
  attr_mtime :: u32

definition no_attributes :: sftp_attributes where
  "no_attributes = \<lparr>attr_flags = 0, filesize = 0, attr_uid = 0, attr_gid = 0, permissions = 0, attr_atime = 0, attr_mtime = 0\<rparr>"

definition has_attr :: "u32 \<Rightarrow> sftp_attributes \<Rightarrow> bool" where
  "has_attr flag a \<longleftrightarrow> attr_flags a AND flag \<noteq> 0"

definition libssh2_sftp_attrsize :: "sftp_attributes option \<Rightarrow> nat" where
  "libssh2_sftp_attrsize attrs =
     (case attrs of
        None \<Rightarrow> 4
      | Some a \<Rightarrow> 4 + (if has_attr LIBSSH2_SFTP_ATTR_SIZE a then 8 else 0) + (if has_attr LIBSSH2_SFTP_ATTR_UIDGID a then 8 else 0)
          + (if has_attr LIBSSH2_SFTP_ATTR_PERMISSIONS a then 4 else 0) + (if has_attr LIBSSH2_SFTP_ATTR_ACMODTIME a then 8 else 0))"

definition libssh2_sftp_attr2bin :: "sftp_attributes option \<Rightarrow> bytes" where
  "libssh2_sftp_attr2bin attrs =
     (case attrs of
        None \<Rightarrow> libssh2_htonu32 0
      | Some a \<Rightarrow>
          libssh2_htonu32 (attr_flags a AND (LIBSSH2_SFTP_ATTR_SIZE OR LIBSSH2_SFTP_ATTR_UIDGID OR LIBSSH2_SFTP_ATTR_PERMISSIONS OR LIBSSH2_SFTP_ATTR_ACMODTIME))
          @ (if has_attr LIBSSH2_SFTP_ATTR_SIZE a then libssh2_htonu64 (filesize a) else [])
          @ (if has_attr LIBSSH2_SFTP_ATTR_UIDGID a then libssh2_htonu32 (attr_uid a) @ libssh2_htonu32 (attr_gid a) else [])
          @ (if has_attr LIBSSH2_SFTP_ATTR_PERMISSIONS a then libssh2_htonu32 (permissions a) else [])
          @ (if has_attr LIBSSH2_SFTP_ATTR_ACMODTIME a then libssh2_htonu32 (attr_atime a) @ libssh2_htonu32 (attr_mtime a) else []))"

text \<open>Two numbers, if they are there.\<close>

definition read_pair :: "bool \<Rightarrow> bytes \<Rightarrow> int \<Rightarrow> (u32 \<times> u32 \<times> int) run" where
  "read_pair present p s =
     (if present then sbind (rd32 p s) (\<lambda>a. sbind (rd32 p (s + 4)) (\<lambda>b. Inr (a, b, s + 8))) else Inr (0, 0, s))"

text \<open>The attributes, and the position behind them.\<close>

definition libssh2_sftp_bin2attr :: "bytes \<Rightarrow> int \<Rightarrow> (sftp_attributes \<times> int) run" where
  "libssh2_sftp_bin2attr p s =
     sbind (rd32 p s) (\<lambda>flags.
     let a = no_attributes\<lparr>attr_flags := flags\<rparr>; s = s + 4
     in sbind (if has_attr LIBSSH2_SFTP_ATTR_SIZE a then sbind (rdn p s 8) (\<lambda>b. Inr (libssh2_ntohu64 b, s + 8)) else Inr (0, s)) (\<lambda>(fsize, s).
        sbind (read_pair (has_attr LIBSSH2_SFTP_ATTR_UIDGID a) p s) (\<lambda>(uid, gid, s).
        sbind (if has_attr LIBSSH2_SFTP_ATTR_PERMISSIONS a then sbind (rd32 p s) (\<lambda>v. Inr (v, s + 4)) else Inr (0, s)) (\<lambda>(perm, s).
        sbind (read_pair (has_attr LIBSSH2_SFTP_ATTR_ACMODTIME a) p s) (\<lambda>(atime, mtime, s).
        Inr (a\<lparr>filesize := fsize, attr_uid := uid, attr_gid := gid, permissions := perm, attr_atime := atime, attr_mtime := mtime\<rparr>, s))))))"

section \<open>Requests\<close>

text \<open>Every request has its length, its type, its number and the rest; the result is the number.\<close>

definition fxp_packet :: "u8 \<Rightarrow> u32 \<Rightarrow> bytes \<Rightarrow> bytes" where
  "fxp_packet packet_type rid body = libssh2_htonu32 (of_nat (5 + length body)) @ packet_type # libssh2_htonu32 rid @ body"

definition send_request ::
    "nat \<Rightarrow> 'x env \<Rightarrow> u8 \<Rightarrow> bytes \<Rightarrow> string \<Rightarrow> string \<Rightarrow> 'x sftp \<Rightarrow> (u32 option \<times> 'x sftp) run" where
  "send_request fuel env packet_type body e_alloc e_send t =
     (let (ok, t) = sftp_alloc t
      in if \<not> ok then Inr (None, sftp_error ERROR_ALLOC e_alloc t)
         else
           let rid = request_id t; t = t\<lparr>request_id := rid + 1\<rparr>; packet = fxp_packet packet_type rid body
           in sbind (on_ses (libssh2_channel_write fuel env (sftp_channel t) packet) t) (\<lambda>(rc, t).
              if rc \<noteq> int (length packet) then Inr (None, sftp_error ERROR_SOCKET_SEND e_send t) else Inr (Some rid, t)))"

abbreviation e_status :: string where "e_status \<equiv> ''Timeout waiting for status message''"

abbreviation e_protocol :: string where "e_protocol \<equiv> ''SFTP Protocol Error''"

text \<open>A request and one of its answers.\<close>

definition request_answer ::
    "nat \<Rightarrow> 'x env \<Rightarrow> u8 \<Rightarrow> bytes \<Rightarrow> u8 list \<Rightarrow> string \<Rightarrow> string \<Rightarrow> 'x sftp \<Rightarrow> (bytes option \<times> 'x sftp) run" where
  "request_answer fuel env packet_type body responses e_alloc e_send t =
     sbind (send_request fuel env packet_type body e_alloc e_send t) (\<lambda>(q, t).
     case q of
       None \<Rightarrow> Inr (None, t)
     | Some rid \<Rightarrow>
         sbind (libssh2_sftp_packet_requirev fuel env responses rid t) (\<lambda>(r, t).
         Inr (r, if r = None then sftp_error ERROR_SOCKET_TIMEOUT e_status t else t)))"

text \<open>A request that is answered by a status; \<open>None\<close> when there is no answer.\<close>

definition request_status ::
    "nat \<Rightarrow> 'x env \<Rightarrow> u8 \<Rightarrow> bytes \<Rightarrow> string \<Rightarrow> string \<Rightarrow> 'x sftp \<Rightarrow> (u32 option \<times> 'x sftp) run" where
  "request_status fuel env packet_type body e_alloc e_send t =
     sbind (send_request fuel env packet_type body e_alloc e_send t) (\<lambda>(q, t).
     case q of
       None \<Rightarrow> Inr (None, t)
     | Some rid \<Rightarrow>
         sbind (libssh2_sftp_packet_require fuel env SSH_FXP_STATUS rid t) (\<lambda>(r, t).
         case r of
           None \<Rightarrow> Inr (None, sftp_error ERROR_SOCKET_TIMEOUT e_status t)
         | Some data \<Rightarrow> sbind (rd32 data 5) (\<lambda>retcode. Inr (Some retcode, t))))"

definition failed_with :: "u32 \<Rightarrow> string \<Rightarrow> 'x sftp \<Rightarrow> 'x sftp" where
  "failed_with retcode msg t = (sftp_error ERROR_SFTP_PROTOCOL msg t)\<lparr>last_errno := retcode\<rparr>"

definition status_result :: "u32 \<Rightarrow> 'x sftp \<Rightarrow> int \<times> 'x sftp" where
  "status_result retcode t = (if retcode = LIBSSH2_FX_OK then (0, t) else (-1, failed_with retcode e_protocol t))"

definition simple_request ::
    "nat \<Rightarrow> 'x env \<Rightarrow> u8 \<Rightarrow> bytes \<Rightarrow> string \<Rightarrow> string \<Rightarrow> 'x sftp \<Rightarrow> (int \<times> 'x sftp) run" where
  "simple_request fuel env packet_type body e_alloc e_send t =
     sbind (request_status fuel env packet_type body e_alloc e_send t) (\<lambda>(r, t).
     case r of None \<Rightarrow> Inr (-1, t) | Some retcode \<Rightarrow> Inr (status_result retcode t))"

section \<open>Opening and closing\<close>

text \<open>The number of the new handle is its address; its list of handles is the one of the session, which is not changed.\<close>

definition new_handle :: "bool \<Rightarrow> bytes \<Rightarrow> 'x sftp \<Rightarrow> ((nat option) \<times> 'x sftp) run" where
  "new_handle is_file data t =
     (let (ok, t) = sftp_alloc t
      in if \<not> ok then Inr (None, sftp_error ERROR_ALLOC ''Unable to allocate new SFTP handle structure'' t)
         else
           sbind (rd32 data 5) (\<lambda>n.
           let n = (if 256 < sint n then 256 else n);
               (ok, t) = sftp_alloc t
           in if \<not> ok then Inr (None, sftp_error ERROR_ALLOC ''Unable to allocate space for SFTP file/dir handle'' t)
              else
                sbind (rdn data 9 (unat n)) (\<lambda>b.
                let h = next_handle t
                in Inr (Some h, (put_handle h \<lparr>h_bytes = b, is_dir_handle = \<not> is_file, h_next = handles t, h_offset = 0, names_left = 0,
                     names_packet = [], next_name = 0\<rparr> t)\<lparr>next_handle := h + 1\<rparr>))))"

definition libssh2_sftp_open_ex ::
    "nat \<Rightarrow> 'x env \<Rightarrow> bytes \<Rightarrow> u32 \<Rightarrow> u32 \<Rightarrow> bool \<Rightarrow> 'x sftp \<Rightarrow> (nat option \<times> 'x sftp) run" where
  "libssh2_sftp_open_ex fuel env filename open_flags mode is_file t =
     (let attrs = no_attributes\<lparr>attr_flags := LIBSSH2_SFTP_ATTR_PERMISSIONS,
            permissions := mode OR (if is_file then LIBSSH2_SFTP_ATTR_PFILETYPE_FILE else LIBSSH2_SFTP_ATTR_PFILETYPE_DIR)\<rparr>
      in sbind (request_answer fuel env (if is_file then SSH_FXP_OPEN else SSH_FXP_OPENDIR)
             (wire_string filename @ (if is_file then libssh2_htonu32 open_flags @ libssh2_sftp_attr2bin (Some attrs) else []))
             [SSH_FXP_HANDLE, SSH_FXP_STATUS]
             ''Unable to allocate memory for FXP_OPEN or FXP_OPENDIR packet'' ''Unable to send FXP_OPEN or FXP_OPENDIR command'' t) (\<lambda>(r, t).
         case r of
           None \<Rightarrow> Inr (None, t)
         | Some data \<Rightarrow>
             sbind (rd8 data 0) (\<lambda>ty.
             if ty = SSH_FXP_STATUS then sbind (rd32 data 5) (\<lambda>e. Inr (None, failed_with e ''Failed opening remote file'' t))
             else new_handle is_file data t)))"

definition handle_body :: "nat \<Rightarrow> 'x sftp \<Rightarrow> bytes" where
  "handle_body h t = wire_string (h_bytes (handle_at t h))"

text \<open>Of the links between handles only those to the next are kept.\<close>

definition libssh2_sftp_close_handle :: "nat \<Rightarrow> 'x env \<Rightarrow> nat \<Rightarrow> 'x sftp \<Rightarrow> (int \<times> 'x sftp) run" where
  "libssh2_sftp_close_handle fuel env h t =
     sbind (request_status fuel env SSH_FXP_CLOSE (handle_body h t)
         ''Unable to allocate memory for FXP_CLOSE packet'' ''Unable to send FXP_CLOSE command'' t) (\<lambda>(r, t).
     case r of
       None \<Rightarrow> Inr (-1, t)
     | Some retcode \<Rightarrow>
         if retcode \<noteq> LIBSSH2_FX_OK then Inr (-1, failed_with retcode e_protocol t)
         else Inr (0, if handles t = Some h then t\<lparr>handles := h_next (handle_at t h)\<rparr> else t))"

section \<open>Files\<close>

text \<open>The data of the answer are copied to a buffer of \<open>buffer_maxlen\<close> bytes, however many they are; \<open>None\<close> is the result -1.\<close>

definition libssh2_sftp_read :: "nat \<Rightarrow> 'x env \<Rightarrow> nat \<Rightarrow> u32 \<Rightarrow> 'x sftp \<Rightarrow> (bytes option \<times> 'x sftp) run" where
  "libssh2_sftp_read fuel env h buffer_maxlen t =
     sbind (request_answer fuel env SSH_FXP_READ
         (handle_body h t @ libssh2_htonu64 (h_offset (handle_at t h)) @ libssh2_htonu32 buffer_maxlen)
         [SSH_FXP_DATA, SSH_FXP_STATUS] ''Unable to allocate memory for FXP_CLOSE packet'' ''Unable to send FXP_READ command'' t) (\<lambda>(r, t).
     case r of
       None \<Rightarrow> Inr (None, t)
     | Some data \<Rightarrow>
         sbind (rd8 data 0) (\<lambda>ty.
         if ty = SSH_FXP_STATUS then sbind (rd32 data 5) (\<lambda>e. Inr (None, failed_with e e_protocol t))
         else if ty = SSH_FXP_DATA then
           sbind (rd32 data 5) (\<lambda>bytes_read.
           if of_nat (length data) - 9 < bytes_read then Inr (None, t)
           else
             sbind (rdn data 9 (unat bytes_read)) (\<lambda>b.
             if buffer_maxlen < bytes_read then Inl Undefined
             else
               let v = handle_at t h
               in Inr (Some b, put_handle h (v\<lparr>h_offset := h_offset v + ucast bytes_read\<rparr>) t)))
         else Inr (None, t)))"

definition libssh2_sftp_write :: "nat \<Rightarrow> 'x env \<Rightarrow> nat \<Rightarrow> bytes \<Rightarrow> 'x sftp \<Rightarrow> (int \<times> 'x sftp) run" where
  "libssh2_sftp_write fuel env h buffer t =
     sbind (request_status fuel env SSH_FXP_WRITE (handle_body h t @ libssh2_htonu64 (h_offset (handle_at t h)) @ wire_string buffer)
         ''Unable to allocate memory for FXP_WRITE packet'' ''Unable to send FXP_WRITE command'' t) (\<lambda>(r, t).
     case r of
       None \<Rightarrow> Inr (-1, t)
     | Some retcode \<Rightarrow>
         if retcode = LIBSSH2_FX_OK
         then let v = handle_at t h in Inr (int (length buffer), put_handle h (v\<lparr>h_offset := h_offset v + of_nat (length buffer)\<rparr>) t)
         else Inr (-1, failed_with retcode e_protocol t))"

text \<open>The attributes that the caller passes and, after an answer with attributes, gets.\<close>

definition attributes_answer ::
    "sftp_attributes \<Rightarrow> bytes option \<Rightarrow> 'x sftp \<Rightarrow> ((int \<times> sftp_attributes) \<times> 'x sftp) run" where
  "attributes_answer attrs r t =
     (case r of
        None \<Rightarrow> Inr ((-1, attrs), t)
      | Some data \<Rightarrow>
          sbind (rd8 data 0) (\<lambda>ty.
          if ty = SSH_FXP_STATUS
          then sbind (rd32 data 5) (\<lambda>retcode. let (rc, t) = status_result retcode t in Inr ((rc, attrs), t))
          else sbind (libssh2_sftp_bin2attr data 5) (\<lambda>(a, s). Inr ((0, a), t))))"

definition libssh2_sftp_fstat_ex ::
    "nat \<Rightarrow> 'x env \<Rightarrow> nat \<Rightarrow> sftp_attributes \<Rightarrow> bool \<Rightarrow> 'x sftp \<Rightarrow> ((int \<times> sftp_attributes) \<times> 'x sftp) run" where
  "libssh2_sftp_fstat_ex fuel env h attrs setstat t =
     sbind (request_answer fuel env (if setstat then SSH_FXP_FSETSTAT else SSH_FXP_FSTAT)
         (handle_body h t @ (if setstat then libssh2_sftp_attr2bin (Some attrs) else [])) [SSH_FXP_ATTRS, SSH_FXP_STATUS]
         ''Unable to allocate memory for FSTAT/FSETSTAT packet''
         (if setstat then ''Unable to send FXP_FSETSTAT'' else ''Unable to send FXP_FSTAT command'') t) (\<lambda>(r, t).
     attributes_answer attrs r t)"

definition libssh2_sftp_seek :: "nat \<Rightarrow> u32 \<Rightarrow> 'x sftp \<Rightarrow> 'x sftp" where
  "libssh2_sftp_seek h offs t = put_handle h ((handle_at t h)\<lparr>h_offset := ucast offs\<rparr>) t"

definition libssh2_sftp_tell :: "nat \<Rightarrow> 'x sftp \<Rightarrow> u32" where
  "libssh2_sftp_tell h t = ucast (h_offset (handle_at t h))"

section \<open>Directories\<close>

text \<open>The next name that is left of an answer: the part of it that fits the buffer, and its attributes.\<close>

definition pop_name :: "u32 \<Rightarrow> sftp_handle \<Rightarrow> ((bytes \<times> sftp_attributes) \<times> sftp_handle) run" where
  "pop_name buffer_maxlen v =
     (let p = names_packet v; s = next_name v
      in sbind (rd32 p s) (\<lambda>real_len.
         sbind (rdn p (s + 4) (unat (if buffer_maxlen < real_len then buffer_maxlen else real_len))) (\<lambda>name_bytes.
         let s = s + 4 + uint real_len
         in sbind (rd32 p s) (\<lambda>longname_len.
            sbind (libssh2_sftp_bin2attr p (s + 4 + uint longname_len)) (\<lambda>(a, s).
            Inr ((name_bytes, a), v\<lparr>next_name := s, names_left := names_left v - 1\<rparr>))))))"

text \<open>The result, the name and the attributes; the last are read only if the caller wants them and there is one name.\<close>

definition one_name :: "u32 \<Rightarrow> bool \<Rightarrow> bytes \<Rightarrow> (bytes \<times> sftp_attributes) run" where
  "one_name buffer_maxlen wanted data =
     sbind (rd32 data 9) (\<lambda>real_len.
     sbind (rdn data 13 (unat (if buffer_maxlen < real_len then buffer_maxlen else real_len))) (\<lambda>name_bytes.
     if \<not> wanted then Inr (name_bytes, no_attributes)
     else
       sbind (rd32 data (13 + uint real_len)) (\<lambda>longname_len.
       sbind (libssh2_sftp_bin2attr data (13 + uint real_len + (4 + uint longname_len))) (\<lambda>(a, s). Inr (name_bytes, a)))))"

text \<open>\<open>Inl\<close> is a return value without a name.\<close>

definition libssh2_sftp_readdir ::
    "nat \<Rightarrow> 'x env \<Rightarrow> nat \<Rightarrow> u32 \<Rightarrow> bool \<Rightarrow> 'x sftp \<Rightarrow> ((int + bytes \<times> sftp_attributes) \<times> 'x sftp) run" where
  "libssh2_sftp_readdir fuel env h buffer_maxlen wanted t =
     (let pop = (\<lambda>t. sbind (pop_name buffer_maxlen (handle_at t h)) (\<lambda>(x, v). Inr (Inr x, put_handle h v t)))
      in if names_left (handle_at t h) \<noteq> 0 then pop t
         else
           sbind (request_answer fuel env SSH_FXP_READDIR (handle_body h t) [SSH_FXP_NAME, SSH_FXP_STATUS]
               ''Unable to allocate memory for FXP_READDIR packet'' ''Unable to send FXP_READ command'' t) (\<lambda>(r, t).
           case r of
             None \<Rightarrow> Inr (Inl (-1), t)
           | Some data \<Rightarrow>
               sbind (rd8 data 0) (\<lambda>ty.
               if ty = SSH_FXP_STATUS then
                 sbind (rd32 data 5) (\<lambda>retcode.
                 if retcode = LIBSSH2_FX_EOF then Inr (Inl 0, t) else Inr (Inl (-1), failed_with retcode e_protocol t))
               else
                 sbind (rd32 data 5) (\<lambda>num_names.
                 if num_names = 0 then Inr (Inl 0, t)
                 else if num_names = 1 then sbind (one_name buffer_maxlen wanted data) (\<lambda>x. Inr (Inr x, t))
                 else pop (put_handle h ((handle_at t h)\<lparr>names_left := num_names, names_packet := data, next_name := 9\<rparr>) t)))))"

section \<open>Other requests\<close>

definition libssh2_sftp_unlink_ex :: "nat \<Rightarrow> 'x env \<Rightarrow> bytes \<Rightarrow> 'x sftp \<Rightarrow> (int \<times> 'x sftp) run" where
  "libssh2_sftp_unlink_ex fuel env filename t =
     simple_request fuel env SSH_FXP_REMOVE (wire_string filename)
       ''Unable to allocate memory for FXP_REMOVE packet'' ''Unable to send FXP_REMOVE command'' t"

definition libssh2_sftp_rename_ex :: "nat \<Rightarrow> 'x env \<Rightarrow> bytes \<Rightarrow> bytes \<Rightarrow> u32 \<Rightarrow> 'x sftp \<Rightarrow> (int \<times> 'x sftp) run" where
  "libssh2_sftp_rename_ex fuel env source dest rename_flags t =
     (if sftp_version t < 2 then Inr (-1, sftp_error ERROR_SFTP_PROTOCOL ''Server does not support RENAME'' t)
      else
        sbind (request_status fuel env SSH_FXP_RENAME
            (wire_string source @ wire_string dest @ (if 5 \<le> sftp_version t then libssh2_htonu32 rename_flags else []))
            ''Unable to allocate memory for FXP_RENAME packet'' ''Unable to send FXP_RENAME command'' t) (\<lambda>(r, t).
        case r of
          None \<Rightarrow> Inr (-1, t)
        | Some retcode \<Rightarrow>
            if retcode = LIBSSH2_FX_OK then Inr (0, t)
            else Inr (-1, failed_with retcode
              (if retcode = LIBSSH2_FX_FILE_ALREADY_EXISTS then ''File already exists and SSH_FXP_RENAME_OVERWRITE not specified''
               else if retcode = LIBSSH2_FX_OP_UNSUPPORTED then ''Operation Not Supported'' else e_protocol) t)))"

definition libssh2_sftp_mkdir_ex :: "nat \<Rightarrow> 'x env \<Rightarrow> bytes \<Rightarrow> u32 \<Rightarrow> 'x sftp \<Rightarrow> (int \<times> 'x sftp) run" where
  "libssh2_sftp_mkdir_ex fuel env path mode t =
     simple_request fuel env SSH_FXP_MKDIR
       (wire_string path @ libssh2_sftp_attr2bin (Some (no_attributes\<lparr>attr_flags := LIBSSH2_SFTP_ATTR_PERMISSIONS,
          permissions := mode OR LIBSSH2_SFTP_ATTR_PFILETYPE_DIR\<rparr>)))
       ''Unable to allocate memory for FXP_MKDIR packet'' ''Unable to send FXP_MKDIR command'' t"

definition libssh2_sftp_rmdir_ex :: "nat \<Rightarrow> 'x env \<Rightarrow> bytes \<Rightarrow> 'x sftp \<Rightarrow> (int \<times> 'x sftp) run" where
  "libssh2_sftp_rmdir_ex fuel env path t =
     simple_request fuel env SSH_FXP_RMDIR (wire_string path)
       ''Unable to allocate memory for FXP_MKDIR packet'' ''Unable to send FXP_MKDIR command'' t"

datatype stat_type = SFTP_STAT | SFTP_LSTAT | SFTP_SETSTAT

definition libssh2_sftp_stat_ex ::
    "nat \<Rightarrow> 'x env \<Rightarrow> bytes \<Rightarrow> stat_type \<Rightarrow> sftp_attributes \<Rightarrow> 'x sftp \<Rightarrow> ((int \<times> sftp_attributes) \<times> 'x sftp) run" where
  "libssh2_sftp_stat_ex fuel env path kind attrs t =
     sbind (request_answer fuel env
         (case kind of SFTP_SETSTAT \<Rightarrow> SSH_FXP_SETSTAT | SFTP_LSTAT \<Rightarrow> SSH_FXP_LSTAT | SFTP_STAT \<Rightarrow> SSH_FXP_STAT)
         (wire_string path @ (if kind = SFTP_SETSTAT then libssh2_sftp_attr2bin (Some attrs) else [])) [SSH_FXP_ATTRS, SSH_FXP_STATUS]
         ''Unable to allocate memory for FXP_MKDIR packet'' ''Unable to send STAT/LSTAT/SETSTAT command'' t) (\<lambda>(r, t).
     attributes_answer attrs r t)"

datatype link_type = SFTP_SYMLINK | SFTP_READLINK | SFTP_REALPATH

text \<open>The target is the new link or the buffer for the answer; the result has what is written to the buffer, with its NUL.\<close>

definition libssh2_sftp_symlink_ex ::
    "nat \<Rightarrow> 'x env \<Rightarrow> bytes \<Rightarrow> bytes \<Rightarrow> link_type \<Rightarrow> 'x sftp \<Rightarrow> ((int \<times> bytes) \<times> 'x sftp) run" where
  "libssh2_sftp_symlink_ex fuel env path target kind t =
     (if sftp_version t < 3 \<and> kind \<noteq> SFTP_REALPATH
      then Inr ((-1, []), sftp_error ERROR_SFTP_PROTOCOL ''Server does not support SYMLINK or READLINK'' t)
      else
        sbind (request_answer fuel env
            (case kind of SFTP_REALPATH \<Rightarrow> SSH_FXP_REALPATH | SFTP_SYMLINK \<Rightarrow> SSH_FXP_SYMLINK | SFTP_READLINK \<Rightarrow> SSH_FXP_READLINK)
            (wire_string path @ (if kind = SFTP_SYMLINK then wire_string target else [])) [SSH_FXP_NAME, SSH_FXP_STATUS]
            ''Unable to allocate memory for SYMLINK/READLINK/REALPATH packet'' ''Unable to send SYMLINK/READLINK command'' t) (\<lambda>(r, t).
        case r of
          None \<Rightarrow> Inr ((-1, []), t)
        | Some data \<Rightarrow>
            sbind (rd8 data 0) (\<lambda>ty.
            if ty = SSH_FXP_STATUS
            then sbind (rd32 data 5) (\<lambda>retcode. let (rc, t) = status_result retcode t in Inr ((rc, []), t))
            else
              sbind (rd32 data 5) (\<lambda>n.
              if n < 1 then Inr ((-1, []), sftp_error ERROR_SFTP_PROTOCOL ''Invalid READLINK/REALPATH response, no name entries'' t)
              else
                sbind (rd32 data 9) (\<lambda>link_len.
                let target_len = of_nat (length target); link_len = (if target_len \<le> link_len then target_len - 1 else link_len)
                in sbind (rdn data 13 (unat link_len)) (\<lambda>b. Inr ((sint link_len, b @ [0]), t)))))))"

definition libssh2_sftp_last_error :: "'x sftp \<Rightarrow> u32" where
  "libssh2_sftp_last_error t = last_errno t"

section \<open>Start and end\<close>

text \<open>The handles of the list are closed; a close that fails is tried again.\<close>

fun libssh2_sftp_dtor :: "nat \<Rightarrow> nat \<Rightarrow> 'x env \<Rightarrow> 'x sftp \<Rightarrow> 'x sftp run" where
  "libssh2_sftp_dtor 0 fuel env t = Inl Never_Returns"
| "libssh2_sftp_dtor (Suc rounds) fuel env t =
     (case handles t of
        None \<Rightarrow> Inr t
      | Some h \<Rightarrow> sbind (libssh2_sftp_close_handle fuel env h t) (\<lambda>(rc, t). libssh2_sftp_dtor rounds fuel env t))"

lemma two_lengths: "- uint (a :: u32) - 8 < uint (b :: u32)"
  using uint_ge_0[of a] uint_ge_0[of b] by linarith

function skip_extensions :: "bytes \<Rightarrow> int \<Rightarrow> unit run" where
  "skip_extensions data s =
     (if int (length data) \<le> s then Inr ()
      else
        case rd32 data s of
          Inl e \<Rightarrow> Inl e
        | Inr extname_len \<Rightarrow>
            (case rd32 data (s + 4 + uint extname_len) of
               Inl e \<Rightarrow> Inl e
             | Inr extdata_len \<Rightarrow> skip_extensions data (s + 4 + uint extname_len + 4 + uint extdata_len)))"
  by pat_completeness auto
termination
  by (relation "measure (\<lambda>(data, s). nat (int (length data) - s))") (auto simp: two_lengths)

definition null_sftp :: "nat \<Rightarrow> 'x session \<Rightarrow> 'x sftp" where
  "null_sftp r s = \<lparr>ses = s, sftp_channel = r, request_id = 0, sftp_version = 0, brigade = [], handles = None,
     handle_at = (\<lambda>_. \<lparr>h_bytes = [], is_dir_handle = False, h_next = None, h_offset = 0, names_left = 0, names_packet = [], next_name = 0\<rparr>),
     next_handle = 0, last_errno = 0\<rparr>"

definition drop_channel :: "nat \<Rightarrow> 'x env \<Rightarrow> 'x sftp \<Rightarrow> ('x sftp option \<times> 'x session) run" where
  "drop_channel fuel env t = give_up fuel env (sftp_channel t) (ses t)"

definition sftp_handshake :: "nat \<Rightarrow> 'x env \<Rightarrow> 'x sftp \<Rightarrow> ('x sftp option \<times> 'x session) run" where
  "sftp_handshake fuel env t =
     sbind (on_ses (libssh2_channel_write fuel env (sftp_channel t)
         (libssh2_htonu32 5 @ SSH_FXP_INIT # libssh2_htonu32 LIBSSH2_SFTP_VERSION)) t) (\<lambda>(rc, t).
     if rc \<noteq> 9 then drop_channel fuel env (sftp_error ERROR_SOCKET_SEND ''Unable to send SSH_FXP_INIT'' t)
     else
       sbind (libssh2_sftp_packet_require fuel env SSH_FXP_VERSION 0 t) (\<lambda>(r, t).
       case r of
         None \<Rightarrow> drop_channel fuel env (sftp_error ERROR_SOCKET_TIMEOUT ''Timeout waiting for response from SFTP subsystem'' t)
       | Some data \<Rightarrow>
           if length data < 5 then drop_channel fuel env (sftp_error ERROR_SFTP_PROTOCOL ''Invalid SSH_FXP_VERSION response'' t)
           else
             sbind (rd32 data 1) (\<lambda>v.
             sbind (skip_extensions data 5) (\<lambda>_.
             Inr (Some (t\<lparr>sftp_version := (if LIBSSH2_SFTP_VERSION < v then LIBSSH2_SFTP_VERSION else v),
                           ses := upd_chan (sftp_channel t) (\<lambda>c. c\<lparr>close_cb := True\<rparr>) (ses t)\<rparr>), ses t)))))"

text \<open>The session is the second component if the result is NULL, and part of the first if it is not.\<close>

definition libssh2_sftp_init :: "nat \<Rightarrow> 'x env \<Rightarrow> 'x session \<Rightarrow> ('x sftp option \<times> 'x session) run" where
  "libssh2_sftp_init fuel env s =
     sbind (libssh2_channel_open_session fuel env s) (\<lambda>(c, s).
     case c of
       None \<Rightarrow> Inr (None, libssh2_error ERROR_CHANNEL_FAILURE ''Unable to startup channel'' s)
     | Some r \<Rightarrow>
         sbind (libssh2_channel_process_startup fuel env r (ascii ''subsystem'') (Some (ascii ''sftp'')) s) (\<lambda>(rc, s).
         if rc \<noteq> 0 then give_up fuel env r (libssh2_error ERROR_CHANNEL_FAILURE ''Unable to request SFTP subsystem'' s)
         else
           sbind (libssh2_channel_handle_extended_data env r EXTENDED_DATA_IGNORE (libssh2_channel_set_blocking r True s)) (\<lambda>s.
           let (ok, s) = libssh2_alloc s
           in if \<not> ok then give_up fuel env r (libssh2_error ERROR_ALLOC ''Unable to allocate a new SFTP structure'' s)
              else sftp_handshake fuel env (null_sftp r s))))"

definition libssh2_sftp_shutdown :: "nat \<Rightarrow> 'x env \<Rightarrow> 'x sftp \<Rightarrow> (int \<times> 'x session) run" where
  "libssh2_sftp_shutdown fuel env t = libssh2_channel_free fuel env (sftp_channel t) (ses t)"

section \<open>Attributes are read back\<close>

text \<open>What is left of attributes on their way: the fields that are there, and of the size the low 32 bits.\<close>

definition sent_attributes :: "sftp_attributes \<Rightarrow> sftp_attributes" where
  "sent_attributes a = \<lparr>attr_flags = attr_flags a AND 15,
     filesize = (if has_attr 1 a then take_bit 32 (filesize a) else 0),
     attr_uid = (if has_attr 2 a then attr_uid a else 0), attr_gid = (if has_attr 2 a then attr_gid a else 0),
     permissions = (if has_attr 4 a then permissions a else 0),
     attr_atime = (if has_attr 8 a then attr_atime a else 0), attr_mtime = (if has_attr 8 a then attr_mtime a else 0)\<rparr>"

lemma masked_attr:
  assumes "k \<in> {1, 2, 4, 8}"
  shows "has_attr k (no_attributes\<lparr>attr_flags := attr_flags a AND 15\<rparr>) = has_attr k a"
proof -
  have "(15 :: u32) AND k = k" using assms by auto
  then show ?thesis by (simp add: has_attr_def and.assoc)
qed

lemma read_pair_at:
  "s = int (length pre) \<Longrightarrow> read_pair b (pre @ (if b then libssh2_htonu32 x @ libssh2_htonu32 y else []) @ post) s
     = Inr (if b then x else 0, if b then y else 0, s + (if b then 8 else 0))"
  using rd32_at[of s pre x "libssh2_htonu32 y @ post"] rd32_at[of "s + 4" "pre @ libssh2_htonu32 x" y post]
  by (simp add: read_pair_def)

lemma htonu64_length [simp]: "length (libssh2_htonu64 x) = 8"
  by (simp add: libssh2_htonu64_def Let_def)

lemma rdn_at: "s = int (length pre) \<Longrightarrow> n = length b \<Longrightarrow> rdn (pre @ b @ post) s n = Inr b"
  by (simp add: rdn_def)

lemma rdn_take: "k \<le> length b \<Longrightarrow> s = int (length pre) \<Longrightarrow> rdn (pre @ b @ post) s k = Inr (take k b)"
  by (simp add: rdn_def)

lemma bin2attr_at:
  assumes "s = int (length pre)"
  shows "libssh2_sftp_bin2attr (pre @ libssh2_sftp_attr2bin (Some a) @ post) s
    = Inr (sent_attributes a, int (length (pre @ libssh2_sftp_attr2bin (Some a))))"
proof -
  let ?f = "libssh2_htonu32 (attr_flags a AND 15)"
  let ?z = "if has_attr 1 a then libssh2_htonu64 (filesize a) else []"
  let ?i = "if has_attr 2 a then libssh2_htonu32 (attr_uid a) @ libssh2_htonu32 (attr_gid a) else []"
  let ?p = "if has_attr 4 a then libssh2_htonu32 (permissions a) else []"
  let ?m = "if has_attr 8 a then libssh2_htonu32 (attr_atime a) @ libssh2_htonu32 (attr_mtime a) else []"
  have b: "libssh2_sftp_attr2bin (Some a) = ?f @ ?z @ ?i @ ?p @ ?m" by (simp add: libssh2_sftp_attr2bin_def)
  have f: "rd32 (pre @ ?f @ ?z @ ?i @ ?p @ ?m @ post) s = Inr (attr_flags a AND 15)"
    using rd32_at[OF assms] by blast
  have z: "(if has_attr 1 a then sbind (rdn (pre @ ?f @ ?z @ ?i @ ?p @ ?m @ post) (s + 4) 8) (\<lambda>b. Inr (libssh2_ntohu64 b, s + 4 + 8)) else Inr (0, s + 4))
    = Inr (if has_attr 1 a then take_bit 32 (filesize a) else 0, int (length (pre @ ?f @ ?z)))"
    using rdn_at[of "s + 4" "pre @ ?f" 8 "libssh2_htonu64 (filesize a)" "?i @ ?p @ ?m @ post"] by (simp add: assms ntohu64_loses_high_word)
  have i: "read_pair (has_attr 2 a) (pre @ ?f @ ?z @ ?i @ ?p @ ?m @ post) (int (length (pre @ ?f @ ?z)))
    = Inr (if has_attr 2 a then attr_uid a else 0, if has_attr 2 a then attr_gid a else 0, int (length (pre @ ?f @ ?z @ ?i)))"
    using read_pair_at[OF refl, of "has_attr 2 a" "pre @ ?f @ ?z" "attr_uid a" "attr_gid a" "?p @ ?m @ post"] by simp
  have p: "(if has_attr 4 a then sbind (rd32 (pre @ ?f @ ?z @ ?i @ ?p @ ?m @ post) (int (length (pre @ ?f @ ?z @ ?i)))) (\<lambda>v. Inr (v, int (length (pre @ ?f @ ?z @ ?i)) + 4)) else Inr (0, int (length (pre @ ?f @ ?z @ ?i))))
    = Inr (if has_attr 4 a then permissions a else 0, int (length (pre @ ?f @ ?z @ ?i @ ?p)))"
    using rd32_at[OF refl, of "pre @ ?f @ ?z @ ?i" "permissions a" "?m @ post"] by simp
  have m: "read_pair (has_attr 8 a) (pre @ ?f @ ?z @ ?i @ ?p @ ?m @ post) (int (length (pre @ ?f @ ?z @ ?i @ ?p)))
    = Inr (if has_attr 8 a then attr_atime a else 0, if has_attr 8 a then attr_mtime a else 0, int (length (pre @ ?f @ ?z @ ?i @ ?p @ ?m)))"
    using read_pair_at[OF refl, of "has_attr 8 a" "pre @ ?f @ ?z @ ?i @ ?p" "attr_atime a" "attr_mtime a" post] by simp
  show ?thesis
    unfolding b append.assoc libssh2_sftp_bin2attr_def f
    by (simp only: sbind_simps(2) Let_def masked_attr insert_iff simp_thms z i p m prod.case)
      (simp add: sent_attributes_def no_attributes_def)
qed

lemma attr2bin_length: "length (libssh2_sftp_attr2bin attrs) = libssh2_sftp_attrsize attrs"
  by (simp add: libssh2_sftp_attr2bin_def libssh2_sftp_attrsize_def split: option.split)

section \<open>Names are read back\<close>

text \<open>An answer to a request for names, as a server writes it.\<close>

definition name_entry :: "bytes \<times> bytes \<times> sftp_attributes \<Rightarrow> bytes" where
  "name_entry e = (case e of (nm, longname, a) \<Rightarrow> wire_string nm @ wire_string longname @ libssh2_sftp_attr2bin (Some a))"

definition name_packet :: "u32 \<Rightarrow> (bytes \<times> bytes \<times> sftp_attributes) list \<Rightarrow> bytes" where
  "name_packet rid es = SSH_FXP_NAME # libssh2_htonu32 rid @ libssh2_htonu32 (of_nat (length es)) @ concat (map name_entry es)"

definition short_names :: "(bytes \<times> bytes \<times> sftp_attributes) list \<Rightarrow> bool" where
  "short_names es \<longleftrightarrow> list_all (\<lambda>(nm, longname, a). length nm < 2 ^ 32 \<and> length longname < 2 ^ 32) es"

definition given_name :: "u32 \<Rightarrow> bytes \<times> bytes \<times> sftp_attributes \<Rightarrow> bytes \<times> sftp_attributes" where
  "given_name buffer_maxlen e = (case e of (nm, longname, a) \<Rightarrow> (take (unat buffer_maxlen) nm, sent_attributes a))"

fun read_names :: "nat \<Rightarrow> nat \<Rightarrow> 'x env \<Rightarrow> nat \<Rightarrow> u32 \<Rightarrow> 'x sftp \<Rightarrow> ((bytes \<times> sftp_attributes) list \<times> 'x sftp) run" where
  "read_names 0 fuel env h buffer_maxlen t = Inr ([], t)"
| "read_names (Suc n) fuel env h buffer_maxlen t =
     sbind (libssh2_sftp_readdir fuel env h buffer_maxlen True t) (\<lambda>(r, t).
     case r of
       Inl rc \<Rightarrow> Inl Undefined
     | Inr x \<Rightarrow> sbind (read_names n fuel env h buffer_maxlen t) (\<lambda>(xs, t). Inr (x # xs, t)))"

lemma pop_name_at:
  assumes "next_name v = int (length pre)" and "names_packet v = pre @ name_entry (nm, longname, a) @ post"
    and "length nm < 2 ^ 32" and "length longname < 2 ^ 32"
  shows "pop_name m v = Inr (given_name m (nm, longname, a),
    v\<lparr>next_name := int (length (pre @ name_entry (nm, longname, a))), names_left := names_left v - 1\<rparr>)"
proof -
  let ?b = "wire_string longname @ libssh2_sftp_attr2bin (Some a) @ post"
  have l: "uint (of_nat (length nm) :: u32) = int (length nm)" "uint (of_nat (length longname) :: u32) = int (length longname)"
    using assms(3,4) by (simp_all add: uint_nat unat_of_nat)
  have p: "names_packet v = pre @ libssh2_htonu32 (of_nat (length nm)) @ nm @ ?b"
    by (simp add: assms(2) name_entry_def wire_string_def)
  let ?k = "unat (if m < of_nat (length nm) then m else of_nat (length nm) :: u32)"
  have k: "take ?k nm = take (unat m) nm" "?k \<le> length nm"
    using assms(3) by (auto simp: word_less_nat_alt unat_of_nat)
  have n: "rdn (pre @ libssh2_htonu32 (of_nat (length nm)) @ nm @ ?b) (int (length pre) + 4) ?k = Inr (take (unat m) nm)"
    using rdn_take[OF k(2), of "int (length pre) + 4" "pre @ libssh2_htonu32 (of_nat (length nm))" ?b] by (simp only: k(1) append.assoc, simp)
  have r1: "rd32 (pre @ libssh2_htonu32 (of_nat (length nm)) @ nm @ ?b) (int (length pre)) = Inr (of_nat (length nm))"
    by (rule rd32_at) simp
  have r2: "rd32 (pre @ libssh2_htonu32 (of_nat (length nm)) @ nm @ ?b) (int (length pre) + 4 + int (length nm)) = Inr (of_nat (length longname))"
    using rd32_at[of "int (length pre) + 4 + int (length nm)" "pre @ libssh2_htonu32 (of_nat (length nm)) @ nm" "of_nat (length longname)"
        "longname @ libssh2_sftp_attr2bin (Some a) @ post"] by (simp add: wire_string_def)
  have at: "libssh2_sftp_bin2attr (pre @ libssh2_htonu32 (of_nat (length nm)) @ nm @ ?b) (int (length pre) + 4 + int (length nm) + 4 + int (length longname))
      = Inr (sent_attributes a, int (length (pre @ name_entry (nm, longname, a))))"
    using bin2attr_at[of "int (length pre) + 4 + int (length nm) + 4 + int (length longname)" "pre @ wire_string nm @ wire_string longname" a post]
    by (simp add: wire_string_def name_entry_def)
  show ?thesis
    unfolding pop_name_def Let_def assms(1) p r1 sbind_simps(2) n l r2 at prod.case by (simp add: given_name_def)
qed

lemma read_names_left:
  assumes "names_left (handle_at t h) = of_nat (length es)" "length es < 2 ^ 32" "short_names es"
    and "next_name (handle_at t h) = int (length pre)" "names_packet (handle_at t h) = pre @ concat (map name_entry es)"
  shows "\<exists>t'. read_names (length es) fuel env h m t = Inr (map (given_name m) es, t') \<and> names_left (handle_at t' h) = 0"
  using assms
proof (induction es arbitrary: t pre)
  case (Cons e es)
  obtain nm longname a where e: "e = (nm, longname, a)" by (cases e)
  have left: "names_left (handle_at t h) \<noteq> 0"
    using Cons.prems(1,2) by (simp add: word_unat_eq_iff unat_of_nat del: of_nat_Suc)
  let ?v = "(handle_at t h)\<lparr>next_name := int (length (pre @ name_entry e)), names_left := of_nat (length es)\<rparr>"
  have "pop_name m (handle_at t h) = Inr (given_name m e, ?v)"
    using pop_name_at[OF Cons.prems(4), of nm longname a "concat (map name_entry es)" m] Cons.prems(1,3,5)
    by (simp add: e short_names_def)
  then have r: "libssh2_sftp_readdir fuel env h m True t = Inr (Inr (given_name m e), put_handle h ?v t)"
    using left by (simp add: libssh2_sftp_readdir_def)
  have "\<exists>t'. read_names (length es) fuel env h m (put_handle h ?v t) = Inr (map (given_name m) es, t') \<and> names_left (handle_at t' h) = 0"
    using Cons.prems(2,3,5) by (intro Cons.IH[of _ "pre @ name_entry e"]) (auto simp: put_handle_def short_names_def)
  then show ?case by (auto simp: r)
qed simp

section \<open>Answers and their numbers\<close>

text \<open>A packet as it comes for a request whose number is less than \<open>2 ^ 24\<close>: the byte behind its type is 0.\<close>

definition early_answer :: "bytes \<Rightarrow> bool" where
  "early_answer p \<longleftrightarrow> 2 \<le> length p \<and> p ! 0 \<noteq> 0 \<and> p ! 1 = 0"

fun remove_first :: "('b \<Rightarrow> bool) \<Rightarrow> 'b list \<Rightarrow> 'b list" where
  "remove_first P [] = []"
| "remove_first P (x # xs) = (if P x then xs else x # remove_first P xs)"

lemma early_match: "early_answer p \<Longrightarrow> strncmp_mem p (ty # 0 # m) = Inr (hd p = ty)"
proof -
  assume e: "early_answer p"
  then obtain a r where "p = a # 0 # r" "a \<noteq> 0" by (cases p; cases "tl p") (auto simp: early_answer_def)
  then show ?thesis by auto
qed

lemma take_match_early:
  "list_all early_answer ps \<Longrightarrow> take_match (ty # 0 # m) ps = Inr (find (\<lambda>p. hd p = ty) ps, remove_first (\<lambda>p. hd p = ty) ps)"
  by (induction ps) (auto simp: early_match)

lemma early_number: "rid < 2 ^ 24 \<Longrightarrow> \<exists>m. libssh2_htonu32 rid = 0 # m"
proof -
  assume "rid < 2 ^ 24"
  then have "unat rid < 2 ^ 24" by (simp add: word_less_nat_alt)
  moreover have "unat (drop_bit 24 rid) = drop_bit 24 (unat rid)" by (rule unat_drop_bit_eq)
  moreover have "drop_bit 24 (unat rid) = unat rid div 2 ^ 24" by (rule drop_bit_eq_div)
  ultimately have "unat (drop_bit 24 rid) = 0" by simp
  then have "drop_bit 24 rid = 0" by (simp add: unat_eq_0)
  then show ?thesis by (simp add: libssh2_htonu32_def)
qed

section \<open>The list of handles\<close>

lemma sftp_alloc_handles: "sftp_alloc t = (ok, t') \<Longrightarrow> handles t' = handles t"
  by (auto simp: sftp_alloc_def split: prod.splits)

lemma on_ses_handles: "on_ses f t = Inr (r, t') \<Longrightarrow> handles t' = handles t"
  by (auto simp: on_ses_def sbind_eq_Inr)

lemma sftp_error_handles [simp]: "handles (sftp_error c m t) = handles t" "handles (failed_with e m t) = handles t"
  by (simp_all add: sftp_error_def failed_with_def)

lemma channel_read_handles: "sftp_channel_read fuel env b n t = Inr (r, t') \<Longrightarrow> handles t' = handles t"
  by (drule on_ses_handles[OF trans[OF sftp_channel_read_def[symmetric]]]) simp

lemma read_length_handles: "read_length fuel env b t = Inr (r, t') \<Longrightarrow> handles t' = handles t"
  by (auto simp: read_length_def sbind_eq_Inr split: if_split_asm dest!: channel_read_handles)

lemma packet_body_handles: "read_packet_body rounds fuel env n got t = Inr (r, t') \<Longrightarrow> handles t' = handles t"
proof (induction rounds arbitrary: got t)
  case (Suc rounds)
  then show ?case by (auto simp: sbind_eq_Inr split: if_split_asm dest!: channel_read_handles dest: Suc.IH)
qed simp

lemma packet_add_handles [simp]: "handles (snd (libssh2_sftp_packet_add d t)) = handles t"
  by (auto simp: libssh2_sftp_packet_add_def split: prod.splits dest!: sftp_alloc_handles)

lemma packet_read_handles:
  assumes "libssh2_sftp_packet_read fuel env b t = Inr (r, t')"
  shows "handles t' = handles t"
proof -
  obtain l v where l: "read_length fuel env b t = Inr (l, v)"
    using assms by (auto simp: libssh2_sftp_packet_read_def sbind_eq_Inr)
  obtain ok w where a: "sftp_alloc v = (ok, w)" by fastforce
  have "handles t' = handles v"
  proof (cases l)
    case Inl
    with assms l show ?thesis by (simp add: libssh2_sftp_packet_read_def)
  next
    case (Inr n)
    with assms l a sftp_alloc_handles[OF a] show ?thesis
      by (auto simp: libssh2_sftp_packet_read_def sbind_eq_Inr Let_def case_prod_unfold split: if_split_asm
          dest!: packet_body_handles)
  qed
  with read_length_handles[OF l] show ?thesis by simp
qed

lemma packet_ask_handles: "libssh2_sftp_packet_ask fuel env ty rid poll t = Inr (r, t') \<Longrightarrow> handles t' = handles t"
  by (auto simp: libssh2_sftp_packet_ask_def sbind_eq_Inr split: if_split_asm dest!: packet_read_handles)

lemma ask_any_handles: "ask_any fuel env vs rid t = Inr (r, t') \<Longrightarrow> handles t' = handles t"
  by (induction vs arbitrary: t) (auto simp: sbind_eq_Inr split: if_split_asm dest!: packet_ask_handles)

lemma flush_handles: "flush_packets rounds fuel env t = Inr t' \<Longrightarrow> handles t' = handles t"
proof (induction rounds arbitrary: t)
  case (Suc rounds)
  then show ?case by (auto simp: sbind_eq_Inr split: if_split_asm dest!: packet_read_handles dest: Suc.IH)
qed simp

lemma requirev_loop_handles: "sftp_requirev_loop rounds fuel env vs rid t = Inr (r, t') \<Longrightarrow> handles t' = handles t"
proof (induction rounds arbitrary: t)
  case (Suc rounds)
  then show ?case by (auto simp: sbind_eq_Inr split: if_split_asm dest!: packet_read_handles ask_any_handles dest: Suc.IH)
qed simp

lemma send_request_handles: "send_request fuel env ty body ea es t = Inr (r, t') \<Longrightarrow> handles t' = handles t"
  by (auto simp: send_request_def sbind_eq_Inr Let_def split: if_split_asm prod.split_asm dest!: sftp_alloc_handles on_ses_handles)

lemma request_answer_handles: "request_answer fuel env ty body vs ea es t = Inr (r, t') \<Longrightarrow> handles t' = handles t"
  by (auto simp: request_answer_def libssh2_sftp_packet_requirev_def sbind_eq_Inr split: option.split_asm if_split_asm
      dest!: send_request_handles flush_handles requirev_loop_handles)

lemma new_handle_handles: "new_handle f d t = Inr (r, t') \<Longrightarrow> handles t' = handles t"
  by (auto simp: new_handle_def sbind_eq_Inr Let_def put_handle_def split: if_split_asm prod.split_asm dest!: sftp_alloc_handles)

lemma open_handles: "libssh2_sftp_open_ex fuel env fn fl mode f t = Inr (r, t') \<Longrightarrow> handles t' = handles t"
  by (auto simp: libssh2_sftp_open_ex_def sbind_eq_Inr Let_def split: option.split_asm if_split_asm
      dest!: request_answer_handles new_handle_handles)

section \<open>A connection that is lost\<close>

lemma dead_read:
  assumes "sock_state s = SOCKET_DISCONNECTED" "packets s = []"
  shows "libssh2_channel_read fuel env r n s = Inl Never_Returns
    \<or> (\<exists>s'. libssh2_channel_read fuel env r n s = Inr ([], s') \<and> sock_state s' = SOCKET_DISCONNECTED \<and> packets s' = [])"
proof -
  have pump: "pump (Suc fuel) env b s = Inr s" for fuel b using assms(1) by (simp add: libssh2_packet_read_def)
  have "read_loop fuel env r 0 n b s = Inl Never_Returns \<or> read_loop fuel env r 0 n b s = Inr ([], s)" for b
  proof (induction fuel arbitrary: b)
    case (Suc fuel)
    have e: "s\<lparr>packets := []\<rparr> = s" using assms(2) by (cases s) simp
    show ?case using Suc.IH[of True] assms(2) by (simp add: pump e Let_def del: pump.simps)
  qed simp
  from this[of False] show ?thesis
    using assms by (auto simp: libssh2_channel_read_def libssh2_channel_read_ex_def libssh2_error_def)
qed

lemma dead_packet_body:
  assumes "sock_state (ses t) = SOCKET_DISCONNECTED" "packets (ses t) = []" "of_nat (length got) < packet_len"
  shows "read_packet_body rounds fuel env packet_len got t = Inl Never_Returns"
  using assms
proof (induction rounds arbitrary: t)
  case (Suc rounds)
  let ?s = "libssh2_channel_set_blocking (sftp_channel t) True (ses t)"
  have "sock_state ?s = SOCKET_DISCONNECTED" "packets ?s = []"
    using Suc.prems by (simp_all add: libssh2_channel_set_blocking_def upd_chan_def)
  from dead_read[OF this, of fuel env "sftp_channel t" "packet_len - of_nat (length got)"] Suc.IH Suc.prems(3)
  show ?case by (auto simp: sftp_channel_read_def on_ses_def not_le)
qed simp

section \<open>Properties\<close>



text \<open>(C40) While the numbers of requests are less than \<open>2 ^ 24\<close>, a packet is asked for by its type only: \<^verbatim>\<open>strncmp\<close> stops at the
  first byte of the number, so the oldest packet of the type is taken for the answer, whichever request it answers.\<close>

theorem answer_number_ignored:
  assumes "rid < 2 ^ 24" and "packet_type \<noteq> SSH_FXP_VERSION" and "list_all early_answer (brigade t)"
  shows "libssh2_sftp_packet_ask fuel env packet_type rid False t
    = Inr (find (\<lambda>p. hd p = packet_type) (brigade t), t\<lparr>brigade := remove_first (\<lambda>p. hd p = packet_type) (brigade t)\<rparr>)"
proof -
  obtain m where "match_buf packet_type rid = packet_type # 0 # m"
    using early_number[OF assms(1)] assms(2) by (auto simp: match_buf_def)
  then show ?thesis by (simp add: libssh2_sftp_packet_ask_def take_match_early[OF assms(3)])
qed

text \<open>A handle that is opened is not put into the list of handles of the session: when the channel is closed, the destructor
  finds the list as it was, and empty if no handle was in it, and closes nothing.\<close>

theorem opened_handle_unlisted:
  assumes "libssh2_sftp_open_ex fuel env filename open_flags mode is_file t = Inr (Some h, t')" and "handles t = None"
  shows "handles t' = None \<and> libssh2_sftp_dtor (Suc rounds) fuel env t' = Inr t'"
  using open_handles[OF assms(1)] assms(2) by simp

text \<open>If the connection is lost in the middle of a packet, the function that reads the packet never returns.\<close>

theorem lost_connection_hangs:
  assumes "read_length fuel env should_block t = Inr (Inr packet_len, t1)" and "0 < packet_len" and "packet_len \<le> LIBSSH2_SFTP_PACKET_MAXLEN"
    and "sock_state (ses t1) = SOCKET_DISCONNECTED" and "packets (ses t1) = []" and "alloc_ok (ses t1) = []"
  shows "libssh2_sftp_packet_read fuel env should_block t = Inl Never_Returns"
proof -
  have "t1\<lparr>ses := ses t1\<rparr> = t1" by (cases t1) simp
  then have "sftp_alloc t1 = (True, t1)" by (simp add: sftp_alloc_def libssh2_alloc_def assms(6))
  then show ?thesis
    using assms(2,3) dead_packet_body[OF assms(4,5), of "[]" packet_len fuel fuel env]
    by (simp add: libssh2_sftp_packet_read_def assms(1) not_less)
qed

text \<open>A server that answers a read with more bytes than were asked for writes behind the buffer of the caller.\<close>

theorem long_answer_overflows:
  assumes "request_answer fuel env SSH_FXP_READ
        (handle_body h t @ libssh2_htonu64 (h_offset (handle_at t h)) @ libssh2_htonu32 buffer_maxlen)
        [SSH_FXP_DATA, SSH_FXP_STATUS] ''Unable to allocate memory for FXP_CLOSE packet'' ''Unable to send FXP_READ command'' t
      = Inr (Some (SSH_FXP_DATA # libssh2_htonu32 rid @ wire_string content), t1)"
    and "unat buffer_maxlen < length content" and "length content < 2 ^ 31"
  shows "libssh2_sftp_read fuel env h buffer_maxlen t = Inl Undefined"
proof -
  let ?data = "SSH_FXP_DATA # libssh2_htonu32 rid @ wire_string content"
  have "rd32 ?data 5 = Inr (of_nat (length content))" "rd8 ?data 0 = Inr SSH_FXP_DATA"
    using rd32_at[of 5 "SSH_FXP_DATA # libssh2_htonu32 rid" "of_nat (length content)" content] by (simp_all add: wire_string_def rd8_def)
  moreover have "length ?data = 9 + length content" by (simp add: wire_string_def)
  then have "(of_nat (length ?data) :: u32) - 9 = of_nat (length content)" by (simp only: of_nat_add) simp
  moreover have "unat (of_nat (length content) :: u32) = length content" using assms(3) by (simp add: unat_of_nat)
  ultimately show ?thesis
    using assms(2) by (simp add: libssh2_sftp_read_def assms(1) rdn_def word_less_nat_alt split: if_split)
qed

section \<open>Witnesses\<close>

text \<open>A channel on which each of some texts has come as a packet of data.\<close>

definition example_sftp :: "bytes list \<Rightarrow> unit handle sftp" where
  "example_sftp ds = null_sftp 0 ((null_session (replicate 9 (Recv_Data [])))\<lparr>channels := [0], next_ref := 1,
     chan := (\<lambda>_. example_channel)(0 := example_channel\<lparr>ch_local := (ch_local example_channel)\<lparr>window_size := 64, packet_size := 64\<rparr>\<rparr>),
     packets := map (\<lambda>d. queued_packet (SSH_MSG_CHANNEL_DATA # [0, 0, 0, 0, 0, 0, 0, of_nat (length d)] @ d)\<lparr>pk_head := 9\<rparr>) ds\<rparr>)"

text \<open>An answer that has been read before it is asked for.\<close>

definition example_answer :: "bytes \<Rightarrow> unit handle sftp" where
  "example_answer d = (example_sftp [])\<lparr>brigade := [d]\<rparr>"

definition example_names :: "(bytes \<times> bytes \<times> sftp_attributes) list" where
  "example_names = [([97], [108], no_attributes), ([98, 99], [], no_attributes\<lparr>attr_flags := 4, permissions := 420\<rparr>)]"

lemma case_answer:
  "(case x of Inr (r, t) \<Rightarrow> r = a \<and> P t | _ \<Rightarrow> False) \<longleftrightarrow> (\<exists>t. x = Inr (a, t) \<and> P t)"
  by (auto split: sum.splits prod.splits)


theorem answer_number_ignored_witness:
  "libssh2_sftp_packet_ask 1 null_env SSH_FXP_STATUS 7 False ((example_sftp [])\<lparr>brigade := [[101, 0, 0, 0, 3, 0, 0, 0, 0]]\<rparr>)
     = Inr (Some [101, 0, 0, 0, 3, 0, 0, 0, 0], example_sftp [])"
proof -
  have "(7 :: u32) < 2 ^ 24" by simp
  from answer_number_ignored[OF this, of SSH_FXP_STATUS "(example_sftp [])\<lparr>brigade := [[101, 0, 0, 0, 3, 0, 0, 0, 0]]\<rparr>" 1 null_env]
  show ?thesis by (simp add: early_answer_def example_sftp_def null_sftp_def)
qed

theorem opened_handle_unlisted_witness:
  "\<exists>t'. libssh2_sftp_open_ex 9 null_env [97] 1 0 True (example_answer (SSH_FXP_HANDLE # libssh2_htonu32 0 @ wire_string [5])) = Inr (Some 0, t')
     \<and> handles t' = None \<and> libssh2_sftp_dtor 1 9 null_env t' = Inr t'"
proof -
  let ?t = "example_answer (SSH_FXP_HANDLE # libssh2_htonu32 0 @ wire_string [5])"
  let ?r = "request_answer 9 null_env SSH_FXP_OPEN (wire_string [97] @ libssh2_htonu32 1
      @ libssh2_sftp_attr2bin (Some (no_attributes\<lparr>attr_flags := 4, permissions := 0x8000\<rparr>))) [SSH_FXP_HANDLE, SSH_FXP_STATUS]
      ''Unable to allocate memory for FXP_OPEN or FXP_OPENDIR packet'' ''Unable to send FXP_OPEN or FXP_OPENDIR command'' ?t"
  have "case ?r of Inr (r, t) \<Rightarrow> r = Some (SSH_FXP_HANDLE # libssh2_htonu32 0 @ wire_string [5]) \<and> alloc_ok (ses t) = [] \<and> next_handle t = 0 | _ \<Rightarrow> False"
    by code_simp
  then obtain t1 where r: "?r = Inr (Some (SSH_FXP_HANDLE # libssh2_htonu32 0 @ wire_string [5]), t1)" "alloc_ok (ses t1) = []" "next_handle t1 = 0"
    unfolding case_answer by blast
  have n: "rd8 (SSH_FXP_HANDLE # libssh2_htonu32 0 @ wire_string [5]) 0 = Inr SSH_FXP_HANDLE"
    "rd32 (SSH_FXP_HANDLE # libssh2_htonu32 0 @ wire_string [5]) 5 = Inr 1" "rdn (SSH_FXP_HANDLE # libssh2_htonu32 0 @ wire_string [5]) 9 (Suc 0) = Inr [5]"
    using rd32_at[of 5 "SSH_FXP_HANDLE # libssh2_htonu32 0" 1 "[5]"] by (simp_all add: rd8_def rdn_def wire_string_def)
  have "sftp_alloc t1 = (True, t1)" using r(2) by (simp add: sftp_alloc_def libssh2_alloc_def)
  then obtain t' where o: "libssh2_sftp_open_ex 9 null_env [97] 1 0 True ?t = Inr (Some 0, t')"
    using r(1,3) by (simp add: libssh2_sftp_open_ex_def new_handle_def n Let_def)
  have "handles ?t = None" by (simp add: example_answer_def example_sftp_def null_sftp_def)
  from opened_handle_unlisted[OF o this, of 0] o show ?thesis by simp
qed

lemma case_length:
  "(case x of Inr (r, t) \<Rightarrow> (case r of Inr n \<Rightarrow> n = k \<and> P t | _ \<Rightarrow> False) | _ \<Rightarrow> False) \<longleftrightarrow> (\<exists>t. x = Inr (Inr k, t) \<and> P t)"
  by (auto split: sum.splits prod.splits)

definition example_lost :: "unit handle sftp" where
  "example_lost = (let t = example_sftp [[0, 0, 0, 9]] in t\<lparr>ses := (ses t)\<lparr>sock_state := SOCKET_DISCONNECTED\<rparr>\<rparr>)"

theorem lost_connection_hangs_witness:
  "libssh2_sftp_packet_read 5 null_env True example_lost = Inl Never_Returns"
proof -
  have "case read_length 5 null_env True example_lost of Inr (r, t) \<Rightarrow> (case r of Inr n \<Rightarrow> n = 9 \<and>
      sock_state (ses t) = SOCKET_DISCONNECTED \<and> packets (ses t) = [] \<and> alloc_ok (ses t) = [] | _ \<Rightarrow> False) | _ \<Rightarrow> False" by code_simp
  then obtain t1 where "read_length 5 null_env True example_lost = Inr (Inr 9, t1)" "sock_state (ses t1) = SOCKET_DISCONNECTED"
    "packets (ses t1) = []" "alloc_ok (ses t1) = []" unfolding case_length by blast
  then show ?thesis by (intro lost_connection_hangs[of 5 null_env True example_lost 9 t1]) simp_all
qed

theorem long_answer_overflows_witness:
  "libssh2_sftp_read 9 null_env 0 2 (example_answer (SSH_FXP_DATA # libssh2_htonu32 0 @ wire_string [1, 2, 3])) = Inl Undefined"
proof -
  let ?t = "example_answer (SSH_FXP_DATA # libssh2_htonu32 0 @ wire_string [1, 2, 3])"
  let ?r = "request_answer 9 null_env SSH_FXP_READ
        (handle_body 0 ?t @ libssh2_htonu64 (h_offset (handle_at ?t 0)) @ libssh2_htonu32 2)
        [SSH_FXP_DATA, SSH_FXP_STATUS] ''Unable to allocate memory for FXP_CLOSE packet'' ''Unable to send FXP_READ command'' ?t"
  have "case ?r of Inr (r, t) \<Rightarrow> r = Some (SSH_FXP_DATA # libssh2_htonu32 0 @ wire_string [1, 2, 3]) \<and> True | _ \<Rightarrow> False" by code_simp
  then obtain t1 where "?r = Inr (Some (SSH_FXP_DATA # libssh2_htonu32 0 @ wire_string [1, 2, 3]), t1)" unfolding case_answer by blast
  then show ?thesis by (rule long_answer_overflows) simp_all
qed

end
