(* ===== verification/Spec2Isabelle.thy ===== *)
theory Spec2Isabelle
  imports Pandora_UDP SSH_Auth SSH_Sftp
begin

text \<open>
  A verification of the Pandora FMS agent for Windows and of the parts of libssh2 that are bundled
  with it.

  \<^bold>\<open>The program.\<close>  The agent reads a configuration file of settings, module definitions, file
  collections and names of broker agents.  In each run it executes the modules whose interval, cron
  line and preconditions allow it, collects their values in an XML report, writes the report to a
  directory and sends it to a server with Tentacle, scp, FTP or a local copy; reports that cannot be
  sent are buffered.  Before a run it may replace its configuration by the one the server keeps for
  it, and bring its file collections up to date.  For scp it uses libssh2: a transport of encrypted
  packets, and channels with flow control on top of it.

  \<^bold>\<open>The agent\<close> (exceptions and undefined behaviour are values of \<open>cxx_error\<close>, a throwing function
  returns \<open>cxx_error + 'a\<close>):

  \<^item> \<open>Pandora_Prelude\<close>: the integers of the 32-bit build (\<open>s32\<close> wraps around), the operations of
    \<^verbatim>\<open>std::string\<close>, \<^verbatim>\<open>sscanf\<close> and \<^verbatim>\<open>atoi\<close>.
  \<^item> \<open>Pandora_Strutils\<close> (\<^verbatim>\<open>pandora_strutils.cc\<close>): trimming, number conversion, replacement and splitting,
    with reference definitions for the last two.  \<^verbatim>\<open>strreplace\<close> need not return: it is a
    \<^theory_text>\<open>partial_function (option)\<close>, and that it returns is part of its theorem.
  \<^item> \<open>Pandora_Conf\<close> (\<^verbatim>\<open>pandora_agent_conf.cc\<close>, \<^verbatim>\<open>pandora.cc\<close> and the scans for broker agents): the
    configuration as the record \<open>agent_conf\<close>, read line by line; the locale \<open>line_reader\<close> is shared
    by the three readers.
  \<^item> \<open>Pandora_Module\<close>, \<open>Pandora_Report\<close> (\<^verbatim>\<open>modules/pandora_module.cc\<close>, \<^verbatim>\<open>pandora_data.cc\<close>): the record
    \<open>pandora_module\<close>, its cron line, conditions, preconditions, and its XML, which is read back by the
    reader of the locale \<open>element_reader\<close>.
  \<^item> \<open>Pandora_Kinds\<close>, \<open>Pandora_Factory\<close> (the sub-classes and \<^verbatim>\<open>pandora_module_factory.cc\<close>): the
    constructors and run methods of the modules, and how a definition becomes a module.  The locale
    \<open>module_invariant\<close> says which predicates a run keeps; it is interpreted for the invariant of the
    modules and for their schedules.
  \<^item> \<open>Pandora_Service\<close> (\<^verbatim>\<open>pandora_module_list.cc\<close> and the loop of \<^verbatim>\<open>pandora_windows_service.cc\<close>): the list
    of modules, the decision to report, and the text of a report.
  \<^item> \<open>Pandora_Files\<close> (\<^verbatim>\<open>misc/pandora_file.cc\<close>): a disk as a tree of directories and the operations on
    it; the locale \<open>file_map\<close> is what the clients use of it.
  \<^item> \<open>Pandora_Transfer\<close> (the transfers, the remote configuration and the collections of
    \<^verbatim>\<open>pandora_windows_service.cc\<close>, with \<^verbatim>\<open>pandora_ssh_client.cc\<close> and \<^verbatim>\<open>pandora_ftp_client.cc\<close>): actions
    on a machine whose other programs are the record \<open>system\<close>.
  \<^item> \<open>Pandora_Agent\<close> (the rest of \<^verbatim>\<open>pandora_windows_service.cc\<close>): header, sending and buffering of
    reports, start and run of the agent with its brokers.  The inductive predicate \<open>agent_reach\<close>
    describes the states the agent can get into.
  \<^item> \<open>Pandora_UDP\<close> (\<^verbatim>\<open>udp_server/udp_server.cc\<close>): the server that takes commands, as a loop over the
    events on its socket; \<open>permitted\<close> says what the configuration lets a command do.
  \<^item> \<open>MD5\<close> (\<^verbatim>\<open>misc/md5.c\<close>): the digest of the remote configuration, proved equal to the definition of
    RFC 1321; the locale \<open>stream_digest\<close> is its incremental interface.

  \<^bold>\<open>libssh2\<close> (a computation returns \<open>ssh_stop + 'a\<close>: it may wait for the socket for ever, which is
  running out of fuel, or leave its memory):

  \<^item> \<open>SSH_Wire\<close> (\<^verbatim>\<open>misc.c\<close>): byte order and base64; the locale \<open>wire_codec\<close>.
  \<^item> \<open>SSH_Session\<close> (\<^verbatim>\<open>libssh2_priv.h\<close> and the sending half of \<^verbatim>\<open>packet.c\<close>): the records of a session, its
    channels, queues and listeners.
  \<^item> \<open>SSH_Packet\<close>, \<open>SSH_Transport\<close> (\<^verbatim>\<open>packet.c\<close>): what each received packet does, and reading
    packets from a socket.
  \<^item> \<open>SSH_Channel\<close> (\<^verbatim>\<open>channel.c\<close>): all operations on channels; the locale \<open>byte_pipe\<close> is the queue of
    bytes a channel implements.
  \<^item> \<open>SSH_Methods\<close> (\<^verbatim>\<open>crypt.c\<close>, \<^verbatim>\<open>mac.c\<close>, \<^verbatim>\<open>comp.c\<close>, \<^verbatim>\<open>hostkey.c\<close> and the first half of \<^verbatim>\<open>kex.c\<close>): the
    tables of methods, host keys and their signatures, and the choice of methods by both sides.  What
    OpenSSL and zlib compute is the record \<open>crypto\<close>.
  \<^item> \<open>SSH_Kex\<close> (the rest of \<^verbatim>\<open>kex.c\<close>): the three Diffie-Hellman exchanges, the derivation of keys and
    their installation.  \<open>verified\<close> and \<open>keys_installed\<close> say what an exchange promises.
  \<^item> \<open>SSH_Startup\<close> (\<^verbatim>\<open>session.c\<close>): banners, start, disconnection and the freeing of a session, whose
    parts are the record \<open>startup\<close>.
  \<^item> \<open>SSH_Auth\<close> (\<^verbatim>\<open>userauth.c\<close>): authentication by password, key, host and keyboard; \<open>granted\<close> is the
    packet of the server that a login rests on.
  \<^item> \<open>SSH_Scp\<close> (\<^verbatim>\<open>scp.c\<close>): the negotiation before a file is sent or received.
  \<^item> \<open>SSH_Sftp\<close> (\<^verbatim>\<open>sftp.c\<close>): the packets, attributes and requests of the subsystem sftp, which the agent
    does not use but is linked to; the record \<open>sftp\<close> has the session of its channel.

  \<^bold>\<open>What is shown.\<close>  The modules of the agent satisfy their invariant in every reachable state, from
  the text of the configuration to the last report.  Configuration, module definitions, cron lines,
  reports and headers mean what they say: what is written is read back.  The remote configuration
  settles after one exchange; buffered reports are kept until they have been sent and are all sent
  once transfers succeed; removing and purging directories touch nothing else.  The packets sent by
  one end of an SSH connection are the ones the other end receives, for any cipher and MAC in step;
  a channel delivers the bytes in order; windows are accounted for.  Both sides choose the same
  methods; an exchange of keys that succeeds has verified the signature of the host key and puts the
  keys of RFC 4253 into use, with which the two ends are in step; a session starts only after that,
  and a login succeeds only if the server says so.  A banner and the line for a copied file are read
  as they were written, and so are the attributes of files and the names of directories.  The UDP server obeys nobody but the authorised address, and does nothing
  that the configuration does not allow.  Where the code does not do what
  it means to, the theorem says what it does: collections lost after a failed download, copies over
  ssh that fail unnoticed, broker agents that make the modules forget their schedules, a MAC
  comparison that stops at a zero byte, buffers too small for their text, a public key file that loses
  its last character, numbers of requests that are not compared.

  \<^bold>\<open>Fuel and bounds.\<close>  Loops over a socket take a number of rounds.  The theorems that such a loop
  returns give a sufficient number (one round for each packet, or each byte still to be sent);
  \<open>channel_write_hangs\<close> shows a case in which no number is enough, and a connection that is closed
  before its banner is another.  The dialogues in which the server asks again have a number of rounds
  of their own.  Everything else is total.

  \<^bold>\<open>Arguments of the model.\<close>  Doubles and regular expressions (\<open>clib\<close>), child processes, the registry
  of Windows, WMI, performance counters, OpenSSL's ciphers and MACs, zlib, libcurl, the clients and
  archivers the agent starts, the contents of uninitialised memory.  The theorems hold for any of
  them or state what they assume; each assumption has a witness.

  \<^bold>\<open>Not modelled.\<close>  The shell of the Windows service and its timers; the interleaving of threads
  (asynchronous modules, the UDP server and the service, the stopping of the Tentacle proxy); WMI and
  its helper library; the debugging allocator; the test programs for the transfers; of libssh2 the
  polling of sessions, the buffers of zlib, and the subsystem publickey, which the agent does not
  call.  Freeing memory and logging have no effect in the model.
\<close>

end
